(* ===== verification/Prelude.thy ===== *)
theory Prelude
  imports Main "HOL-Library.AList" "HOL-Library.Char_ord" "HOL-Library.List_Lexorder"
    "HOL-Library.Product_Lexorder" "HOL-Library.Word"
begin

text \<open>
  What the components share: the lemma collections, Rust strings as UTF-8 byte sequences with
  the character operations the server uses (\<open>chars\<close>, \<open>trim\<close>, \<open>char::is_control\<close>), concurrent
  maps (\<open>DashMap\<close>) and SQL tables as lists, and the generic facts about them.

  A Rust \<open>String\<close> is valid UTF-8; here it is the list of its bytes (an Isabelle \<open>char\<close> is one byte),
  so \<open>str::len\<close> is \<open>length\<close> and SQLite's BINARY collation is the order of the byte lists.
  A \<open>DashMap\<close> is an association list in some iteration order with distinct keys; an SQL table
  is the list of its rows in insertion order.
\<close>

declare map_of_eq_Some_iff [simp del]

named_theorems wf_intros \<open>well-formedness is kept by an operation\<close>
named_theorems frame_simps \<open>an operation leaves a part of the state alone\<close>
named_theorems acc_simps \<open>the access rules, one equation per shape of owner\<close>

type_synonym ('k, 'v) dashmap = "('k \<times> 'v) list"

text \<open>\<open>DashMap::insert\<close> and \<open>DashMap::remove\<close> are the library's \<open>AList.update\<close> and \<open>AList.delete\<close>;
  \<open>retain\<close> keeps the entries that satisfy a predicate.\<close>

abbreviation dm_keys :: "('k, 'v) dashmap \<Rightarrow> 'k list" where
  "dm_keys m \<equiv> map fst m"

abbreviation dm_insert :: "'k \<Rightarrow> 'v \<Rightarrow> ('k, 'v) dashmap \<Rightarrow> ('k, 'v) dashmap" where
  "dm_insert \<equiv> AList.update"

abbreviation dm_remove :: "'k \<Rightarrow> ('k, 'v) dashmap \<Rightarrow> ('k, 'v) dashmap" where
  "dm_remove \<equiv> AList.delete"

abbreviation dm_retain :: "('k \<Rightarrow> 'v \<Rightarrow> bool) \<Rightarrow> ('k, 'v) dashmap \<Rightarrow> ('k, 'v) dashmap" where
  "dm_retain P \<equiv> filter (\<lambda>(k, v). P k v)"

abbreviation dm_map :: "('k \<Rightarrow> 'v \<Rightarrow> 'v) \<Rightarrow> ('k, 'v) dashmap \<Rightarrow> ('k, 'v) dashmap" where
  "dm_map \<equiv> AList.map_ran"

lemma dm_lookup_insert [simp]:
  "map_of (dm_insert k v m) k' = (if k' = k then Some v else map_of m k')"
  by (simp add: update_conv')

lemma dm_lookup_remove [simp]:
  "map_of (dm_remove k m) k' = (if k' = k then None else map_of m k')"
  by (simp add: delete_conv')

lemma dm_lookup_map [simp]:
  "map_of (dm_map f m) k = map_option (f k) (map_of m k)"
  by (induction m) auto

lemma dm_lookup_retain:
  "distinct (dm_keys m) \<Longrightarrow>
   map_of (dm_retain P m) k
     = (case map_of m k of None \<Rightarrow> None | Some v \<Rightarrow> if P k v then Some v else None)"
  by (induction m) (auto split: option.splits simp: map_of_eq_None_iff dom_map_of_conv_image_fst)

lemma dm_lookup_retain_Some:
  "distinct (dm_keys m) \<Longrightarrow> map_of (dm_retain P m) k = Some v \<longleftrightarrow> map_of m k = Some v \<and> P k v"
  by (cases "map_of m k") (auto simp: dm_lookup_retain)

lemma dm_lookup_retain_key:
  "map_of (filter (\<lambda>(k, v). P k) m) k = (if P k then map_of m k else None)"
  by (induction m) auto

lemma distinct_dm_insert [wf_intros, simp]: "distinct (dm_keys m) \<Longrightarrow> distinct (dm_keys (dm_insert k v m))"
  by (rule distinct_update)

lemma distinct_dm_remove [wf_intros, simp]: "distinct (dm_keys m) \<Longrightarrow> distinct (dm_keys (dm_remove k m))"
  by (rule distinct_delete)

lemma dm_keys_map [simp]: "dm_keys (dm_map f m) = dm_keys m"
  by (induction m) auto

lemma dm_keys_retain_subset: "set (dm_keys (dm_retain P m)) \<subseteq> set (dm_keys m)"
  by auto

lemma distinct_dm_retain [wf_intros, simp]: "distinct (dm_keys m) \<Longrightarrow> distinct (dm_keys (dm_retain P m))"
  by (induction m) auto

lemma dm_keys_lookup: "k \<in> set (dm_keys m) \<longleftrightarrow> map_of m k \<noteq> None"
  by (simp add: map_of_eq_None_iff)

lemma dm_entry_lookup: "distinct (dm_keys m) \<Longrightarrow> (k, v) \<in> set m \<longleftrightarrow> map_of m k = Some v"
  by (simp add: map_of_eq_Some_iff)

lemma length_dm_remove:
  "distinct (dm_keys m) \<Longrightarrow> k \<in> set (dm_keys m) \<Longrightarrow> length (dm_remove k m) = length m - 1"
proof (induction m)
  case Nil
  then show ?case by simp
next
  case (Cons p m)
  show ?case
  proof (cases "fst p = k")
    case True
    with Cons.prems(1) have "k \<notin> fst ` set m" by simp
    then have "dm_remove k m = m" by simp
    with True show ?thesis by (simp add: AList.delete_eq case_prod_unfold)
  next
    case False
    with Cons.prems have "k \<in> set (dm_keys m)" by auto
    moreover from this have "length m \<noteq> 0" by auto
    ultimately show ?thesis using Cons False by (simp add: AList.delete_eq case_prod_unfold)
  qed
qed

subsection \<open>Tables\<close>

text \<open>A table lookup by primary key, an \<open>UPDATE ... WHERE key = k\<close> and a \<open>DELETE ... WHERE\<close>.\<close>

definition row_find :: "('r \<Rightarrow> 'k) \<Rightarrow> 'k \<Rightarrow> 'r list \<Rightarrow> 'r option" where
  "row_find key k rows = find (\<lambda>r. key r = k) rows"

definition row_update :: "('r \<Rightarrow> 'k) \<Rightarrow> 'k \<Rightarrow> ('r \<Rightarrow> 'r) \<Rightarrow> 'r list \<Rightarrow> 'r list" where
  "row_update key k f rows = map (\<lambda>r. if key r = k then f r else r) rows"

lemma row_find_Nil [simp]: "row_find key k [] = None"
  by (simp add: row_find_def)

lemma row_find_Cons [simp]:
  "row_find key k (r # rows) = (if key r = k then Some r else row_find key k rows)"
  by (simp add: row_find_def)

lemma row_find_append:
  "row_find key k (xs @ ys)
     = (case row_find key k xs of Some r \<Rightarrow> Some r | None \<Rightarrow> row_find key k ys)"
  by (induction xs) auto

lemma row_find_None [simp]: "row_find key k rows = None \<longleftrightarrow> k \<notin> key ` set rows"
  by (induction rows) auto

lemma row_find_fresh [simp]: "k \<notin> key ` set rows \<Longrightarrow> row_find key k rows = None"
  by simp

lemma row_find_SomeD: "row_find key k rows = Some r \<Longrightarrow> r \<in> set rows \<and> key r = k"
  by (induction rows) (auto split: if_splits)

lemma row_find_in_keys: "row_find key k rows = Some r \<Longrightarrow> k \<in> key ` set rows"
  by (metis option.distinct(1) row_find_fresh)

lemma row_find_unique:
  "distinct (map key rows) \<Longrightarrow> row_find key k rows = Some r \<longleftrightarrow> r \<in> set rows \<and> key r = k"
  by (induction rows) (auto dest: row_find_SomeD)

lemma row_update_keys [simp]:
  "(\<And>r. key (f r) = key r) \<Longrightarrow> map key (row_update key k f rows) = map key rows"
  by (simp add: row_update_def)

lemma row_find_update [simp]:
  "(\<And>r. key (f r) = key r) \<Longrightarrow>
   row_find key k' (row_update key k f rows)
     = (if k' = k then map_option f (row_find key k' rows) else row_find key k' rows)"
  by (induction rows) (auto simp: row_update_def)

lemma row_find_filter:
  "distinct (map key rows) \<Longrightarrow>
   row_find key k (filter P rows)
     = (case row_find key k rows of None \<Rightarrow> None | Some r \<Rightarrow> if P r then Some r else None)"
proof (induction rows)
  case (Cons r rows)
  show ?case
  proof (cases "key r = k")
    case True
    with Cons.prems have "row_find key k rows = None" by auto
    with True Cons show ?thesis by (auto split: option.splits)
  next
    case False
    with Cons show ?thesis by auto
  qed
qed simp

lemma distinct_keys_filter [wf_intros]:
  "distinct (map key rows) \<Longrightarrow> distinct (map key (filter P rows))"
  by (rule distinct_map_filter)

subsection \<open>Strings\<close>

text \<open>
  \<open>chars\<close> cuts a string into its UTF-8 sequences (a lead byte and its continuation bytes, the
  encoding of one Unicode scalar value), \<open>code_point\<close> reads a sequence.
  \<open>char::is_control\<close> is the general category Cc, \<open>char::is_whitespace\<close> (which \<open>str::trim\<close>
  uses) the property White\_Space.
\<close>

definition byte :: "char \<Rightarrow> nat" where
  "byte c = of_char c"

definition is_cont :: "char \<Rightarrow> bool" where
  "is_cont c \<longleftrightarrow> 128 \<le> byte c \<and> byte c < 192"

function chars :: "string \<Rightarrow> string list" where
  "chars [] = []"
| "chars (c # cs) = (c # takeWhile is_cont cs) # chars (dropWhile is_cont cs)"
  by pat_completeness auto
termination
  by (relation "measure length") (auto simp: length_dropWhile_le less_Suc_eq_le)

fun code_point :: "string \<Rightarrow> nat" where
  "code_point [a] = byte a"
| "code_point [a, b] = (byte a mod 32) * 64 + byte b mod 64"
| "code_point [a, b, c] = (byte a mod 16) * 4096 + (byte b mod 64) * 64 + byte c mod 64"
| "code_point [a, b, c, d] =
     (byte a mod 8) * 262144 + (byte b mod 64) * 4096 + (byte c mod 64) * 64 + byte d mod 64"
| "code_point _ = 0"

definition is_control :: "string \<Rightarrow> bool" where
  "is_control ch \<longleftrightarrow> code_point ch < 32 \<or> (127 \<le> code_point ch \<and> code_point ch < 160)"

definition is_whitespace :: "string \<Rightarrow> bool" where
  "is_whitespace ch \<longleftrightarrow>
     (let p = code_point ch in
      (9 \<le> p \<and> p \<le> 13) \<or> p = 32 \<or> p = 133 \<or> p = 160 \<or> p = 5760 \<or> (8192 \<le> p \<and> p \<le> 8202)
      \<or> p = 8232 \<or> p = 8233 \<or> p = 8239 \<or> p = 8287 \<or> p = 12288)"

definition trim_seqs :: "string list \<Rightarrow> string list" where
  "trim_seqs cs = rev (dropWhile is_whitespace (rev (dropWhile is_whitespace cs)))"

definition trim :: "string \<Rightarrow> string" where
  "trim s = concat (trim_seqs (chars s))"

text \<open>A run of UTF-8 sequences: every sequence continues with continuation bytes only, and every
  one but the first starts with a lead byte. Cutting a concatenation of such a run gives it back.\<close>

definition seq_ok :: "string \<Rightarrow> bool" where
  "seq_ok ch \<longleftrightarrow> ch \<noteq> [] \<and> list_all is_cont (tl ch)"

definition seqs_ok :: "string list \<Rightarrow> bool" where
  "seqs_ok cs \<longleftrightarrow> list_all seq_ok cs \<and> list_all (\<lambda>ch. \<not> is_cont (hd ch)) (tl cs)"

lemma concat_chars [simp]: "concat (chars s) = s"
  by (induction s rule: chars.induct) auto

lemma chars_lead: "chars s \<noteq> [] \<Longrightarrow> hd (hd (chars s)) = hd s"
  by (cases s) auto

lemma list_all_takeWhile: "list_all P (takeWhile P xs)"
  by (auto simp: list_all_iff dest: set_takeWhileD)

lemma seqs_ok_chars: "seqs_ok (chars s)"
proof (induction s rule: chars.induct)
  case 1
  then show ?case by (simp add: seqs_ok_def)
next
  case (2 c cs)
  have lead: "list_all (\<lambda>ch. \<not> is_cont (hd ch)) (chars (dropWhile is_cont cs))"
  proof (cases "dropWhile is_cont cs")
    case Nil
    then show ?thesis by (simp only: chars.simps list.pred_inject)
  next
    case (Cons d ds)
    then have "\<not> is_cont d" by (metis hd_dropWhile list.distinct(1) list.sel(1))
    with 2 Cons show ?thesis by (simp add: seqs_ok_def)
  qed
  with 2 show ?case by (simp add: seqs_ok_def seq_ok_def list_all_takeWhile)
qed

lemma takeWhile_seqs:
  "list_all is_cont ts \<Longrightarrow> list_all seq_ok cs \<Longrightarrow> list_all (\<lambda>ch. \<not> is_cont (hd ch)) cs \<Longrightarrow>
   takeWhile is_cont (ts @ concat cs) = ts \<and> dropWhile is_cont (ts @ concat cs) = concat cs"
proof (induction ts)
  case Nil
  then show ?case by (cases cs) (auto simp: seq_ok_def neq_Nil_conv)
qed auto

lemma chars_concat: "seqs_ok cs \<Longrightarrow> chars (concat cs) = cs"
proof (induction cs)
  case Nil
  then show ?case by simp
next
  case (Cons ch cs)
  from Cons.prems obtain c ts where ch: "ch = c # ts" and ts: "list_all is_cont ts"
    by (auto simp: seqs_ok_def seq_ok_def neq_Nil_conv)
  from Cons.prems have cs: "list_all seq_ok cs" "list_all (\<lambda>ch. \<not> is_cont (hd ch)) cs"
    by (auto simp: seqs_ok_def)
  then have "seqs_ok cs" by (cases cs) (auto simp: seqs_ok_def)
  with Cons.IH have "chars (concat cs) = cs" .
  with takeWhile_seqs [OF ts cs] show ?case by (simp add: ch)
qed

lemma seqs_ok_sublist:
  assumes "seqs_ok (xs @ ys @ zs)"
  shows "seqs_ok ys"
  using assms by (cases xs; cases ys) (auto simp: seqs_ok_def)

lemma dropWhile_split: "\<exists>xs. cs = xs @ dropWhile P cs"
  by (metis takeWhile_dropWhile_id)

lemma trim_seqs_split: "\<exists>xs zs. cs = xs @ trim_seqs cs @ zs"
proof -
  obtain xs where 1: "cs = xs @ dropWhile is_whitespace cs" using dropWhile_split by blast
  obtain zs where "rev (dropWhile is_whitespace cs) = zs @ rev (trim_seqs cs)"
    using dropWhile_split [of "rev (dropWhile is_whitespace cs)" is_whitespace]
    by (auto simp: trim_seqs_def)
  then have "dropWhile is_whitespace cs = trim_seqs cs @ rev zs"
    by (metis rev_append rev_rev_ident)
  with 1 show ?thesis by metis
qed

lemma chars_trim: "chars (trim s) = trim_seqs (chars s)"
  unfolding trim_def
  by (metis chars_concat seqs_ok_chars seqs_ok_sublist trim_seqs_split)

lemma trim_seqs_ends:
  "trim_seqs cs \<noteq> [] \<Longrightarrow>
   \<not> is_whitespace (hd (trim_seqs cs)) \<and> \<not> is_whitespace (last (trim_seqs cs))"
proof -
  assume ne: "trim_seqs cs \<noteq> []"
  let ?d = "dropWhile is_whitespace cs"
  have rev_ts: "rev (trim_seqs cs) = dropWhile is_whitespace (rev ?d)"
    by (simp add: trim_seqs_def)
  have last: "\<not> is_whitespace (last (trim_seqs cs))"
    using ne hd_dropWhile [of is_whitespace "rev ?d", folded rev_ts] by (simp add: hd_rev)
  have "?d \<noteq> []" using ne by (metis dropWhile.simps(1) rev.simps(1) trim_seqs_def)
  moreover obtain zs where "?d = trim_seqs cs @ zs"
    using dropWhile_split [of "rev ?d" is_whitespace]
    by (metis rev_append rev_rev_ident trim_seqs_def)
  ultimately have "\<not> is_whitespace (hd (trim_seqs cs))"
    using ne by (metis hd_append hd_dropWhile)
  with last show ?thesis by simp
qed

lemma trim_seqs_id:
  "cs = [] \<or> (\<not> is_whitespace (hd cs) \<and> \<not> is_whitespace (last cs)) \<Longrightarrow> trim_seqs cs = cs"
proof (cases "cs = []")
  case False
  assume "cs = [] \<or> (\<not> is_whitespace (hd cs) \<and> \<not> is_whitespace (last cs))"
  with False have "\<not> is_whitespace (hd cs)" "\<not> is_whitespace (hd (rev cs))"
    by (auto simp: hd_rev)
  then have "dropWhile is_whitespace cs = cs" "dropWhile is_whitespace (rev cs) = rev cs"
    using False dropWhile_eq_self_iff by blast+
  then show ?thesis by (simp add: trim_seqs_def)
qed (simp add: trim_seqs_def)

lemma trim_idem: "trim (trim s) = trim s"
  by (metis chars_trim concat_chars trim_seqs_ends trim_seqs_id)

end
