(* ===== verification/Core_Frames.thy ===== *)
theory Core_Frames
  imports Prelude
begin

text \<open>
  The wire protocol of the crate \<open>cowchat-core\<close>: JSON values, the error codes (\<open>error.rs\<close>), the
  frame types and the frames with their constructors (\<open>protocol.rs\<close>).

  Instants of type \<open>DateTime<Utc>\<close> are integers (milliseconds). In a JSON value an instant stays an
  instant (\<open>JTime\<close>), since its RFC 3339 text is chrono's. A finite \<open>f64\<close> is a mantissa and an exponent.
  The text of a serialised frame (\<open>to_line\<close>, \<open>from_line\<close>) is serde\_json's and is not modelled:
  a frame on the wire is the frame itself. The human-readable \<open>message\<close> of an error payload is not
  modelled either, only its code.
\<close>

subsection \<open>JSON values\<close>

datatype json =
    JNull | JBool bool | JInt int | JFloat int int | JStr string | JTime int
  | JArr "json list" | JObj "(string \<times> json) list"

fun json_get :: "string \<Rightarrow> json \<Rightarrow> json option" where
  "json_get k (JObj kvs) = map_of kvs k"
| "json_get k _ = None"

fun json_str :: "json \<Rightarrow> string option" where
  "json_str (JStr s) = Some s"
| "json_str _ = None"

abbreviation json_get_str :: "string \<Rightarrow> json \<Rightarrow> string option" where
  "json_get_str k v \<equiv> Option.bind (json_get k v) json_str"

text \<open>A field under \<open>skip_serializing_if = "Option::is_none"\<close>, and an \<open>Option\<close> written as null.\<close>

definition opt_field :: "string \<Rightarrow> ('a \<Rightarrow> json) \<Rightarrow> 'a option \<Rightarrow> (string \<times> json) list" where
  "opt_field k f x = (case x of None \<Rightarrow> [] | Some v \<Rightarrow> [(k, f v)])"

definition json_opt :: "('a \<Rightarrow> json) \<Rightarrow> 'a option \<Rightarrow> json" where
  "json_opt f x = (case x of None \<Rightarrow> JNull | Some v \<Rightarrow> f v)"

abbreviation json_strs :: "string list \<Rightarrow> json" where
  "json_strs xs \<equiv> JArr (map JStr xs)"

lemma opt_field_keys: "map_of (opt_field k f x @ kvs) k'
    = (if k' = k then (case x of None \<Rightarrow> map_of kvs k' | Some v \<Rightarrow> Some (f v)) else map_of kvs k')"
  by (auto simp: opt_field_def split: option.splits)

subsection \<open>Error codes\<close>

datatype error_code =
    NotRegistered | RoomNotFound | NotInRoom | AlreadyInRoom | InvalidPayload | AgentIdTaken
    | InternalError | RoomNameTaken | Unauthorized | VoteNotFound | VoteClosed | AlreadyVoted
    | InvalidOption | NotLeader | ElectionInProgress | NoElectionActive | RateLimitAgents
    | RateLimitMessages | RateLimitRooms | MessageTooLarge | UnsupportedProtocol | AccessDenied
    | TaskNotFound | InviteNotFound | PlaintextInEncryptedRoom

fun error_code_str :: "error_code \<Rightarrow> string" where
  "error_code_str NotRegistered = ''not_registered''"
| "error_code_str RoomNotFound = ''room_not_found''"
| "error_code_str NotInRoom = ''not_in_room''"
| "error_code_str AlreadyInRoom = ''already_in_room''"
| "error_code_str InvalidPayload = ''invalid_payload''"
| "error_code_str AgentIdTaken = ''agent_id_taken''"
| "error_code_str InternalError = ''internal_error''"
| "error_code_str RoomNameTaken = ''room_name_taken''"
| "error_code_str Unauthorized = ''unauthorized''"
| "error_code_str VoteNotFound = ''vote_not_found''"
| "error_code_str VoteClosed = ''vote_closed''"
| "error_code_str AlreadyVoted = ''already_voted''"
| "error_code_str InvalidOption = ''invalid_option''"
| "error_code_str NotLeader = ''not_leader''"
| "error_code_str ElectionInProgress = ''election_in_progress''"
| "error_code_str NoElectionActive = ''no_election_active''"
| "error_code_str RateLimitAgents = ''rate_limit_agents''"
| "error_code_str RateLimitMessages = ''rate_limit_messages''"
| "error_code_str RateLimitRooms = ''rate_limit_rooms''"
| "error_code_str MessageTooLarge = ''message_too_large''"
| "error_code_str UnsupportedProtocol = ''unsupported_protocol''"
| "error_code_str AccessDenied = ''access_denied''"
| "error_code_str TaskNotFound = ''task_not_found''"
| "error_code_str InviteNotFound = ''invite_not_found''"
| "error_code_str PlaintextInEncryptedRoom = ''plaintext_in_encrypted_room''"

lemma error_code_str_inj: "error_code_str a = error_code_str b \<longleftrightarrow> a = b"
  by (cases a; cases b) simp_all

subsection \<open>Frames\<close>

text \<open>\<open>FrameType\<close> with its \<open>snake_case\<close> wire names.\<close>

datatype frame_type =
    Register | Ping | CreateRoom | JoinRoom | LeaveRoom | RenameRoom | DestroyRoom | SendMessage
    | GetHistory | ListRooms | ListAgents | RoomInfo | RoomTip | CreateVote | CastVote
    | GetVoteStatus | ListVotes | ElectLeader | DeclineElection | Decision | AssignTask
    | UpdateTask | ListTasks | SetTyping | SetPresence | Thinking | Subscribe | Unsubscribe
    | ListSubscriptions | EnableSubscription | CreateInvite | RevokeInvite | Ok | Error | Pong
    | MessageReceived | Mention | AgentJoined | AgentLeft | RoomCreated | RoomUpdated
    | RoomDestroyed | PresenceUpdate | HistoryResult | RoomList | AgentList | RoomInfoResult
    | RoomTipResult | VoteCreated | VoteResult | ElectionStarted | LeaderElected | LeaderCleared
    | DecisionMade | TaskAssigned | TaskUpdated | TaskList | TypingIndicator | TurnChanged

fun frame_type_str :: "frame_type \<Rightarrow> string" where
  "frame_type_str Register = ''register''"
| "frame_type_str Ping = ''ping''"
| "frame_type_str CreateRoom = ''create_room''"
| "frame_type_str JoinRoom = ''join_room''"
| "frame_type_str LeaveRoom = ''leave_room''"
| "frame_type_str RenameRoom = ''rename_room''"
| "frame_type_str DestroyRoom = ''destroy_room''"
| "frame_type_str SendMessage = ''send_message''"
| "frame_type_str GetHistory = ''get_history''"
| "frame_type_str ListRooms = ''list_rooms''"
| "frame_type_str ListAgents = ''list_agents''"
| "frame_type_str RoomInfo = ''room_info''"
| "frame_type_str RoomTip = ''room_tip''"
| "frame_type_str CreateVote = ''create_vote''"
| "frame_type_str CastVote = ''cast_vote''"
| "frame_type_str GetVoteStatus = ''get_vote_status''"
| "frame_type_str ListVotes = ''list_votes''"
| "frame_type_str ElectLeader = ''elect_leader''"
| "frame_type_str DeclineElection = ''decline_election''"
| "frame_type_str Decision = ''decision''"
| "frame_type_str AssignTask = ''assign_task''"
| "frame_type_str UpdateTask = ''update_task''"
| "frame_type_str ListTasks = ''list_tasks''"
| "frame_type_str SetTyping = ''set_typing''"
| "frame_type_str SetPresence = ''set_presence''"
| "frame_type_str Thinking = ''thinking''"
| "frame_type_str Subscribe = ''subscribe''"
| "frame_type_str Unsubscribe = ''unsubscribe''"
| "frame_type_str ListSubscriptions = ''list_subscriptions''"
| "frame_type_str EnableSubscription = ''enable_subscription''"
| "frame_type_str CreateInvite = ''create_invite''"
| "frame_type_str RevokeInvite = ''revoke_invite''"
| "frame_type_str Ok = ''ok''"
| "frame_type_str Error = ''error''"
| "frame_type_str Pong = ''pong''"
| "frame_type_str MessageReceived = ''message_received''"
| "frame_type_str Mention = ''mention''"
| "frame_type_str AgentJoined = ''agent_joined''"
| "frame_type_str AgentLeft = ''agent_left''"
| "frame_type_str RoomCreated = ''room_created''"
| "frame_type_str RoomUpdated = ''room_updated''"
| "frame_type_str RoomDestroyed = ''room_destroyed''"
| "frame_type_str PresenceUpdate = ''presence_update''"
| "frame_type_str HistoryResult = ''history_result''"
| "frame_type_str RoomList = ''room_list''"
| "frame_type_str AgentList = ''agent_list''"
| "frame_type_str RoomInfoResult = ''room_info_result''"
| "frame_type_str RoomTipResult = ''room_tip_result''"
| "frame_type_str VoteCreated = ''vote_created''"
| "frame_type_str VoteResult = ''vote_result''"
| "frame_type_str ElectionStarted = ''election_started''"
| "frame_type_str LeaderElected = ''leader_elected''"
| "frame_type_str LeaderCleared = ''leader_cleared''"
| "frame_type_str DecisionMade = ''decision_made''"
| "frame_type_str TaskAssigned = ''task_assigned''"
| "frame_type_str TaskUpdated = ''task_updated''"
| "frame_type_str TaskList = ''task_list''"
| "frame_type_str TypingIndicator = ''typing_indicator''"
| "frame_type_str TurnChanged = ''turn_changed''"

definition frame_types :: "frame_type list" where
  "frame_types = [
    Register, Ping, CreateRoom, JoinRoom, LeaveRoom, RenameRoom, DestroyRoom, SendMessage
    , GetHistory, ListRooms, ListAgents, RoomInfo, RoomTip, CreateVote, CastVote, GetVoteStatus
    , ListVotes, ElectLeader, DeclineElection, Decision, AssignTask, UpdateTask, ListTasks
    , SetTyping, SetPresence, Thinking, Subscribe, Unsubscribe, ListSubscriptions
    , EnableSubscription, CreateInvite, RevokeInvite, Ok, Error, Pong, MessageReceived, Mention
    , AgentJoined, AgentLeft, RoomCreated, RoomUpdated, RoomDestroyed, PresenceUpdate
    , HistoryResult, RoomList, AgentList, RoomInfoResult, RoomTipResult, VoteCreated, VoteResult
    , ElectionStarted, LeaderElected, LeaderCleared, DecisionMade, TaskAssigned, TaskUpdated
    , TaskList, TypingIndicator, TurnChanged
   ]"

text \<open>The wire name read back, as the derived deserialiser does: the variant of that name, if any.\<close>

definition frame_type_of_str :: "string \<Rightarrow> frame_type option" where
  "frame_type_of_str s = find (\<lambda>t. frame_type_str t = s) frame_types"

text \<open>\<open>PROTOCOL_VERSION\<close> and \<open>MIN_SUPPORTED_PROTOCOL\<close>.\<close>

definition PROTOCOL_VERSION :: nat where
  "PROTOCOL_VERSION = 2"

definition MIN_SUPPORTED_PROTOCOL :: nat where
  "MIN_SUPPORTED_PROTOCOL = 2"

record frame =
  f_id :: "string option"
  f_reply_to :: "string option"
  f_type :: frame_type
  f_payload :: json

text \<open>The constructors of \<open>Frame\<close>. The identifier is a fresh UUID in the source; here it is the first
  argument.\<close>

definition frame_ok :: "string \<Rightarrow> string option \<Rightarrow> json \<Rightarrow> frame" where
  "frame_ok uid reply_to payload =
     \<lparr>f_id = Some uid, f_reply_to = reply_to, f_type = Ok, f_payload = payload\<rparr>"

definition frame_error :: "string \<Rightarrow> string option \<Rightarrow> error_code \<Rightarrow> frame" where
  "frame_error uid reply_to code =
     \<lparr>f_id = Some uid, f_reply_to = reply_to, f_type = Error,
      f_payload = JObj [(''code'', JStr (error_code_str code))]\<rparr>"

definition frame_event :: "string \<Rightarrow> frame_type \<Rightarrow> json \<Rightarrow> frame" where
  "frame_event uid t payload =
     \<lparr>f_id = Some uid, f_reply_to = None, f_type = t, f_payload = payload\<rparr>"

definition frame_pong :: "string \<Rightarrow> string option \<Rightarrow> frame" where
  "frame_pong uid reply_to =
     \<lparr>f_id = Some uid, f_reply_to = reply_to, f_type = Pong, f_payload = JObj []\<rparr>"

text \<open>A reply of another type than \<open>Ok\<close>, written out as a struct literal in the handlers.\<close>

definition frame_reply :: "string \<Rightarrow> string option \<Rightarrow> frame_type \<Rightarrow> json \<Rightarrow> frame" where
  "frame_reply uid reply_to t payload =
     \<lparr>f_id = Some uid, f_reply_to = reply_to, f_type = t, f_payload = payload\<rparr>"

lemmas frame_defs = frame_ok_def frame_error_def frame_event_def frame_pong_def frame_reply_def

lemma frame_sel [simp]:
  "f_type (frame_ok u r p) = Ok" "f_payload (frame_ok u r p) = p"
  "f_type (frame_error u r c) = Error" "f_type (frame_event u t p) = t"
  "f_payload (frame_event u t p) = p" "f_type (frame_pong u r) = Pong"
  "f_type (frame_reply u r t p) = t" "f_payload (frame_reply u r t p) = p"
  "f_reply_to (frame_ok u r p) = r" "f_reply_to (frame_error u r c) = r"
  "f_reply_to (frame_event u t p) = None" "f_reply_to (frame_pong u r) = r"
  "f_reply_to (frame_reply u r t p) = r" "f_id (frame_event u t p) = Some u"
  by (simp_all add: frame_defs)

text \<open>\<open>frame_room_id\<close> of \<open>reconnect.rs\<close> and \<open>server.rs\<close>: the room a frame is about.\<close>

definition frame_room_id :: "frame \<Rightarrow> string option" where
  "frame_room_id f =
     (case json_get_str ''room_id'' (f_payload f) of
        Some r \<Rightarrow> Some r
      | None \<Rightarrow> Option.bind (json_get ''message'' (f_payload f)) (\<lambda>m. json_get_str ''room_id'' m))"

lemma frame_types_complete: "t \<in> set frame_types"
  by (cases t) (simp_all add: frame_types_def)

lemma frame_type_strs_distinct: "distinct (map frame_type_str frame_types)"
  by (simp add: frame_types_def)

lemma frame_room_id_direct:
  "json_get_str ''room_id'' (f_payload f) = Some r \<Longrightarrow> frame_room_id f = Some r"
  by (simp add: frame_room_id_def)

text \<open>Every frame type is read back from its wire name, and the names of the 59 types are pairwise
  different: no two commands, replies or events can be confused on the wire.\<close>

lemma frame_type_roundtrip:
  "frame_type_of_str (frame_type_str t) = Some t
   \<and> distinct (map frame_type_str frame_types) \<and> t \<in> set frame_types"
  using row_find_unique [OF frame_type_strs_distinct, of "frame_type_str t" t]
  by (simp add: frame_type_of_str_def row_find_def frame_types_complete frame_type_strs_distinct)

end
