(* ===== verification/Core_Models.thy ===== *)
theory Core_Models
  imports Core_Frames
begin

text \<open>
  The data of the crate \<open>cowchat-core\<close> (\<open>models.rs\<close>): agents, rooms, messages, the payloads of the
  commands, votes, tasks, subscriptions and invites, and how the values that the server sends are
  written as JSON, field by field as the serde attributes of the structs say.
\<close>

subsection \<open>Agents, rooms, messages\<close>

record agent_info =
  ai_agent_id :: string
  ai_name :: string
  ai_capabilities :: "string list"
  ai_connected_at :: "int option"
  ai_last_active :: "int option"
  ai_status :: "string option"
  ai_status_detail :: "string option"
  ai_progress :: "nat option"

definition agent_info_to_json :: "agent_info \<Rightarrow> json" where
  "agent_info_to_json a = JObj
     ([(''agent_id'', JStr (ai_agent_id a)), (''name'', JStr (ai_name a)),
       (''capabilities'', json_strs (ai_capabilities a))]
      @ opt_field ''connected_at'' JTime (ai_connected_at a)
      @ opt_field ''last_active'' JTime (ai_last_active a)
      @ opt_field ''status'' JStr (ai_status a)
      @ opt_field ''status_detail'' JStr (ai_status_detail a)
      @ opt_field ''progress'' (\<lambda>p. JInt (int p)) (ai_progress a))"

record room =
  rm_room_id :: string
  rm_name :: string
  rm_description :: "string option"
  rm_parent_id :: "string option"
  rm_created_at :: int
  rm_created_by :: "string option"
  rm_visibility :: string
  rm_owner_key :: "string option"
  rm_last_activity :: "int option"
  rm_member_count :: "nat option"
  rm_encrypted :: bool

text \<open>\<open>owner_key\<close> carries \<open>skip_serializing\<close>.\<close>

definition room_to_json :: "room \<Rightarrow> json" where
  "room_to_json r = JObj
     ([(''room_id'', JStr (rm_room_id r)), (''name'', JStr (rm_name r))]
      @ opt_field ''description'' JStr (rm_description r)
      @ opt_field ''parent_id'' JStr (rm_parent_id r)
      @ [(''created_at'', JTime (rm_created_at r))]
      @ opt_field ''created_by'' JStr (rm_created_by r)
      @ [(''visibility'', JStr (rm_visibility r))]
      @ opt_field ''last_activity'' JTime (rm_last_activity r)
      @ opt_field ''member_count'' (\<lambda>n. JInt (int n)) (rm_member_count r)
      @ [(''encrypted'', JBool (rm_encrypted r))])"

record chat_message =
  cm_message_id :: string
  cm_room_id :: string
  cm_agent_id :: string
  cm_agent_name :: string
  cm_content :: string
  cm_reply_to_message :: "string option"
  cm_metadata :: json
  cm_timestamp :: int
  cm_seq :: int

definition chat_message_to_json :: "chat_message \<Rightarrow> json" where
  "chat_message_to_json m = JObj
     ([(''message_id'', JStr (cm_message_id m)), (''room_id'', JStr (cm_room_id m)),
       (''agent_id'', JStr (cm_agent_id m)), (''agent_name'', JStr (cm_agent_name m)),
       (''content'', JStr (cm_content m))]
      @ opt_field ''reply_to_message'' JStr (cm_reply_to_message m)
      @ [(''metadata'', cm_metadata m), (''timestamp'', JTime (cm_timestamp m)),
         (''seq'', JInt (cm_seq m))])"

subsection \<open>Command payloads\<close>

text \<open>The fields a client may send with each command. \<open>serde_json::from_value\<close> turns a JSON payload
  into such a record or fails; its result is an input of the handlers.\<close>

record register_payload =
  rp_key :: string
  rp_agent_id :: "string option"
  rp_name :: string
  rp_capabilities :: "string list"
  rp_reconnect :: bool
  rp_protocol_version :: "nat option"

record create_room_payload =
  cr_name :: string
  cr_description :: "string option"
  cr_parent_id :: "string option"
  cr_public :: bool
  cr_encrypted :: bool

record rename_room_payload =
  rn_room_id :: string
  rn_name :: string

record send_message_payload =
  sm_room_id :: string
  sm_content :: string
  sm_reply_to :: "string option"
  sm_metadata :: json
  sm_mentions :: "string list"

record get_history_payload =
  gh_room_id :: string
  gh_limit :: nat
  gh_before :: "int option"
  gh_since :: "string option"
  gh_since_seq :: "int option"

record create_vote_payload =
  cv_room_id :: string
  cv_title :: string
  cv_description :: "string option"
  cv_options :: "string list"
  cv_duration_secs :: "nat option"

record cast_vote_payload =
  bv_vote_id :: string
  bv_option_index :: nat

record list_votes_payload =
  lv_room_id :: string
  lv_limit :: nat

record assign_task_payload =
  at_room_id :: string
  at_title :: string
  at_description :: "string option"
  at_assignee :: "string option"

record update_task_payload =
  ut_task_id :: string
  ut_status :: "string option"
  ut_assignee :: "string option"
  ut_note :: "string option"

record list_tasks_payload =
  lt_room_id :: string
  lt_status :: "string option"

record set_typing_payload =
  ty_room_id :: string
  ty_typing :: bool

record set_presence_payload =
  sp_status :: string
  sp_status_detail :: "string option"
  sp_progress :: "nat option"

record decision_payload =
  dp_room_id :: string
  dp_content :: string
  dp_metadata :: json

record subscribe_payload =
  su_room_id :: string
  su_webhook_url :: string
  su_secret :: string
  su_kinds :: "string list"
  su_only_from :: "string option"
  su_not_from :: "string option"
  su_exclude_thinking :: bool
  su_since_seq :: "int option"

record create_invite_payload =
  ci_room_id :: string
  ci_single_use :: bool

record thinking_payload =
  th_room_id :: string
  th_content :: string

subsection \<open>Votes, tasks, subscriptions, invites\<close>

datatype vote_status = Open | Closed

fun vote_status_str :: "vote_status \<Rightarrow> string" where
  "vote_status_str Open = ''open''"
| "vote_status_str Closed = ''closed''"

record vote_tally =
  tl_option_index :: nat
  tl_option_text :: string
  tl_count :: nat

definition vote_tally_to_json :: "vote_tally \<Rightarrow> json" where
  "vote_tally_to_json t = JObj
     [(''option_index'', JInt (int (tl_option_index t))), (''option_text'', JStr (tl_option_text t)),
      (''count'', JInt (int (tl_count t)))]"

record vote_info =
  vi_vote_id :: string
  vi_room_id :: string
  vi_title :: string
  vi_description :: "string option"
  vi_options :: "string list"
  vi_created_by :: string
  vi_created_at :: int
  vi_closes_at :: "int option"
  vi_status :: vote_status
  vi_votes_cast :: nat
  vi_eligible_voters :: nat
  vi_tally :: "vote_tally list option"

definition vote_info_to_json :: "vote_info \<Rightarrow> json" where
  "vote_info_to_json v = JObj
     ([(''vote_id'', JStr (vi_vote_id v)), (''room_id'', JStr (vi_room_id v)),
       (''title'', JStr (vi_title v))]
      @ opt_field ''description'' JStr (vi_description v)
      @ [(''options'', json_strs (vi_options v)), (''created_by'', JStr (vi_created_by v)),
         (''created_at'', JTime (vi_created_at v))]
      @ opt_field ''closes_at'' JTime (vi_closes_at v)
      @ [(''status'', JStr (vote_status_str (vi_status v))),
         (''votes_cast'', JInt (int (vi_votes_cast v))),
         (''eligible_voters'', JInt (int (vi_eligible_voters v)))]
      @ opt_field ''tally'' (\<lambda>ts. JArr (map vote_tally_to_json ts)) (vi_tally v))"

record ballot_entry =
  be_agent_id :: string
  be_agent_name :: string
  be_option_index :: nat

definition ballot_entry_to_json :: "ballot_entry \<Rightarrow> json" where
  "ballot_entry_to_json b = JObj
     [(''agent_id'', JStr (be_agent_id b)), (''agent_name'', JStr (be_agent_name b)),
      (''option_index'', JInt (int (be_option_index b)))]"

record vote_result_payload =
  vr_vote_id :: string
  vr_room_id :: string
  vr_title :: string
  vr_options :: "string list"
  vr_tally :: "vote_tally list"
  vr_ballots :: "ballot_entry list"
  vr_total_votes :: nat
  vr_eligible_voters :: nat

definition vote_result_to_json :: "vote_result_payload \<Rightarrow> json" where
  "vote_result_to_json v = JObj
     [(''vote_id'', JStr (vr_vote_id v)), (''room_id'', JStr (vr_room_id v)),
      (''title'', JStr (vr_title v)), (''options'', json_strs (vr_options v)),
      (''tally'', JArr (map vote_tally_to_json (vr_tally v))),
      (''ballots'', JArr (map ballot_entry_to_json (vr_ballots v))),
      (''total_votes'', JInt (int (vr_total_votes v))),
      (''eligible_voters'', JInt (int (vr_eligible_voters v)))]"

record task_info =
  tk_task_id :: string
  tk_room_id :: string
  tk_title :: string
  tk_description :: "string option"
  tk_status :: string
  tk_assignee :: "string option"
  tk_created_by :: string
  tk_created_at :: int
  tk_updated_at :: "int option"
  tk_note :: "string option"

definition task_info_to_json :: "task_info \<Rightarrow> json" where
  "task_info_to_json t = JObj
     ([(''task_id'', JStr (tk_task_id t)), (''room_id'', JStr (tk_room_id t)),
       (''title'', JStr (tk_title t))]
      @ opt_field ''description'' JStr (tk_description t)
      @ [(''status'', JStr (tk_status t))]
      @ opt_field ''assignee'' JStr (tk_assignee t)
      @ [(''created_by'', JStr (tk_created_by t)), (''created_at'', JTime (tk_created_at t))]
      @ opt_field ''updated_at'' JTime (tk_updated_at t)
      @ opt_field ''note'' JStr (tk_note t))"

record subscription =
  sub_subscription_id :: string
  sub_room_id :: string
  sub_webhook_url :: string
  sub_kinds :: "string list"
  sub_only_from :: "string option"
  sub_not_from :: "string option"
  sub_exclude_thinking :: bool
  sub_since_seq :: int
  sub_last_delivered_seq :: int
  sub_status :: string
  sub_failure_count :: int
  sub_created_at :: int

definition subscription_to_json :: "subscription \<Rightarrow> json" where
  "subscription_to_json s = JObj
     ([(''subscription_id'', JStr (sub_subscription_id s)), (''room_id'', JStr (sub_room_id s)),
       (''webhook_url'', JStr (sub_webhook_url s))]
      @ (if sub_kinds s = [] then [] else [(''kinds'', json_strs (sub_kinds s))])
      @ opt_field ''only_from'' JStr (sub_only_from s)
      @ opt_field ''not_from'' JStr (sub_not_from s)
      @ [(''exclude_thinking'', JBool (sub_exclude_thinking s)),
         (''since_seq'', JInt (sub_since_seq s)),
         (''last_delivered_seq'', JInt (sub_last_delivered_seq s)),
         (''status'', JStr (sub_status s)), (''failure_count'', JInt (sub_failure_count s)),
         (''created_at'', JTime (sub_created_at s))])"

record invite_info =
  ii_token :: string
  ii_room_id :: string
  ii_room_name :: string
  ii_single_use :: bool

definition invite_info_to_json :: "invite_info \<Rightarrow> json" where
  "invite_info_to_json i = JObj
     [(''token'', JStr (ii_token i)), (''room_id'', JStr (ii_room_id i)),
      (''room_name'', JStr (ii_room_name i)), (''single_use'', JBool (ii_single_use i))]"

text \<open>\<open>TurnChangedPayload\<close>: the holder is an \<open>Option\<close> with no skip attribute, so an empty room shows
  null.\<close>

record turn_changed_payload =
  tc_room_id :: string
  tc_current_turn_holder :: "string option"
  tc_turn_order :: "string list"
  tc_reason :: string

definition turn_changed_to_json :: "turn_changed_payload \<Rightarrow> json" where
  "turn_changed_to_json t = JObj
     [(''room_id'', JStr (tc_room_id t)),
      (''current_turn_holder'', json_opt JStr (tc_current_turn_holder t)),
      (''turn_order'', json_strs (tc_turn_order t)), (''reason'', JStr (tc_reason t))]"

subsection \<open>Facts\<close>

text \<open>Every room, message, vote, task and turn event names its room.\<close>

lemma json_room_id [simp]:
  "json_get ''room_id'' (room_to_json r) = Some (JStr (rm_room_id r))"
  "json_get ''room_id'' (chat_message_to_json m) = Some (JStr (cm_room_id m))"
  "json_get ''room_id'' (vote_info_to_json v) = Some (JStr (vi_room_id v))"
  "json_get ''room_id'' (vote_result_to_json w) = Some (JStr (vr_room_id w))"
  "json_get ''room_id'' (task_info_to_json t) = Some (JStr (tk_room_id t))"
  "json_get ''room_id'' (turn_changed_to_json c) = Some (JStr (tc_room_id c))"
  by (simp_all add: room_to_json_def chat_message_to_json_def vote_info_to_json_def
      vote_result_to_json_def task_info_to_json_def turn_changed_to_json_def)

text \<open>The JSON of a room does not depend on its owner key: the bearer credential stored with a
  room never reaches the wire.\<close>

lemma room_json_hides_owner_key:
  "room_to_json (r\<lparr>rm_owner_key := k\<rparr>) = room_to_json r
   \<and> json_get ''owner_key'' (room_to_json r) = None"
  by (simp add: room_to_json_def opt_field_def split: option.splits)

end
