(* ===== verification/Access.thy ===== *)
theory Access
  imports Core_Models
begin

text \<open>
  The access rule of a room (\<open>connection.rs\<close>): who may discover or use it, and who owns it. A
  private room belongs to the bearer principal that created it: an API key, or the keyless local
  principal (the empty key, decoded as no owner). Grants issued by invites are added to this rule by
  \<open>can_access_room\<close> in the theory \<open>Store_Rooms\<close>, where the grant cache is.
\<close>

definition LEGACY_UNOWNED_OWNER_KEY :: string where
  "LEGACY_UNOWNED_OWNER_KEY = CHR 0x00 # ''cowchat:legacy-unowned''"

definition matches_room_owner :: "string option \<Rightarrow> string \<Rightarrow> bool \<Rightarrow> bool" where
  "matches_room_owner owner_key api_key auth_disabled =
     (if owner_key = Some LEGACY_UNOWNED_OWNER_KEY then False
      else auth_disabled
        \<or> (case owner_key of
              Some k \<Rightarrow> api_key \<noteq> [] \<and> k = api_key
            | None \<Rightarrow> api_key = []))"

definition can_access_room_parts :: "string \<Rightarrow> string option \<Rightarrow> string \<Rightarrow> bool \<Rightarrow> bool" where
  "can_access_room_parts visibility owner_key api_key auth_disabled =
     (if auth_disabled \<or> visibility = ''public'' then True
      else matches_room_owner owner_key api_key auth_disabled)"

lemma legacy_owner_key_nonempty [simp]: "LEGACY_UNOWNED_OWNER_KEY \<noteq> []"
  by (simp add: LEGACY_UNOWNED_OWNER_KEY_def)

lemma legacy_owner_key_nonempty' [simp]: "[] \<noteq> LEGACY_UNOWNED_OWNER_KEY"
  by (simp add: LEGACY_UNOWNED_OWNER_KEY_def)

lemma matches_legacy [simp]:
  "\<not> matches_room_owner (Some LEGACY_UNOWNED_OWNER_KEY) api_key auth_disabled"
  by (simp add: matches_room_owner_def)

lemma matches_keyless_owner [acc_simps]: "matches_room_owner None api_key False \<longleftrightarrow> api_key = []"
  by (simp add: matches_room_owner_def)

lemma matches_key_owner [acc_simps]:
  "matches_room_owner (Some k) api_key False
     \<longleftrightarrow> k = api_key \<and> k \<noteq> [] \<and> k \<noteq> LEGACY_UNOWNED_OWNER_KEY"
  by (auto simp: matches_room_owner_def)

lemma matches_no_auth [acc_simps]:
  "matches_room_owner owner api_key True \<longleftrightarrow> owner \<noteq> Some LEGACY_UNOWNED_OWNER_KEY"
  by (auto simp: matches_room_owner_def split: option.splits)

lemma owner_can_access:
  "matches_room_owner owner api_key no_auth \<Longrightarrow> can_access_room_parts vis owner api_key no_auth"
  by (cases no_auth) (simp_all add: can_access_room_parts_def)

lemma public_can_access [acc_simps, simp]: "can_access_room_parts ''public'' owner api_key no_auth"
  by (simp add: can_access_room_parts_def)

text \<open>With authentication on, a private room is open to at most one principal: the key that owns it,
  or, for a room with no owner key, keyless connections only. The marker of rooms from before
  ownership opens it to nobody, not even to a client that presents the marker itself as its key.\<close>

lemma private_room_principal:
  assumes "vis \<noteq> ''public''"
  shows "can_access_room_parts vis owner api_key False \<longleftrightarrow>
           owner \<noteq> Some LEGACY_UNOWNED_OWNER_KEY
           \<and> (if api_key = [] then owner = None else owner = Some api_key)"
  using assms by (cases owner) (auto simp: can_access_room_parts_def acc_simps)

lemma private_room_principal_witness:
  "can_access_room_parts ''private'' (Some ''k1'') ''k1'' False
   \<and> \<not> can_access_room_parts ''private'' (Some ''k1'') ''k2'' False
   \<and> \<not> can_access_room_parts ''private'' None ''k1'' False
   \<and> \<not> can_access_room_parts ''private'' (Some LEGACY_UNOWNED_OWNER_KEY) LEGACY_UNOWNED_OWNER_KEY False"
  by (simp add: private_room_principal LEGACY_UNOWNED_OWNER_KEY_def)

end
