(* ===== verification/Store_Base.thy ===== *)
theory Store_Base
  imports Access
begin

text \<open>
  The durable store (\<open>store.rs\<close>), first part: the schema that \<open>Store::initialize\<close> creates, as a record
  of tables, the errors, and what it means for the database to be consistent.

  A table is the list of its rows. The primary keys, unique indexes, foreign keys (\<open>PRAGMA
  foreign_keys = ON\<close>, with their cascades) and the two triggers on \<open>messages\<close> are written out in the
  operations. An operation of one SQL transaction is atomic; its argument \<open>fault\<close> says whether
  SQLite reports an I/O error for it, in which case the transaction is rolled back. The \<open>rowid\<close> of a
  message is explicit, because history queries order and filter by it.
\<close>

subsection \<open>Errors\<close>

datatype db_failure =
    IoFault | ForeignKeyFailed | PrimaryKeyTaken | UniqueTaken | CheckFailed | TriggerAborted | NoRows

text \<open>The three reasons of \<open>normalize_room_name\<close>.\<close>

datatype name_error = NameEmpty | NameControl | NameTooLong

datatype store_error =
    SE_Db db_failure | SE_RoomNameTaken string | SE_InvalidRoomName name_error | SE_VoteNotFound
  | SE_VoteClosed | SE_AlreadyVoted

datatype destroy_error =
    DE_NotFound | DE_AccessDenied | DE_ProtectedRoom | DE_Db db_failure | DE_Cleanup store_error

datatype rename_error =
    RE_NotFound | RE_AccessDenied | RE_ProtectedRoom | RE_InvalidName name_error | RE_NameTaken string
  | RE_Db db_failure

subsection \<open>Rows\<close>

record api_key_row =
  ak_api_key :: string
  ak_tier :: string
  ak_label :: "string option"
  ak_created_at :: int

record identity_row =
  id_agent_id :: string
  id_owner_key :: string

text \<open>\<open>rr_owner_key\<close> is the column as stored: NULL for rooms older than ownership, the empty string
  for rooms of keyless connections.\<close>

record room_row =
  rr_room_id :: string
  rr_name :: string
  rr_description :: "string option"
  rr_parent_id :: "string option"
  rr_created_by :: "string option"
  rr_created_at :: int
  rr_visibility :: string
  rr_owner_key :: "string option"
  rr_encrypted :: bool

record message_row =
  mr_rowid :: int
  mr_message_id :: string
  mr_room_id :: string
  mr_agent_id :: string
  mr_agent_name :: string
  mr_content :: string
  mr_reply_to_message :: "string option"
  mr_metadata :: json
  mr_created_at :: int
  mr_seq :: int

record session_row =
  ss_session_id :: string
  ss_agent_id :: string
  ss_agent_name :: string
  ss_capabilities :: "string list"
  ss_connected_at :: int
  ss_disconnected_at :: "int option"

record vote_row =
  vm_vote_id :: string
  vm_room_id :: string
  vm_title :: string
  vm_description :: "string option"
  vm_options :: "string list"
  vm_created_by :: string
  vm_created_at :: int
  vm_closes_at :: "int option"
  vm_status :: string
  vm_eligible_voters :: nat

record ballot_row =
  br_vote_id :: string
  br_agent_id :: string
  br_agent_name :: string
  br_option_index :: nat
  br_cast_at :: int

record subscription_row =
  sr_sub :: subscription
  sr_owner_key :: string
  sr_secret :: string

record delivery_row =
  dr_delivery_id :: string
  dr_subscription_id :: string
  dr_message_seq :: int
  dr_message_id :: string
  dr_next_attempt_at :: int
  dr_attempts :: int
  dr_last_error :: "string option"

record invite_row =
  ir_token_hash :: string
  ir_room_id :: string
  ir_created_by_key :: string
  ir_single_use :: bool
  ir_redeemed_count :: int
  ir_revoked :: bool

abbreviation sr_id :: "subscription_row \<Rightarrow> string" where
  "sr_id r \<equiv> sub_subscription_id (sr_sub r)"

abbreviation sr_room :: "subscription_row \<Rightarrow> string" where
  "sr_room r \<equiv> sub_room_id (sr_sub r)"

text \<open>The database, and the in-memory mirror of \<open>room_grants\<close> (\<open>Store::grants\<close>).
  \<open>db_eligible\<close> and \<open>db_grants\<close> are the rows of two-column tables, \<open>db_sequences\<close> maps a room to
  its \<open>high_water\<close>.\<close>

record store =
  db_api_keys :: "api_key_row list"
  db_identities :: "identity_row list"
  db_rooms :: "room_row list"
  db_messages :: "message_row list"
  db_sequences :: "(string \<times> int) list"
  db_sessions :: "session_row list"
  db_votes :: "vote_row list"
  db_ballots :: "ballot_row list"
  db_eligible :: "(string \<times> string) list"
  db_tasks :: "task_info list"
  db_subs :: "subscription_row list"
  db_deliveries :: "delivery_row list"
  db_invites :: "invite_row list"
  db_grants :: "(string \<times> string) list"
  grants_cache :: "(string, string set) dashmap"

definition store_empty :: store where
  "store_empty = \<lparr>db_api_keys = [], db_identities = [], db_rooms = [], db_messages = [],
     db_sequences = [], db_sessions = [], db_votes = [], db_ballots = [], db_eligible = [],
     db_tasks = [], db_subs = [], db_deliveries = [], db_invites = [], db_grants = [],
     grants_cache = []\<rparr>"

subsection \<open>Reading rows\<close>

definition map_room_row :: "room_row \<Rightarrow> room" where
  "map_room_row r =
     \<lparr>rm_room_id = rr_room_id r, rm_name = rr_name r, rm_description = rr_description r,
      rm_parent_id = rr_parent_id r, rm_created_at = rr_created_at r,
      rm_created_by = rr_created_by r, rm_visibility = rr_visibility r,
      rm_owner_key =
        (case rr_owner_key r of
           Some key \<Rightarrow> if key = [] then None else Some key
         | None \<Rightarrow> Some LEGACY_UNOWNED_OWNER_KEY),
      rm_last_activity = None, rm_member_count = None, rm_encrypted = rr_encrypted r\<rparr>"

definition map_message_row :: "message_row \<Rightarrow> chat_message" where
  "map_message_row m =
     \<lparr>cm_message_id = mr_message_id m, cm_room_id = mr_room_id m, cm_agent_id = mr_agent_id m,
      cm_agent_name = mr_agent_name m, cm_content = mr_content m,
      cm_reply_to_message = mr_reply_to_message m, cm_metadata = mr_metadata m,
      cm_timestamp = mr_created_at m, cm_seq = mr_seq m\<rparr>"

definition room_find :: "string \<Rightarrow> store \<Rightarrow> room_row option" where
  "room_find room_id s = row_find rr_room_id room_id (db_rooms s)"

definition room_exists :: "string \<Rightarrow> store \<Rightarrow> bool" where
  "room_exists room_id s \<longleftrightarrow> room_id \<in> rr_room_id ` set (db_rooms s)"

text \<open>\<open>high_water\<close> of a room, 0 when the room has no row.\<close>

definition high_water :: "store \<Rightarrow> string \<Rightarrow> int" where
  "high_water s room_id = (case map_of (db_sequences s) room_id of Some n \<Rightarrow> n | None \<Rightarrow> 0)"

definition cached_grants :: "store \<Rightarrow> string \<Rightarrow> string set" where
  "cached_grants s api_key =
     (case map_of (grants_cache s) api_key of None \<Rightarrow> {} | Some rooms \<Rightarrow> rooms)"

subsection \<open>Consistency\<close>

definition keys_wf :: "store \<Rightarrow> bool" where
  "keys_wf s \<longleftrightarrow>
     distinct (map ak_api_key (db_api_keys s)) \<and> distinct (map id_agent_id (db_identities s))
     \<and> distinct (map rr_room_id (db_rooms s)) \<and> distinct (map rr_name (db_rooms s))
     \<and> distinct (map mr_message_id (db_messages s)) \<and> distinct (map fst (db_sequences s))
     \<and> distinct (map ss_session_id (db_sessions s)) \<and> distinct (map vm_vote_id (db_votes s))
     \<and> distinct (map (\<lambda>b. (br_vote_id b, br_agent_id b)) (db_ballots s))
     \<and> distinct (db_eligible s) \<and> distinct (map tk_task_id (db_tasks s))
     \<and> distinct (map sr_id (db_subs s)) \<and> distinct (map dr_delivery_id (db_deliveries s))
     \<and> distinct (map (\<lambda>d. (dr_subscription_id d, dr_message_seq d)) (db_deliveries s))
     \<and> distinct (map ir_token_hash (db_invites s)) \<and> distinct (db_grants s)"

definition refs_wf :: "store \<Rightarrow> bool" where
  "refs_wf s \<longleftrightarrow>
     (\<forall>m \<in> set (db_messages s). room_exists (mr_room_id m) s
        \<and> (\<forall>p. mr_reply_to_message m = Some p \<longrightarrow> p \<in> mr_message_id ` set (db_messages s)))
     \<and> (\<forall>(r, _) \<in> set (db_sequences s). room_exists r s)
     \<and> (\<forall>t \<in> set (db_tasks s). room_exists (tk_room_id t) s)
     \<and> (\<forall>b \<in> set (db_ballots s). br_vote_id b \<in> vm_vote_id ` set (db_votes s))
     \<and> (\<forall>(v, _) \<in> set (db_eligible s). v \<in> vm_vote_id ` set (db_votes s))
     \<and> (\<forall>d \<in> set (db_deliveries s). dr_subscription_id d \<in> sr_id ` set (db_subs s))
     \<and> (\<forall>r \<in> set (db_rooms s).
           \<forall>p. rr_parent_id r = Some p \<longrightarrow> p \<noteq> rr_room_id r \<and> room_exists p s)"

text \<open>Messages stand in the order of their \<open>rowid\<close>; in that order the sequence numbers of one room
  grow, and none is above the room's high-water mark.\<close>

definition seq_wf :: "store \<Rightarrow> bool" where
  "seq_wf s \<longleftrightarrow>
     sorted_wrt (\<lambda>m m'. mr_rowid m < mr_rowid m'
                   \<and> (mr_room_id m = mr_room_id m' \<longrightarrow> mr_seq m < mr_seq m')) (db_messages s)
     \<and> (\<forall>m \<in> set (db_messages s). 0 < mr_seq m \<and> mr_seq m \<le> high_water s (mr_room_id m))
     \<and> (\<forall>(r, n) \<in> set (db_sequences s). 0 \<le> n)"

definition grants_wf :: "store \<Rightarrow> bool" where
  "grants_wf s \<longleftrightarrow>
     distinct (dm_keys (grants_cache s))
     \<and> (\<forall>k r. r \<in> cached_grants s k \<longleftrightarrow> (k, r) \<in> set (db_grants s))"

definition store_wf :: "store \<Rightarrow> bool" where
  "store_wf s \<longleftrightarrow> keys_wf s \<and> refs_wf s \<and> seq_wf s \<and> grants_wf s"

lemmas store_wf_defs = store_wf_def keys_wf_def refs_wf_def seq_wf_def grants_wf_def

lemma map_room_row_sel [simp]:
  "rm_room_id (map_room_row r) = rr_room_id r" "rm_name (map_room_row r) = rr_name r"
  "rm_visibility (map_room_row r) = rr_visibility r" "rm_created_by (map_room_row r) = rr_created_by r"
  "rm_encrypted (map_room_row r) = rr_encrypted r" "rm_parent_id (map_room_row r) = rr_parent_id r"
  by (simp_all add: map_room_row_def)

lemma map_message_row_sel [simp]:
  "cm_message_id (map_message_row m) = mr_message_id m" "cm_room_id (map_message_row m) = mr_room_id m"
  "cm_seq (map_message_row m) = mr_seq m" "cm_content (map_message_row m) = mr_content m"
  "cm_agent_id (map_message_row m) = mr_agent_id m"
  by (simp_all add: map_message_row_def)

lemma room_find_exists: "room_find r s = None \<longleftrightarrow> \<not> room_exists r s"
  by (simp add: room_find_def room_exists_def)

lemma room_find_SomeD: "room_find r s = Some row \<Longrightarrow> row \<in> set (db_rooms s) \<and> rr_room_id row = r"
  by (auto simp: room_find_def dest: row_find_SomeD)

lemma store_empty_sel [simp]:
  "db_api_keys store_empty = []"
  "db_identities store_empty = []"
  "db_rooms store_empty = []"
  "db_messages store_empty = []"
  "db_sequences store_empty = []"
  "db_sessions store_empty = []"
  "db_votes store_empty = []"
  "db_ballots store_empty = []"
  "db_eligible store_empty = []"
  "db_tasks store_empty = []"
  "db_subs store_empty = []"
  "db_deliveries store_empty = []"
  "db_invites store_empty = []"
  "db_grants store_empty = []"
  "grants_cache store_empty = []"
  by (simp_all add: store_empty_def)

lemma store_empty_wf [simp]: "store_wf store_empty"
  unfolding store_wf_defs cached_grants_def by simp

subsection \<open>Updates of single tables\<close>

lemmas store_views = room_exists_def high_water_def cached_grants_def

lemma wf_set_api_keys [wf_intros]:
  "store_wf s \<Longrightarrow> distinct (map ak_api_key xs) \<Longrightarrow> store_wf (s\<lparr>db_api_keys := xs\<rparr>)"
  unfolding store_wf_defs store_views by simp

lemma wf_set_identities [wf_intros]:
  "store_wf s \<Longrightarrow> distinct (map id_agent_id xs) \<Longrightarrow> store_wf (s\<lparr>db_identities := xs\<rparr>)"
  unfolding store_wf_defs store_views by simp

lemma wf_set_sessions [wf_intros]:
  "store_wf s \<Longrightarrow> distinct (map ss_session_id xs) \<Longrightarrow> store_wf (s\<lparr>db_sessions := xs\<rparr>)"
  unfolding store_wf_defs store_views by simp

lemma wf_set_invites [wf_intros]:
  "store_wf s \<Longrightarrow> distinct (map ir_token_hash xs) \<Longrightarrow> store_wf (s\<lparr>db_invites := xs\<rparr>)"
  unfolding store_wf_defs store_views by simp

lemma wf_set_tasks [wf_intros]:
  "store_wf s \<Longrightarrow> distinct (map tk_task_id xs) \<Longrightarrow> (\<And>t. t \<in> set xs \<Longrightarrow> room_exists (tk_room_id t) s) \<Longrightarrow>
   store_wf (s\<lparr>db_tasks := xs\<rparr>)"
  unfolding store_wf_defs store_views by simp

lemma wf_set_votes [wf_intros]:
  "store_wf s \<Longrightarrow> distinct (map vm_vote_id xs) \<Longrightarrow>
   (\<And>b. b \<in> set (db_ballots s) \<Longrightarrow> br_vote_id b \<in> vm_vote_id ` set xs) \<Longrightarrow>
   (\<And>v a. (v, a) \<in> set (db_eligible s) \<Longrightarrow> v \<in> vm_vote_id ` set xs) \<Longrightarrow>
   store_wf (s\<lparr>db_votes := xs\<rparr>)"
  unfolding store_wf_defs store_views by auto

lemma wf_set_rooms [wf_intros]:
  "store_wf s \<Longrightarrow> distinct (map rr_room_id xs) \<Longrightarrow> distinct (map rr_name xs) \<Longrightarrow>
   (\<And>m. m \<in> set (db_messages s) \<Longrightarrow> mr_room_id m \<in> rr_room_id ` set xs) \<Longrightarrow>
   (\<And>r n. (r, n) \<in> set (db_sequences s) \<Longrightarrow> r \<in> rr_room_id ` set xs) \<Longrightarrow>
   (\<And>t. t \<in> set (db_tasks s) \<Longrightarrow> tk_room_id t \<in> rr_room_id ` set xs) \<Longrightarrow>
   (\<And>r p. r \<in> set xs \<Longrightarrow> rr_parent_id r = Some p \<Longrightarrow> p \<noteq> rr_room_id r \<and> p \<in> rr_room_id ` set xs) \<Longrightarrow>
   store_wf (s\<lparr>db_rooms := xs\<rparr>)"
  unfolding store_wf_defs store_views by auto

lemma wf_set_ballots [wf_intros]:
  "store_wf s \<Longrightarrow> distinct (map (\<lambda>b. (br_vote_id b, br_agent_id b)) xs) \<Longrightarrow>
   (\<And>b. b \<in> set xs \<Longrightarrow> br_vote_id b \<in> vm_vote_id ` set (db_votes s)) \<Longrightarrow> store_wf (s\<lparr>db_ballots := xs\<rparr>)"
  unfolding store_wf_defs store_views by simp

lemma wf_set_eligible [wf_intros]:
  "store_wf s \<Longrightarrow> distinct xs \<Longrightarrow> (\<And>v a. (v, a) \<in> set xs \<Longrightarrow> v \<in> vm_vote_id ` set (db_votes s)) \<Longrightarrow>
   store_wf (s\<lparr>db_eligible := xs\<rparr>)"
  unfolding store_wf_defs store_views by auto

lemma wf_set_subs [wf_intros]:
  "store_wf s \<Longrightarrow> distinct (map sr_id xs) \<Longrightarrow>
   (\<And>d. d \<in> set (db_deliveries s) \<Longrightarrow> dr_subscription_id d \<in> sr_id ` set xs) \<Longrightarrow>
   store_wf (s\<lparr>db_subs := xs\<rparr>)"
  unfolding store_wf_defs store_views by simp

lemma wf_set_deliveries [wf_intros]:
  "store_wf s \<Longrightarrow> distinct (map dr_delivery_id xs) \<Longrightarrow>
   distinct (map (\<lambda>d. (dr_subscription_id d, dr_message_seq d)) xs) \<Longrightarrow>
   (\<And>d. d \<in> set xs \<Longrightarrow> dr_subscription_id d \<in> sr_id ` set (db_subs s)) \<Longrightarrow>
   store_wf (s\<lparr>db_deliveries := xs\<rparr>)"
  unfolding store_wf_defs store_views by simp

lemma wf_set_grants [wf_intros]:
  "store_wf s \<Longrightarrow> distinct gs \<Longrightarrow> distinct (dm_keys c) \<Longrightarrow>
   (\<And>k r. r \<in> (case map_of c k of None \<Rightarrow> {} | Some rooms \<Rightarrow> rooms) \<longleftrightarrow> (k, r) \<in> set gs) \<Longrightarrow>
   store_wf (s\<lparr>db_grants := gs, grants_cache := c\<rparr>)"
  unfolding store_wf_defs store_views by simp

text \<open>Deleting rows together with their foreign-key actions.\<close>

lemma distinct_map_filter' [simp, intro]: "distinct (map f xs) \<Longrightarrow> distinct (map f (filter P xs))"
  by (rule distinct_map_filter)

end
