(* ===== verification/Store_Rooms.thy ===== *)
theory Store_Rooms
  imports Store_Base
begin

text \<open>
  The room half of \<open>store.rs\<close>: canonical names, creation, lookup, rename and destruction of rooms,
  the room-scoped deletes and their foreign-key actions, grants with their in-memory mirror, and the
  full access check of \<open>connection.rs\<close> that consults the mirror.
\<close>

subsection \<open>Names\<close>

definition MAX_ROOM_NAME_CHARS :: nat where
  "MAX_ROOM_NAME_CHARS = 100"

definition normalize_room_name :: "string \<Rightarrow> name_error + string" where
  "normalize_room_name name =
     (let normalized = trim name in
      if normalized = [] then Inl NameEmpty
      else if list_ex is_control (chars normalized) then Inl NameControl
      else if MAX_ROOM_NAME_CHARS < length (chars normalized) then Inl NameTooLong
      else Inr normalized)"

subsection \<open>Deletes with their foreign-key actions\<close>

text \<open>\<open>DELETE FROM messages\<close>: replies to a deleted message lose the reference (\<open>ON DELETE SET NULL\<close>).\<close>

definition forget_replies :: "string set \<Rightarrow> message_row \<Rightarrow> message_row" where
  "forget_replies dead m =
     (case mr_reply_to_message m of
        Some p \<Rightarrow> if p \<in> dead then m\<lparr>mr_reply_to_message := None\<rparr> else m
      | None \<Rightarrow> m)"

definition delete_messages_where :: "(message_row \<Rightarrow> bool) \<Rightarrow> store \<Rightarrow> store" where
  "delete_messages_where P s =
     (let dead = mr_message_id ` set (filter P (db_messages s)) in
      s\<lparr>db_messages := map (forget_replies dead) (filter (\<lambda>m. \<not> P m) (db_messages s))\<rparr>)"

text \<open>\<open>DELETE FROM votes\<close> and \<open>DELETE FROM subscriptions\<close> cascade to their dependent rows.\<close>

definition delete_votes_where :: "(vote_row \<Rightarrow> bool) \<Rightarrow> store \<Rightarrow> store" where
  "delete_votes_where P s =
     (let dead = vm_vote_id ` set (filter P (db_votes s)) in
      s\<lparr>db_ballots := filter (\<lambda>b. br_vote_id b \<notin> dead) (db_ballots s),
        db_eligible := filter (\<lambda>(v, _). v \<notin> dead) (db_eligible s),
        db_votes := filter (\<lambda>v. \<not> P v) (db_votes s)\<rparr>)"

definition delete_subscriptions_where :: "(subscription_row \<Rightarrow> bool) \<Rightarrow> store \<Rightarrow> store" where
  "delete_subscriptions_where P s =
     (let dead = sr_id ` set (filter P (db_subs s)) in
      s\<lparr>db_deliveries := filter (\<lambda>d. dr_subscription_id d \<notin> dead) (db_deliveries s),
        db_subs := filter (\<lambda>r. \<not> P r) (db_subs s)\<rparr>)"

text \<open>Tables that nothing refers to.\<close>

definition delete_deliveries_where :: "(delivery_row \<Rightarrow> bool) \<Rightarrow> store \<Rightarrow> store" where
  "delete_deliveries_where P s = s\<lparr>db_deliveries := filter (\<lambda>d. \<not> P d) (db_deliveries s)\<rparr>"

definition delete_ballots_where :: "(ballot_row \<Rightarrow> bool) \<Rightarrow> store \<Rightarrow> store" where
  "delete_ballots_where P s = s\<lparr>db_ballots := filter (\<lambda>b. \<not> P b) (db_ballots s)\<rparr>"

definition delete_eligible_where :: "(string \<Rightarrow> bool) \<Rightarrow> store \<Rightarrow> store" where
  "delete_eligible_where P s = s\<lparr>db_eligible := filter (\<lambda>(v, _). \<not> P v) (db_eligible s)\<rparr>"

definition delete_tasks_where :: "(task_info \<Rightarrow> bool) \<Rightarrow> store \<Rightarrow> store" where
  "delete_tasks_where P s = s\<lparr>db_tasks := filter (\<lambda>t. \<not> P t) (db_tasks s)\<rparr>"

definition delete_sequence_of :: "string \<Rightarrow> store \<Rightarrow> store" where
  "delete_sequence_of room_id s = s\<lparr>db_sequences := filter (\<lambda>(r, _). r \<noteq> room_id) (db_sequences s)\<rparr>"

definition delete_invites_where :: "(invite_row \<Rightarrow> bool) \<Rightarrow> store \<Rightarrow> store" where
  "delete_invites_where P s = s\<lparr>db_invites := filter (\<lambda>i. \<not> P i) (db_invites s)\<rparr>"

definition delete_grants_of :: "string \<Rightarrow> store \<Rightarrow> store" where
  "delete_grants_of room_id s = s\<lparr>db_grants := filter (\<lambda>(_, r). r \<noteq> room_id) (db_grants s)\<rparr>"

text \<open>\<open>DELETE FROM rooms WHERE room_id = ?1\<close>: children are detached, and messages, sequence and tasks
  of the room cascade.\<close>

definition detach :: "string \<Rightarrow> room_row \<Rightarrow> room_row" where
  "detach room_id r = (if rr_parent_id r = Some room_id then r\<lparr>rr_parent_id := None\<rparr> else r)"

definition delete_room_row :: "string \<Rightarrow> store \<Rightarrow> store" where
  "delete_room_row room_id s =
     (let s = delete_messages_where (\<lambda>m. mr_room_id m = room_id) s;
          s = delete_sequence_of room_id s;
          s = delete_tasks_where (\<lambda>t. tk_room_id t = room_id) s
      in s\<lparr>db_rooms := map (detach room_id) (filter (\<lambda>r. rr_room_id r \<noteq> room_id) (db_rooms s))\<rparr>)"

text \<open>The ten statements of \<open>delete_room_artifacts_in_transaction\<close>, in their order.\<close>

definition room_subs :: "string \<Rightarrow> store \<Rightarrow> string set" where
  "room_subs room_id s = sr_id ` set (filter (\<lambda>r. sr_room r = room_id) (db_subs s))"

definition room_votes :: "string \<Rightarrow> store \<Rightarrow> string set" where
  "room_votes room_id s = vm_vote_id ` set (filter (\<lambda>v. vm_room_id v = room_id) (db_votes s))"

definition delete_webhook_rows :: "string \<Rightarrow> store \<Rightarrow> store" where
  "delete_webhook_rows room_id s =
     (let s = delete_deliveries_where (\<lambda>d. dr_subscription_id d \<in> room_subs room_id s) s
      in delete_subscriptions_where (\<lambda>r. sr_room r = room_id) s)"

definition delete_vote_rows :: "string \<Rightarrow> store \<Rightarrow> store" where
  "delete_vote_rows room_id s =
     (let s = delete_ballots_where (\<lambda>b. br_vote_id b \<in> room_votes room_id s) s;
          s = delete_eligible_where (\<lambda>v. v \<in> room_votes room_id s) s
      in delete_votes_where (\<lambda>v. vm_room_id v = room_id) s)"

definition delete_room_artifacts_in_transaction :: "string \<Rightarrow> store \<Rightarrow> store" where
  "delete_room_artifacts_in_transaction room_id s =
     (let s = delete_webhook_rows room_id s;
          s = delete_vote_rows room_id s;
          s = delete_tasks_where (\<lambda>t. tk_room_id t = room_id) s;
          s = delete_messages_where (\<lambda>m. mr_room_id m = room_id) s;
          s = delete_sequence_of room_id s;
          s = delete_invites_where (\<lambda>i. ir_room_id i = room_id) s
      in delete_grants_of room_id s)"

definition detach_children_and_delete_room_artifacts :: "string \<Rightarrow> store \<Rightarrow> store" where
  "detach_children_and_delete_room_artifacts room_id s =
     delete_room_artifacts_in_transaction room_id
       (s\<lparr>db_rooms := map (detach room_id) (db_rooms s)\<rparr>)"

definition purge_room_grants_from_cache :: "string \<Rightarrow> store \<Rightarrow> store" where
  "purge_room_grants_from_cache room_id s =
     s\<lparr>grants_cache := dm_retain (\<lambda>_ rooms. rooms \<noteq> {})
         (dm_map (\<lambda>_ rooms. rooms - {room_id}) (grants_cache s))\<rparr>"

subsection \<open>Room operations\<close>

definition query_room_by_id :: "bool \<Rightarrow> string \<Rightarrow> store \<Rightarrow> store_error + room option" where
  "query_room_by_id fault room_id s =
     (if fault then Inl (SE_Db IoFault) else Inr (map_option map_room_row (room_find room_id s)))"

definition get_room :: "bool \<Rightarrow> string \<Rightarrow> store \<Rightarrow> store_error + room option" where
  "get_room fault room_id s = query_room_by_id fault room_id s"

text \<open>The constraints that \<open>INSERT INTO rooms\<close> runs into, in the order SQLite checks them.\<close>

definition insert_room_row :: "room_row \<Rightarrow> store \<Rightarrow> db_failure + store" where
  "insert_room_row row s =
     (if rr_parent_id row = Some (rr_room_id row) then Inl CheckFailed
      else if room_exists (rr_room_id row) s then Inl PrimaryKeyTaken
      else if rr_name row \<in> rr_name ` set (db_rooms s) then Inl UniqueTaken
      else if (case rr_parent_id row of None \<Rightarrow> False | Some p \<Rightarrow> \<not> room_exists p s) then Inl ForeignKeyFailed
      else Inr (s\<lparr>db_rooms := db_rooms s @ [row]\<rparr>))"

text \<open>The insertion commits by itself, so the room stays when reading it back fails.\<close>

definition create_room_with_visibility ::
    "bool \<Rightarrow> bool \<Rightarrow> int \<Rightarrow> string \<Rightarrow> string \<Rightarrow> string option \<Rightarrow> string option \<Rightarrow> string option \<Rightarrow> string
     \<Rightarrow> string option \<Rightarrow> bool \<Rightarrow> store \<Rightarrow> (store_error + room) \<times> store" where
  "create_room_with_visibility fault_insert fault_select now room_id name description parent_id
      created_by visibility owner_key encrypted s =
     (case normalize_room_name name of
        Inl e \<Rightarrow> (Inl (SE_InvalidRoomName e), s)
      | Inr name \<Rightarrow>
          let persisted_owner_key = (case owner_key of None \<Rightarrow> [] | Some k \<Rightarrow> k);
              row = \<lparr>rr_room_id = room_id, rr_name = name, rr_description = description,
                     rr_parent_id = parent_id, rr_created_by = created_by, rr_created_at = now,
                     rr_visibility = visibility, rr_owner_key = Some persisted_owner_key,
                     rr_encrypted = encrypted\<rparr>
          in if fault_insert then (Inl (SE_Db IoFault), s)
             else case insert_room_row row s of
               Inl UniqueTaken \<Rightarrow> (Inl (SE_RoomNameTaken name), s)
             | Inl e \<Rightarrow> (Inl (SE_Db e), s)
             | Inr s' \<Rightarrow>
                 (case query_room_by_id fault_select room_id s' of
                    Inl e \<Rightarrow> (Inl e, s')
                  | Inr None \<Rightarrow> (Inl (SE_Db NoRows), s')
                  | Inr (Some r) \<Rightarrow> (Inr r, s')))"

definition create_room ::
    "bool \<Rightarrow> bool \<Rightarrow> int \<Rightarrow> string \<Rightarrow> string \<Rightarrow> string option \<Rightarrow> string option \<Rightarrow> string option
     \<Rightarrow> store \<Rightarrow> (store_error + room) \<times> store" where
  "create_room fault_insert fault_select now room_id name description parent_id created_by s =
     create_room_with_visibility fault_insert fault_select now room_id name description parent_id
       created_by ''private'' None False s"

definition get_room_by_name :: "bool \<Rightarrow> string \<Rightarrow> store \<Rightarrow> store_error + room option" where
  "get_room_by_name fault name s =
     (if fault then Inl (SE_Db IoFault)
      else Inr (map_option map_room_row (row_find rr_name name (db_rooms s))))"

text \<open>\<open>ORDER BY name\<close> is the byte order.\<close>

definition list_rooms :: "bool \<Rightarrow> string option \<Rightarrow> store \<Rightarrow> store_error + room list" where
  "list_rooms fault parent_id s =
     (if fault then Inl (SE_Db IoFault)
      else Inr (map map_room_row (sort_key rr_name
             (case parent_id of
                Some pid \<Rightarrow> filter (\<lambda>r. rr_parent_id r = Some pid) (db_rooms s)
              | None \<Rightarrow> db_rooms s))))"

definition rename_room_authorized ::
    "bool \<Rightarrow> string \<Rightarrow> string \<Rightarrow> string \<Rightarrow> bool \<Rightarrow> string \<Rightarrow> store \<Rightarrow> (rename_error + room) \<times> store" where
  "rename_room_authorized fault room_id agent_id agent_api_key no_auth name s =
     (case normalize_room_name name of
        Inl e \<Rightarrow> (Inl (RE_InvalidName e), s)
      | Inr name \<Rightarrow>
          if fault then (Inl (RE_Db IoFault), s)
          else case room_find room_id s of
            None \<Rightarrow> (Inl RE_NotFound, s)
          | Some row \<Rightarrow>
              let room = map_room_row row in
              if rm_room_id room = ''lobby'' \<or> rm_created_by room = None then (Inl RE_ProtectedRoom, s)
              else if rm_created_by room \<noteq> Some agent_id
                    \<or> \<not> matches_room_owner (rm_owner_key room) agent_api_key no_auth
              then (Inl RE_AccessDenied, s)
              else if rm_name room \<noteq> name
              then (if name \<in> rr_name ` set (filter (\<lambda>r. rr_room_id r \<noteq> room_id) (db_rooms s))
                    then (Inl (RE_NameTaken name), s)
                    else (Inr (room\<lparr>rm_name := name\<rparr>),
                          s\<lparr>db_rooms := row_update rr_room_id room_id (\<lambda>r. r\<lparr>rr_name := name\<rparr>)
                                          (db_rooms s)\<rparr>))
              else (Inr room, s))"

definition destroy_room_authorized ::
    "bool \<Rightarrow> string \<Rightarrow> string \<Rightarrow> string \<Rightarrow> bool \<Rightarrow> store \<Rightarrow> (destroy_error + room) \<times> store" where
  "destroy_room_authorized fault room_id agent_id agent_api_key no_auth s =
     (if fault then (Inl (DE_Db IoFault), s)
      else case room_find room_id s of
        None \<Rightarrow> (Inl DE_NotFound, s)
      | Some row \<Rightarrow>
          let room = map_room_row row in
          if rm_room_id room = ''lobby'' \<or> rm_created_by room = None then (Inl DE_ProtectedRoom, s)
          else if rm_created_by room \<noteq> Some agent_id
                \<or> \<not> matches_room_owner (rm_owner_key room) agent_api_key no_auth
          then (Inl DE_AccessDenied, s)
          else
            let s' = detach_children_and_delete_room_artifacts room_id s;
                affected = length (filter (\<lambda>r. rr_room_id r = room_id) (db_rooms s'))
            in if affected \<noteq> 1 then (Inl DE_NotFound, s)
               else (Inr room, purge_room_grants_from_cache room_id (delete_room_row room_id s')))"

definition delete_room_artifacts :: "bool \<Rightarrow> string \<Rightarrow> store \<Rightarrow> (store_error + unit) \<times> store" where
  "delete_room_artifacts fault room_id s =
     (if fault then (Inl (SE_Db IoFault), s)
      else (Inr (), purge_room_grants_from_cache room_id (delete_room_artifacts_in_transaction room_id s)))"

subsection \<open>Grants\<close>

definition add_room_grant :: "bool \<Rightarrow> string \<Rightarrow> string \<Rightarrow> store \<Rightarrow> (store_error + unit) \<times> store" where
  "add_room_grant fault api_key room_id s =
     (if fault then (Inl (SE_Db IoFault), s)
      else (Inr (),
        s\<lparr>db_grants := (if (api_key, room_id) \<in> set (db_grants s) then db_grants s
                       else db_grants s @ [(api_key, room_id)]),
          grants_cache := dm_insert api_key (insert room_id (cached_grants s api_key))
                            (grants_cache s)\<rparr>))"

definition key_has_grant :: "string \<Rightarrow> string \<Rightarrow> store \<Rightarrow> bool" where
  "key_has_grant api_key room_id s \<longleftrightarrow> api_key \<noteq> [] \<and> room_id \<in> cached_grants s api_key"

definition granted_keys_for_room :: "string \<Rightarrow> store \<Rightarrow> string set" where
  "granted_keys_for_room room_id s =
     set (dm_keys (dm_retain (\<lambda>_ rooms. room_id \<in> rooms) (grants_cache s)))"

text \<open>\<open>can_access_room\<close> of \<open>connection.rs\<close>.\<close>

definition can_access_room :: "room \<Rightarrow> string \<Rightarrow> bool \<Rightarrow> store \<Rightarrow> bool" where
  "can_access_room room api_key auth_disabled s \<longleftrightarrow>
     can_access_room_parts (rm_visibility room) (rm_owner_key room) api_key auth_disabled
     \<or> key_has_grant api_key (rm_room_id room) s"

definition count_rooms_for_key :: "bool \<Rightarrow> string \<Rightarrow> store \<Rightarrow> store_error + nat" where
  "count_rooms_for_key fault api_key s =
     (if fault then Inl (SE_Db IoFault)
      else Inr (length (filter (\<lambda>r. rr_owner_key r = Some api_key) (db_rooms s))))"

definition list_rooms_for_key ::
    "bool \<Rightarrow> string option \<Rightarrow> string option \<Rightarrow> store \<Rightarrow> store_error + room list" where
  "list_rooms_for_key fault api_key parent_id s =
     (if fault then Inl (SE_Db IoFault)
      else Inr (map map_room_row (sort_key rr_name (filter
        (\<lambda>r. (case parent_id of Some pid \<Rightarrow> rr_parent_id r = Some pid | None \<Rightarrow> True)
            \<and> (rr_visibility r = ''public''
               \<or> (case api_key of
                     Some key \<Rightarrow> rr_owner_key r = Some key \<or> (key, rr_room_id r) \<in> set (db_grants s)
                   | None \<Rightarrow> False)))
        (db_rooms s)))))"

subsection \<open>Canonical names\<close>

lemma normalize_canonical:
  "normalize_room_name name = Inr m \<Longrightarrow>
     m = trim name \<and> m \<noteq> [] \<and> \<not> list_ex is_control (chars m) \<and> length (chars m) \<le> 100"
  by (auto simp: normalize_room_name_def Let_def MAX_ROOM_NAME_CHARS_def split: if_splits)

subsection \<open>The deletes keep the database consistent\<close>

lemma forget_replies_sel [simp]:
  "mr_rowid (forget_replies dead m) = mr_rowid m"
  "mr_message_id (forget_replies dead m) = mr_message_id m"
  "mr_room_id (forget_replies dead m) = mr_room_id m"
  "mr_seq (forget_replies dead m) = mr_seq m"
  "mr_created_at (forget_replies dead m) = mr_created_at m"
  "mr_content (forget_replies dead m) = mr_content m"
  by (simp_all add: forget_replies_def split: option.splits)

lemma forget_replies_reply:
  "mr_reply_to_message (forget_replies dead m) = Some p
     \<longleftrightarrow> mr_reply_to_message m = Some p \<and> p \<notin> dead"
  by (auto simp: forget_replies_def split: option.splits)

lemma map_forget_replies [simp]:
  "map mr_message_id (map (forget_replies dead) ms) = map mr_message_id ms"
  by simp

lemma delete_messages_sel [simp]:
  "db_rooms (delete_messages_where P s) = db_rooms s"
  "db_sequences (delete_messages_where P s) = db_sequences s"
  "db_tasks (delete_messages_where P s) = db_tasks s"
  "db_grants (delete_messages_where P s) = db_grants s"
  "grants_cache (delete_messages_where P s) = grants_cache s"
  "db_subs (delete_messages_where P s) = db_subs s"
  "db_votes (delete_messages_where P s) = db_votes s"
  "db_ballots (delete_messages_where P s) = db_ballots s"
  "db_eligible (delete_messages_where P s) = db_eligible s"
  "db_deliveries (delete_messages_where P s) = db_deliveries s"
  "db_invites (delete_messages_where P s) = db_invites s"
  "map mr_message_id (db_messages (delete_messages_where P s))
     = map mr_message_id (filter (\<lambda>m. \<not> P m) (db_messages s))"
  by (simp_all add: delete_messages_where_def Let_def)

lemma delete_messages_room_gone:
  "r \<notin> mr_room_id ` set (db_messages (delete_messages_where (\<lambda>m. mr_room_id m = r) s))"
  by (simp add: delete_messages_where_def Let_def image_image) auto

lemma wf_set_messages:
  assumes "store_wf s" "distinct (map mr_message_id ms)"
    and "\<And>m. m \<in> set ms \<Longrightarrow> room_exists (mr_room_id m) s"
    and "\<And>m p. m \<in> set ms \<Longrightarrow> mr_reply_to_message m = Some p \<Longrightarrow> p \<in> mr_message_id ` set ms"
    and "sorted_wrt (\<lambda>m m'. mr_rowid m < mr_rowid m'
            \<and> (mr_room_id m = mr_room_id m' \<longrightarrow> mr_seq m < mr_seq m')) ms"
    and "\<And>m. m \<in> set ms \<Longrightarrow> 0 < mr_seq m \<and> mr_seq m \<le> high_water s (mr_room_id m)"
  shows "store_wf (s\<lparr>db_messages := ms\<rparr>)"
  using assms unfolding store_wf_defs store_views by simp

lemma wf_set_sequences:
  assumes "store_wf s" "distinct (map fst qs)"
    and "\<And>r n. (r, n) \<in> set qs \<Longrightarrow> room_exists r s \<and> 0 \<le> n"
    and "\<And>m. m \<in> set (db_messages s) \<Longrightarrow>
        mr_seq m \<le> (case map_of qs (mr_room_id m) of Some n \<Rightarrow> n | None \<Rightarrow> 0)"
  shows "store_wf (s\<lparr>db_sequences := qs\<rparr>)"
  using assms unfolding store_wf_defs store_views by auto

lemma store_wfD:
  assumes "store_wf s"
  shows "distinct (map mr_message_id (db_messages s))"
    "distinct (map rr_room_id (db_rooms s))" "distinct (map rr_name (db_rooms s))"
    "m \<in> set (db_messages s) \<Longrightarrow> room_exists (mr_room_id m) s"
    "m \<in> set (db_messages s) \<Longrightarrow> mr_reply_to_message m = Some p \<Longrightarrow>
       p \<in> mr_message_id ` set (db_messages s)"
    "sorted_wrt (\<lambda>m m'. mr_rowid m < mr_rowid m'
        \<and> (mr_room_id m = mr_room_id m' \<longrightarrow> mr_seq m < mr_seq m')) (db_messages s)"
    "m \<in> set (db_messages s) \<Longrightarrow> 0 < mr_seq m \<and> mr_seq m \<le> high_water s (mr_room_id m)"
    "distinct (map vm_vote_id (db_votes s))"
    "distinct (map (\<lambda>b. (br_vote_id b, br_agent_id b)) (db_ballots s))"
    "distinct (db_eligible s)" "distinct (map tk_task_id (db_tasks s))"
    "distinct (map sr_id (db_subs s))" "distinct (map dr_delivery_id (db_deliveries s))"
    "distinct (map (\<lambda>d. (dr_subscription_id d, dr_message_seq d)) (db_deliveries s))"
    "distinct (map ir_token_hash (db_invites s))" "distinct (db_grants s)"
    "distinct (map fst (db_sequences s))" "(r, n) \<in> set (db_sequences s) \<Longrightarrow> room_exists r s \<and> 0 \<le> n"
    "t \<in> set (db_tasks s) \<Longrightarrow> room_exists (tk_room_id t) s"
    "b \<in> set (db_ballots s) \<Longrightarrow> br_vote_id b \<in> vm_vote_id ` set (db_votes s)"
    "(v, a) \<in> set (db_eligible s) \<Longrightarrow> v \<in> vm_vote_id ` set (db_votes s)"
    "d \<in> set (db_deliveries s) \<Longrightarrow> dr_subscription_id d \<in> sr_id ` set (db_subs s)"
    "row \<in> set (db_rooms s) \<Longrightarrow> rr_parent_id row = Some q \<Longrightarrow> q \<noteq> rr_room_id row \<and> room_exists q s"
    "distinct (dm_keys (grants_cache s))" "x \<in> cached_grants s k \<longleftrightarrow> (k, x) \<in> set (db_grants s)"
    "distinct (map ak_api_key (db_api_keys s))" "distinct (map id_agent_id (db_identities s))"
    "distinct (map ss_session_id (db_sessions s))"
  using assms unfolding store_wf_defs by auto

lemma wf_delete_messages [wf_intros]: "store_wf s \<Longrightarrow> store_wf (delete_messages_where P s)"
  unfolding delete_messages_where_def Let_def
proof (rule wf_set_messages, assumption)
  assume wf: "store_wf s"
  note D = store_wfD [OF wf]
  let ?dead = "mr_message_id ` set (filter P (db_messages s))"
  let ?kept = "filter (\<lambda>m. \<not> P m) (db_messages s)"
  show "distinct (map mr_message_id (map (forget_replies ?dead) ?kept))"
    using D(1) by (simp only: map_forget_replies distinct_map_filter)
  show "sorted_wrt (\<lambda>m m'. mr_rowid m < mr_rowid m'
      \<and> (mr_room_id m = mr_room_id m' \<longrightarrow> mr_seq m < mr_seq m')) (map (forget_replies ?dead) ?kept)"
    using D(6) by (simp add: sorted_wrt_map sorted_wrt_filter)
  fix m assume "m \<in> set (map (forget_replies ?dead) ?kept)"
  then obtain m' where m: "m = forget_replies ?dead m'" "m' \<in> set (db_messages s)" "\<not> P m'" by auto
  then show "room_exists (mr_room_id m) s" "0 < mr_seq m \<and> mr_seq m \<le> high_water s (mr_room_id m)"
    using D(4,7) by simp_all
  fix p assume "mr_reply_to_message m = Some p"
  with m have "mr_reply_to_message m' = Some p" "p \<notin> ?dead" by (simp_all add: forget_replies_reply)
  with D(5) m(2) show "p \<in> mr_message_id ` set (map (forget_replies ?dead) ?kept)"
    by (fastforce simp: image_image)
qed

lemma image_kept: "x \<in> f ` A \<Longrightarrow> x \<notin> f ` {y \<in> A. P y} \<Longrightarrow> x \<in> f ` {y \<in> A. \<not> P y}"
  by auto

lemma detach_sel [simp]:
  "rr_room_id (detach room_id r) = rr_room_id r" "rr_name (detach room_id r) = rr_name r"
  "rr_visibility (detach room_id r) = rr_visibility r" "rr_owner_key (detach room_id r) = rr_owner_key r"
  "rr_created_by (detach room_id r) = rr_created_by r"
  by (simp_all add: detach_def)

lemma detach_parent:
  "rr_parent_id (detach room_id r) = Some p \<longleftrightarrow> rr_parent_id r = Some p \<and> p \<noteq> room_id"
  by (auto simp: detach_def)

lemma wf_delete_votes [wf_intros]:
  assumes "store_wf s"
  shows "store_wf (delete_votes_where P s)"
proof -
  note D = store_wfD [OF assms]
  let ?dead = "vm_vote_id ` set (filter P (db_votes s))"
  let ?s = "s\<lparr>db_ballots := filter (\<lambda>b. br_vote_id b \<notin> ?dead) (db_ballots s),
      db_eligible := filter (\<lambda>(v, _). v \<notin> ?dead) (db_eligible s)\<rparr>"
  have "store_wf ?s" using D(9,10,20,21)
    by (intro wf_set_eligible wf_set_ballots assms) (auto simp:)
  then have "store_wf (?s\<lparr>db_votes := filter (\<lambda>v. \<not> P v) (db_votes ?s)\<rparr>)"
    using D(8,20,21) by (intro wf_set_votes) (auto intro!: image_kept [of _ _ _ P])
  then show ?thesis by (simp add: delete_votes_where_def Let_def)
qed

lemma wf_delete_subscriptions [wf_intros]:
  assumes "store_wf s"
  shows "store_wf (delete_subscriptions_where P s)"
proof -
  note D = store_wfD [OF assms]
  let ?dead = "sr_id ` set (filter P (db_subs s))"
  let ?s = "s\<lparr>db_deliveries := filter (\<lambda>d. dr_subscription_id d \<notin> ?dead) (db_deliveries s)\<rparr>"
  have "store_wf ?s" using D(13,14,22) by (intro wf_set_deliveries assms) auto
  then have "store_wf (?s\<lparr>db_subs := filter (\<lambda>r. \<not> P r) (db_subs ?s)\<rparr>)"
    using D(12,22) by (intro wf_set_subs) (auto intro!: image_kept [of _ _ _ P])
  then show ?thesis by (simp add: delete_subscriptions_where_def Let_def)
qed

lemma wf_delete_deliveries [wf_intros]: "store_wf s \<Longrightarrow> store_wf (delete_deliveries_where P s)"
  unfolding delete_deliveries_where_def
  by (rule wf_set_deliveries) (auto simp: store_wfD(13,14) intro: store_wfD(22))

lemma wf_delete_ballots [wf_intros]: "store_wf s \<Longrightarrow> store_wf (delete_ballots_where P s)"
  unfolding delete_ballots_where_def
  by (rule wf_set_ballots) (auto simp: store_wfD(9) intro: store_wfD(20))

lemma wf_delete_eligible [wf_intros]: "store_wf s \<Longrightarrow> store_wf (delete_eligible_where P s)"
  unfolding delete_eligible_where_def
  by (rule wf_set_eligible) (auto simp: store_wfD(10) intro: store_wfD(21))

lemma wf_delete_tasks [wf_intros]: "store_wf s \<Longrightarrow> store_wf (delete_tasks_where P s)"
  unfolding delete_tasks_where_def
  by (rule wf_set_tasks) (auto simp: store_wfD(11) intro: store_wfD(19))

lemma wf_delete_invites [wf_intros]: "store_wf s \<Longrightarrow> store_wf (delete_invites_where P s)"
  unfolding delete_invites_where_def
  by (rule wf_set_invites) (auto simp: store_wfD(15))

lemma wf_delete_sequence_of:
  assumes "store_wf s" "room_id \<notin> mr_room_id ` set (db_messages s)"
  shows "store_wf (delete_sequence_of room_id s)"
  unfolding delete_sequence_of_def
  using assms(2) store_wfD(7,17,18) [OF assms(1)]
  by (intro wf_set_sequences [OF assms(1)]) (auto simp: dm_lookup_retain_key high_water_def)


lemma wf_detach_children [wf_intros]:
  assumes "store_wf s"
  shows "store_wf (s\<lparr>db_rooms := map (detach room_id) (db_rooms s)\<rparr>)"
proof -
  note D = store_wfD [OF assms]
  have ids: "rr_room_id ` set (map (detach room_id) (db_rooms s)) = rr_room_id ` set (db_rooms s)"
    by (simp add: image_image)
  show ?thesis
  proof (rule wf_set_rooms [OF assms], unfold ids)
    show "distinct (map rr_room_id (map (detach room_id) (db_rooms s)))"
      "distinct (map rr_name (map (detach room_id) (db_rooms s)))"
      using D(2,3) by (simp_all add: comp_def)
    show "\<And>m. m \<in> set (db_messages s) \<Longrightarrow> mr_room_id m \<in> rr_room_id ` set (db_rooms s)"
      using D(4) by (simp add: room_exists_def)
    show "\<And>r n. (r, n) \<in> set (db_sequences s) \<Longrightarrow> r \<in> rr_room_id ` set (db_rooms s)"
      using D(18) by (simp add: room_exists_def)
    show "\<And>t. t \<in> set (db_tasks s) \<Longrightarrow> tk_room_id t \<in> rr_room_id ` set (db_rooms s)"
      using D(19) by (simp add: room_exists_def)
    fix r p assume "r \<in> set (map (detach room_id) (db_rooms s))" "rr_parent_id r = Some p"
    then show "p \<noteq> rr_room_id r \<and> p \<in> rr_room_id ` set (db_rooms s)"
      using D(23) by (auto simp: room_exists_def detach_parent dest: D(23))
  qed
qed

lemma wf_delete_room_row [wf_intros]:
  assumes "store_wf s"
  shows "store_wf (delete_room_row room_id s)"
proof -
  let ?s = "delete_messages_where (\<lambda>m. mr_room_id m = room_id) s"
  let ?t = "delete_tasks_where (\<lambda>t. tk_room_id t = room_id) (delete_sequence_of room_id ?s)"
  let ?rs = "map (detach room_id) (filter (\<lambda>r. rr_room_id r \<noteq> room_id) (db_rooms ?t))"
  have gone: "m \<in> set (db_messages ?t) \<Longrightarrow> mr_room_id m \<noteq> room_id" for m
    by (auto simp: delete_messages_where_def delete_sequence_of_def delete_tasks_where_def Let_def)
  have wf: "store_wf ?t"
    by (intro wf_delete_tasks wf_delete_sequence_of wf_delete_messages delete_messages_room_gone assms)
  note D = store_wfD [OF wf]
  have ids: "rr_room_id ` set ?rs = rr_room_id ` set (db_rooms ?t) - {room_id}"
    by (auto simp: image_image)
  have "store_wf (?t\<lparr>db_rooms := ?rs\<rparr>)"
  proof (rule wf_set_rooms [OF wf])
    show "distinct (map rr_room_id ?rs)" "distinct (map rr_name ?rs)"
      using D(2,3) by (simp_all add: comp_def)
    show "\<And>m. m \<in> set (db_messages ?t) \<Longrightarrow> mr_room_id m \<in> rr_room_id ` set ?rs"
      unfolding ids using D(4) gone by (auto simp: room_exists_def)
    show "\<And>r n. (r, n) \<in> set (db_sequences ?t) \<Longrightarrow> r \<in> rr_room_id ` set ?rs"
      unfolding ids using D(18) by (auto simp: room_exists_def delete_sequence_of_def delete_tasks_where_def)
    show "\<And>t. t \<in> set (db_tasks ?t) \<Longrightarrow> tk_room_id t \<in> rr_room_id ` set ?rs"
      unfolding ids using D(19) by (auto simp: room_exists_def delete_tasks_where_def)
    show "\<And>r p. r \<in> set ?rs \<Longrightarrow> rr_parent_id r = Some p \<Longrightarrow> p \<noteq> rr_room_id r \<and> p \<in> rr_room_id ` set ?rs"
      unfolding ids using D(23) by (auto simp: room_exists_def detach_parent dest: D(23))
  qed
  then show ?thesis by (simp add: delete_room_row_def Let_def)
qed

text \<open>The statement on \<open>room_grants\<close> is consistent only together with the purge of the mirror.\<close>

lemma wf_grants_and_cache:
  assumes "store_wf s"
  shows "store_wf (purge_room_grants_from_cache room_id (delete_grants_of room_id s))"
proof -
  note D = store_wfD [OF assms]
  let ?c = "dm_retain (\<lambda>_ rooms. rooms \<noteq> {}) (dm_map (\<lambda>_ rooms. rooms - {room_id}) (grants_cache s))"
  have "store_wf (s\<lparr>db_grants := filter (\<lambda>(_, r). r \<noteq> room_id) (db_grants s), grants_cache := ?c\<rparr>)"
  proof (rule wf_set_grants [OF assms])
    fix k r
    have "r \<in> (case map_of ?c k of None \<Rightarrow> {} | Some rooms \<Rightarrow> rooms) \<longleftrightarrow> r \<in> cached_grants s k \<and> r \<noteq> room_id"
      using D(24) by (auto simp: cached_grants_def dm_lookup_retain split: option.splits)
    then show "r \<in> (case map_of ?c k of None \<Rightarrow> {} | Some rooms \<Rightarrow> rooms)
        \<longleftrightarrow> (k, r) \<in> set (filter (\<lambda>(_, r). r \<noteq> room_id) (db_grants s))"
      using D(25) by auto
  qed (use D in \<open>simp_all\<close>)
  then show ?thesis by (simp add: purge_room_grants_from_cache_def delete_grants_of_def)
qed

text \<open>All statements of the artifact deletion but the last.\<close>

definition artifacts_but_grants :: "string \<Rightarrow> store \<Rightarrow> store" where
  "artifacts_but_grants room_id s =
     (let s = delete_vote_rows room_id (delete_webhook_rows room_id s);
          s = delete_tasks_where (\<lambda>t. tk_room_id t = room_id) s;
          s = delete_sequence_of room_id (delete_messages_where (\<lambda>m. mr_room_id m = room_id) s)
      in delete_invites_where (\<lambda>i. ir_room_id i = room_id) s)"

lemma artifacts_split:
  "delete_room_artifacts_in_transaction room_id s = delete_grants_of room_id (artifacts_but_grants room_id s)"
  by (simp add: delete_room_artifacts_in_transaction_def artifacts_but_grants_def Let_def)

lemma wf_artifacts_but_grants [wf_intros]:
  assumes "store_wf s"
  shows "store_wf (artifacts_but_grants room_id s)"
  unfolding artifacts_but_grants_def delete_vote_rows_def delete_webhook_rows_def Let_def
  by (intro wf_intros wf_delete_sequence_of delete_messages_room_gone assms)

lemma wf_artifacts_purged [wf_intros]:
  "store_wf s \<Longrightarrow>
   store_wf (purge_room_grants_from_cache room_id (delete_room_artifacts_in_transaction room_id s))"
  unfolding artifacts_split by (intro wf_grants_and_cache wf_intros)

lemma delete_room_row_commutes:
  "purge_room_grants_from_cache room_id (delete_room_row room_id (delete_grants_of room_id s))
     = purge_room_grants_from_cache room_id (delete_grants_of room_id (delete_room_row room_id s))"
  by (simp add: purge_room_grants_from_cache_def delete_room_row_def delete_grants_of_def
      delete_messages_where_def delete_sequence_of_def delete_tasks_where_def Let_def)

lemma wf_destroy_room [wf_intros]:
  assumes "store_wf s"
  shows "store_wf (snd (destroy_room_authorized fault room_id agent_id key no_auth s))"
proof -
  have "store_wf (purge_room_grants_from_cache room_id (delete_room_row room_id
      (detach_children_and_delete_room_artifacts room_id s)))"
    unfolding detach_children_and_delete_room_artifacts_def artifacts_split delete_room_row_commutes
    by (intro wf_grants_and_cache wf_intros assms)
  then show ?thesis using assms
    by (auto simp: destroy_room_authorized_def Let_def split: option.splits)
qed

lemma wf_delete_room_artifacts [wf_intros]:
  "store_wf s \<Longrightarrow> store_wf (snd (delete_room_artifacts fault room_id s))"
  by (simp add: delete_room_artifacts_def wf_artifacts_purged)

lemma insert_room_row_Inr:
  "insert_room_row row s = Inr s' \<Longrightarrow>
     s' = s\<lparr>db_rooms := db_rooms s @ [row]\<rparr> \<and> \<not> room_exists (rr_room_id row) s
     \<and> rr_name row \<notin> rr_name ` set (db_rooms s) \<and> rr_parent_id row \<noteq> Some (rr_room_id row)
     \<and> (\<forall>p. rr_parent_id row = Some p \<longrightarrow> room_exists p s)"
  by (auto simp: insert_room_row_def split: if_splits option.splits)

lemma insert_room_row_find:
  assumes "insert_room_row row s = Inr s'"
  shows "room_find (rr_room_id row) s' = Some row"
proof -
  note I = insert_room_row_Inr [OF assms]
  then have "row_find rr_room_id (rr_room_id row) (db_rooms s) = None" by (simp add: room_exists_def)
  then show ?thesis using I by (simp add: room_find_def row_find_append room_exists_def)
qed

lemma wf_insert_room_row:
  assumes "store_wf s" "insert_room_row row s = Inr s'"
  shows "store_wf s'"
proof -
  note D = store_wfD [OF assms(1)]
  note I = insert_room_row_Inr [OF assms(2)]
  then have "s' = s\<lparr>db_rooms := db_rooms s @ [row]\<rparr>" by simp
  moreover have "store_wf (s\<lparr>db_rooms := db_rooms s @ [row]\<rparr>)"
    using I D(2,3,4,18,19) by (intro wf_set_rooms assms(1)) (auto simp: room_exists_def dest: D(23))
  ultimately show ?thesis by simp
qed

lemma create_room_cases:
  obtains (bad_name) e where "normalize_room_name name = Inl e"
      "create_room_with_visibility fi fs now rid name d p cb v ok enc s = (Inl (SE_InvalidRoomName e), s)"
  | (failed) n e where "normalize_room_name name = Inr n"
      "create_room_with_visibility fi fs now rid name d p cb v ok enc s = (Inl e, s)"
  | (made) n row s' res where "normalize_room_name name = Inr n"
      "row = \<lparr>rr_room_id = rid, rr_name = n, rr_description = d, rr_parent_id = p, rr_created_by = cb,
         rr_created_at = now, rr_visibility = v,
         rr_owner_key = Some (case ok of None \<Rightarrow> [] | Some k \<Rightarrow> k), rr_encrypted = enc\<rparr>"
      "insert_room_row row s = Inr s'"
      "res = (if fs then Inl (SE_Db IoFault) else Inr (map_room_row row))"
      "create_room_with_visibility fi fs now rid name d p cb v ok enc s = (res, s')"
proof (cases "normalize_room_name name")
  case (Inl e)
  then show ?thesis by (intro bad_name) (simp_all add: create_room_with_visibility_def)
next
  case (Inr n)
  let ?row = "\<lparr>rr_room_id = rid, rr_name = n, rr_description = d, rr_parent_id = p, rr_created_by = cb,
         rr_created_at = now, rr_visibility = v,
         rr_owner_key = Some (case ok of None \<Rightarrow> [] | Some k \<Rightarrow> k), rr_encrypted = enc\<rparr>"
  show ?thesis
  proof (cases "fi \<or> (\<exists>e. insert_room_row ?row s = Inl e)")
    case True
    then have "\<exists>e. create_room_with_visibility fi fs now rid name d p cb v ok enc s = (Inl e, s)"
      using Inr by (auto simp: create_room_with_visibility_def Let_def split: db_failure.split)
    then show ?thesis using failed Inr by blast
  next
    case False
    then obtain s' where s': "insert_room_row ?row s = Inr s'" by (cases "insert_room_row ?row s") auto
    from insert_room_row_find [OF s'] have "room_find rid s' = Some ?row" by simp
    with Inr s' False show ?thesis
      by (intro made [of n ?row s' "if fs then Inl (SE_Db IoFault) else Inr (map_room_row ?row)"])
        (simp_all add: create_room_with_visibility_def Let_def query_room_by_id_def)
  qed
qed

lemma wf_create_room [wf_intros]:
  "store_wf s \<Longrightarrow> store_wf (snd (create_room_with_visibility fi fs now rid name d p cb v ok enc s))"
  by (rule create_room_cases [of name fi fs now rid d p cb v ok enc s]) (auto dest: wf_insert_room_row)

lemma distinct_row_update_other:
  assumes "distinct (map key rows)" "distinct (map g rows)"
    and "n \<notin> g ` set (filter (\<lambda>r. key r \<noteq> k) rows)" "\<And>r. g (f r) = n"
  shows "distinct (map g (row_update key k f rows))"
  using assms
proof (induction rows)
  case (Cons r rows)
  have same: "row_update key k f rows = rows" if "k \<notin> key ` set rows"
    using that by (auto simp: row_update_def intro!: map_idI)
  show ?case
  proof (cases "key r = k")
    case True
    with Cons.prems have "k \<notin> key ` set rows" by auto
    moreover from this have "filter (\<lambda>r. key r \<noteq> k) rows = rows"
      by (intro filter_True) (auto simp: image_iff)
    ultimately show ?thesis using True Cons.prems same by (simp add: row_update_def)
  next
    case False
    with Cons have "distinct (map g (row_update key k f rows))" by auto
    moreover have "g r \<noteq> g (if key x = k then f x else x)" if "x \<in> set rows" for x
      using False Cons.prems that by (cases "key x = k") auto
    then have "g r \<notin> g ` set (row_update key k f rows)" unfolding row_update_def by fastforce
    moreover have "row_update key k f (r # rows) = r # row_update key k f rows"
      using False by (simp add: row_update_def)
    ultimately show ?thesis by simp
  qed
qed (simp add: row_update_def)

lemma wf_rename_room [wf_intros]:
  assumes "store_wf s"
  shows "store_wf (snd (rename_room_authorized fault rid aid key no_auth name s))"
proof -
  note D = store_wfD [OF assms]
  have rn: "store_wf (s\<lparr>db_rooms := row_update rr_room_id rid (\<lambda>r. r\<lparr>rr_name := n\<rparr>) (db_rooms s)\<rparr>)"
    (is "store_wf (s\<lparr>db_rooms := ?rs\<rparr>)")
    if "n \<notin> rr_name ` set (filter (\<lambda>r. rr_room_id r \<noteq> rid) (db_rooms s))" for n
  proof (rule wf_set_rooms [OF assms])
    have ids: "rr_room_id ` set ?rs = rr_room_id ` set (db_rooms s)"
      by (metis (no_types, lifting) list.set_map row_update_keys room_row.select_convs(1)
          room_row.surjective room_row.update_convs(2))
    show "distinct (map rr_room_id ?rs)" using D(2) by simp
    show "distinct (map rr_name ?rs)"
      using D(2,3) that by (intro distinct_row_update_other) auto
    show "\<And>m. m \<in> set (db_messages s) \<Longrightarrow> mr_room_id m \<in> rr_room_id ` set ?rs"
      "\<And>r n. (r, n) \<in> set (db_sequences s) \<Longrightarrow> r \<in> rr_room_id ` set ?rs"
      "\<And>t. t \<in> set (db_tasks s) \<Longrightarrow> tk_room_id t \<in> rr_room_id ` set ?rs"
      unfolding ids using D(4,18,19) by (auto simp: room_exists_def)
    show "\<And>r p. r \<in> set ?rs \<Longrightarrow> rr_parent_id r = Some p \<Longrightarrow> p \<noteq> rr_room_id r \<and> p \<in> rr_room_id ` set ?rs"
      unfolding ids using D(23) by (auto simp: room_exists_def row_update_def split: if_splits dest: D(23))
  qed
  show ?thesis using assms rn
    by (auto simp: rename_room_authorized_def Let_def split: option.splits sum.splits)
qed

lemma wf_add_room_grant [wf_intros]:
  assumes "store_wf s"
  shows "store_wf (snd (add_room_grant fault key rid s))"
proof -
  note D = store_wfD [OF assms]
  have "store_wf (s\<lparr>db_grants := (if (key, rid) \<in> set (db_grants s) then db_grants s
           else db_grants s @ [(key, rid)]),
      grants_cache := dm_insert key (insert rid (cached_grants s key)) (grants_cache s)\<rparr>)"
    using D(16,24,25) by (intro wf_set_grants assms) (auto simp: cached_grants_def)
  then show ?thesis using assms by (simp add: add_room_grant_def)
qed

subsection \<open>What the operations do\<close>

lemma trim_Nil [simp]: "trim [] = []"
  by (simp add: trim_def trim_seqs_def)

text \<open>A canonical room name is its own canonical form; it is not empty, has at most 100 characters,
  none of them a control character, and no white space at either end. Two spellings that differ only
  in white space around them are one name.\<close>

lemma normalize_room_name_canonical:
  assumes "normalize_room_name name = Inr canonical"
  shows "normalize_room_name canonical = Inr canonical
    \<and> chars canonical \<noteq> [] \<and> length (chars canonical) \<le> 100
    \<and> \<not> list_ex is_control (chars canonical)
    \<and> \<not> is_whitespace (hd (chars canonical)) \<and> \<not> is_whitespace (last (chars canonical))
    \<and> (\<forall>name'. trim name' = trim name \<longrightarrow> normalize_room_name name' = Inr canonical)"
proof -
  from normalize_canonical [OF assms] have c: "canonical = trim name" "canonical \<noteq> []"
    "\<not> list_ex is_control (chars canonical)" "length (chars canonical) \<le> 100" by auto
  from c(2) have ne: "chars canonical \<noteq> []" by (cases canonical) simp_all
  then have "trim_seqs (chars name) \<noteq> []" using c(1) by (simp add: chars_trim)
  from trim_seqs_ends [OF this] have "\<not> is_whitespace (hd (chars canonical))
      \<and> \<not> is_whitespace (last (chars canonical))" by (simp add: c(1) chars_trim)
  moreover have "\<forall>name'. trim name' = trim name \<longrightarrow> normalize_room_name name' = Inr canonical"
    using assms by (simp add: normalize_room_name_def)
  moreover have "trim canonical = trim name" by (simp add: c(1) trim_idem)
  ultimately show ?thesis using c(3,4) ne by blast
qed

lemma normalize_room_name_canonical_witness:
  "normalize_room_name ''  dev room'' = Inr ''dev room''
   \<and> normalize_room_name ''dev room'' = Inr ''dev room''"
proof -
  have "normalize_room_name ''  dev room'' = Inr ''dev room''"
    by (simp add: normalize_room_name_def trim_def trim_seqs_def is_whitespace_def is_cont_def byte_def
        is_control_def Let_def MAX_ROOM_NAME_CHARS_def)
  with normalize_room_name_canonical [OF this] show ?thesis by simp
qed

lemma destroy_room_cases:
  obtains (refused) e where "destroy_room_authorized fault rid aid key no_auth s = (Inl e, s)"
      "fault \<or> rid = ''lobby'' \<or> (\<forall>row. room_find rid s = Some row \<longrightarrow>
         rr_created_by row \<noteq> Some aid \<or> \<not> matches_room_owner (rm_owner_key (map_room_row row)) key no_auth)
       \<or> length (filter (\<lambda>r. rr_room_id r = rid) (db_rooms (detach_children_and_delete_room_artifacts rid s))) \<noteq> 1"
  | (destroyed) row where "room_find rid s = Some row" "\<not> fault" "rid \<noteq> ''lobby''"
      "rr_created_by row = Some aid" "matches_room_owner (rm_owner_key (map_room_row row)) key no_auth"
      "destroy_room_authorized fault rid aid key no_auth s = (Inr (map_room_row row),
         purge_room_grants_from_cache rid (delete_room_row rid
           (detach_children_and_delete_room_artifacts rid s)))"
proof (cases "room_find rid s")
  case None
  then show ?thesis
    by (intro refused [of "if fault then DE_Db IoFault else DE_NotFound"])
      (simp_all add: destroy_room_authorized_def)
next
  case (Some row)
  then have id: "rr_room_id row = rid" by (auto dest: room_find_SomeD)
  show ?thesis
  proof (cases "\<exists>room. fst (destroy_room_authorized fault rid aid key no_auth s) = Inr room")
    case True
    with Some id show ?thesis
      by (intro destroyed [of row])
        (auto simp: destroy_room_authorized_def Let_def split: if_splits)
  next
    case False
    then obtain e where e: "destroy_room_authorized fault rid aid key no_auth s = (Inl e, s)"
      using Some by (auto simp: destroy_room_authorized_def Let_def split: if_splits)
    with Some id show ?thesis
      by (intro refused [of e]) (auto simp: destroy_room_authorized_def Let_def split: if_splits)
  qed
qed

lemma distinct_count_one:
  "distinct (map f xs) \<Longrightarrow> x \<in> set xs \<Longrightarrow> length (filter (\<lambda>y. f y = f x) xs) = 1"
proof (induction xs)
  case (Cons y ys)
  show ?case
  proof (cases "f y = f x")
    case True
    with Cons.prems have "filter (\<lambda>y. f y = f x) ys = []"
      by (auto simp: filter_empty_conv image_iff)
    with True show ?thesis by simp
  next
    case False
    with Cons show ?thesis by auto
  qed
qed simp

lemma artifacts_rooms [simp]:
  "db_rooms (detach_children_and_delete_room_artifacts rid s) = map (detach rid) (db_rooms s)"
  by (simp add: detach_children_and_delete_room_artifacts_def delete_room_artifacts_in_transaction_def
      delete_webhook_rows_def delete_vote_rows_def delete_messages_where_def delete_sequence_of_def
      delete_invites_where_def delete_grants_of_def delete_tasks_where_def delete_votes_where_def
      delete_subscriptions_where_def delete_deliveries_where_def delete_ballots_where_def
      delete_eligible_where_def Let_def)

text \<open>C26. Renaming or destroying is for the recorded creator with the owning credential: a room is
  destroyed exactly when it exists, is not the lobby or another system room, and the caller is its
  creator and presents the key that owns it. Every other attempt, on a public room or with a granted
  key included, leaves the store as it was.\<close>

theorem destroy_room_authority:
  assumes "store_wf s"
  shows "(if \<not> fault \<and> room_id \<noteq> ''lobby''
             \<and> (\<exists>row \<in> set (db_rooms s). rr_room_id row = room_id \<and> rr_created_by row = Some agent_id
                  \<and> matches_room_owner (rm_owner_key (map_room_row row)) key no_auth)
          then \<exists>room. fst (destroy_room_authorized fault room_id agent_id key no_auth s) = Inr room
                 \<and> rm_room_id room = room_id
          else \<exists>e. destroy_room_authorized fault room_id agent_id key no_auth s = (Inl e, s))"
proof -
  note ids = store_wfD(2) [OF assms]
  have found: "room_find room_id s = Some row \<longleftrightarrow> row \<in> set (db_rooms s) \<and> rr_room_id row = room_id" for row
    using row_find_unique [OF ids] by (simp add: room_find_def)
  show ?thesis
  proof (rule destroy_room_cases [of fault room_id agent_id key no_auth s])
    fix e
    assume *: "destroy_room_authorized fault room_id agent_id key no_auth s = (Inl e, s)"
    have "length (filter (\<lambda>r. rr_room_id r = room_id) (map (detach room_id) (db_rooms s))) = 1"
      if "row \<in> set (db_rooms s)" "rr_room_id row = room_id" for row
      using distinct_count_one [OF ids that(1)] that(2) by (simp add: filter_map comp_def)
    moreover assume "fault \<or> room_id = ''lobby'' \<or> (\<forall>row. room_find room_id s = Some row \<longrightarrow>
         rr_created_by row \<noteq> Some agent_id
         \<or> \<not> matches_room_owner (rm_owner_key (map_room_row row)) key no_auth)
       \<or> length (filter (\<lambda>r. rr_room_id r = room_id)
            (db_rooms (detach_children_and_delete_room_artifacts room_id s))) \<noteq> 1"
    ultimately show ?thesis using * by (auto simp: found)
  next
    fix row
    assume "room_find room_id s = Some row"
    with found have "row \<in> set (db_rooms s)" "rr_room_id row = room_id" by auto
    moreover assume "\<not> fault" "room_id \<noteq> ''lobby''" "rr_created_by row = Some agent_id"
      "matches_room_owner (rm_owner_key (map_room_row row)) key no_auth"
      "destroy_room_authorized fault room_id agent_id key no_auth s = (Inr (map_room_row row),
         purge_room_grants_from_cache room_id (delete_room_row room_id
           (detach_children_and_delete_room_artifacts room_id s)))"
    ultimately show ?thesis by auto
  qed
qed

text \<open>The specification of destruction: the database with everything of one room taken out, children
  detached and replies into the room cleared.\<close>

definition without_room :: "string \<Rightarrow> store \<Rightarrow> store" where
  "without_room rid s = s\<lparr>
     db_rooms := map (detach rid) (filter (\<lambda>r. rr_room_id r \<noteq> rid) (db_rooms s)),
     db_messages := map (forget_replies (mr_message_id ` set (filter (\<lambda>m. mr_room_id m = rid) (db_messages s))))
       (filter (\<lambda>m. mr_room_id m \<noteq> rid) (db_messages s)),
     db_sequences := filter (\<lambda>(r, _). r \<noteq> rid) (db_sequences s),
     db_votes := filter (\<lambda>v. vm_room_id v \<noteq> rid) (db_votes s),
     db_ballots := filter (\<lambda>b. br_vote_id b \<notin> room_votes rid s) (db_ballots s),
     db_eligible := filter (\<lambda>(v, _). v \<notin> room_votes rid s) (db_eligible s),
     db_tasks := filter (\<lambda>t. tk_room_id t \<noteq> rid) (db_tasks s),
     db_subs := filter (\<lambda>r. sr_room r \<noteq> rid) (db_subs s),
     db_deliveries := filter (\<lambda>d. dr_subscription_id d \<notin> room_subs rid s) (db_deliveries s),
     db_invites := filter (\<lambda>i. ir_room_id i \<noteq> rid) (db_invites s),
     db_grants := filter (\<lambda>(_, r). r \<noteq> rid) (db_grants s)\<rparr>"

lemmas delete_defs = delete_webhook_rows_def delete_vote_rows_def delete_messages_where_def
  delete_sequence_of_def delete_invites_where_def delete_grants_of_def delete_tasks_where_def
  delete_votes_where_def delete_subscriptions_where_def delete_deliveries_where_def
  delete_ballots_where_def delete_eligible_where_def

lemma forget_replies_none [simp]: "forget_replies {} m = m"
  by (simp add: forget_replies_def split: option.splits)

lemma detach_idem [simp]: "detach rid (detach rid r) = detach rid r"
  by (simp add: detach_def)

lemma destroyed_store:
  "delete_room_row rid (detach_children_and_delete_room_artifacts rid s) = without_room rid s"
  by (simp add: detach_children_and_delete_room_artifacts_def delete_room_artifacts_in_transaction_def
      delete_room_row_def delete_defs without_room_def room_subs_def room_votes_def Let_def
      filter_map comp_def case_prod_unfold conj_commute)

lemma destroy_room_store:
  assumes "destroy_room_authorized fault rid aid key no_auth s = (Inr room, s')"
  shows "s' = purge_room_grants_from_cache rid (without_room rid s)"
    "rm_room_id room = rid" "\<exists>row \<in> set (db_rooms s). room = map_room_row row \<and> rr_room_id row = rid"
  using assms
  by (cases rule: destroy_room_cases [of fault rid aid key no_auth s];
      auto simp: destroyed_store dest: room_find_SomeD)+

lemma destroy_room_refused:
  "destroy_room_authorized fault rid aid key no_auth s = (Inl e, s') \<Longrightarrow> s' = s"
  by (cases rule: destroy_room_cases [of fault rid aid key no_auth s]) simp_all

lemma purge_cached_grants:
  "distinct (dm_keys (grants_cache s)) \<Longrightarrow>
   cached_grants (purge_room_grants_from_cache rid s) k = cached_grants s k - {rid}"
  by (auto simp: cached_grants_def purge_room_grants_from_cache_def dm_lookup_retain split: option.splits)

text \<open>C3. A successful destruction is exactly the removal of one room: nothing of it is left in any of
  the eleven tables it may occur in or in the grant cache, every row of another room is untouched
  but for references into the destroyed one, and the database stays consistent.\<close>

theorem destroy_room_effect:
  assumes "store_wf s" "destroy_room_authorized fault room_id agent_id key no_auth s = (Inr room, s')"
  shows "s' = (without_room room_id s)\<lparr>grants_cache := grants_cache s'\<rparr>
    \<and> (\<forall>k. cached_grants s' k = cached_grants s k - {room_id})
    \<and> \<not> room_exists room_id s'
    \<and> store_wf s'"
proof -
  note s' = destroy_room_store(1) [OF assms(2)]
  have "store_wf s'" using wf_destroy_room [OF assms(1)] assms(2) by (metis snd_conv)
  moreover have "cached_grants s' k = cached_grants s k - {room_id}" for k
    using purge_cached_grants [of "without_room room_id s"] store_wfD(24) [OF assms(1)]
    by (simp add: s' without_room_def cached_grants_def)
  moreover have "\<not> room_exists room_id s'"
    by (simp add: s' purge_room_grants_from_cache_def without_room_def room_exists_def image_image) auto
  ultimately show ?thesis by (simp add: s' purge_room_grants_from_cache_def)
qed

text \<open>The lists of rooms.\<close>

lemma can_access_room_row:
  "can_access_room (map_room_row r) key no_auth s
     \<longleftrightarrow> no_auth \<or> rr_visibility r = ''public''
         \<or> (case rr_owner_key r of None \<Rightarrow> False
            | Some k \<Rightarrow> k \<noteq> LEGACY_UNOWNED_OWNER_KEY \<and> k = key)
         \<or> key_has_grant key (rr_room_id r) s"
  by (cases no_auth; cases "rr_owner_key r")
     (auto simp: can_access_room_def can_access_room_parts_def map_room_row_def acc_simps)

text \<open>C27. The SQL listing and the access check agree: the rooms listed for a key are the rooms this
  key may access, in the order of their names. This needs that the key is not the legacy marker
  and, for a keyless caller, that no grant was ever issued to the empty key.\<close>

theorem list_rooms_for_key_is_access:
  assumes "store_wf s" "key \<noteq> LEGACY_UNOWNED_OWNER_KEY" "key = [] \<longrightarrow> cached_grants s [] = {}"
  shows "\<exists>rooms. list_rooms_for_key False (Some key) None s = Inr rooms
    \<and> set rooms = {map_room_row r | r. r \<in> set (db_rooms s) \<and> can_access_room (map_room_row r) key False s}
    \<and> sorted (map rm_name rooms) \<and> distinct (map rm_name rooms)"
proof -
  let ?P = "\<lambda>r. rr_visibility r = ''public'' \<or> rr_owner_key r = Some key
      \<or> (key, rr_room_id r) \<in> set (db_grants s)"
  let ?rooms = "map map_room_row (sort_key rr_name (filter ?P (db_rooms s)))"
  have list: "list_rooms_for_key False (Some key) None s = Inr ?rooms"
    by (simp add: list_rooms_for_key_def)
  have names: "map rm_name ?rooms = map rr_name (sort_key rr_name (filter ?P (db_rooms s)))"
    by (simp add: comp_def)
  have access: "?P r \<longleftrightarrow> can_access_room (map_room_row r) key False s" for r
    using assms(2,3) store_wfD(25) [OF assms(1), of _ key]
    by (auto simp: can_access_room_row key_has_grant_def split: option.splits)
  have "distinct (map rr_name (filter ?P (db_rooms s)))"
    using store_wfD(3) [OF assms(1)] by simp
  then have "distinct (map rm_name ?rooms)"
    unfolding names by (simp add: distinct_map)
  moreover have "sorted (map rm_name ?rooms)" unfolding names by (rule sorted_sort_key)
  moreover have "set ?rooms = {map_room_row r | r. r \<in> set (db_rooms s)
      \<and> can_access_room (map_room_row r) key False s}"
    using access by (auto simp: image_iff)
  ultimately show ?thesis using list by blast
qed

subsection \<open>A small store\<close>

text \<open>The store the witnesses run on: one private room, made by agent \<open>a1\<close> with the key \<open>k1\<close>.\<close>

definition demo_room :: room_row where
  "demo_room = \<lparr>rr_room_id = ''r1'', rr_name = ''dev'', rr_description = None, rr_parent_id = None,
     rr_created_by = Some ''a1'', rr_created_at = 0, rr_visibility = ''private'',
     rr_owner_key = Some ''k1'', rr_encrypted = False\<rparr>"

definition demo_store :: store where
  "demo_store = store_empty\<lparr>db_rooms := [demo_room]\<rparr>"

lemma demo_room_sel [simp]:
  "rr_room_id demo_room = ''r1''" "rr_name demo_room = ''dev''" "rr_parent_id demo_room = None"
  "rr_created_by demo_room = Some ''a1''" "rr_visibility demo_room = ''private''"
  "rr_owner_key demo_room = Some ''k1''" "rm_owner_key (map_room_row demo_room) = Some ''k1''"
  by (simp_all add: demo_room_def map_room_row_def)

lemma demo_store_wf [simp]: "store_wf demo_store"
  unfolding demo_store_def by (intro wf_set_rooms store_empty_wf) simp_all

lemma demo_store_sel [simp]:
  "db_rooms demo_store = [demo_room]" "db_messages demo_store = []" "db_sequences demo_store = []"
  "db_grants demo_store = []" "grants_cache demo_store = []" "db_subs demo_store = []"
  "db_votes demo_store = []" "room_find ''r1'' demo_store = Some demo_room"
  by (simp_all add: demo_store_def room_find_def)

lemma demo_store_k1: "matches_room_owner (Some ''k1'') ''k1'' False" "''k1'' \<noteq> LEGACY_UNOWNED_OWNER_KEY"
  by (simp_all add: matches_room_owner_def LEGACY_UNOWNED_OWNER_KEY_def)

theorem destroy_room_authority_witness:
  "(\<exists>room. fst (destroy_room_authorized False ''r1'' ''a1'' ''k1'' False demo_store) = Inr room)
   \<and> (\<exists>e. destroy_room_authorized False ''r1'' ''a2'' ''k1'' False demo_store = (Inl e, demo_store))"
  using destroy_room_authority [OF demo_store_wf, of False "''r1''" "''a1''" "''k1''" False]
    destroy_room_authority [OF demo_store_wf, of False "''r1''" "''a2''" "''k1''" False]
  by (auto simp: demo_store_k1)

theorem destroy_room_effect_witness:
  "\<exists>room s'. destroy_room_authorized False ''r1'' ''a1'' ''k1'' False demo_store = (Inr room, s')
     \<and> \<not> room_exists ''r1'' s' \<and> store_wf s'"
proof -
  obtain room s' where run:
    "destroy_room_authorized False ''r1'' ''a1'' ''k1'' False demo_store = (Inr room, s')"
    by (cases "destroy_room_authorized False ''r1'' ''a1'' ''k1'' False demo_store")
       (auto simp: destroy_room_authorized_def Let_def demo_store_k1 split: if_splits)
  with destroy_room_effect [OF demo_store_wf run] show ?thesis by blast
qed

theorem list_rooms_for_key_is_access_witness:
  "\<exists>rooms. list_rooms_for_key False (Some ''k1'') None demo_store = Inr rooms
     \<and> set rooms = {map_room_row demo_room}"
  using list_rooms_for_key_is_access [OF demo_store_wf demo_store_k1(2)]
  by (auto simp: can_access_room_row demo_store_k1)

end
