(* ===== verification/Seq_Log.thy ===== *)
theory Seq_Log
  imports Prelude
begin

text \<open>
  The interface \<open>seq_log\<close>: what a reader of a room's message log relies on. A reader keeps a cursor, asks
  for the messages behind it, a page at a time, and moves the cursor to the last message of the page:
  the webhook backfill of \<open>handle_subscribe\<close> does so until a page is short or empty, clients that poll
  with \<open>since_seq\<close> do so while the log grows. The store provides it (\<open>Store_Messages\<close>).
\<close>

locale seq_log =
  fixes valid :: "'s \<Rightarrow> bool"
    and log :: "'s \<Rightarrow> 'r \<Rightarrow> 'm list"
    and num :: "'m \<Rightarrow> int"
    and page :: "'s \<Rightarrow> 'r \<Rightarrow> int \<Rightarrow> nat \<Rightarrow> 'm list"
  assumes log_sorted: "valid s \<Longrightarrow> sorted_wrt (\<lambda>m m'. num m < num m') (log s r)"
    and page_eq: "valid s \<Longrightarrow> page s r cursor n = take n (filter (\<lambda>m. cursor < num m) (log s r))"
begin

text \<open>A reader keeps a cursor: after a page it is the number of the page's last message.\<close>

definition next_cursor :: "int \<Rightarrow> 'm list \<Rightarrow> int" where
  "next_cursor cursor ms = (if ms = [] then cursor else num (last ms))"

text \<open>Paging until an empty page, with fuel.\<close>

fun drain :: "nat \<Rightarrow> 's \<Rightarrow> 'r \<Rightarrow> int \<Rightarrow> nat \<Rightarrow> 'm list" where
  "drain 0 s r cursor n = []"
| "drain (Suc fuel) s r cursor n =
     (let ms = page s r cursor n in
      if ms = [] then [] else ms @ drain fuel s r (next_cursor cursor ms) n)"

lemma next_page:
  assumes "sorted_wrt (\<lambda>m m'. num m < num m') (xs @ ys)" "xs \<noteq> []"
    and "\<forall>m \<in> set (xs @ ys). cursor < num m"
  shows "filter (\<lambda>m. next_cursor cursor xs < num m) (xs @ ys) = ys"
proof -
  have "\<forall>m \<in> set xs. \<not> num (last xs) < num m"
  proof
    fix m assume "m \<in> set xs"
    moreover have "xs = butlast xs @ [last xs]" using assms(2) by simp
    ultimately have "m \<in> set (butlast xs) \<or> m = last xs" by (metis UnE empty_set list.set(2) set_append singletonD)
    moreover have "sorted_wrt (\<lambda>m m'. num m < num m') (butlast xs @ [last xs])"
      using assms(1,2) by (simp add: sorted_wrt_append)
    ultimately show "\<not> num (last xs) < num m" by (auto simp: sorted_wrt_append)
  qed
  moreover have "\<forall>m \<in> set ys. num (last xs) < num m"
    using assms(1,2) by (simp add: sorted_wrt_append)
  ultimately show ?thesis using assms(2) by (simp add: next_cursor_def)
qed

lemma filter_next_cursor:
  assumes "valid s" "page s r cursor n \<noteq> []"
  shows "filter (\<lambda>m. next_cursor cursor (page s r cursor n) < num m) (log s r)
       = drop n (filter (\<lambda>m. cursor < num m) (log s r))"
proof -
  let ?ms = "filter (\<lambda>m. cursor < num m) (log s r)"
  have p: "page s r cursor n = take n ?ms" by (rule page_eq [OF assms(1)])
  have ge: "cursor \<le> next_cursor cursor (take n ?ms)"
  proof (cases "take n ?ms = []")
    case False
    then have "last (take n ?ms) \<in> set (take n ?ms)" by (rule last_in_set)
    then have "last (take n ?ms) \<in> set ?ms" by (rule in_set_takeD)
    then have "cursor < num (last (take n ?ms))" by simp
    with False show ?thesis unfolding next_cursor_def by simp
  qed (simp add: next_cursor_def)
  have "filter (\<lambda>m. next_cursor cursor (take n ?ms) < num m) ?ms = drop n ?ms"
  proof -
    have td: "take n ?ms @ drop n ?ms = ?ms" by (rule append_take_drop_id)
    have "sorted_wrt (\<lambda>m m'. num m < num m') ?ms" by (rule sorted_wrt_filter [OF log_sorted [OF assms(1)]])
    moreover have "take n ?ms \<noteq> []" using assms(2) p by argo
    moreover have "\<forall>m \<in> set ?ms. cursor < num m" by simp
    ultimately show ?thesis
      using next_page [of "take n ?ms" "drop n ?ms" cursor] unfolding td by blast
  qed
  moreover have "filter (\<lambda>m. next_cursor cursor (take n ?ms) < num m) ?ms
      = filter (\<lambda>m. next_cursor cursor (take n ?ms) < num m) (log s r)"
    using ge by (auto intro: filter_cong)
  ultimately show ?thesis using p by simp
qed

text \<open>Paging delivers every message behind the cursor exactly once and in order, whatever the page
  size, once the fuel exceeds the number of messages.\<close>

lemma drain_all:
  assumes "valid s" "0 < n" "length (filter (\<lambda>m. cursor < num m) (log s r)) < fuel"
  shows "drain fuel s r cursor n = filter (\<lambda>m. cursor < num m) (log s r)"
  using assms(3)
proof (induction fuel arbitrary: cursor)
  case 0
  then show ?case by simp
next
  case (Suc fuel)
  let ?ms = "filter (\<lambda>m. cursor < num m) (log s r)"
  have p: "page s r cursor n = take n ?ms" by (rule page_eq [OF assms(1)])
  show ?case
  proof (cases "page s r cursor n = []")
    case True
    with p assms(2) have "?ms = []" by simp
    with True show ?thesis by simp
  next
    case False
    note f = filter_next_cursor [OF assms(1) False]
    have "length ?ms \<noteq> 0" using False p by auto
    then have "length (drop n ?ms) < fuel" using Suc.prems assms(2) unfolding length_drop by linarith
    with f have "drain fuel s r (next_cursor cursor (page s r cursor n)) n = drop n ?ms"
      using Suc.IH by metis
    with False p show ?thesis by (simp add: Let_def)
  qed
qed

text \<open>A reader that polls while the log grows: one page at each of a sequence of states.\<close>

fun follow :: "'s list \<Rightarrow> 'r \<Rightarrow> int \<Rightarrow> nat \<Rightarrow> 'm list" where
  "follow [] r cursor n = []"
| "follow (s # ss) r cursor n =
     (let ms = page s r cursor n in ms @ follow ss r (next_cursor cursor ms) n)"

fun grows :: "'s list \<Rightarrow> 'r \<Rightarrow> bool" where
  "grows (s # s' # ss) r \<longleftrightarrow> (\<exists>new. log s' r = log s r @ new) \<and> grows (s' # ss) r"
| "grows _ r \<longleftrightarrow> True"

text \<open>What it has read is an initial part, in order and without gap or repetition, of what lies behind
  its first cursor in the last state.\<close>

lemma follow_prefix:
  assumes "\<forall>s \<in> set ss. valid s" "grows ss r" "ss \<noteq> []"
  shows "\<exists>rest. filter (\<lambda>m. cursor < num m) (log (last ss) r) = follow ss r cursor n @ rest"
  using assms
proof (induction ss arbitrary: cursor)
  case (Cons s ss)
  let ?p = "page s r cursor n"
  have v: "valid s" using Cons.prems by simp
  have p: "?p = take n (filter (\<lambda>m. cursor < num m) (log s r))" by (rule page_eq [OF v])
  show ?case
  proof (cases "ss = []")
    case True
    then show ?thesis using p by (simp add: Let_def) (metis append_take_drop_id)
  next
    case False
    then obtain s' ss' where ss: "ss = s' # ss'" by (cases ss) auto
    have g: "grows ss r" using Cons.prems(2) ss by simp
    have grown: "\<exists>new. log (last us) r = log u r @ new" if "grows (u # us') r" "us = u # us'" for u us us'
      using that
    proof (induction us' arbitrary: u us)
      case (Cons w us')
      then have "\<exists>new. log (last (w # us')) r = log w r @ new" by auto
      with Cons.prems show ?case by auto
    qed simp
    obtain new where new: "log (last ss) r = log s r @ new"
      using grown [of s ss "s # ss"] Cons.prems(2) ss by auto
    have lv: "valid (last ss)" using Cons.prems(1) False by simp
    obtain rest where rest: "filter (\<lambda>m. next_cursor cursor ?p < num m) (log (last ss) r)
        = follow ss r (next_cursor cursor ?p) n @ rest"
      using Cons.IH [OF _ g False] Cons.prems(1) by fastforce
    have "filter (\<lambda>m. cursor < num m) (log (last ss) r)
        = ?p @ filter (\<lambda>m. next_cursor cursor ?p < num m) (log (last ss) r)"
    proof (cases "?p = []")
      case True
      then show ?thesis by (simp add: next_cursor_def)
    next
      case pne: False
      let ?all = "filter (\<lambda>m. cursor < num m) (log (last ss) r)"
      let ?k = "length ?p"
      have pre: "?p = take ?k ?all" using p new by (simp add: min_def)
      have "page (last ss) r cursor ?k = ?p" using page_eq [OF lv] pre by metis
      with filter_next_cursor [OF lv, of r cursor ?k] pne
      have "filter (\<lambda>m. next_cursor cursor ?p < num m) (log (last ss) r) = drop ?k ?all" by simp
      then show ?thesis using pre by (metis append_take_drop_id)
    qed
    with rest False show ?thesis by (simp add: Let_def)
  qed
qed simp

end

end
