(* ===== verification/Store_Messages.thy ===== *)
theory Store_Messages
  imports Store_Rooms Seq_Log
begin

text \<open>
  The message half of \<open>store.rs\<close>: sequence allocation and insertion, the history queries, retention by
  tier. A room's log is read through the interface \<open>seq_log\<close>, interpreted here on the store.
\<close>

subsection \<open>Operations\<close>

definition next_rowid :: "message_row list \<Rightarrow> int" where
  "next_rowid ms = 1 + foldr max (map mr_rowid ms) 0"

text \<open>\<open>INSERT OR IGNORE INTO room_sequences\<close>: a conflict is ignored, a missing room is not.\<close>

definition ensure_sequence :: "string \<Rightarrow> store \<Rightarrow> db_failure + store" where
  "ensure_sequence room_id s =
     (if map_of (db_sequences s) room_id \<noteq> None then Inr s
      else if \<not> room_exists room_id s then Inl ForeignKeyFailed
      else Inr (s\<lparr>db_sequences := db_sequences s @ [(room_id, 0)]\<rparr>))"

text \<open>\<open>INSERT INTO messages\<close>, with the triggers \<open>prevent_message_seq_regression\<close> (before) and
  \<open>advance_message_seq_high_water\<close> (after); a foreign key is checked at the end of the statement, so a
  message may name itself.\<close>

definition insert_message_row :: "message_row \<Rightarrow> store \<Rightarrow> db_failure + store" where
  "insert_message_row m s =
     (if mr_seq m \<le> high_water s (mr_room_id m) then Inl TriggerAborted
      else if mr_message_id m \<in> mr_message_id ` set (db_messages s) then Inl PrimaryKeyTaken
      else if \<not> room_exists (mr_room_id m) s
            \<or> (case mr_reply_to_message m of None \<Rightarrow> False
               | Some p \<Rightarrow> p \<noteq> mr_message_id m \<and> p \<notin> mr_message_id ` set (db_messages s))
      then Inl ForeignKeyFailed
      else Inr (s\<lparr>db_messages := db_messages s @ [m],
                 db_sequences := AList.update (mr_room_id m)
                   (max (high_water s (mr_room_id m)) (mr_seq m)) (db_sequences s)\<rparr>))"

definition insert_message ::
    "bool \<Rightarrow> int \<Rightarrow> string \<Rightarrow> string \<Rightarrow> string \<Rightarrow> string \<Rightarrow> string \<Rightarrow> string option \<Rightarrow> json \<Rightarrow> store
     \<Rightarrow> (store_error + chat_message) \<times> store" where
  "insert_message fault now message_id room_id agent_id agent_name content reply_to_message metadata s =
     (if fault then (Inl (SE_Db IoFault), s)
      else case ensure_sequence room_id s of
        Inl e \<Rightarrow> (Inl (SE_Db e), s)
      | Inr s1 \<Rightarrow>
          let seq = high_water s1 room_id + 1;
              row = \<lparr>mr_rowid = next_rowid (db_messages s1), mr_message_id = message_id,
                     mr_room_id = room_id, mr_agent_id = agent_id, mr_agent_name = agent_name,
                     mr_content = content, mr_reply_to_message = reply_to_message,
                     mr_metadata = metadata, mr_created_at = now, mr_seq = seq\<rparr>
          in case insert_message_row row s1 of
               Inl e \<Rightarrow> (Inl (SE_Db e), s)
             | Inr s2 \<Rightarrow> (Inr (map_message_row row), s2))"

definition room_tip :: "bool \<Rightarrow> string \<Rightarrow> store \<Rightarrow> store_error + int" where
  "room_tip fault room_id s = (if fault then Inl (SE_Db IoFault) else Inr (high_water s room_id))"

text \<open>The rows of one room, in \<open>rowid\<close> order.\<close>

abbreviation room_rows :: "string \<Rightarrow> store \<Rightarrow> message_row list" where
  "room_rows room_id s \<equiv> filter (\<lambda>m. mr_room_id m = room_id) (db_messages s)"

text \<open>\<open>since_seq\<close> goes before \<open>since\<close>, \<open>since\<close> before \<open>before\<close>. An unknown \<open>since\<close> compares with NULL
  and selects nothing.\<close>

definition get_history_filtered ::
    "bool \<Rightarrow> string \<Rightarrow> nat \<Rightarrow> int option \<Rightarrow> string option \<Rightarrow> int option \<Rightarrow> store
     \<Rightarrow> store_error + chat_message list" where
  "get_history_filtered fault room_id limit before since since_seq s =
     (if fault then Inl (SE_Db IoFault)
      else case since_seq of
        Some seq_floor \<Rightarrow>
          Inr (map map_message_row (take limit (sort_key mr_seq
                (filter (\<lambda>m. seq_floor < mr_seq m) (room_rows room_id s)))))
      | None \<Rightarrow>
          (case since of
             Some since_id \<Rightarrow>
               (case row_find mr_message_id since_id (db_messages s) of
                  None \<Rightarrow> Inr []
                | Some r \<Rightarrow>
                    Inr (map map_message_row (take limit (sort_key (\<lambda>m. (mr_created_at m, mr_rowid m))
                          (filter (\<lambda>m. mr_rowid r < mr_rowid m) (room_rows room_id s))))))
           | None \<Rightarrow>
               Inr (rev (map map_message_row (take limit (rev (sort_key (\<lambda>m. (mr_created_at m, mr_rowid m))
                     (filter (\<lambda>m. case before of Some t \<Rightarrow> mr_created_at m < t | None \<Rightarrow> True)
                       (room_rows room_id s)))))))))"

definition get_history ::
    "bool \<Rightarrow> string \<Rightarrow> nat \<Rightarrow> int option \<Rightarrow> store \<Rightarrow> store_error + chat_message list" where
  "get_history fault room_id limit before s = get_history_filtered fault room_id limit before None None s"

definition get_history_since ::
    "bool \<Rightarrow> string \<Rightarrow> nat \<Rightarrow> int option \<Rightarrow> string option \<Rightarrow> store \<Rightarrow> store_error + chat_message list" where
  "get_history_since fault room_id limit before since s =
     get_history_filtered fault room_id limit before since None s"

definition get_message :: "bool \<Rightarrow> string \<Rightarrow> store \<Rightarrow> store_error + chat_message option" where
  "get_message fault message_id s =
     (if fault then Inl (SE_Db IoFault)
      else Inr (map_option map_message_row (row_find mr_message_id message_id (db_messages s))))"

text \<open>The tier of a room: that of the key that owns it, \<open>free\<close> when there is no such key. The age is
  the magnitude of the SQLite modifier, in milliseconds.\<close>

definition room_tier :: "store \<Rightarrow> string \<Rightarrow> string" where
  "room_tier s room_id =
     (case Option.bind (Option.bind (room_find room_id s) rr_owner_key)
             (\<lambda>k. row_find ak_api_key k (db_api_keys s)) of
        Some a \<Rightarrow> ak_tier a | None \<Rightarrow> ''free'')"

definition purge_messages_by_tier ::
    "bool \<Rightarrow> int \<Rightarrow> string \<Rightarrow> int \<Rightarrow> store \<Rightarrow> (store_error + nat) \<times> store" where
  "purge_messages_by_tier fault now tier age s =
     (if fault then (Inl (SE_Db IoFault), s)
      else
        let old = (\<lambda>m. room_exists (mr_room_id m) s \<and> room_tier s (mr_room_id m) = tier
                     \<and> mr_created_at m < now - age)
        in (Inr (length (filter old (db_messages s))), delete_messages_where old s))"

subsection \<open>Consistency\<close>

lemma next_rowid_greater: "m \<in> set ms \<Longrightarrow> mr_rowid m < next_rowid ms"
  by (induction ms) (auto simp: next_rowid_def)

lemma ensure_sequence_Inr:
  assumes "ensure_sequence rid s = Inr s1"
  shows "high_water s1 r = high_water s r" "db_messages s1 = db_messages s" "db_rooms s1 = db_rooms s"
    "room_exists r s1 = room_exists r s" "store_wf s \<Longrightarrow> store_wf s1"
    "grants_cache s1 = grants_cache s" "cached_grants s1 = cached_grants s"
proof -
  from assms consider "s1 = s"
    | "s1 = s\<lparr>db_sequences := db_sequences s @ [(rid, 0)]\<rparr>" "room_exists rid s"
      "map_of (db_sequences s) rid = None"
    by (auto simp: ensure_sequence_def split: if_splits)
  then have "high_water s1 r = high_water s r \<and> db_messages s1 = db_messages s \<and> db_rooms s1 = db_rooms s
    \<and> (store_wf s \<longrightarrow> store_wf s1) \<and> grants_cache s1 = grants_cache s"
  proof cases
    case 2
    have hw: "(case map_of (db_sequences s @ [(rid, 0)]) r' of Some n \<Rightarrow> n | None \<Rightarrow> 0) = high_water s r'" for r'
      using 2(3) by (auto simp: high_water_def map_add_def split: option.splits)
    have "store_wf (s\<lparr>db_sequences := db_sequences s @ [(rid, 0)]\<rparr>)" if wf: "store_wf s"
      using 2 store_wfD(7,17,18) [OF wf]
      by (intro wf_set_sequences [OF wf]) (auto simp: hw [simplified] map_of_eq_None_iff)
    with 2 hw show ?thesis by (simp add: high_water_def)
  qed simp
  then show "high_water s1 r = high_water s r" "db_messages s1 = db_messages s" "db_rooms s1 = db_rooms s"
    "room_exists r s1 = room_exists r s" "store_wf s \<Longrightarrow> store_wf s1"
    "grants_cache s1 = grants_cache s" "cached_grants s1 = cached_grants s"
    by (auto simp: room_exists_def cached_grants_def)
qed

lemma insert_message_row_Inr:
  assumes "insert_message_row m s = Inr s'"
  shows "s' = s\<lparr>db_messages := db_messages s @ [m],
      db_sequences := AList.update (mr_room_id m) (mr_seq m) (db_sequences s)\<rparr>"
    "high_water s (mr_room_id m) < mr_seq m"
    "mr_message_id m \<notin> mr_message_id ` set (db_messages s)" "room_exists (mr_room_id m) s"
    "mr_reply_to_message m = Some p \<Longrightarrow> p = mr_message_id m \<or> p \<in> mr_message_id ` set (db_messages s)"
  using assms by (auto simp: insert_message_row_def max_def split: if_splits option.splits)

lemma high_water_insert_row:
  "insert_message_row m s = Inr s' \<Longrightarrow>
   high_water s' r = (if r = mr_room_id m then mr_seq m else high_water s r)"
  by (drule insert_message_row_Inr(1)) (simp add: high_water_def)

lemma entry_update: "e \<in> set (AList.update k v m) \<Longrightarrow> e = (k, v) \<or> e \<in> set m"
  by (induction m) (auto split: if_splits)

lemma wf_insert_message_row:
  assumes wf: "store_wf s" and ins: "insert_message_row m s = Inr s'"
    and rowid: "mr_rowid m = next_rowid (db_messages s)"
  shows "store_wf s'"
proof -
  note D = store_wfD [OF wf]
  note I = insert_message_row_Inr [OF ins]
  let ?qs = "AList.update (mr_room_id m) (mr_seq m) (db_sequences s)"
  have pos: "0 \<le> high_water s (mr_room_id m)"
    using D(18) by (auto simp: high_water_def split: option.splits dest: map_of_SomeD)
  have hw: "(case map_of ?qs r of Some n \<Rightarrow> n | None \<Rightarrow> 0)
      = (if r = mr_room_id m then mr_seq m else high_water s r)" for r
    by (simp add: high_water_def)
  have le: "x \<in> set (db_messages s) \<Longrightarrow> mr_seq x \<le> (if mr_room_id x = mr_room_id m then mr_seq m
      else high_water s (mr_room_id x))" for x
    using D(7) [of x] I(2) by auto
  have entries: "(r, n) \<in> set ?qs \<Longrightarrow> (r = mr_room_id m \<and> n = mr_seq m) \<or> (r, n) \<in> set (db_sequences s)" for r n
    by (auto dest: entry_update)
  have "store_wf (s\<lparr>db_sequences := ?qs\<rparr>)" (is "store_wf ?s1")
  proof (rule wf_set_sequences [OF wf])
    show "distinct (map fst ?qs)" using D(17) by simp
    show "(r, n) \<in> set ?qs \<Longrightarrow> room_exists r s \<and> 0 \<le> n" for r n
      using I(2,4) pos D(18) by (auto dest!: entries)
    show "x \<in> set (db_messages s) \<Longrightarrow> mr_seq x
        \<le> (case map_of ?qs (mr_room_id x) of Some n \<Rightarrow> n | None \<Rightarrow> 0)" for x
      using le [of x] by (simp only: hw)
  qed
  then have "store_wf (?s1\<lparr>db_messages := db_messages s @ [m]\<rparr>)"
  proof (rule wf_set_messages)
    show "distinct (map mr_message_id (db_messages s @ [m]))" using D(1) I(3) by simp
    show "x \<in> set (db_messages s @ [m]) \<Longrightarrow> room_exists (mr_room_id x) ?s1" for x
      using D(4) I(4) by (auto simp: room_exists_def)
    show "x \<in> set (db_messages s @ [m]) \<Longrightarrow> mr_reply_to_message x = Some p
        \<Longrightarrow> p \<in> mr_message_id ` set (db_messages s @ [m])" for x p
      using D(5) I(5) by auto
    show "sorted_wrt (\<lambda>m m'. mr_rowid m < mr_rowid m'
        \<and> (mr_room_id m = mr_room_id m' \<longrightarrow> mr_seq m < mr_seq m')) (db_messages s @ [m])"
      using D(6,7) I(2) rowid next_rowid_greater
      by (fastforce simp: sorted_wrt_append)
    have hw1: "high_water ?s1 r = (if r = mr_room_id m then mr_seq m else high_water s r)" for r
      by (simp add: high_water_def)
    fix x assume "x \<in> set (db_messages s @ [m])"
    then show "0 < mr_seq x \<and> mr_seq x \<le> high_water ?s1 (mr_room_id x)"
      using D(7) [of x] le [of x] I(2) pos unfolding hw1 by auto
  qed
  moreover have "s' = ?s1\<lparr>db_messages := db_messages s @ [m]\<rparr>"
    by (rule store.equality) (simp_all add: I(1))
  ultimately show ?thesis by simp
qed

lemma insert_message_cases:
  obtains (failed) e where "insert_message fault now mid rid aid an c rp md s = (Inl e, s)"
  | (stored) s1 row s2 where "ensure_sequence rid s = Inr s1" "insert_message_row row s1 = Inr s2"
      "row = \<lparr>mr_rowid = next_rowid (db_messages s1), mr_message_id = mid, mr_room_id = rid,
         mr_agent_id = aid, mr_agent_name = an, mr_content = c, mr_reply_to_message = rp,
         mr_metadata = md, mr_created_at = now, mr_seq = high_water s1 rid + 1\<rparr>"
      "insert_message fault now mid rid aid an c rp md s = (Inr (map_message_row row), s2)"
proof (cases "insert_message fault now mid rid aid an c rp md s")
  case (Pair r s')
  then show ?thesis
    by (cases r; auto simp: insert_message_def Let_def intro: failed stored split: if_splits sum.splits)
qed

lemma wf_insert_message [wf_intros]:
  "store_wf s \<Longrightarrow> store_wf (snd (insert_message fault now mid rid aid an c rp md s))"
  by (rule insert_message_cases [of fault now mid rid aid an c rp md s])
     (auto dest!: ensure_sequence_Inr(5) intro: wf_insert_message_row)

lemma wf_purge [wf_intros]: "store_wf s \<Longrightarrow> store_wf (snd (purge_messages_by_tier fault now tier age s))"
  by (simp add: purge_messages_by_tier_def Let_def wf_delete_messages)

lemma insert_message_high_water:
  "high_water (snd (insert_message fault now mid rid aid an c rp md s)) r
     = high_water s r + (if r = rid \<and> (\<exists>m. fst (insert_message fault now mid rid aid an c rp md s) = Inr m)
                         then 1 else 0)"
  by (rule insert_message_cases [of fault now mid rid aid an c rp md s])
     (auto simp: high_water_insert_row ensure_sequence_Inr(1))

lemma insert_message_rooms [simp]:
  "db_rooms (snd (insert_message fault now mid rid aid an c rp md s)) = db_rooms s"
  by (rule insert_message_cases [of fault now mid rid aid an c rp md s])
     (auto dest!: insert_message_row_Inr(1) simp: ensure_sequence_Inr(3))

lemma insert_message_stored:
  assumes "fst (insert_message fault now mid rid aid an c rp md s) = Inr m"
  shows "cm_seq m = high_water s rid + 1" "cm_room_id m = rid" "cm_message_id m = mid" "cm_content m = c"
    "cm_agent_id m = aid" "room_exists rid s"
    "\<exists>row. m = map_message_row row
       \<and> db_messages (snd (insert_message fault now mid rid aid an c rp md s)) = db_messages s @ [row]"
proof -
  have "cm_seq m = high_water s rid + 1 \<and> cm_room_id m = rid \<and> cm_message_id m = mid \<and> cm_content m = c
     \<and> cm_agent_id m = aid \<and> room_exists rid s \<and> (\<exists>row. m = map_message_row row
       \<and> db_messages (snd (insert_message fault now mid rid aid an c rp md s)) = db_messages s @ [row])"
  proof (cases rule: insert_message_cases [of fault now mid rid aid an c rp md s])
    case (failed e)
    with assms show ?thesis by simp
  next
    case (stored s1 row s2)
    note I = insert_message_row_Inr(1,4) [OF stored(2)] ensure_sequence_Inr [OF stored(1)]
    from stored(4) assms have "m = map_message_row row" by simp
    with I stored(3,4) show ?thesis by auto
  qed
  then show "cm_seq m = high_water s rid + 1" "cm_room_id m = rid" "cm_message_id m = mid" "cm_content m = c"
    "cm_agent_id m = aid" "room_exists rid s"
    "\<exists>row. m = map_message_row row
       \<and> db_messages (snd (insert_message fault now mid rid aid an c rp md s)) = db_messages s @ [row]"
    by simp_all
qed

subsection \<open>The log of a room\<close>

definition room_log :: "store \<Rightarrow> string \<Rightarrow> chat_message list" where
  "room_log s room_id = map map_message_row (room_rows room_id s)"

definition history_page :: "store \<Rightarrow> string \<Rightarrow> int \<Rightarrow> nat \<Rightarrow> chat_message list" where
  "history_page s room_id cursor n =
     (case get_history_filtered False room_id n None None (Some cursor) s of
        Inr ms \<Rightarrow> ms | Inl _ \<Rightarrow> [])"

lemma room_rows_sorted:
  assumes "store_wf s"
  shows "sorted_wrt (\<lambda>m m'. mr_seq m < mr_seq m') (room_rows rid s)"
proof -
  have "sorted_wrt (\<lambda>m m'. mr_rowid m < mr_rowid m'
      \<and> (mr_room_id m = mr_room_id m' \<longrightarrow> mr_seq m < mr_seq m')) (room_rows rid s)"
    by (rule sorted_wrt_filter [OF store_wfD(6) [OF assms]])
  then show ?thesis by (rule sorted_wrt_mono_rel [rotated]) auto
qed

lemma sort_key_sorted_wrt:
  "sorted_wrt (\<lambda>m m'. f m < f m') ms \<Longrightarrow> sort_key f ms = ms"
  by (rule sort_key_id_if_sorted) (auto simp: sorted_map elim: sorted_wrt_mono_rel [rotated])

interpretation room_seq: seq_log store_wf room_log cm_seq history_page
proof
  fix s :: store and r :: string and cursor :: int and n :: nat
  assume wf: "store_wf s"
  note sorted = room_rows_sorted [OF wf, of r]
  then show "sorted_wrt (\<lambda>m m'. cm_seq m < cm_seq m') (room_log s r)"
    by (simp add: room_log_def sorted_wrt_map)
  have "sort_key mr_seq (filter (\<lambda>m. cursor < mr_seq m) (room_rows r s))
      = filter (\<lambda>m. cursor < mr_seq m) (room_rows r s)"
    by (rule sort_key_sorted_wrt) (rule sorted_wrt_filter [OF sorted])
  then show "history_page s r cursor n = take n (filter (\<lambda>m. cursor < cm_seq m) (room_log s r))"
    by (simp add: history_page_def get_history_filtered_def room_log_def take_map filter_map comp_def
        del: filter_filter)
qed

lemma room_log_insert:
  assumes "fst (insert_message fault now mid rid aid an c rp md s) = Inr m"
  shows "room_log (snd (insert_message fault now mid rid aid an c rp md s)) r
       = room_log s r @ (if r = rid then [m] else [])"
  using insert_message_stored(2,7) [OF assms] by (auto simp: room_log_def)

lemma room_log_bound:
  "store_wf s \<Longrightarrow> m \<in> set (room_log s r) \<Longrightarrow> 0 < cm_seq m \<and> cm_seq m \<le> high_water s r"
  using store_wfD(7) by (fastforce simp: room_log_def)

lemma purge_high_water [simp]: "high_water (snd (purge_messages_by_tier f now tier age s)) r = high_water s r"
  by (simp add: purge_messages_by_tier_def Let_def high_water_def)

lemma demo_insert:
  "insert_message False 7 ''m1'' ''r1'' ''a1'' ''Ann'' ''hi'' None (JObj []) demo_store
     = (Inr \<lparr>cm_message_id = ''m1'', cm_room_id = ''r1'', cm_agent_id = ''a1'', cm_agent_name = ''Ann'',
          cm_content = ''hi'', cm_reply_to_message = None, cm_metadata = JObj [], cm_timestamp = 7, cm_seq = 1\<rparr>,
        demo_store\<lparr>db_messages := [\<lparr>mr_rowid = 1, mr_message_id = ''m1'', mr_room_id = ''r1'',
            mr_agent_id = ''a1'', mr_agent_name = ''Ann'', mr_content = ''hi'', mr_reply_to_message = None,
            mr_metadata = JObj [], mr_created_at = 7, mr_seq = 1\<rparr>],
          db_sequences := [(''r1'', 1)]\<rparr>)"
  by (simp add: insert_message_def ensure_sequence_def insert_message_row_def room_exists_def
      high_water_def next_rowid_def map_message_row_def Let_def)

text \<open>C5. Reading a room with \<open>since_seq\<close> page by page gives every message behind the first cursor exactly
  once and in sequence order, for every page size; and a reader that polls while messages arrive has
  at each moment read an initial part of what is there, with no gap and no repetition.\<close>

theorem paged_history_complete:
  assumes "store_wf s" "0 < n"
  shows "room_seq.drain (Suc (length (room_log s rid))) s rid cursor n
       = filter (\<lambda>m. cursor < cm_seq m) (room_log s rid)
    \<and> (\<forall>ss. (\<forall>s' \<in> set ss. store_wf s') \<and> room_seq.grows (s # ss) rid \<longrightarrow>
        (\<exists>rest. filter (\<lambda>m. cursor < cm_seq m) (room_log (last (s # ss)) rid)
              = room_seq.follow (s # ss) rid cursor n @ rest))"
proof (intro conjI allI impI)
  show "room_seq.drain (Suc (length (room_log s rid))) s rid cursor n
      = filter (\<lambda>m. cursor < cm_seq m) (room_log s rid)"
    by (rule room_seq.drain_all [OF assms]) (simp add: le_imp_less_Suc)
  fix ss assume "(\<forall>s' \<in> set ss. store_wf s') \<and> room_seq.grows (s # ss) rid"
  then show "\<exists>rest. filter (\<lambda>m. cursor < cm_seq m) (room_log (last (s # ss)) rid)
              = room_seq.follow (s # ss) rid cursor n @ rest"
    using assms(1) by (intro room_seq.follow_prefix) auto
qed

theorem paged_history_complete_witness:
  "room_seq.drain 1 demo_store ''r1'' 0 10 = []
   \<and> room_seq.follow [demo_store, snd (insert_message False 7 ''m1'' ''r1'' ''a1'' ''Ann'' ''hi'' None (JObj [])
       demo_store)] ''r1'' 0 10 \<noteq> []"
  using paged_history_complete [OF demo_store_wf, of 10 "''r1''" 0]
  by (simp add: room_log_def history_page_def get_history_filtered_def demo_insert room_seq.next_cursor_def)

end
