(* ===== verification/Store_Webhooks.thy ===== *)
theory Store_Webhooks
  imports Store_Messages
begin

text \<open>
  Webhook subscriptions and their delivery queue in \<open>store.rs\<close>. The queue has at most one row per
  subscription and sequence number; \<open>load_due_deliveries\<close> offers only the head of each
  subscription's queue, so that a delivery that waits for its retry holds back the later ones.
\<close>

subsection \<open>Subscriptions\<close>

definition create_subscription ::
    "bool \<Rightarrow> int \<Rightarrow> string \<Rightarrow> string \<Rightarrow> string \<Rightarrow> string \<Rightarrow> string \<Rightarrow> string list \<Rightarrow> string option
     \<Rightarrow> string option \<Rightarrow> bool \<Rightarrow> int \<Rightarrow> store \<Rightarrow> (store_error + subscription) \<times> store" where
  "create_subscription fault now subscription_id room_id owner_key webhook_url secret kinds only_from
      not_from exclude_thinking since_seq s =
     (let sub = \<lparr>sub_subscription_id = subscription_id, sub_room_id = room_id,
                 sub_webhook_url = webhook_url, sub_kinds = kinds, sub_only_from = only_from,
                 sub_not_from = not_from, sub_exclude_thinking = exclude_thinking,
                 sub_since_seq = since_seq, sub_last_delivered_seq = since_seq,
                 sub_status = ''active'', sub_failure_count = 0, sub_created_at = now\<rparr>
      in if fault then (Inl (SE_Db IoFault), s)
         else if subscription_id \<in> sr_id ` set (db_subs s) then (Inl (SE_Db PrimaryKeyTaken), s)
         else (Inr sub, s\<lparr>db_subs := db_subs s @
                [\<lparr>sr_sub = sub, sr_owner_key = owner_key, sr_secret = secret\<rparr>]\<rparr>))"

definition get_subscription :: "bool \<Rightarrow> string \<Rightarrow> store \<Rightarrow> store_error + subscription_row option" where
  "get_subscription fault subscription_id s =
     (if fault then Inl (SE_Db IoFault) else Inr (row_find sr_id subscription_id (db_subs s)))"

definition list_subscriptions ::
    "bool \<Rightarrow> string \<Rightarrow> string option \<Rightarrow> store \<Rightarrow> store_error + subscription list" where
  "list_subscriptions fault owner_key room_id s =
     (if fault then Inl (SE_Db IoFault)
      else Inr (map sr_sub (sort_key (\<lambda>r. - sub_created_at (sr_sub r)) (filter
             (\<lambda>r. sr_owner_key r = owner_key
                 \<and> (case room_id of Some rid \<Rightarrow> sr_room r = rid | None \<Rightarrow> True)) (db_subs s)))))"

definition list_active_subscriptions_for_room ::
    "bool \<Rightarrow> string \<Rightarrow> store \<Rightarrow> store_error + subscription_row list" where
  "list_active_subscriptions_for_room fault room_id s =
     (if fault then Inl (SE_Db IoFault)
      else Inr (filter (\<lambda>r. sr_room r = room_id \<and> sub_status (sr_sub r) = ''active'') (db_subs s)))"

definition delete_subscription :: "bool \<Rightarrow> string \<Rightarrow> string \<Rightarrow> store \<Rightarrow> (store_error + bool) \<times> store" where
  "delete_subscription fault subscription_id owner_key s =
     (if fault then (Inl (SE_Db IoFault), s)
      else
        let hit = (\<lambda>r. sr_id r = subscription_id \<and> sr_owner_key r = owner_key)
        in (Inr (0 < length (filter hit (db_subs s))), delete_subscriptions_where hit s))"

definition sub_update :: "string \<Rightarrow> (subscription \<Rightarrow> subscription) \<Rightarrow> store \<Rightarrow> store" where
  "sub_update subscription_id f s =
     s\<lparr>db_subs := row_update sr_id subscription_id (\<lambda>r. r\<lparr>sr_sub := f (sr_sub r)\<rparr>) (db_subs s)\<rparr>"

definition set_subscription_status ::
    "bool \<Rightarrow> string \<Rightarrow> string \<Rightarrow> int option \<Rightarrow> store \<Rightarrow> (store_error + unit) \<times> store" where
  "set_subscription_status fault subscription_id status failure_count s =
     (if fault then (Inl (SE_Db IoFault), s)
      else (Inr (), sub_update subscription_id
        (\<lambda>b. case failure_count of
               Some n \<Rightarrow> b\<lparr>sub_status := status, sub_failure_count := n\<rparr>
             | None \<Rightarrow> b\<lparr>sub_status := status\<rparr>) s))"

definition advance_subscription_cursor ::
    "bool \<Rightarrow> string \<Rightarrow> int \<Rightarrow> store \<Rightarrow> (store_error + unit) \<times> store" where
  "advance_subscription_cursor fault subscription_id new_last_delivered_seq s =
     (if fault then (Inl (SE_Db IoFault), s)
      else (Inr (), sub_update subscription_id
        (\<lambda>b. if sub_last_delivered_seq b < new_last_delivered_seq
             then b\<lparr>sub_last_delivered_seq := new_last_delivered_seq, sub_failure_count := 0\<rparr>
             else b) s))"

subsection \<open>The delivery queue\<close>

text \<open>Every constraint violation, a missing subscription included, is reported as a duplicate.\<close>

definition enqueue_delivery ::
    "bool \<Rightarrow> string \<Rightarrow> string \<Rightarrow> int \<Rightarrow> string \<Rightarrow> int \<Rightarrow> store \<Rightarrow> (store_error + bool) \<times> store" where
  "enqueue_delivery fault delivery_id subscription_id message_seq message_id next_attempt_at s =
     (if fault then (Inl (SE_Db IoFault), s)
      else if delivery_id \<in> dr_delivery_id ` set (db_deliveries s)
            \<or> (subscription_id, message_seq)
                 \<in> (\<lambda>d. (dr_subscription_id d, dr_message_seq d)) ` set (db_deliveries s)
            \<or> subscription_id \<notin> sr_id ` set (db_subs s)
      then (Inr False, s)
      else (Inr True, s\<lparr>db_deliveries := db_deliveries s @
             [\<lparr>dr_delivery_id = delivery_id, dr_subscription_id = subscription_id,
               dr_message_seq = message_seq, dr_message_id = message_id,
               dr_next_attempt_at = next_attempt_at, dr_attempts = 0, dr_last_error = None\<rparr>]\<rparr>))"

definition queue_head :: "store \<Rightarrow> delivery_row \<Rightarrow> bool" where
  "queue_head s d \<longleftrightarrow> \<not> list_ex (\<lambda>e. dr_subscription_id e = dr_subscription_id d
                               \<and> dr_message_seq e < dr_message_seq d) (db_deliveries s)"

definition load_due_deliveries :: "bool \<Rightarrow> int \<Rightarrow> nat \<Rightarrow> store \<Rightarrow> store_error + delivery_row list" where
  "load_due_deliveries fault now limit s =
     (if fault then Inl (SE_Db IoFault)
      else Inr (take limit (sort_key (\<lambda>d. (dr_next_attempt_at d, dr_message_seq d))
             (filter (\<lambda>d. dr_next_attempt_at d \<le> now \<and> queue_head s d) (db_deliveries s)))))"

definition earliest_pending_attempt :: "bool \<Rightarrow> store \<Rightarrow> store_error + int option" where
  "earliest_pending_attempt fault s =
     (if fault then Inl (SE_Db IoFault)
      else case sort_key dr_next_attempt_at (db_deliveries s) of
        [] \<Rightarrow> Inr None | d # _ \<Rightarrow> Inr (Some (dr_next_attempt_at d)))"

definition delete_delivery :: "bool \<Rightarrow> string \<Rightarrow> store \<Rightarrow> (store_error + unit) \<times> store" where
  "delete_delivery fault delivery_id s =
     (if fault then (Inl (SE_Db IoFault), s)
      else (Inr (), delete_deliveries_where (\<lambda>d. dr_delivery_id d = delivery_id) s))"

definition reschedule_delivery ::
    "bool \<Rightarrow> string \<Rightarrow> int \<Rightarrow> int \<Rightarrow> string \<Rightarrow> store \<Rightarrow> (store_error + unit) \<times> store" where
  "reschedule_delivery fault delivery_id next_attempt_at attempts last_error s =
     (if fault then (Inl (SE_Db IoFault), s)
      else (Inr (), s\<lparr>db_deliveries := row_update dr_delivery_id delivery_id
             (\<lambda>d. d\<lparr>dr_next_attempt_at := next_attempt_at, dr_attempts := attempts,
                    dr_last_error := Some last_error\<rparr>) (db_deliveries s)\<rparr>))"

subsection \<open>Consistency\<close>

lemma wf_create_subscription [wf_intros]:
  "store_wf s \<Longrightarrow> store_wf (snd (create_subscription fault now sid rid k url sec kinds only_from nf et since s))"
  using store_wfD(12,22) [of s]
  by (auto simp: create_subscription_def Let_def intro!: wf_set_subs)

lemma wf_sub_update [wf_intros]:
  assumes "store_wf s" "\<And>b. sub_subscription_id (f b) = sub_subscription_id b"
  shows "store_wf (sub_update sid f s)"
proof -
  let ?rs = "row_update sr_id sid (\<lambda>r. r\<lparr>sr_sub := f (sr_sub r)\<rparr>) (db_subs s)"
  have keys: "map sr_id ?rs = map sr_id (db_subs s)" by (simp add: assms(2))
  then have "sr_id ` set ?rs = sr_id ` set (db_subs s)" by (metis set_map)
  then show ?thesis unfolding sub_update_def
    using store_wfD(12,22) [OF assms(1)] keys by (intro wf_set_subs [OF assms(1)]) simp_all
qed

lemma wf_subscription_ops [wf_intros]:
  assumes "store_wf s"
  shows "store_wf (snd (delete_subscription fault sid k s))"
    "store_wf (snd (set_subscription_status fault sid st fc s))"
    "store_wf (snd (advance_subscription_cursor fault sid n s))"
  using assms
  by (auto simp: delete_subscription_def set_subscription_status_def advance_subscription_cursor_def Let_def
      intro!: wf_delete_subscriptions wf_sub_update split: option.splits)

lemma wf_delivery_ops [wf_intros]:
  assumes "store_wf s"
  shows "store_wf (snd (enqueue_delivery fault did sid n mid t s))"
    "store_wf (snd (delete_delivery fault did s))"
    "store_wf (snd (reschedule_delivery fault did t a e s))"
proof -
  note D = store_wfD(13,14,22) [OF assms]
  show "store_wf (snd (enqueue_delivery fault did sid n mid t s))"
    using assms D by (auto simp: enqueue_delivery_def intro!: wf_set_deliveries)
  show "store_wf (snd (delete_delivery fault did s))"
    using assms by (simp add: delete_delivery_def wf_delete_deliveries)
  let ?ds = "row_update dr_delivery_id did
      (\<lambda>d. d\<lparr>dr_next_attempt_at := t, dr_attempts := a, dr_last_error := Some e\<rparr>) (db_deliveries s)"
  have "map (\<lambda>d. (dr_subscription_id d, dr_message_seq d)) ?ds
      = map (\<lambda>d. (dr_subscription_id d, dr_message_seq d)) (db_deliveries s)"
    by (simp add: row_update_def)
  moreover have "map dr_delivery_id ?ds = map dr_delivery_id (db_deliveries s)" by simp
  moreover have "d \<in> set ?ds \<Longrightarrow> dr_subscription_id d \<in> sr_id ` set (db_subs s)" for d
    using D(3) by (auto simp: row_update_def)
  ultimately show "store_wf (snd (reschedule_delivery fault did t a e s))"
    using assms D by (auto simp: reschedule_delivery_def simp del: row_update_keys intro!: wf_set_deliveries)
qed

subsection \<open>Heads of the queue\<close>

text \<open>A batch holds at most one delivery of a subscription, and it is the one with the lowest sequence
  number in its queue.\<close>

lemma due_is_head:
  "load_due_deliveries fault now limit s = Inr ds \<Longrightarrow> d \<in> set ds \<Longrightarrow>
     d \<in> set (db_deliveries s) \<and> dr_next_attempt_at d \<le> now
     \<and> (\<forall>e \<in> set (db_deliveries s). dr_subscription_id e = dr_subscription_id d
           \<longrightarrow> dr_message_seq d \<le> dr_message_seq e)"
  by (auto simp: load_due_deliveries_def queue_head_def list_ex_iff not_less split: if_splits
      dest!: in_set_takeD)

lemma due_distinct_subs:
  assumes wf: "store_wf s" and due: "load_due_deliveries fault now limit s = Inr ds"
  shows "distinct (map dr_subscription_id ds)"
proof -
  have "inj_on (\<lambda>d. (dr_subscription_id d, dr_message_seq d)) (set (db_deliveries s))"
    using store_wfD(14) [OF wf] by (simp add: distinct_map)
  moreover have "distinct ds"
  proof -
    have "distinct (db_deliveries s)" using store_wfD(14) [OF wf] by (simp add: distinct_map)
    then show ?thesis using due by (auto simp: load_due_deliveries_def split: if_splits)
  qed
  moreover have "x = y" if "x \<in> set ds" "y \<in> set ds" "dr_subscription_id x = dr_subscription_id y"
      and inj: "inj_on (\<lambda>d. (dr_subscription_id d, dr_message_seq d)) (set (db_deliveries s))" for x y
  proof -
    from due_is_head [OF due that(1)] due_is_head [OF due that(2)] that(3)
    have "dr_message_seq x = dr_message_seq y" "x \<in> set (db_deliveries s)" "y \<in> set (db_deliveries s)"
      by (auto intro: antisym)
    with that(3) inj show ?thesis by (auto simp: inj_on_def)
  qed
  ultimately show ?thesis by (auto simp: distinct_map inj_on_def)
qed

end
