(* ===== verification/Webhooks.thy ===== *)
theory Webhooks
  imports Store_Webhooks
begin

text \<open>
  Webhook delivery (\<open>webhooks.rs\<close>): which messages match a subscription, which addresses may be
  called, the signature, the enqueue task of a sent message, and the worker that posts the head of
  each subscription's queue.

  What is not in the source is the argument \<open>net\<close>: URL parsing, DNS, HMAC-SHA256 and Base64, the
  JSON text, and the HTTP exchange, whose result is a status code or a transport failure. The calls
  on the store may fail; \<open>fault k\<close> tells whether the \<open>k\<close>-th store call of the operation does.
\<close>

subsection \<open>Addresses\<close>

datatype ip_addr =
    V4 "8 word" "8 word" "8 word" "8 word"
  | V6 "16 word" "16 word" "16 word" "16 word" "16 word" "16 word" "16 word" "16 word"

unbundle bit_operations_syntax

text \<open>\<open>Ipv4Addr::is_private\<close> and the other predicates of the standard library.\<close>

definition is_public_v4 :: "8 word \<Rightarrow> 8 word \<Rightarrow> 8 word \<Rightarrow> 8 word \<Rightarrow> bool" where
  "is_public_v4 a b c d \<longleftrightarrow> \<not>
     (a = 10 \<or> (a = 172 \<and> 16 \<le> b \<and> b \<le> 31) \<or> (a = 192 \<and> b = 168)
      \<or> a = 127
      \<or> (a = 169 \<and> b = 254)
      \<or> (224 \<le> a \<and> a \<le> 239)
      \<or> (a = 255 \<and> b = 255 \<and> c = 255 \<and> d = 255)
      \<or> (a = 0 \<and> b = 0 \<and> c = 0 \<and> d = 0)
      \<or> a = 0
      \<or> (a = 100 \<and> 64 \<le> b \<and> b \<le> 127)
      \<or> (a = 198 \<and> (b = 18 \<or> b = 19))
      \<or> (a = 169 \<and> b = 254 \<and> c = 169 \<and> d = 254))"

fun to_ipv4_mapped :: "ip_addr \<Rightarrow> (8 word \<times> 8 word \<times> 8 word \<times> 8 word) option" where
  "to_ipv4_mapped (V6 s0 s1 s2 s3 s4 s5 s6 s7) =
     (if s0 = 0 \<and> s1 = 0 \<and> s2 = 0 \<and> s3 = 0 \<and> s4 = 0 \<and> s5 = 0xffff
      then Some (ucast (drop_bit 8 s6), ucast s6, ucast (drop_bit 8 s7), ucast s7) else None)"
| "to_ipv4_mapped (V4 a b c d) = None"

fun is_public_ip :: "ip_addr \<Rightarrow> bool" where
  "is_public_ip (V4 a b c d) = is_public_v4 a b c d"
| "is_public_ip (V6 s0 s1 s2 s3 s4 s5 s6 s7) \<longleftrightarrow> \<not>
     ((s0 = 0 \<and> s1 = 0 \<and> s2 = 0 \<and> s3 = 0 \<and> s4 = 0 \<and> s5 = 0 \<and> s6 = 0 \<and> s7 = 1)
      \<or> (s0 = 0 \<and> s1 = 0 \<and> s2 = 0 \<and> s3 = 0 \<and> s4 = 0 \<and> s5 = 0 \<and> s6 = 0 \<and> s7 = 0)
      \<or> s0 AND 0xff00 = 0xff00
      \<or> s0 AND 0xfe00 = 0xfc00
      \<or> s0 AND 0xffc0 = 0xfe80
      \<or> (case to_ipv4_mapped (V6 s0 s1 s2 s3 s4 s5 s6 s7) of
           Some (a, b, c, d) \<Rightarrow> \<not> is_public_v4 a b c d | None \<Rightarrow> False))"

subsection \<open>The outside\<close>

record url =
  url_scheme :: string
  url_username :: string
  url_password :: "string option"
  url_host :: "string option"
  url_port_or_default :: "nat option"

record webhook_request =
  wr_address :: "ip_addr \<times> nat"
  wr_url :: url
  wr_webhook_id :: string
  wr_timestamp :: int
  wr_signature :: string
  wr_body :: string

record net =
  net_parse :: "string \<Rightarrow> url option"
  net_lookup :: "string \<Rightarrow> nat \<Rightarrow> (ip_addr \<times> nat) list option"
  net_client :: bool
  net_render :: "json \<Rightarrow> string"
  net_hmac :: "string \<Rightarrow> string \<Rightarrow> string"
  net_base64 :: "string \<Rightarrow> string"
  net_post :: "webhook_request \<Rightarrow> nat option"

subsection \<open>Signature\<close>

fun dec_digits :: "nat \<Rightarrow> string" where
  "dec_digits n = (if n < 10 then [char_of (48 + n)] else dec_digits (n div 10) @ [char_of (48 + n mod 10)])"

declare dec_digits.simps [simp del]

definition show_int :: "int \<Rightarrow> string" where
  "show_int i = (if i < 0 then CHR ''-'' # dec_digits (nat (- i)) else dec_digits (nat i))"

definition signed_payload :: "string \<Rightarrow> int \<Rightarrow> string \<Rightarrow> string" where
  "signed_payload webhook_id timestamp body = webhook_id @ ''.'' @ show_int timestamp @ ''.'' @ body"

definition sign_request :: "net \<Rightarrow> string \<Rightarrow> string \<Rightarrow> int \<Rightarrow> string \<Rightarrow> string" where
  "sign_request net secret webhook_id timestamp body =
     ''v1,'' @ net_base64 net (net_hmac net secret (signed_payload webhook_id timestamp body))"

subsection \<open>Filter\<close>

definition matches_filter :: "subscription \<Rightarrow> chat_message \<Rightarrow> bool" where
  "matches_filter sub msg \<longleftrightarrow>
     (if cm_seq msg \<le> sub_last_delivered_seq sub then False
      else
        let meta_type = json_get_str ''type'' (cm_metadata msg) in
        if meta_type = Some ''system'' then False
        else if sub_exclude_thinking sub \<and> meta_type = Some ''thinking'' then False
        else if sub_kinds sub \<noteq> []
             \<and> \<not> list_ex (\<lambda>want. Some want = json_get_str ''kind'' (cm_metadata msg)) (sub_kinds sub)
        then False
        else if (case sub_only_from sub of Some only \<Rightarrow> cm_agent_name msg \<noteq> only | None \<Rightarrow> False) then False
        else if (case sub_not_from sub of Some skip \<Rightarrow> cm_agent_name msg = skip | None \<Rightarrow> False) then False
        else True)"

subsection \<open>Resolution\<close>

datatype webhook_error =
    InvalidUrl | NotHttp | UrlCredentials | NoHost | TargetsLocalhost | NoPort | ResolutionFailed
  | ReservedAddress | ClientSetup

definition ascii_lower :: "char \<Rightarrow> char" where
  "ascii_lower c = (if 65 \<le> byte c \<and> byte c \<le> 90 then char_of (byte c + 32) else c)"

definition eq_ignore_ascii_case :: "string \<Rightarrow> string \<Rightarrow> bool" where
  "eq_ignore_ascii_case x y \<longleftrightarrow> map ascii_lower x = map ascii_lower y"

definition ends_with :: "string \<Rightarrow> string \<Rightarrow> bool" where
  "ends_with x suf \<longleftrightarrow> length suf \<le> length x \<and> drop (length x - length suf) x = suf"

definition resolve_public_webhook ::
    "net \<Rightarrow> string \<Rightarrow> bool \<Rightarrow> webhook_error + url \<times> string \<times> (ip_addr \<times> nat)" where
  "resolve_public_webhook net raw allow_private =
     (case net_parse net raw of
        None \<Rightarrow> Inl InvalidUrl
      | Some u \<Rightarrow>
          if \<not> (url_scheme u = ''http'' \<or> url_scheme u = ''https'') then Inl NotHttp
          else if url_username u \<noteq> [] \<or> url_password u \<noteq> None then Inl UrlCredentials
          else case url_host u of
            None \<Rightarrow> Inl NoHost
          | Some host \<Rightarrow>
              if \<not> allow_private \<and> (eq_ignore_ascii_case host ''localhost'' \<or> ends_with host ''.localhost'')
              then Inl TargetsLocalhost
              else case url_port_or_default u of
                None \<Rightarrow> Inl NoPort
              | Some port \<Rightarrow>
                  (case net_lookup net host port of
                     None \<Rightarrow> Inl ResolutionFailed
                   | Some addresses \<Rightarrow>
                       if addresses = [] \<or> (\<not> allow_private \<and> list_ex (\<lambda>(ip, _). \<not> is_public_ip ip) addresses)
                       then Inl ReservedAddress
                       else Inr (u, host, hd addresses)))"

text \<open>The client is pinned to the resolved address and follows no redirects, so a request goes there.\<close>

definition pinned_http_client ::
    "net \<Rightarrow> string \<Rightarrow> bool \<Rightarrow> webhook_error + (ip_addr \<times> nat) \<times> url" where
  "pinned_http_client net raw allow_private =
     (case resolve_public_webhook net raw allow_private of
        Inl e \<Rightarrow> Inl e
      | Inr (u, _, address) \<Rightarrow> if net_client net then Inr (address, u) else Inl ClientSetup)"

definition validate_url :: "net \<Rightarrow> bool \<Rightarrow> string \<Rightarrow> webhook_error + unit" where
  "validate_url net allow_private raw =
     (case resolve_public_webhook net raw allow_private of Inl e \<Rightarrow> Inl e | Inr _ \<Rightarrow> Inr ())"

subsection \<open>Enqueue\<close>

definition enqueue_one :: "(nat \<Rightarrow> bool) \<Rightarrow> int \<Rightarrow> (nat \<Rightarrow> string) \<Rightarrow> chat_message \<Rightarrow> nat \<times> subscription_row
    \<Rightarrow> store \<Rightarrow> store" where
  "enqueue_one fault now uid msg k_row s =
     (case k_row of (k, row) \<Rightarrow>
        if matches_filter (sr_sub row) msg
        then snd (enqueue_delivery (fault (Suc k)) (uid k) (sr_id row) (cm_seq msg) (cm_message_id msg) now s)
        else s)"

text \<open>The spawned task of \<open>enqueue_for_message\<close>.\<close>

definition enqueue_for_message ::
    "(nat \<Rightarrow> bool) \<Rightarrow> int \<Rightarrow> (nat \<Rightarrow> string) \<Rightarrow> chat_message \<Rightarrow> store \<Rightarrow> store" where
  "enqueue_for_message fault now uid msg s =
     (case list_active_subscriptions_for_room (fault 0) (cm_room_id msg) s of
        Inl _ \<Rightarrow> s
      | Inr subs \<Rightarrow> fold (enqueue_one fault now uid msg) (enumerate 0 subs) s)"

subsection \<open>The worker\<close>

definition RETRY_SCHEDULE_SECS :: "int list" where
  "RETRY_SCHEDULE_SECS = [1, 4, 16, 64, 256]"

definition is_success :: "nat \<Rightarrow> bool" where
  "is_success status \<longleftrightarrow> 200 \<le> status \<and> status < 300"

definition webhook_envelope :: "subscription \<Rightarrow> chat_message \<Rightarrow> json" where
  "webhook_envelope sub msg = JObj
     [(''type'', JStr ''cowchat.message.created''),
      (''subscription_id'', JStr (sub_subscription_id sub)), (''room_id'', JStr (sub_room_id sub)),
      (''message'', chat_message_to_json msg)]"

definition post_error :: "nat option \<Rightarrow> string" where
  "post_error r = (case r of Some status \<Rightarrow> ''HTTP '' @ dec_digits status | None \<Rightarrow> ''transport'')"

text \<open>The bookkeeping after the exchange; \<open>now\<close> is read again for the retry.\<close>

definition settle_delivery ::
    "(nat \<Rightarrow> bool) \<Rightarrow> int \<Rightarrow> delivery_row \<Rightarrow> nat option \<Rightarrow> store \<Rightarrow> store" where
  "settle_delivery fault now d outcome s =
     (if (case outcome of Some status \<Rightarrow> is_success status | None \<Rightarrow> False)
      then snd (advance_subscription_cursor (fault 3) (dr_subscription_id d) (dr_message_seq d)
             (snd (delete_delivery (fault 2) (dr_delivery_id d) s)))
      else
        let new_attempts = dr_attempts d + 1;
            idx = nat new_attempts - 1
        in if length RETRY_SCHEDULE_SECS \<le> idx
           then snd (set_subscription_status (fault 3) (dr_subscription_id d) ''failed'' (Some new_attempts)
                  (snd (delete_delivery (fault 2) (dr_delivery_id d) s)))
           else snd (reschedule_delivery (fault 2) (dr_delivery_id d)
                  (now + 1000 * (RETRY_SCHEDULE_SECS ! idx)) new_attempts (post_error outcome) s))"

definition process_delivery ::
    "net \<Rightarrow> bool \<Rightarrow> (nat \<Rightarrow> bool) \<Rightarrow> int \<Rightarrow> int \<Rightarrow> string \<Rightarrow> delivery_row \<Rightarrow> store
     \<Rightarrow> webhook_request option \<times> store" where
  "process_delivery net allow_private fault now now' webhook_id d s =
     (case get_subscription (fault 0) (dr_subscription_id d) s of
        Inl _ \<Rightarrow> (None, s)
      | Inr None \<Rightarrow> (None, snd (delete_delivery (fault 1) (dr_delivery_id d) s))
      | Inr (Some row) \<Rightarrow>
          let sub = sr_sub row in
          if sub_status sub \<noteq> ''active''
          then (None, snd (delete_delivery (fault 1) (dr_delivery_id d) s))
          else case get_message (fault 1) (dr_message_id d) s of
            Inl _ \<Rightarrow> (None, s)
          | Inr None \<Rightarrow> (None, snd (delete_delivery (fault 2) (dr_delivery_id d) s))
          | Inr (Some msg) \<Rightarrow>
              let timestamp = now div 1000;
                  body = net_render net (webhook_envelope sub msg);
                  signature = sign_request net (sr_secret row) webhook_id timestamp body
              in case pinned_http_client net (sub_webhook_url sub) allow_private of
                   Inl _ \<Rightarrow> (None, snd (set_subscription_status (fault 2) (sub_subscription_id sub)
                               ''failed'' (Some (dr_attempts d + 1)) s))
                 | Inr (address, u) \<Rightarrow>
                     let request = \<lparr>wr_address = address, wr_url = u, wr_webhook_id = webhook_id,
                                    wr_timestamp = timestamp, wr_signature = signature, wr_body = body\<rparr>
                     in (Some request, settle_delivery fault now' d (net_post net request) s))"

text \<open>One round of the worker's loop. The tasks of a batch run in parallel; they are for different
  subscriptions, and here they run one after the other.\<close>

fun process_batch ::
    "net \<Rightarrow> bool \<Rightarrow> (nat \<Rightarrow> nat \<Rightarrow> bool) \<Rightarrow> int \<Rightarrow> int \<Rightarrow> (nat \<Rightarrow> string) \<Rightarrow> nat \<Rightarrow> delivery_row list \<Rightarrow> store
     \<Rightarrow> (delivery_row \<times> webhook_request option) list \<times> store" where
  "process_batch net ap fault now now' uid k [] s = ([], s)"
| "process_batch net ap fault now now' uid k (d # ds) s =
     (let (r, s) = process_delivery net ap (fault k) now now' (uid k) d s;
          (rs, s) = process_batch net ap fault now now' uid (Suc k) ds s
      in ((d, r) # rs, s))"

definition worker_round ::
    "net \<Rightarrow> bool \<Rightarrow> bool \<Rightarrow> (nat \<Rightarrow> nat \<Rightarrow> bool) \<Rightarrow> int \<Rightarrow> int \<Rightarrow> (nat \<Rightarrow> string) \<Rightarrow> store
     \<Rightarrow> (delivery_row \<times> webhook_request option) list \<times> store" where
  "worker_round net allow_private fault_load fault now now' uid s =
     (case load_due_deliveries fault_load now 32 s of
        Inl _ \<Rightarrow> ([], s)
      | Inr due \<Rightarrow> process_batch net allow_private fault now now' uid 0 due s)"

subsection \<open>Well-formedness\<close>

lemma wf_enqueue_for_message [wf_intros]:
  assumes "store_wf s"
  shows "store_wf (enqueue_for_message fault now uid msg s)"
proof -
  have "store_wf (fold (enqueue_one fault now uid msg) krs s)" for krs
    using assms by (induction krs arbitrary: s) (auto simp: enqueue_one_def wf_delivery_ops split: prod.splits)
  then show ?thesis using assms by (simp add: enqueue_for_message_def split: sum.split)
qed

lemma wf_settle_delivery [wf_intros]: "store_wf s \<Longrightarrow> store_wf (settle_delivery fault now d outcome s)"
  by (simp add: settle_delivery_def Let_def wf_delivery_ops wf_subscription_ops)

lemma wf_process_delivery [wf_intros]:
  "store_wf s \<Longrightarrow> store_wf (snd (process_delivery net ap fault now now' uid d s))"
  by (auto simp: process_delivery_def Let_def wf_delivery_ops wf_subscription_ops wf_settle_delivery
      split: sum.splits option.splits)

lemma wf_process_batch [wf_intros]:
  "store_wf s \<Longrightarrow> store_wf (snd (process_batch net ap fault now now' uid k ds s))"
proof (induction ds arbitrary: s k)
  case (Cons d ds)
  from Cons.IH [OF wf_process_delivery [OF Cons.prems]] show ?case by (simp add: Let_def split_beta)
qed simp

lemma wf_worker_round [wf_intros]:
  "store_wf s \<Longrightarrow> store_wf (snd (worker_round net ap fl fault now now' uid s))"
  by (simp add: worker_round_def wf_process_batch split: sum.split)

subsection \<open>Only public addresses are called\<close>

lemma public_head: "as \<noteq> [] \<Longrightarrow> \<not> list_ex (\<lambda>(ip, _). \<not> is_public_ip ip) as \<Longrightarrow> is_public_ip (fst (hd as))"
  by (cases as) auto

lemma resolve_public:
  "resolve_public_webhook net raw ap = Inr (u, host, address) \<Longrightarrow>
     net_parse net raw = Some u \<and> (url_scheme u = ''http'' \<or> url_scheme u = ''https'')
     \<and> url_username u = [] \<and> url_password u = None \<and> (ap \<or> is_public_ip (fst address))"
  unfolding resolve_public_webhook_def
  by (auto split: option.splits if_splits dest: public_head)

lemma process_request:
  "process_delivery net ap fault now now' uid d s = (Some r, s') \<Longrightarrow>
     \<exists>row msg host. row_find sr_id (dr_subscription_id d) (db_subs s) = Some row
       \<and> sub_status (sr_sub row) = ''active'' \<and> get_message (fault 1) (dr_message_id d) s = Inr (Some msg)
       \<and> resolve_public_webhook net (sub_webhook_url (sr_sub row)) ap = Inr (wr_url r, host, wr_address r)
       \<and> wr_body r = net_render net (webhook_envelope (sr_sub row) msg)
       \<and> wr_signature r = sign_request net (sr_secret row) (wr_webhook_id r) (wr_timestamp r) (wr_body r)
       \<and> s' = settle_delivery fault now' d (net_post net r) s"
  by (auto simp: process_delivery_def get_subscription_def pinned_http_client_def Let_def
      split: sum.splits option.splits if_splits prod.splits)


subsection \<open>The queue of one subscription\<close>

definition cursor :: "store \<Rightarrow> string \<Rightarrow> int option" where
  "cursor s sid = map_option (\<lambda>r. sub_last_delivered_seq (sr_sub r)) (row_find sr_id sid (db_subs s))"

definition delivered :: "net \<Rightarrow> webhook_request option \<Rightarrow> bool" where
  "delivered net r \<longleftrightarrow> (case r of None \<Rightarrow> False
     | Some req \<Rightarrow> (case net_post net req of Some status \<Rightarrow> is_success status | None \<Rightarrow> False))"

text \<open>Everything queued is ahead of the cursor of its subscription.\<close>

definition queue_ahead :: "store \<Rightarrow> bool" where
  "queue_ahead s \<longleftrightarrow>
     (\<forall>d \<in> set (db_deliveries s). \<forall>c. cursor s (dr_subscription_id d) = Some c \<longrightarrow> c < dr_message_seq d)"

definition heads :: "store \<Rightarrow> delivery_row list \<Rightarrow> bool" where
  "heads s ds \<longleftrightarrow> distinct (map dr_subscription_id ds)
     \<and> (\<forall>d \<in> set ds. d \<in> set (db_deliveries s)
          \<and> (\<forall>e \<in> set (db_deliveries s). dr_subscription_id e = dr_subscription_id d
                \<longrightarrow> dr_message_seq d \<le> dr_message_seq e))"

lemma cursor_sub_update:
  "(\<And>b. sub_subscription_id (f b) = sub_subscription_id b) \<Longrightarrow>
   cursor (sub_update sid f s) x
     = (if x = sid then map_option (\<lambda>r. sub_last_delivered_seq (f (sr_sub r))) (row_find sr_id x (db_subs s))
        else cursor s x)"
  by (simp add: cursor_def sub_update_def option.map_comp comp_def)

lemma sub_update_deliveries [simp]: "db_deliveries (sub_update sid f s) = db_deliveries s"
  by (simp add: sub_update_def)

lemma delete_deliveries_sel [simp]:
  "db_subs (delete_deliveries_where P s) = db_subs s" "cursor (delete_deliveries_where P s) = cursor s"
  "db_deliveries (delete_deliveries_where P s) = filter (\<lambda>d. \<not> P d) (db_deliveries s)"
  by (auto simp: delete_deliveries_where_def cursor_def fun_eq_iff)

lemma no_fault_ops [simp]:
  "snd (set_subscription_status False sid st fc s) = sub_update sid
     (\<lambda>b. case fc of Some n \<Rightarrow> b\<lparr>sub_status := st, sub_failure_count := n\<rparr> | None \<Rightarrow> b\<lparr>sub_status := st\<rparr>) s"
  "snd (delete_delivery False did s) = delete_deliveries_where (\<lambda>d. dr_delivery_id d = did) s"
  by (simp_all add: set_subscription_status_def delete_delivery_def)

lemma cursor_status [simp]: "cursor (snd (set_subscription_status f sid st fc s)) x = cursor s x"
  by (cases fc) (simp_all add: set_subscription_status_def cursor_sub_update, simp_all add: cursor_def)

lemma status_deliveries [simp]:
  "db_deliveries (snd (set_subscription_status f sid st fc s)) = db_deliveries s"
  by (simp add: set_subscription_status_def)

lemma reschedule_sel [simp]:
  "cursor (snd (reschedule_delivery f did t a e s)) = cursor s"
  "map (\<lambda>d. (dr_subscription_id d, dr_message_seq d)) (db_deliveries (snd (reschedule_delivery f did t a e s)))
     = map (\<lambda>d. (dr_subscription_id d, dr_message_seq d)) (db_deliveries s)"
  by (auto simp: reschedule_delivery_def cursor_def row_update_def fun_eq_iff)

lemma reschedule_other:
  "distinct (map dr_delivery_id (db_deliveries s)) \<Longrightarrow> e \<in> set (db_deliveries s) \<Longrightarrow> dr_delivery_id e \<noteq> did \<Longrightarrow>
   e \<in> set (db_deliveries (snd (reschedule_delivery f did t a err s)))"
  by (auto simp: reschedule_delivery_def row_update_def image_iff intro!: bexI [of _ e])

lemma cursor_advance:
  "cursor (snd (advance_subscription_cursor False sid n s)) x
     = (if x = sid then map_option (\<lambda>c. max c n) (cursor s x) else cursor s x)"
  by (simp add: advance_subscription_cursor_def cursor_sub_update)
     (cases "row_find sr_id sid (db_subs s)"; simp add: cursor_def max_def)

lemma advance_deliveries [simp]:
  "db_deliveries (snd (advance_subscription_cursor f sid n s)) = db_deliveries s"
  by (simp add: advance_subscription_cursor_def)

text \<open>What one delivery does to the queue, when the store does not fail.\<close>

lemma settle_effect:
  assumes wf: "store_wf s" and d: "d \<in> set (db_deliveries s)"
    and s': "s' = settle_delivery (\<lambda>_. False) now d outcome s"
    and ok: "ok \<longleftrightarrow> (case outcome of Some status \<Rightarrow> is_success status | None \<Rightarrow> False)"
  shows "cursor s' x = (if ok \<and> x = dr_subscription_id d
            then map_option (\<lambda>c. max c (dr_message_seq d)) (cursor s x) else cursor s x)"
    and "e \<in> set (db_deliveries s') \<Longrightarrow> \<exists>e' \<in> set (db_deliveries s). dr_subscription_id e' = dr_subscription_id e
            \<and> dr_message_seq e' = dr_message_seq e \<and> (ok \<longrightarrow> dr_delivery_id e' \<noteq> dr_delivery_id d)"
    and "e \<in> set (db_deliveries s) \<Longrightarrow> dr_subscription_id e \<noteq> dr_subscription_id d \<Longrightarrow> e \<in> set (db_deliveries s')"
proof -
  note D = store_wfD(13) [OF wf]
  have inj: "e \<in> set (db_deliveries s) \<Longrightarrow> dr_subscription_id e \<noteq> dr_subscription_id d
      \<Longrightarrow> dr_delivery_id e \<noteq> dr_delivery_id d" for e
    using D d by (metis distinct_map inj_on_def)
  show "cursor s' x = (if ok \<and> x = dr_subscription_id d
            then map_option (\<lambda>c. max c (dr_message_seq d)) (cursor s x) else cursor s x)"
    using ok by (auto simp: s' settle_delivery_def Let_def cursor_advance simp del: no_fault_ops(1))
  have re: "\<exists>e' \<in> set (db_deliveries s). dr_subscription_id e' = dr_subscription_id e \<and> dr_message_seq e' = dr_message_seq e"
    if "e \<in> set (db_deliveries (snd (reschedule_delivery False did t a er s)))" for did t a er e
  proof -
    have "(dr_subscription_id e, dr_message_seq e) \<in> set (map (\<lambda>d. (dr_subscription_id d, dr_message_seq d))
        (db_deliveries (snd (reschedule_delivery False did t a er s))))"
      unfolding set_map using that by (rule imageI)
    then show ?thesis unfolding reschedule_sel by auto
  qed
  show "e \<in> set (db_deliveries s') \<Longrightarrow> \<exists>e' \<in> set (db_deliveries s). dr_subscription_id e' = dr_subscription_id e
            \<and> dr_message_seq e' = dr_message_seq e \<and> (ok \<longrightarrow> dr_delivery_id e' \<noteq> dr_delivery_id d)"
    using ok re by (auto simp: s' settle_delivery_def Let_def split: if_splits)
  show "e \<in> set (db_deliveries s) \<Longrightarrow> dr_subscription_id e \<noteq> dr_subscription_id d \<Longrightarrow> e \<in> set (db_deliveries s')"
    using inj reschedule_other [OF D] by (auto simp: s' settle_delivery_def Let_def)
qed

lemma process_effect:
  assumes wf: "store_wf s" and d: "d \<in> set (db_deliveries s)"
    and p: "process_delivery net ap (\<lambda>_. False) now now' uid d s = (r, s')"
  shows "cursor s' x = (if delivered net r \<and> x = dr_subscription_id d
            then map_option (\<lambda>c. max c (dr_message_seq d)) (cursor s x) else cursor s x)"
    and "e \<in> set (db_deliveries s') \<Longrightarrow> \<exists>e' \<in> set (db_deliveries s). dr_subscription_id e' = dr_subscription_id e
            \<and> dr_message_seq e' = dr_message_seq e \<and> (delivered net r \<longrightarrow> dr_delivery_id e' \<noteq> dr_delivery_id d)"
    and "e \<in> set (db_deliveries s) \<Longrightarrow> dr_subscription_id e \<noteq> dr_subscription_id d \<Longrightarrow> e \<in> set (db_deliveries s')"
    and "delivered net r \<Longrightarrow> cursor s (dr_subscription_id d) \<noteq> None"
proof -
  consider (posted) req where "r = Some req" "s' = settle_delivery (\<lambda>_. False) now' d (net_post net req) s"
      "dr_subscription_id d \<in> sr_id ` set (db_subs s)"
    | (dropped) "r = None" "s' = delete_deliveries_where (\<lambda>e. dr_delivery_id e = dr_delivery_id d) s"
    | (blocked) sid st n where "r = None" "s' = snd (set_subscription_status False sid st n s)"
    | (same) "r = None" "s' = s"
  proof (cases r)
    case (Some req)
    from process_request [OF p [unfolded Some]] Some show ?thesis
      by (intro that(1)) (auto dest: row_find_in_keys)
  next
    case None
    with p show ?thesis using that(2-4)
      by (auto simp: process_delivery_def Let_def simp del: no_fault_ops(1)
          split: sum.splits option.splits if_splits prod.splits)
  qed
  note cases = this
  show "cursor s' x = (if delivered net r \<and> x = dr_subscription_id d
            then map_option (\<lambda>c. max c (dr_message_seq d)) (cursor s x) else cursor s x)"
    by (cases rule: cases)
       (auto simp: delivered_def settle_effect(1) [OF wf d refl refl] simp del: no_fault_ops)
  show "e \<in> set (db_deliveries s') \<Longrightarrow> \<exists>e' \<in> set (db_deliveries s). dr_subscription_id e' = dr_subscription_id e
            \<and> dr_message_seq e' = dr_message_seq e \<and> (delivered net r \<longrightarrow> dr_delivery_id e' \<noteq> dr_delivery_id d)"
    by (cases rule: cases)
       (auto simp: delivered_def simp del: no_fault_ops dest: settle_effect(2) [OF wf d refl refl])
  show "e \<in> set (db_deliveries s) \<Longrightarrow> dr_subscription_id e \<noteq> dr_subscription_id d \<Longrightarrow> e \<in> set (db_deliveries s')"
    using store_wfD(13) [OF wf] d
    by (cases rule: cases)
       (auto simp: distinct_map inj_on_def simp del: no_fault_ops intro: settle_effect(3) [OF wf d refl refl])
  show "delivered net r \<Longrightarrow> cursor s (dr_subscription_id d) \<noteq> None"
    by (cases rule: cases) (simp_all add: delivered_def cursor_def)
qed

lemma process_queue_ahead:
  assumes wf: "store_wf s" and q: "queue_ahead s" and h: "heads s (d # ds)"
    and p: "process_delivery net ap (\<lambda>_. False) now now' uid d s = (r, s')"
  shows "queue_ahead s' \<and> heads s' ds"
proof -
  from h have d: "d \<in> set (db_deliveries s)" by (simp add: heads_def)
  note E = process_effect [OF wf d p]
  have "c < dr_message_seq e" if e: "e \<in> set (db_deliveries s')" and c: "cursor s' (dr_subscription_id e) = Some c" for e c
  proof -
    from E(2) [OF e] obtain e' where e': "e' \<in> set (db_deliveries s)" "dr_subscription_id e' = dr_subscription_id e"
      "dr_message_seq e' = dr_message_seq e" "delivered net r \<longrightarrow> dr_delivery_id e' \<noteq> dr_delivery_id d" by blast
    show ?thesis
    proof (cases "delivered net r \<and> dr_subscription_id e = dr_subscription_id d")
      case True
      with e' h have "dr_message_seq d \<le> dr_message_seq e" by (auto simp: heads_def)
      moreover have "dr_message_seq d \<noteq> dr_message_seq e"
        using True e' d store_wfD(14) [OF wf] by (metis (mono_tags, lifting) distinct_map inj_on_def)
      moreover from True c E(1) [of "dr_subscription_id e"] obtain c0
        where "cursor s (dr_subscription_id e) = Some c0" "c = max c0 (dr_message_seq d)"
        by (cases "cursor s (dr_subscription_id d)") auto
      moreover from this e' q have "c0 < dr_message_seq e" by (auto simp: queue_ahead_def)
      ultimately show ?thesis by simp
    next
      case False
      with c E(1) [of "dr_subscription_id e"] have "cursor s (dr_subscription_id e) = Some c" by auto
      with e' q show ?thesis by (auto simp: queue_ahead_def)
    qed
  qed
  moreover have "heads s' ds" unfolding heads_def
  proof (intro conjI ballI impI)
    show "distinct (map dr_subscription_id ds)" using h by (simp add: heads_def)
    fix d' assume d': "d' \<in> set ds"
    with h have "dr_subscription_id d' \<noteq> dr_subscription_id d" by (auto simp: heads_def image_iff)
    with d' h show "d' \<in> set (db_deliveries s')" using E(3) by (auto simp: heads_def)
    fix e assume e: "e \<in> set (db_deliveries s')" "dr_subscription_id e = dr_subscription_id d'"
    from E(2) [OF e(1)] obtain e' where e': "e' \<in> set (db_deliveries s)" "dr_subscription_id e' = dr_subscription_id d'"
      "dr_message_seq e' = dr_message_seq e" by (auto simp: e(2))
    have "dr_message_seq d' \<le> dr_message_seq e'" using h d' e'(1,2) unfolding heads_def by fastforce
    then show "dr_message_seq d' \<le> dr_message_seq e" using e'(3) by simp
  qed
  ultimately show ?thesis by (auto simp: queue_ahead_def)
qed

subsection \<open>Order of delivery\<close>

lemma load_due_heads:
  assumes "store_wf s" "load_due_deliveries False now limit s = Inr due"
  shows "heads s due"
  using due_distinct_subs [OF assms] due_is_head [OF assms(2)] by (auto simp: heads_def)

lemma enqueue_one_ahead:
  assumes "queue_ahead s" "cursor s (sr_id row) = Some (sub_last_delivered_seq (sr_sub row))"
  shows "queue_ahead (enqueue_one (\<lambda>_. False) now uid msg (k, row) s)
    \<and> cursor (enqueue_one (\<lambda>_. False) now uid msg (k, row) s) = cursor s"
  using assms
  by (auto simp: enqueue_one_def enqueue_delivery_def queue_ahead_def cursor_def matches_filter_def fun_eq_iff
      split: if_splits)

lemma enqueue_for_message_ahead:
  assumes "store_wf s" "queue_ahead s"
  shows "queue_ahead (enqueue_for_message (\<lambda>_. False) now uid msg s)
    \<and> cursor (enqueue_for_message (\<lambda>_. False) now uid msg s) = cursor s"
proof -
  have F: "queue_ahead (fold (enqueue_one (\<lambda>_. False) now uid msg) krs s)
      \<and> cursor (fold (enqueue_one (\<lambda>_. False) now uid msg) krs s) = cursor s"
    if "queue_ahead s" "\<forall>(k, row) \<in> set krs. cursor s (sr_id row) = Some (sub_last_delivered_seq (sr_sub row))" for krs s
    using that
  proof (induction krs arbitrary: s)
    case (Cons kr krs)
    obtain k row where kr: "kr = (k, row)" by (cases kr)
    from enqueue_one_ahead [OF Cons.prems(1), of row now uid msg k] Cons.prems(2) kr
      Cons.IH [of "enqueue_one (\<lambda>_. False) now uid msg kr s"] show ?case by auto
  qed simp
  have row: "cursor s (sr_id row) = Some (sub_last_delivered_seq (sr_sub row))" if "row \<in> set (db_subs s)" for row
    using row_find_unique [OF store_wfD(12) [OF assms(1)], of "sr_id row" row] that by (simp add: cursor_def)
  let ?rows = "filter (\<lambda>r. sr_room r = cm_room_id msg \<and> sub_status (sr_sub r) = ''active'') (db_subs s)"
  have "\<forall>(k, row) \<in> set (enumerate 0 ?rows). cursor s (sr_id row) = Some (sub_last_delivered_seq (sr_sub row))"
    using row by (auto simp: in_set_enumerate_eq dest!: nth_mem)
  from F [OF assms(2) this] show ?thesis
    by (simp add: enqueue_for_message_def list_active_subscriptions_for_room_def)
qed

text \<open>The sequence numbers that reached the receiver of one subscription, in order.\<close>

definition received :: "net \<Rightarrow> string \<Rightarrow> (delivery_row \<times> webhook_request option) list \<Rightarrow> int list" where
  "received net sid rs =
     map (\<lambda>(d, _). dr_message_seq d) (filter (\<lambda>(d, r). dr_subscription_id d = sid \<and> delivered net r) rs)"

definition below :: "store \<Rightarrow> string \<Rightarrow> int \<Rightarrow> bool" where
  "below s sid n \<longleftrightarrow> (case cursor s sid of None \<Rightarrow> False | Some c \<Rightarrow> c < n)"

text \<open>From \<open>s\<close> to \<open>s'\<close> the numbers \<open>ns\<close> were received: they increase from behind the first cursor, and the
  last cursor is not before them.\<close>

definition in_order :: "store \<Rightarrow> string \<Rightarrow> int list \<Rightarrow> store \<Rightarrow> bool" where
  "in_order s sid ns s' \<longleftrightarrow> sorted_wrt (<) ns \<and> (\<forall>n \<in> set ns. below s sid n \<and> \<not> below s' sid n)
     \<and> (\<forall>n. below s' sid n \<longrightarrow> below s sid n)"

lemma below_gap: "below s sid n \<Longrightarrow> \<not> below s sid m \<Longrightarrow> m < n"
  by (auto simp: below_def split: option.splits)

lemma below_cursor: "below s sid n \<Longrightarrow> \<exists>c. cursor s sid = Some c \<and> c < n"
  by (auto simp: below_def split: option.splits)

lemma in_order_nil: "cursor s' sid = cursor s sid \<Longrightarrow> in_order s sid [] s'"
  by (simp add: in_order_def below_def)

lemma in_order_append:
  "in_order s sid ns s1 \<Longrightarrow> in_order s1 sid ms s2 \<Longrightarrow> in_order s sid (ns @ ms) s2"
  unfolding in_order_def sorted_wrt_append by (auto intro: below_gap)

lemma process_in_order:
  assumes "store_wf s" "queue_ahead s" "d \<in> set (db_deliveries s)"
    and "process_delivery net ap (\<lambda>_. False) now now' uid d s = (r, s')"
  shows "in_order s sid (received net sid [(d, r)]) s'"
proof (cases "delivered net r \<and> dr_subscription_id d = sid")
  case True
  with process_effect(4) [OF assms(1,3,4)] obtain c where c: "cursor s sid = Some c" by auto
  with assms(2,3) True have "c < dr_message_seq d" by (auto simp: queue_ahead_def)
  moreover from this c True process_effect(1) [OF assms(1,3,4), of sid]
  have "cursor s' sid = Some (dr_message_seq d)" by simp
  ultimately show ?thesis using True c by (auto simp: in_order_def received_def below_def)
next
  case False
  with process_effect(1) [OF assms(1,3,4), of sid] show ?thesis
    by (auto simp: received_def intro!: in_order_nil)
qed

lemma batch_in_order:
  "store_wf s \<Longrightarrow> queue_ahead s \<Longrightarrow> heads s ds \<Longrightarrow>
   process_batch net ap (\<lambda>_ _. False) now now' uid k ds s = (rs, s') \<Longrightarrow>
   store_wf s' \<and> queue_ahead s' \<and> in_order s sid (received net sid rs) s'"
proof (induction ds arbitrary: s k rs s')
  case Nil
  then show ?case by (auto simp: received_def intro: in_order_nil)
next
  case (Cons d ds)
  obtain r s1 where p: "process_delivery net ap (\<lambda>_. False) now now' (uid k) d s = (r, s1)" by force
  obtain rs2 s2 where b: "process_batch net ap (\<lambda>_ _. False) now now' uid (Suc k) ds s1 = (rs2, s2)" by force
  from Cons.prems(4) p b have rs: "rs = (d, r) # rs2" "s' = s2" by simp_all
  have wf1: "store_wf s1" using wf_process_delivery [OF Cons.prems(1)] p by (metis snd_conv)
  from process_queue_ahead [OF Cons.prems(1-3) p] have q: "queue_ahead s1" "heads s1 ds" by simp_all
  from Cons.prems(3) have d: "d \<in> set (db_deliveries s)" by (simp add: heads_def)
  note IH = Cons.IH [OF wf1 q b]
  have "received net sid rs = received net sid [(d, r)] @ received net sid rs2"
    by (simp add: rs received_def)
  with IH rs in_order_append [OF process_in_order [OF Cons.prems(1,2) d p]] show ?case by auto
qed

datatype webhook_op =
    W_Message int "nat \<Rightarrow> string" chat_message
  | W_Round int int "nat \<Rightarrow> string"
  | W_Status string string "int option"

fun webhook_step :: "net \<Rightarrow> bool \<Rightarrow> webhook_op
    \<Rightarrow> (delivery_row \<times> webhook_request option) list \<times> store
    \<Rightarrow> (delivery_row \<times> webhook_request option) list \<times> store" where
  "webhook_step net ap (W_Message now uid msg) (rs, s) = (rs, enqueue_for_message (\<lambda>_. False) now uid msg s)"
| "webhook_step net ap (W_Round now now' uid) (rs, s) =
     (case worker_round net ap False (\<lambda>_ _. False) now now' uid s of (rs', s) \<Rightarrow> (rs @ rs', s))"
| "webhook_step net ap (W_Status sid st n) (rs, s) = (rs, snd (set_subscription_status False sid st n s))"

lemma webhook_step_in_order:
  assumes "store_wf s" "queue_ahead s" "webhook_step net ap op (rs, s) = (rs', s')"
  shows "store_wf s' \<and> queue_ahead s' \<and> (\<exists>rs1. rs' = rs @ rs1 \<and> in_order s sid (received net sid rs1) s')"
proof (cases op)
  case (W_Message now uid msg)
  with assms enqueue_for_message_ahead [OF assms(1,2), of now uid msg] wf_enqueue_for_message [OF assms(1)]
  show ?thesis by (auto simp: received_def intro!: in_order_nil)
next
  case (W_Round now now' uid)
  obtain due where due: "load_due_deliveries False now 32 s = Inr due" by (simp add: load_due_deliveries_def)
  obtain rs1 s1 where b: "process_batch net ap (\<lambda>_ _. False) now now' uid 0 due s = (rs1, s1)" by force
  from batch_in_order [OF assms(1,2) load_due_heads [OF assms(1) due] b] W_Round due b assms(3)
  show ?thesis by (auto simp: worker_round_def)
next
  case (W_Status sid' st n)
  have "queue_ahead (snd (set_subscription_status False sid' st n s))"
    using assms(2) by (simp add: queue_ahead_def del: no_fault_ops)
  with W_Status assms wf_subscription_ops(2) [OF assms(1)] show ?thesis
    by (auto simp: received_def simp del: no_fault_ops intro!: in_order_nil)
qed


subsection \<open>Failures\<close>

text \<open>What follows a failed attempt: it is put off by 1, 4, 16, 64 and 256 seconds after the first to the
  fifth failure, keeping its place at the head of the queue; the sixth drops the message and marks
  the subscription failed.\<close>

lemma retry_schedule:
  assumes "store_wf s" "d \<in> set (db_deliveries s)" "0 \<le> dr_attempts d"
    and "\<not> (\<exists>status. outcome = Some status \<and> is_success status)"
    and "s' = settle_delivery (\<lambda>_. False) now d outcome s"
  shows "if dr_attempts d < 5
    then db_subs s' = db_subs s
      \<and> row_find dr_delivery_id (dr_delivery_id d) (db_deliveries s')
          = Some (d\<lparr>dr_next_attempt_at := now + 1000 * 4 ^ nat (dr_attempts d),
                    dr_attempts := dr_attempts d + 1, dr_last_error := Some (post_error outcome)\<rparr>)
    else dr_delivery_id d \<notin> dr_delivery_id ` set (db_deliveries s')
      \<and> row_find sr_id (dr_subscription_id d) (db_subs s')
          = map_option (\<lambda>r. r\<lparr>sr_sub := (sr_sub r)\<lparr>sub_status := ''failed'', sub_failure_count := dr_attempts d + 1\<rparr>\<rparr>)
              (row_find sr_id (dr_subscription_id d) (db_subs s))"
proof -
  have failed: "\<not> (case outcome of Some status \<Rightarrow> is_success status | None \<Rightarrow> False)"
    using assms(4) by (auto split: option.splits)
  have idx: "nat (dr_attempts d + 1) - Suc 0 = nat (dr_attempts d)" using assms(3) by simp
  have row: "row_find dr_delivery_id (dr_delivery_id d) (db_deliveries s) = Some d"
    using row_find_unique [OF store_wfD(13) [OF assms(1)]] assms(2) by blast
  show ?thesis
  proof (cases "dr_attempts d < 5")
    case True
    then have "dr_attempts d \<in> {0, 1, 2, 3, 4}" using assms(3) by auto
    then have "RETRY_SCHEDULE_SECS ! nat (dr_attempts d) = 4 ^ nat (dr_attempts d)"
      "nat (dr_attempts d) < length RETRY_SCHEDULE_SECS"
      by (auto simp: RETRY_SCHEDULE_SECS_def numeral_2_eq_2 numeral_3_eq_3 eval_nat_numeral)
    then show ?thesis using True failed row
      by (simp add: assms(5) settle_delivery_def Let_def idx reschedule_delivery_def)
  next
    case False
    then have "\<not> nat (dr_attempts d) < length RETRY_SCHEDULE_SECS" by (simp add: RETRY_SCHEDULE_SECS_def)
    then show ?thesis using False failed
      by (auto simp: assms(5) settle_delivery_def Let_def idx sub_update_def)
  qed
qed

subsection \<open>The enqueue task is not ordered\<close>

text \<open>The tasks that enqueue the deliveries of two messages are spawned one by one and may run in any
  order. When the task of a message runs after a later message was delivered, the message is
  enqueued for nobody: no delivery of it is ever made.\<close>

lemma late_enqueue_lost:
  assumes "\<forall>row \<in> set (db_subs s). sr_room row = cm_room_id msg \<longrightarrow> cm_seq msg \<le> sub_last_delivered_seq (sr_sub row)"
  shows "enqueue_for_message fault now uid msg s = s"
proof -
  have F: "fold (enqueue_one fault now uid msg) krs s = s"
    if "\<forall>(k, row) \<in> set krs. cm_seq msg \<le> sub_last_delivered_seq (sr_sub row)" for krs
    using that by (induction krs) (auto simp: enqueue_one_def matches_filter_def)
  let ?rows = "filter (\<lambda>r. sr_room r = cm_room_id msg \<and> sub_status (sr_sub r) = ''active'') (db_subs s)"
  have "\<forall>(k, row) \<in> set (enumerate 0 ?rows). cm_seq msg \<le> sub_last_delivered_seq (sr_sub row)"
    using assms by (auto simp: in_set_enumerate_eq dest!: nth_mem)
  from F [OF this] show ?thesis
    by (simp add: enqueue_for_message_def list_active_subscriptions_for_room_def)
qed

subsection \<open>Address blocks\<close>

definition v4_value :: "8 word \<Rightarrow> 8 word \<Rightarrow> 8 word \<Rightarrow> 8 word \<Rightarrow> nat" where
  "v4_value a b c d = unat a * 2 ^ 24 + unat b * 2 ^ 16 + unat c * 2 ^ 8 + unat d"

text \<open>The addresses of the block \<open>base/bits\<close>.\<close>

definition in_block :: "nat \<Rightarrow> nat \<times> nat \<Rightarrow> bool" where
  "in_block n blk \<longleftrightarrow> (case blk of (base, bits) \<Rightarrow> n div 2 ^ (32 - bits) = base div 2 ^ (32 - bits))"

definition private_blocks :: "(nat \<times> nat) list" where
  "private_blocks =
     [(v4_value 0 0 0 0, 8), (v4_value 10 0 0 0, 8), (v4_value 100 64 0 0, 10), (v4_value 127 0 0 0, 8),
      (v4_value 169 254 0 0, 16), (v4_value 172 16 0 0, 12), (v4_value 192 168 0 0, 16),
      (v4_value 198 18 0 0, 15), (v4_value 224 0 0 0, 4), (v4_value 255 255 255 255, 32)]"

lemma v4_blocks_octets:
  fixes a b c d :: nat
  assumes "a < 256" "b < 256" "c < 256" "d < 256"
  shows "(a * 2 ^ 24 + b * 2 ^ 16 + c * 2 ^ 8 + d) div 2 ^ 24 = a"
    and "(a * 2 ^ 24 + b * 2 ^ 16 + c * 2 ^ 8 + d) div 2 ^ 16 = a * 256 + b"
    and "(a * 2 ^ 24 + b * 2 ^ 16 + c * 2 ^ 8 + d) div 2 ^ 22 = a * 4 + b div 64"
    and "(a * 2 ^ 24 + b * 2 ^ 16 + c * 2 ^ 8 + d) div 2 ^ 20 = a * 16 + b div 16"
    and "(a * 2 ^ 24 + b * 2 ^ 16 + c * 2 ^ 8 + d) div 2 ^ 17 = a * 128 + b div 2"
    and "(a * 2 ^ 24 + b * 2 ^ 16 + c * 2 ^ 8 + d) div 2 ^ 28 = a div 16"
  by (rule div_nat_eqI; use assms in \<open>simp; arith\<close>)+

lemma digit: "y < (k :: nat) \<Longrightarrow> x * k + y = n \<longleftrightarrow> x = n div k \<and> y = n mod k"
  by auto

lemma octet_blocks:
  fixes x y :: nat
  assumes "x < 256" "y < 256"
  shows "x * 256 + y = 43518 \<longleftrightarrow> x = 169 \<and> y = 254" "x * 256 + y = 49320 \<longleftrightarrow> x = 192 \<and> y = 168"
    and "x * 4 + y div 64 = 401 \<longleftrightarrow> x = 100 \<and> 64 \<le> y \<and> y \<le> 127"
    and "x * 16 + y div 16 = 2753 \<longleftrightarrow> x = 172 \<and> 16 \<le> y \<and> y \<le> 31"
    and "x * 128 + y div 2 = 25353 \<longleftrightarrow> x = 198 \<and> (y = 18 \<or> y = 19)"
    and "x div 16 = 14 \<longleftrightarrow> 224 \<le> x \<and> x \<le> 239"
proof -
  have d: "y div 64 < 4" "y div 16 < 16" "y div 2 < 128" using assms(2) by simp_all
  show "x * 256 + y = 43518 \<longleftrightarrow> x = 169 \<and> y = 254" "x * 256 + y = 49320 \<longleftrightarrow> x = 192 \<and> y = 168"
    unfolding digit [OF assms(2)] by simp_all
  have "y div 64 = 1 \<longleftrightarrow> 64 \<le> y \<and> y \<le> 127" by arith
  then show "x * 4 + y div 64 = 401 \<longleftrightarrow> x = 100 \<and> 64 \<le> y \<and> y \<le> 127"
    unfolding digit [OF d(1)] by simp
  have "y div 16 = 1 \<longleftrightarrow> 16 \<le> y \<and> y \<le> 31" by arith
  then show "x * 16 + y div 16 = 2753 \<longleftrightarrow> x = 172 \<and> 16 \<le> y \<and> y \<le> 31"
    unfolding digit [OF d(2)] by simp
  have "y div 2 = 9 \<longleftrightarrow> y = 18 \<or> y = 19" by arith
  then show "x * 128 + y div 2 = 25353 \<longleftrightarrow> x = 198 \<and> (y = 18 \<or> y = 19)"
    unfolding digit [OF d(3)] by simp
  show "x div 16 = 14 \<longleftrightarrow> 224 \<le> x \<and> x \<le> 239" by arith
qed

lemma v4_bases:
  "v4_value 0 0 0 0 = 0" "v4_value 10 0 0 0 = 167772160" "v4_value 127 0 0 0 = 2130706432"
  "v4_value 100 64 0 0 = 1681915904" "v4_value 169 254 0 0 = 2851995648" "v4_value 172 16 0 0 = 2886729728"
  "v4_value 192 168 0 0 = 3232235520" "v4_value 198 18 0 0 = 3323068416" "v4_value 224 0 0 0 = 3758096384"
  by (simp_all add: v4_value_def)

lemma octet_less: "unat (a :: 8 word) < 256"
  using unsigned_less [of a] by simp

lemma octet_unat:
  fixes a :: "8 word"
  assumes "n < 256"
  shows "a = of_nat n \<longleftrightarrow> unat a = n" "of_nat n \<le> a \<longleftrightarrow> n \<le> unat a" "a \<le> of_nat n \<longleftrightarrow> unat a \<le> n"
proof -
  have "unat (of_nat n :: 8 word) = n" using assms by (simp add: unat_of_nat take_bit_nat_eq_self)
  then show "a = of_nat n \<longleftrightarrow> unat a = n" "of_nat n \<le> a \<longleftrightarrow> n \<le> unat a" "a \<le> of_nat n \<longleftrightarrow> unat a \<le> n"
    by (auto simp: word_le_nat_alt word_unat_eq_iff)
qed

lemma octet_num:
  fixes a :: "8 word"
  assumes "numeral n < (256 :: nat)"
  shows "a = numeral n \<longleftrightarrow> unat a = numeral n" "numeral n \<le> a \<longleftrightarrow> numeral n \<le> unat a"
    "a \<le> numeral n \<longleftrightarrow> unat a \<le> numeral n"
  using octet_unat [OF assms, of a] by simp_all

lemma is_public_v4_octets:
  "is_public_v4 a b c d \<longleftrightarrow> \<not>
     (unat a = 10 \<or> (unat a = 172 \<and> 16 \<le> unat b \<and> unat b \<le> 31) \<or> (unat a = 192 \<and> unat b = 168)
      \<or> unat a = 127 \<or> (unat a = 169 \<and> unat b = 254) \<or> (224 \<le> unat a \<and> unat a \<le> 239)
      \<or> (unat a = 255 \<and> unat b = 255 \<and> unat c = 255 \<and> unat d = 255) \<or> unat a = 0
      \<or> (unat a = 100 \<and> 64 \<le> unat b \<and> unat b \<le> 127) \<or> (unat a = 198 \<and> (unat b = 18 \<or> unat b = 19)))"
  unfolding is_public_v4_def by (simp add: octet_num unat_eq_0) auto

text \<open>The IPv4 addresses that are refused as not public are exactly the ten blocks 0/8, 10/8, 100.64/10,
  127/8, 169.254/16, 172.16/12, 192.168/16, 198.18/15, 224/4 and 255.255.255.255/32; an IPv6 address
  that maps one of them is refused as well, and so are the loopback and the unspecified address.\<close>

lemma public_ip_blocks:
  "(is_public_ip (V4 a b c d) \<longleftrightarrow> \<not> list_ex (in_block (v4_value a b c d)) private_blocks)
   \<and> (is_public_ip (V6 0 0 0 0 0 0xffff s6 s7)
        \<longleftrightarrow> is_public_ip (V4 (ucast (drop_bit 8 s6)) (ucast s6) (ucast (drop_bit 8 s7)) (ucast s7)))
   \<and> \<not> is_public_ip (V6 0 0 0 0 0 0 0 0) \<and> \<not> is_public_ip (V6 0 0 0 0 0 0 0 1)"
proof -
  let ?n = "v4_value a b c d"
  note less = octet_less [of a] octet_less [of b] octet_less [of c] octet_less [of d]
  note div = v4_blocks_octets [OF less, folded v4_value_def, simplified]
  note oct = octet_blocks [OF less(1,2)]
  have blk: "in_block ?n (v4_value 0 0 0 0, 8) \<longleftrightarrow> unat a = 0" "in_block ?n (v4_value 10 0 0 0, 8) \<longleftrightarrow> unat a = 10"
    "in_block ?n (v4_value 127 0 0 0, 8) \<longleftrightarrow> unat a = 127"
    "in_block ?n (v4_value 100 64 0 0, 10) \<longleftrightarrow> unat a = 100 \<and> 64 \<le> unat b \<and> unat b \<le> 127"
    "in_block ?n (v4_value 169 254 0 0, 16) \<longleftrightarrow> unat a = 169 \<and> unat b = 254"
    "in_block ?n (v4_value 172 16 0 0, 12) \<longleftrightarrow> unat a = 172 \<and> 16 \<le> unat b \<and> unat b \<le> 31"
    "in_block ?n (v4_value 192 168 0 0, 16) \<longleftrightarrow> unat a = 192 \<and> unat b = 168"
    "in_block ?n (v4_value 198 18 0 0, 15) \<longleftrightarrow> unat a = 198 \<and> (unat b = 18 \<or> unat b = 19)"
    "in_block ?n (v4_value 224 0 0 0, 4) \<longleftrightarrow> 224 \<le> unat a \<and> unat a \<le> 239"
    by (simp_all add: in_block_def div oct v4_bases)
  have top: "in_block ?n (v4_value 255 255 255 255, 32)
      \<longleftrightarrow> unat a = 255 \<and> unat b = 255 \<and> unat c = 255 \<and> unat d = 255"
    using less by (simp add: in_block_def v4_value_def) arith
  have "is_public_ip (V4 a b c d) \<longleftrightarrow> \<not> list_ex (in_block ?n) private_blocks"
    unfolding is_public_ip.simps is_public_v4_octets private_blocks_def list_ex_Nil_iff list_ex_Cons_iff blk top by argo
  then show ?thesis by simp
qed

subsection \<open>A small instance\<close>

text \<open>One message in the demo room and one subscription, whose receiver answers 200.\<close>

definition demo_net :: net where
  "demo_net = \<lparr>net_parse = (\<lambda>_. Some \<lparr>url_scheme = ''https'', url_username = [], url_password = None,
       url_host = Some ''hooks.example'', url_port_or_default = Some 443\<rparr>),
     net_lookup = (\<lambda>_ _. Some [(V4 93 184 216 34, 443)]), net_client = True,
     net_render = (\<lambda>_. ''{}''), net_hmac = (\<lambda>k m. k @ m), net_base64 = (\<lambda>x. x),
     net_post = (\<lambda>_. Some 200)\<rparr>"

definition demo_sub :: subscription where
  "demo_sub = \<lparr>sub_subscription_id = ''s1'', sub_room_id = ''r1'', sub_webhook_url = ''https://hooks.example'',
     sub_kinds = [], sub_only_from = None, sub_not_from = None, sub_exclude_thinking = False,
     sub_since_seq = 0, sub_last_delivered_seq = 0, sub_status = ''active'', sub_failure_count = 0,
     sub_created_at = 5\<rparr>"

definition demo_delivery :: delivery_row where
  "demo_delivery = \<lparr>dr_delivery_id = ''d1'', dr_subscription_id = ''s1'', dr_message_seq = 1,
     dr_message_id = ''m1'', dr_next_attempt_at = 6, dr_attempts = 0, dr_last_error = None\<rparr>"

definition demo_hooks :: store where
  "demo_hooks = snd (enqueue_delivery False ''d1'' ''s1'' 1 ''m1'' 6
     (snd (create_subscription False 5 ''s1'' ''r1'' ''k1'' ''https://hooks.example'' ''sec'' [] None None False 0
       (snd (insert_message False 7 ''m1'' ''r1'' ''a1'' ''Ann'' ''hi'' None (JObj []) demo_store)))))"

lemma demo_hooks_wf [simp]: "store_wf demo_hooks"
  unfolding demo_hooks_def
  by (intro wf_delivery_ops(1) wf_create_subscription wf_insert_message demo_store_wf)

lemma demo_hooks_sel [simp]:
  "db_subs demo_hooks = [\<lparr>sr_sub = demo_sub, sr_owner_key = ''k1'', sr_secret = ''sec''\<rparr>]"
  "db_deliveries demo_hooks = [demo_delivery]"
  "\<exists>m. get_message False ''m1'' demo_hooks = Inr (Some m)"
  by (simp_all add: demo_hooks_def demo_insert create_subscription_def enqueue_delivery_def demo_sub_def
      demo_delivery_def get_message_def Let_def) (simp_all add: demo_store_def)

lemma demo_hooks_ahead [simp]: "queue_ahead demo_hooks"
  by (simp add: queue_ahead_def cursor_def demo_sub_def demo_delivery_def)

lemma demo_resolve:
  "resolve_public_webhook demo_net raw False
     = Inr (\<lparr>url_scheme = ''https'', url_username = [], url_password = None,
         url_host = Some ''hooks.example'', url_port_or_default = Some 443\<rparr>, ''hooks.example'', V4 93 184 216 34, 443)"
  by (simp add: resolve_public_webhook_def demo_net_def eq_ignore_ascii_case_def ascii_lower_def byte_def
      ends_with_def is_public_v4_def)

lemma demo_hook_sel [simp]:
  "sub_subscription_id demo_sub = ''s1''" "sub_status demo_sub = ''active''"
  "dr_subscription_id demo_delivery = ''s1''" "dr_message_id demo_delivery = ''m1''"
  "dr_delivery_id demo_delivery = ''d1''" "dr_message_seq demo_delivery = 1" "dr_attempts demo_delivery = 0"
  "dr_next_attempt_at demo_delivery = 6" "sub_room_id demo_sub = ''r1''" "sub_last_delivered_seq demo_sub = 0"
  "net_client demo_net" "net_post demo_net r = Some 200"
  by (simp_all add: demo_sub_def demo_delivery_def demo_net_def)

lemma demo_process:
  "\<exists>r. process_delivery demo_net False (\<lambda>_. False) 10 11 ''w'' demo_delivery demo_hooks
     = (Some r, settle_delivery (\<lambda>_. False) 11 demo_delivery (Some 200) demo_hooks)"
proof -
  obtain m where "get_message False ''m1'' demo_hooks = Inr (Some m)" using demo_hooks_sel(3) by blast
  then show ?thesis
    by (simp add: process_delivery_def get_subscription_def pinned_http_client_def demo_resolve Let_def)
qed


lemma demo_round:
  "\<exists>r. worker_round demo_net False False (\<lambda>_ _. False) 10 11 (\<lambda>_. ''w'') demo_hooks
     = ([(demo_delivery, Some r)], settle_delivery (\<lambda>_. False) 11 demo_delivery (Some 200) demo_hooks)"
  using demo_process by (auto simp: worker_round_def load_due_deliveries_def queue_head_def Let_def)


lemma retry_schedule_witness:
  "row_find dr_delivery_id ''d1'' (db_deliveries (settle_delivery (\<lambda>_. False) 11 demo_delivery (Some 500) demo_hooks))
     = Some (demo_delivery\<lparr>dr_next_attempt_at := 1011, dr_attempts := 1, dr_last_error := Some ''HTTP 500''\<rparr>)"
proof -
  have "post_error (Some 500) = ''HTTP 500''" by (simp add: post_error_def dec_digits.simps) code_simp
  then show ?thesis
    using retry_schedule [OF demo_hooks_wf, of demo_delivery "Some 500" _ 11, OF _ _ _ refl]
    by (simp add: is_success_def)
qed

lemma late_enqueue_lost_witness:
  "enqueue_for_message (\<lambda>_. False) 9 (\<lambda>_. ''d2'')
      \<lparr>cm_message_id = ''m0'', cm_room_id = ''r1'', cm_agent_id = ''a1'', cm_agent_name = ''Ann'', cm_content = ''hi'',
       cm_reply_to_message = None, cm_metadata = JObj [], cm_timestamp = 7, cm_seq = 0\<rparr> demo_hooks = demo_hooks"
  by (rule late_enqueue_lost) simp

end
