(* ===== verification/Store_Votes.thy ===== *)
theory Store_Votes
  imports Store_Rooms
begin

text \<open>
  Votes, ballots and tasks in \<open>store.rs\<close>. A vote is written together with its electorate in one
  transaction; a ballot is one row per vote and agent; a task is inserted or, by its identifier,
  updated in its four mutable columns.
\<close>

subsection \<open>Votes\<close>

definition create_vote ::
    "bool \<Rightarrow> int \<Rightarrow> string \<Rightarrow> string \<Rightarrow> string \<Rightarrow> string option \<Rightarrow> string list \<Rightarrow> string \<Rightarrow> int option
     \<Rightarrow> string list \<Rightarrow> store \<Rightarrow> (store_error + unit) \<times> store" where
  "create_vote fault now vote_id room_id title description options created_by closes_at eligible_agents s =
     (if fault then (Inl (SE_Db IoFault), s)
      else if vote_id \<in> vm_vote_id ` set (db_votes s) then (Inl (SE_Db PrimaryKeyTaken), s)
      else if \<not> distinct eligible_agents then (Inl (SE_Db PrimaryKeyTaken), s)
      else (Inr (), s\<lparr>db_votes := db_votes s @
               [\<lparr>vm_vote_id = vote_id, vm_room_id = room_id, vm_title = title,
                 vm_description = description, vm_options = options, vm_created_by = created_by,
                 vm_created_at = now, vm_closes_at = closes_at, vm_status = ''open'',
                 vm_eligible_voters = length eligible_agents\<rparr>],
             db_eligible := db_eligible s @ map (\<lambda>a. (vote_id, a)) eligible_agents\<rparr>))"

definition get_vote_eligible_agents :: "bool \<Rightarrow> string \<Rightarrow> store \<Rightarrow> store_error + string list" where
  "get_vote_eligible_agents fault vote_id s =
     (if fault then Inl (SE_Db IoFault)
      else Inr (sort (map snd (filter (\<lambda>(v, _). v = vote_id) (db_eligible s)))))"

text \<open>The status is read and the ballot written by two statements; each may fail.\<close>

definition cast_ballot ::
    "bool \<Rightarrow> bool \<Rightarrow> int \<Rightarrow> string \<Rightarrow> string \<Rightarrow> string \<Rightarrow> nat \<Rightarrow> store \<Rightarrow> (store_error + unit) \<times> store" where
  "cast_ballot fault_read fault_write now vote_id agent_id agent_name option_index s =
     (if fault_read then (Inl (SE_Db IoFault), s)
      else case row_find vm_vote_id vote_id (db_votes s) of
        None \<Rightarrow> (Inl SE_VoteNotFound, s)
      | Some v \<Rightarrow>
          if vm_status v \<noteq> ''open'' then (Inl SE_VoteClosed, s)
          else if fault_write then (Inl (SE_Db IoFault), s)
          else if (vote_id, agent_id) \<in> (\<lambda>b. (br_vote_id b, br_agent_id b)) ` set (db_ballots s)
          then (Inl SE_AlreadyVoted, s)
          else (Inr (), s\<lparr>db_ballots := db_ballots s @
                 [\<lparr>br_vote_id = vote_id, br_agent_id = agent_id, br_agent_name = agent_name,
                   br_option_index = option_index, br_cast_at = now\<rparr>]\<rparr>))"

abbreviation ballots_of :: "string \<Rightarrow> store \<Rightarrow> ballot_row list" where
  "ballots_of vote_id s \<equiv> filter (\<lambda>b. br_vote_id b = vote_id) (db_ballots s)"

definition get_vote_ballot_count :: "bool \<Rightarrow> string \<Rightarrow> store \<Rightarrow> store_error + nat" where
  "get_vote_ballot_count fault vote_id s =
     (if fault then Inl (SE_Db IoFault) else Inr (length (ballots_of vote_id s)))"

definition get_vote_ballots ::
    "bool \<Rightarrow> string \<Rightarrow> store \<Rightarrow> store_error + (string \<times> string \<times> nat) list" where
  "get_vote_ballots fault vote_id s =
     (if fault then Inl (SE_Db IoFault)
      else Inr (map (\<lambda>b. (br_agent_id b, br_agent_name b, br_option_index b))
             (sort_key br_cast_at (ballots_of vote_id s))))"

definition close_vote :: "bool \<Rightarrow> string \<Rightarrow> store \<Rightarrow> (store_error + unit) \<times> store" where
  "close_vote fault vote_id s =
     (if fault then (Inl (SE_Db IoFault), s)
      else (Inr (), s\<lparr>db_votes := row_update vm_vote_id vote_id (\<lambda>v. v\<lparr>vm_status := ''closed''\<rparr>)
                         (db_votes s)\<rparr>))"

definition get_vote_meta :: "bool \<Rightarrow> string \<Rightarrow> store \<Rightarrow> store_error + vote_row option" where
  "get_vote_meta fault vote_id s =
     (if fault then Inl (SE_Db IoFault) else Inr (row_find vm_vote_id vote_id (db_votes s)))"

definition list_votes :: "bool \<Rightarrow> string \<Rightarrow> nat \<Rightarrow> store \<Rightarrow> store_error + vote_row list" where
  "list_votes fault room_id limit s =
     (if fault then Inl (SE_Db IoFault)
      else Inr (take limit (rev (sort_key (\<lambda>v. (vm_created_at v, vm_vote_id v))
             (filter (\<lambda>v. vm_room_id v = room_id) (db_votes s))))))"

definition list_open_votes :: "bool \<Rightarrow> store \<Rightarrow> store_error + vote_row list" where
  "list_open_votes fault s =
     (if fault then Inl (SE_Db IoFault)
      else Inr (sort_key vm_created_at (filter (\<lambda>v. vm_status v = ''open'') (db_votes s))))"

subsection \<open>Tasks\<close>

definition save_task :: "bool \<Rightarrow> task_info \<Rightarrow> store \<Rightarrow> (store_error + unit) \<times> store" where
  "save_task fault task s =
     (if fault then (Inl (SE_Db IoFault), s)
      else if tk_task_id task \<in> tk_task_id ` set (db_tasks s)
      then (Inr (), s\<lparr>db_tasks := row_update tk_task_id (tk_task_id task)
              (\<lambda>t. t\<lparr>tk_status := tk_status task, tk_assignee := tk_assignee task,
                     tk_updated_at := tk_updated_at task, tk_note := tk_note task\<rparr>) (db_tasks s)\<rparr>)
      else if \<not> room_exists (tk_room_id task) s then (Inl (SE_Db ForeignKeyFailed), s)
      else (Inr (), s\<lparr>db_tasks := db_tasks s @ [task]\<rparr>))"

definition load_tasks :: "bool \<Rightarrow> store \<Rightarrow> store_error + task_info list" where
  "load_tasks fault s = (if fault then Inl (SE_Db IoFault) else Inr (db_tasks s))"

subsection \<open>Consistency\<close>

lemma wf_create_vote [wf_intros]:
  assumes wf: "store_wf s"
  shows "store_wf (snd (create_vote fault now vid rid title d opts cb ca el s))"
proof -
  note D = store_wfD [OF wf]
  have "store_wf (s\<lparr>db_votes := db_votes s @ [v], db_eligible := db_eligible s @ map (\<lambda>a. (vid, a)) el\<rparr>)"
    if "vid \<notin> vm_vote_id ` set (db_votes s)" "distinct el" "vm_vote_id v = vid" for v
  proof -
    have "store_wf (s\<lparr>db_votes := db_votes s @ [v]\<rparr>)" (is "store_wf ?s")
      using D(8,20,21) that by (intro wf_set_votes [OF wf]) auto
    then show ?thesis
    proof (rule wf_set_eligible)
      have "(vid, a) \<notin> set (db_eligible s)" for a using D(21) that(1) by blast
      then show "distinct (db_eligible s @ map (\<lambda>a. (vid, a)) el)"
        using D(10) that(2) by (auto simp: distinct_map inj_on_def)
      show "(v', a) \<in> set (db_eligible s @ map (\<lambda>a. (vid, a)) el) \<Longrightarrow> v' \<in> vm_vote_id ` set (db_votes ?s)" for v' a
        using D(21) that(3) by auto
    qed
  qed
  then show ?thesis using wf by (simp add: create_vote_def)
qed

lemma wf_cast_ballot [wf_intros]:
  assumes "store_wf s"
  shows "store_wf (snd (cast_ballot fr fw now vid aid an opt s))"
proof (cases "row_find vm_vote_id vid (db_votes s)")
  case (Some v)
  from row_find_in_keys [OF Some] show ?thesis
    using assms Some store_wfD(9,20) [OF assms]
    by (auto simp: cast_ballot_def intro!: wf_set_ballots)
qed (simp add: cast_ballot_def assms)

lemma wf_close_vote [wf_intros]:
  assumes "store_wf s"
  shows "store_wf (snd (close_vote fault vid s))"
proof -
  let ?vs = "row_update vm_vote_id vid (\<lambda>v. v\<lparr>vm_status := ''closed''\<rparr>) (db_votes s)"
  have keys: "map vm_vote_id ?vs = map vm_vote_id (db_votes s)" by simp
  then have "vm_vote_id ` set ?vs = vm_vote_id ` set (db_votes s)" by (metis set_map)
  then have "store_wf (s\<lparr>db_votes := ?vs\<rparr>)"
    using store_wfD(8,20,21) [OF assms] keys by (intro wf_set_votes [OF assms]) simp_all
  then show ?thesis using assms by (simp add: close_vote_def)
qed

lemma wf_save_task [wf_intros]:
  assumes "store_wf s"
  shows "store_wf (snd (save_task fault task s))"
proof -
  note D = store_wfD [OF assms]
  have keys: "distinct (map tk_task_id (row_update tk_task_id (tk_task_id task)
      (\<lambda>t. t\<lparr>tk_status := tk_status task, tk_assignee := tk_assignee task,
             tk_updated_at := tk_updated_at task, tk_note := tk_note task\<rparr>) (db_tasks s)))"
    using D(11) by simp
  show ?thesis using assms keys D(11,19)
    by (auto simp: save_task_def row_update_def intro!: wf_set_tasks)
qed

end
