(* ===== verification/Tasks.thy ===== *)
theory Tasks
  imports Store_Votes
begin

text \<open>
  The task manager (\<open>tasks.rs\<close>): a map of the tasks in memory, written through to the table
  \<open>room_tasks\<close>. An update holds the map entry while it writes the row, so each operation is one step
  on the pair of map and database. The interface \<open>write_through\<close> says what a user of such a mirror
  relies on, and is interpreted on the task manager.
\<close>

subsection \<open>Mirrors\<close>

text \<open>A mirror and the table behind it, seen as two lookup functions; every operation keeps them equal.\<close>

locale write_through =
  fixes cached :: "'m \<Rightarrow> 'k \<Rightarrow> 'v option"
    and stored :: "'s \<Rightarrow> 'k \<Rightarrow> 'v option"
    and inv :: "'m \<Rightarrow> 's \<Rightarrow> bool"
    and step :: "'op \<Rightarrow> 'm \<times> 's \<Rightarrow> 'm \<times> 's"
    and load :: "'s \<Rightarrow> 'm"
  assumes step_keeps: "inv m s \<Longrightarrow> cached m = stored s \<Longrightarrow> step op (m, s) = (m', s') \<Longrightarrow>
      inv m' s' \<and> cached m' = stored s'"
    and load_reads: "inv m s \<Longrightarrow> inv (load s) s \<and> cached (load s) = stored s"
begin

lemma steps_agree:
  "inv m s \<Longrightarrow> cached m = stored s \<Longrightarrow> fold step ops (m, s) = (m', s') \<Longrightarrow>
   inv m' s' \<and> cached m' = stored s'"
proof (induction ops arbitrary: m s)
  case (Cons op ops)
  obtain m1 s1 where 1: "step op (m, s) = (m1, s1)" by force
  from step_keeps [OF Cons.prems(1,2) 1] have "inv m1 s1" "cached m1 = stored s1" by simp_all
  moreover have "fold step ops (m1, s1) = (m', s')" using Cons.prems(3) 1 by simp
  ultimately show ?case by (rule Cons.IH)
qed simp

text \<open>A restart of the server is invisible.\<close>

lemma restart_invisible:
  "inv m s \<Longrightarrow> cached m = stored s \<Longrightarrow> fold step ops (m, s) = (m', s') \<Longrightarrow> cached (load s') = cached m'"
  using steps_agree load_reads by metis

end

subsection \<open>The manager\<close>

type_synonym task_map = "(string, task_info) dashmap"

definition task_manager_new :: "bool \<Rightarrow> store \<Rightarrow> task_map" where
  "task_manager_new fault s =
     (case load_tasks fault s of
        Inl _ \<Rightarrow> []
      | Inr persisted \<Rightarrow> fold (\<lambda>t m. dm_insert (tk_task_id t) t m) persisted [])"

definition create_task ::
    "bool \<Rightarrow> int \<Rightarrow> string \<Rightarrow> string \<Rightarrow> string \<Rightarrow> string option \<Rightarrow> string option \<Rightarrow> string
     \<Rightarrow> task_map \<Rightarrow> store \<Rightarrow> (store_error + task_info) \<times> task_map \<times> store" where
  "create_task fault now task_id room_id title description assignee created_by m s =
     (let task = \<lparr>tk_task_id = task_id, tk_room_id = room_id, tk_title = title,
                  tk_description = description, tk_status = ''pending'', tk_assignee = assignee,
                  tk_created_by = created_by, tk_created_at = now, tk_updated_at = None,
                  tk_note = None\<rparr>
      in case save_task fault task s of
           (Inl e, s) \<Rightarrow> (Inl e, m, s)
         | (Inr _, s) \<Rightarrow> (Inr task, dm_insert task_id task m, s))"

definition update_task ::
    "bool \<Rightarrow> int \<Rightarrow> string \<Rightarrow> string option \<Rightarrow> string option \<Rightarrow> string option
     \<Rightarrow> task_map \<Rightarrow> store \<Rightarrow> (store_error + task_info option) \<times> task_map \<times> store" where
  "update_task fault now task_id status assignee note m s =
     (case map_of m task_id of
        None \<Rightarrow> (Inr None, m, s)
      | Some task \<Rightarrow>
          let task = (case status of Some st \<Rightarrow> task\<lparr>tk_status := st\<rparr> | None \<Rightarrow> task);
              task = (case assignee of Some a \<Rightarrow> task\<lparr>tk_assignee := Some a\<rparr> | None \<Rightarrow> task);
              task = (case note of Some n \<Rightarrow> task\<lparr>tk_note := Some n\<rparr> | None \<Rightarrow> task);
              task = task\<lparr>tk_updated_at := Some now\<rparr>
          in case save_task fault task s of
               (Inl e, s) \<Rightarrow> (Inl e, m, s)
             | (Inr _, s) \<Rightarrow> (Inr (Some task), dm_insert task_id task m, s))"

definition list_tasks :: "string \<Rightarrow> string option \<Rightarrow> task_map \<Rightarrow> task_info list" where
  "list_tasks room_id status_filter m =
     filter (\<lambda>t. tk_room_id t = room_id
                 \<and> (case status_filter of Some st \<Rightarrow> tk_status t = st | None \<Rightarrow> True)) (map snd m)"

definition get_task :: "string \<Rightarrow> task_map \<Rightarrow> task_info option" where
  "get_task task_id m = map_of m task_id"

definition forget_room_tasks :: "string \<Rightarrow> task_map \<Rightarrow> task_map" where
  "forget_room_tasks room_id m = dm_retain (\<lambda>_ t. tk_room_id t \<noteq> room_id) m"

subsection \<open>The mirror is the table\<close>

definition stored_task :: "store \<Rightarrow> string \<Rightarrow> task_info option" where
  "stored_task s task_id = row_find tk_task_id task_id (db_tasks s)"

definition tasks_wf :: "task_map \<Rightarrow> store \<Rightarrow> bool" where
  "tasks_wf m s \<longleftrightarrow> distinct (dm_keys m) \<and> store_wf s"

lemma load_fold:
  "map_of (fold (\<lambda>t m. dm_insert (tk_task_id t) t m) ts m) k
     = (case row_find tk_task_id k (rev ts) of Some t \<Rightarrow> Some t | None \<Rightarrow> map_of m k)"
  by (induction ts arbitrary: m) (auto simp: row_find_append split: option.splits)

lemma row_find_rev:
  "distinct (map key rows) \<Longrightarrow> row_find key k (rev rows) = row_find key k rows"
proof -
  assume d: "distinct (map key rows)"
  then have "distinct (map key (rev rows))" by (simp flip: rev_map)
  then have "row_find key k (rev rows) = Some r \<longleftrightarrow> row_find key k rows = Some r" for r
    using d by (simp add: row_find_unique)
  then show ?thesis by (metis not_Some_eq)
qed

lemma task_manager_new_lookup:
  "store_wf s \<Longrightarrow> map_of (task_manager_new False s) k = stored_task s k"
  by (simp add: task_manager_new_def load_tasks_def load_fold stored_task_def row_find_rev store_wfD(11)
      split: option.split)

lemma task_manager_new_distinct: "distinct (dm_keys (task_manager_new fault s))"
proof -
  have "distinct (dm_keys m) \<Longrightarrow> distinct (dm_keys (fold (\<lambda>t m. dm_insert (tk_task_id t) t m) ts m))"
    for ts :: "task_info list" and m
    by (induction ts arbitrary: m) auto
  then show ?thesis by (simp add: task_manager_new_def split: sum.split)
qed

text \<open>What a saved task looks like in the table: a new row, or the four mutable columns.\<close>

lemma stored_after_save:
  "save_task fault task s = (Inr (), s') \<Longrightarrow>
   stored_task s' k = (if k = tk_task_id task
     then Some (case stored_task s k of None \<Rightarrow> task
           | Some t \<Rightarrow> t\<lparr>tk_status := tk_status task, tk_assignee := tk_assignee task,
                         tk_updated_at := tk_updated_at task, tk_note := tk_note task\<rparr>)
     else stored_task s k)"
  by (auto simp: save_task_def stored_task_def row_find_append split: if_splits option.splits
      dest: row_find_in_keys)

lemma save_task_failed: "save_task fault task s = (Inl e, s') \<Longrightarrow> s' = s"
  by (auto simp: save_task_def split: if_splits)

datatype task_op =
    T_Create bool int string string string "string option" "string option" string
  | T_Update bool int string "string option" "string option" "string option"
  | T_Destroy bool string string string bool

text \<open>A creation takes a fresh task identifier (a new UUID); a destruction removes the room from the
  database and, when that succeeded, from the mirror.\<close>

fun task_step :: "task_op \<Rightarrow> task_map \<times> store \<Rightarrow> task_map \<times> store" where
  "task_step (T_Create f now tid rid title d a c) (m, s) =
     (if get_task tid m \<noteq> None then (m, s) else snd (create_task f now tid rid title d a c m s))"
| "task_step (T_Update f now tid st a n) (m, s) = snd (update_task f now tid st a n m s)"
| "task_step (T_Destroy f rid aid key no_auth) (m, s) =
     (case destroy_room_authorized f rid aid key no_auth s of
        (Inl _, s) \<Rightarrow> (m, s) | (Inr _, s) \<Rightarrow> (forget_room_tasks rid m, s))"

lemma create_task_agrees:
  assumes "tasks_wf m s" "map_of m = stored_task s" "map_of m tid = None"
  shows "case create_task f now tid rid title d a c m s of
     (_, m', s') \<Rightarrow> tasks_wf m' s' \<and> map_of m' = stored_task s'"
proof (cases "create_task f now tid rid title d a c m s")
  case (fields r m' s')
  let ?t = "\<lparr>tk_task_id = tid, tk_room_id = rid, tk_title = title, tk_description = d,
    tk_status = ''pending'', tk_assignee = a, tk_created_by = c, tk_created_at = now,
    tk_updated_at = None, tk_note = None\<rparr>"
  obtain r0 s0 where sv: "save_task f ?t s = (r0, s0)" by force
  have wf: "store_wf s0" using wf_save_task [of s f ?t] assms(1) sv by (simp add: tasks_wf_def)
  show ?thesis
  proof (cases r0)
    case (Inl e)
    with sv fields assms show ?thesis
      by (auto simp: create_task_def Let_def dest: save_task_failed)
  next
    case (Inr u)
    with sv have "stored_task s0 k = (if k = tid then Some ?t else stored_task s k)" for k
      using stored_after_save [of f ?t s s0 k] assms(2,3) by (auto split: option.splits)
    with Inr sv fields assms wf show ?thesis
      by (auto simp: create_task_def Let_def tasks_wf_def fun_eq_iff)
  qed
qed

lemma update_task_agrees:
  assumes "tasks_wf m s" "map_of m = stored_task s"
  shows "case update_task f now tid st a n m s of
     (_, m', s') \<Rightarrow> tasks_wf m' s' \<and> map_of m' = stored_task s'"
proof (cases "map_of m tid")
  case None
  with assms show ?thesis by (simp add: update_task_def)
next
  case (Some t)
  define t1 where "t1 = (case st of Some x \<Rightarrow> t\<lparr>tk_status := x\<rparr> | None \<Rightarrow> t)"
  define t2 where "t2 = (case a of Some x \<Rightarrow> t1\<lparr>tk_assignee := Some x\<rparr> | None \<Rightarrow> t1)"
  define t3 where "t3 = (case n of Some x \<Rightarrow> t2\<lparr>tk_note := Some x\<rparr> | None \<Rightarrow> t2)"
  define t4 where "t4 = t3\<lparr>tk_updated_at := Some now\<rparr>"
  have eq: "update_task f now tid st a n m s = (case save_task f t4 s of
       (Inl e, s) \<Rightarrow> (Inl e, m, s) | (Inr _, s) \<Rightarrow> (Inr (Some t4), dm_insert tid t4 m, s))"
    unfolding update_task_def Let_def Some option.case t4_def t3_def t2_def t1_def by (rule refl)
  have "tk_task_id t = tid" using Some assms(2) by (auto simp: stored_task_def dest: row_find_SomeD)
  then have t4: "tk_task_id t4 = tid"
    "t\<lparr>tk_status := tk_status t4, tk_assignee := tk_assignee t4, tk_updated_at := tk_updated_at t4,
       tk_note := tk_note t4\<rparr> = t4"
    by (auto simp: t1_def t2_def t3_def t4_def split: option.splits)
  obtain r0 s0 where sv: "save_task f t4 s = (r0, s0)" by force
  have wf: "store_wf s0" using wf_save_task [of s f t4] assms(1) sv by (simp add: tasks_wf_def)
  show ?thesis
  proof (cases r0)
    case (Inl e)
    with sv assms show ?thesis by (auto simp: eq dest: save_task_failed)
  next
    case (Inr u)
    with sv have "stored_task s0 k = (if k = tid then Some t4 else stored_task s k)" for k
      using stored_after_save [of f t4 s s0 k] assms(2) t4 Some by (auto simp: fun_eq_iff)
    with Inr sv assms wf show ?thesis
      by (auto simp: eq tasks_wf_def fun_eq_iff)
  qed
qed

lemma destroy_tasks_agrees:
  assumes "tasks_wf m s" "map_of m = stored_task s"
    and "destroy_room_authorized f rid aid key na s = (Inr room, s')"
  shows "tasks_wf (forget_room_tasks rid m) s' \<and> map_of (forget_room_tasks rid m) = stored_task s'"
proof -
  note s' = destroy_room_store(1) [OF assms(3)]
  have "store_wf s'" using wf_destroy_room [of s f rid aid key na] assms(1,3) by (simp add: tasks_wf_def)
  moreover have "stored_task s' k = (case stored_task s k of None \<Rightarrow> None
       | Some t \<Rightarrow> if tk_room_id t \<noteq> rid then Some t else None)" for k
    using row_find_filter [of tk_task_id "db_tasks s" k] store_wfD(11) [of s] assms(1)
    by (simp add: s' stored_task_def purge_room_grants_from_cache_def without_room_def tasks_wf_def)
  ultimately show ?thesis using assms(1,2)
    by (auto simp: tasks_wf_def forget_room_tasks_def dm_lookup_retain fun_eq_iff)
qed

interpretation task_mirror: write_through "\<lambda>m :: task_map. map_of m" stored_task tasks_wf task_step
  "task_manager_new False"
proof
  fix m s op m' s'
  assume a: "tasks_wf m s" "map_of m = stored_task s"
  show "tasks_wf m' s' \<and> map_of m' = stored_task s'" if "task_step op (m, s) = (m', s')"
  proof (cases op)
    case (T_Create f now tid rid title d asg c)
    show ?thesis
    proof (cases "map_of m tid")
      case None
      from create_task_agrees [OF a None, of f now rid title d asg c] that T_Create None show ?thesis
        by (auto simp: get_task_def split: prod.splits)
    qed (use a that T_Create in \<open>auto simp: get_task_def\<close>)
  next
    case (T_Update f now tid st asg n)
    with update_task_agrees [OF a, of f now tid st asg n] that show ?thesis
      by (auto split: prod.splits)
  next
    case (T_Destroy f rid aid key na)
    then show ?thesis using that a destroy_tasks_agrees [OF a]
      by (auto split: prod.splits sum.splits dest: destroy_room_refused)
  qed
next
  fix m :: task_map and s
  assume "tasks_wf m s"
  then show "tasks_wf (task_manager_new False s) s
      \<and> map_of (task_manager_new False s) = stored_task s"
    by (auto simp: tasks_wf_def task_manager_new_distinct task_manager_new_lookup)
qed



end
