(* ===== verification/Expiry_Cache.thy ===== *)
theory Expiry_Cache
  imports Prelude
begin

text \<open>
  The bounded memory of destroyed rooms. \<open>broker.rs\<close> (\<open>RoomLifecycleState\<close>) and \<open>reconnect.rs\<close>
  (\<open>DestroyedRoomCache\<close>) hold a map from room to the instant of its destruction and tidy it with the
  same loop: drop what is older than a time to live, then evict the oldest entries until at most a
  maximum is left. The loop is modelled once, with both bounds as arguments; the interface
  \<open>expiry_cache\<close> says what a user of such a memory may rely on, and is interpreted where the two
  caches are defined (\<open>Broker\<close>, \<open>Reconnect\<close>).
\<close>

subsection \<open>The pruning loop\<close>

text \<open>\<open>min_by_key\<close>: the first entry of least instant.\<close>

fun oldest :: "('k, nat) dashmap \<Rightarrow> ('k \<times> nat) option" where
  "oldest [] = None"
| "oldest (e # es) =
     (case oldest es of
        None \<Rightarrow> Some e
      | Some e' \<Rightarrow> if snd e \<le> snd e' then Some e else Some e')"

lemma oldest_None [simp]: "oldest m = None \<longleftrightarrow> m = []"
  by (cases m) (auto split: option.splits)

lemma oldest_Some: "oldest m = Some e \<Longrightarrow> e \<in> set m \<and> (\<forall>e' \<in> set m. snd e \<le> snd e')"
proof (induction m arbitrary: e)
  case (Cons a m)
  then show ?case by (cases "oldest m") (fastforce split: if_splits)+
qed simp

lemma length_dm_remove_less: "k \<in> set (dm_keys m) \<Longrightarrow> length (dm_remove k m) < length m"
proof -
  assume "k \<in> set (dm_keys m)"
  then have "\<exists>e \<in> set m. \<not> (case e of (k', _) \<Rightarrow> k \<noteq> k')" by auto
  then show ?thesis by (auto simp: AList.delete_eq intro: length_filter_less)
qed

function evict_oldest :: "nat \<Rightarrow> ('k, nat) dashmap \<Rightarrow> ('k, nat) dashmap" where
  "evict_oldest cap m =
     (if cap < length m
      then case oldest m of None \<Rightarrow> m | Some (k, _) \<Rightarrow> evict_oldest cap (dm_remove k m)
      else m)"
  by pat_completeness auto
termination
  by (relation "measure (\<lambda>(cap, m). length m)")
     (auto dest!: oldest_Some intro!: length_dm_remove_less simp: image_iff Bex_def)

declare evict_oldest.simps [simp del]

lemma evict_small: "length m \<le> cap \<Longrightarrow> evict_oldest cap m = m"
  by (simp add: evict_oldest.simps)

lemma evict_big:
  "cap < length m \<Longrightarrow> oldest m = Some (k, t) \<Longrightarrow> evict_oldest cap m = evict_oldest cap (dm_remove k m)"
  by (subst evict_oldest.simps) simp

lemma evict_induct [case_names small big]:
  assumes "\<And>m. length m \<le> cap \<Longrightarrow> P m"
    and "\<And>m k t. cap < length m \<Longrightarrow> oldest m = Some (k, t) \<Longrightarrow> P (dm_remove k m) \<Longrightarrow> P m"
  shows "P m"
proof (induction "length m" arbitrary: m rule: less_induct)
  case less
  show ?case
  proof (cases "cap < length m")
    case True
    then obtain k t where e: "oldest m = Some (k, t)" by (cases "oldest m") auto
    then have "(k, t) \<in> set m" by (auto dest: oldest_Some)
    then have "length (dm_remove k m) < length m"
      by (intro length_dm_remove_less) (auto intro: rev_image_eqI)
    with less have "P (dm_remove k m)" by blast
    with True e show ?thesis by (rule assms(2))
  qed (simp add: assms(1))
qed

definition cache_prune :: "nat \<Rightarrow> nat \<Rightarrow> nat \<Rightarrow> ('k, nat) dashmap \<Rightarrow> ('k, nat) dashmap" where
  "cache_prune ttl cap now m = evict_oldest cap (dm_retain (\<lambda>_ t. now - t < ttl) m)"

definition cache_insert :: "nat \<Rightarrow> nat \<Rightarrow> nat \<Rightarrow> 'k \<Rightarrow> ('k, nat) dashmap \<Rightarrow> ('k, nat) dashmap" where
  "cache_insert ttl cap now k m =
     cache_prune ttl cap now (dm_insert k now (cache_prune ttl cap now m))"

text \<open>The other entries that are not older than \<open>t\<close>: only when they fill the cache is an entry of
  instant \<open>t\<close> evicted.\<close>

definition not_older :: "('k, nat) dashmap \<Rightarrow> 'k \<Rightarrow> nat \<Rightarrow> nat" where
  "not_older m k t = length (filter (\<lambda>(k', t'). k' \<noteq> k \<and> t \<le> t') m)"

lemma not_older_filter: "not_older (filter P m) k t \<le> not_older m k t"
  by (induction m) (auto simp: not_older_def)

lemma not_older_remove: "not_older (dm_remove k' m) k t \<le> not_older m k t"
  by (simp add: AList.delete_eq not_older_filter)

lemma not_older_insert: "not_older (dm_insert k' now m) k t \<le> Suc (not_older m k t)"
  by (induction m) (auto simp: not_older_def)

lemma not_older_insert_same: "not_older (dm_insert k now m) k t = not_older m k t"
  by (induction m) (auto simp: not_older_def)

lemma evict_size: "length (evict_oldest cap m) \<le> cap"
  by (induction m rule: evict_induct [of cap]) (simp_all add: evict_small evict_big)

lemma evict_distinct: "distinct (dm_keys m) \<Longrightarrow> distinct (dm_keys (evict_oldest cap m))"
  by (induction m rule: evict_induct [of cap]) (simp_all add: evict_small evict_big)

lemma evict_lookup: "map_of (evict_oldest cap m) k = Some t \<Longrightarrow> map_of m k = Some t"
  by (induction m rule: evict_induct [of cap]) (auto simp: evict_small evict_big split: if_splits)

lemma evict_not_older: "not_older (evict_oldest cap m) k t \<le> not_older m k t"
  by (induction m rule: evict_induct [of cap])
     (auto simp: evict_small evict_big intro: order_trans not_older_remove)

lemma length_not_older:
  assumes "distinct (dm_keys m)" "(k, t) \<in> set m" "\<forall>e \<in> set m. t \<le> snd e"
  shows "length m = Suc (not_older m k t)"
  using assms
proof (induction m)
  case (Cons e m)
  obtain k' t' where e: "e = (k', t')" by (cases e)
  show ?case
  proof (cases "k' = k")
    case True
    with Cons.prems e have "k \<notin> set (dm_keys m)" by simp
    then have "filter (\<lambda>(k', t'). k' \<noteq> k \<and> t \<le> t') m = m" using Cons.prems(3)
      by (intro filter_True) (auto simp: rev_image_eqI)
    with True e show ?thesis by (simp add: not_older_def)
  next
    case False
    with Cons e show ?thesis by (simp add: not_older_def)
  qed
qed simp

lemma evict_keeps:
  "distinct (dm_keys m) \<Longrightarrow> map_of m k = Some t \<Longrightarrow> not_older m k t < cap \<Longrightarrow>
   map_of (evict_oldest cap m) k = Some t"
proof (induction m rule: evict_induct [of cap])
  case (big m k' t')
  have "k' \<noteq> k"
  proof
    assume "k' = k"
    with oldest_Some [OF big(2)] have min: "(k, t') \<in> set m" "\<forall>e \<in> set m. t' \<le> snd e" by auto
    from min(1) have "map_of m k = Some t'" using dm_entry_lookup [OF big(4)] by blast
    with big(5) have "t' = t" by (metis option.inject)
    with length_not_older [OF big(4) min] big(1,6) show False by (metis less_Suc_eq_le not_le)
  qed
  with big le_less_trans [OF not_older_remove big(6)] show ?case by (simp add: evict_big)
qed (simp add: evict_small)

subsection \<open>The interface\<close>

locale expiry_cache =
  fixes entries :: "'c \<Rightarrow> ('k, nat) dashmap"
    and tidy :: "nat \<Rightarrow> 'c \<Rightarrow> 'c"
    and put :: "nat \<Rightarrow> 'k \<Rightarrow> 'c \<Rightarrow> 'c"
    and ttl :: nat
    and cap :: nat
  assumes ttl_pos: "0 < ttl"
    and tidy_distinct: "distinct (dm_keys (entries c)) \<Longrightarrow> distinct (dm_keys (entries (tidy now c)))"
    and put_distinct: "distinct (dm_keys (entries c)) \<Longrightarrow> distinct (dm_keys (entries (put now k c)))"
    and tidy_size: "length (entries (tidy now c)) \<le> cap"
    and put_size: "length (entries (put now k c)) \<le> cap"
    and tidy_fresh: "distinct (dm_keys (entries c)) \<Longrightarrow> map_of (entries (tidy now c)) k = Some t \<Longrightarrow>
      map_of (entries c) k = Some t \<and> now - t < ttl"
    and tidy_not_older: "not_older (entries (tidy now c)) k t \<le> not_older (entries c) k t"
    and put_not_older: "not_older (entries (put now k' c)) k t
      \<le> not_older (entries c) k t + (if k' = k then 0 else 1)"
    and tidy_keeps: "distinct (dm_keys (entries c)) \<Longrightarrow> map_of (entries c) k = Some t \<Longrightarrow>
      now - t < ttl \<Longrightarrow> not_older (entries c) k t < cap \<Longrightarrow>
      map_of (entries (tidy now c)) k = Some t"
    and put_keeps: "distinct (dm_keys (entries c)) \<Longrightarrow> map_of (entries c) k = Some t \<Longrightarrow> k' \<noteq> k \<Longrightarrow>
      now - t < ttl \<Longrightarrow> Suc (not_older (entries c) k t) < cap \<Longrightarrow>
      map_of (entries (put now k' c)) k = Some t"
    and put_there: "distinct (dm_keys (entries c)) \<Longrightarrow> not_older (entries c) k now < cap \<Longrightarrow>
      map_of (entries (put now k c)) k = Some now"
begin

text \<open>\<open>k\<close> was put at \<open>t\<close>, and at least \<open>n\<close> further keys fit before it may be evicted.\<close>

definition remembers :: "'k \<Rightarrow> nat \<Rightarrow> nat \<Rightarrow> 'c \<Rightarrow> bool" where
  "remembers k t n c \<longleftrightarrow>
     distinct (dm_keys (entries c)) \<and> map_of (entries c) k = Some t \<and> not_older (entries c) k t + n < cap"

lemma remembers_key: "remembers k t n c \<Longrightarrow> k \<in> set (dm_keys (entries c))"
  by (auto simp: remembers_def dest!: map_of_SomeD intro: rev_image_eqI)

lemma remembers_tidy:
  assumes "remembers k t n c" "now - t < ttl"
  shows "remembers k t n (tidy now c)"
proof -
  have "not_older (entries (tidy now c)) k t + n < cap"
    using assms(1) tidy_not_older [of now c k t] by (simp add: remembers_def)
  then show ?thesis using assms by (simp add: remembers_def tidy_distinct tidy_keeps)
qed

lemma remembers_put:
  assumes "remembers k t (Suc n) c" "now - t < ttl" "k' \<noteq> k"
  shows "remembers k t n (put now k' c)"
proof -
  have "not_older (entries (put now k' c)) k t + n < cap"
    using assms put_not_older [of now k' c k t] by (simp add: remembers_def)
  then show ?thesis using assms by (simp add: remembers_def put_distinct put_keeps)
qed

lemma remembers_start:
  assumes "distinct (dm_keys (entries c))" "not_older (entries c) k t + n < cap"
  shows "remembers k t n (put t k c)"
  using assms put_not_older [of t k c k t] by (simp add: remembers_def put_distinct put_there)

end

text \<open>The loop meets the laws, for every positive time to live.\<close>

lemma cache_prune_distinct: "distinct (dm_keys m) \<Longrightarrow> distinct (dm_keys (cache_prune ttl cap now m))"
  by (simp add: cache_prune_def evict_distinct)

lemma cache_prune_not_older: "not_older (cache_prune ttl cap now m) k t \<le> not_older m k t"
  unfolding cache_prune_def by (rule order_trans [OF evict_not_older not_older_filter])

lemma cache_prune_keeps:
  "distinct (dm_keys m) \<Longrightarrow> map_of m k = Some t \<Longrightarrow> now - t < ttl \<Longrightarrow> not_older m k t < cap \<Longrightarrow>
   map_of (cache_prune ttl cap now m) k = Some t"
  unfolding cache_prune_def
  by (intro evict_keeps) (simp_all add: dm_lookup_retain_Some le_less_trans [OF not_older_filter])

lemma cache_prune_fresh:
  "distinct (dm_keys m) \<Longrightarrow> map_of (cache_prune ttl cap now m) k = Some t \<Longrightarrow>
   map_of m k = Some t \<and> now - t < ttl"
  unfolding cache_prune_def by (drule evict_lookup) (simp add: dm_lookup_retain_Some)

lemma cache_insert_old:
  assumes "distinct (dm_keys m)" "map_of (cache_insert ttl cap now k m) k' = Some t" "k' \<noteq> k"
  shows "map_of m k' = Some t"
proof -
  note d = cache_prune_distinct [OF assms(1)]
  have "map_of (dm_insert k now (cache_prune ttl cap now m)) k' = Some t"
    using assms(2) cache_prune_fresh [of "dm_insert k now (cache_prune ttl cap now m)"] d
    by (auto simp: cache_insert_def)
  then show ?thesis using assms(3) cache_prune_fresh [OF assms(1)] by simp
qed

lemma expiry_cache_loop:
  assumes "0 < ttl"
  shows "expiry_cache (\<lambda>m. m) (cache_prune ttl cap) (cache_insert ttl cap) ttl cap"
proof
  fix now k k' t and m :: "('k, nat) dashmap"
  let ?p = "cache_prune ttl cap now m"
  show "0 < ttl" by (rule assms)
  show "length (cache_prune ttl cap now m) \<le> cap" "length (cache_insert ttl cap now k m) \<le> cap"
    by (simp_all add: cache_insert_def cache_prune_def evict_size)
  show "not_older ?p k t \<le> not_older m k t" by (rule cache_prune_not_older)
  have "not_older (dm_insert k' now ?p) k t \<le> not_older ?p k t + (if k' = k then 0 else 1)"
    using not_older_insert [of k' now ?p k t] by (simp add: not_older_insert_same)
  then have put: "not_older (dm_insert k' now ?p) k t \<le> not_older m k t + (if k' = k then 0 else 1)"
    using cache_prune_not_older [of ttl cap now m k t] by simp
  then show "not_older (cache_insert ttl cap now k' m) k t
      \<le> not_older m k t + (if k' = k then 0 else 1)"
    unfolding cache_insert_def by (rule order_trans [OF cache_prune_not_older])
  assume d: "distinct (dm_keys m)"
  then show "distinct (dm_keys ?p)" "distinct (dm_keys (cache_insert ttl cap now k m))"
    by (simp_all add: cache_insert_def cache_prune_distinct)
  note dp = cache_prune_distinct [OF d]
  {
    assume "not_older m k now < cap"
    then have "not_older (dm_insert k now ?p) k now < cap"
      using cache_prune_not_older [of ttl cap now m k now] by (simp add: not_older_insert_same)
    then show "map_of (cache_insert ttl cap now k m) k = Some now"
      using assms dp unfolding cache_insert_def by (intro cache_prune_keeps) simp_all
  }
  {
    assume "map_of ?p k = Some t"
    with d show "map_of m k = Some t \<and> now - t < ttl" by (rule cache_prune_fresh)
  }
  assume m: "map_of m k = Some t" "now - t < ttl"
  {
    assume "not_older m k t < cap"
    with d m show "map_of ?p k = Some t" by (intro cache_prune_keeps)
  }
  {
    assume "k' \<noteq> k" "Suc (not_older m k t) < cap"
    with put d m dp show "map_of (cache_insert ttl cap now k' m) k = Some t"
      unfolding cache_insert_def by (intro cache_prune_keeps) (simp_all add: cache_prune_keeps)
  }
qed

text \<open>A memory that is a component of a larger state inherits the laws.\<close>

lemma expiry_cache_view:
  assumes "expiry_cache (\<lambda>m. m) tidy' put' ttl cap"
    and "\<And>now c. entries (tidy now c) = tidy' now (entries c)"
    and "\<And>now k c. entries (put now k c) = put' now k (entries c)"
  shows "expiry_cache entries tidy put ttl cap"
  using assms(1) unfolding expiry_cache_def assms(2,3) by (elim conjE, intro conjI) (assumption | (intro allI, elim allE, assumption))+

end
