(* ===== verification/Broker.thy ===== *)
theory Broker
  imports Core_Models Expiry_Cache
begin

text \<open>
  Message routing and room membership (\<open>broker.rs\<close>), with the connections of \<open>connection.rs\<close>: who is
  in a room and in which order, who holds the turn token, which rooms were destroyed a short while
  ago, and the bounded outbound queue of every connected agent.

  The three mutexes (\<open>room_mutation\<close>, \<open>agent_lifecycle\<close>, \<open>room_lifecycle\<close>) make the operations atomic,
  and so they are functions of the whole broker state here; the one operation that takes no lock,
  \<open>advance_turn_from\<close>, is also split into its two accesses at the end of the theory. An outbound queue
  is the list of frames that wait in the channel; \<open>try_send\<close> fails when 256 frames wait or the
  receiver is gone, and then the connection's \<open>disconnect\<close> is notified.
\<close>

subsection \<open>The token ring\<close>

locale turn_ring =
  fixes ring :: "'s \<Rightarrow> 'a list"
    and holder :: "'s \<Rightarrow> 'a option"
    and pass :: "'a \<Rightarrow> 's \<Rightarrow> 's"
  assumes ring_pass: "ring (pass a s) = ring s"
    and pass_next: "distinct (ring s) \<Longrightarrow> i < length (ring s) \<Longrightarrow>
      holder (pass (ring s ! i) s) = Some (ring s ! (Suc i mod length (ring s)))"
begin

text \<open>The holder speaks \<open>n\<close> times in a row.\<close>

fun turns :: "nat \<Rightarrow> 's \<Rightarrow> 's" where
  "turns 0 s = s"
| "turns (Suc n) s = turns n (case holder s of None \<Rightarrow> s | Some h \<Rightarrow> pass h s)"

lemma ring_turns [simp]: "ring (turns n s) = ring s"
  by (induction n arbitrary: s) (auto simp: ring_pass split: option.splits)

lemma turns_holder:
  "distinct (ring s) \<Longrightarrow> i < length (ring s) \<Longrightarrow> holder s = Some (ring s ! i) \<Longrightarrow>
   holder (turns n s) = Some (ring s ! ((i + n) mod length (ring s)))"
proof (induction n arbitrary: s i)
  case (Suc n)
  let ?s = "pass (ring s ! i) s" and ?j = "Suc i mod length (ring s)"
  have "0 < length (ring s)" using Suc.prems(2) by linarith
  then have "?j < length (ring s)" by (rule mod_less_divisor)
  then have "holder (turns n ?s) = Some (ring ?s ! ((?j + n) mod length (ring ?s)))"
    using Suc.prems by (intro Suc.IH) (simp_all add: ring_pass pass_next)
  then show ?case using Suc.prems by (simp add: ring_pass mod_add_left_eq)
qed simp

text \<open>Within one round every member holds the token, and after a round it is back.\<close>

lemma one_round:
  assumes "distinct (ring s)" "holder s = Some h" "h \<in> set (ring s)"
  shows "holder (turns (length (ring s)) s) = Some h"
    and "a \<in> set (ring s) \<Longrightarrow> \<exists>n < length (ring s). holder (turns n s) = Some a"
proof -
  from assms(3) obtain i where i: "i < length (ring s)" "ring s ! i = h" by (auto simp: in_set_conv_nth)
  note th = turns_holder [OF assms(1) i(1)]
  show "holder (turns (length (ring s)) s) = Some h" using th assms(2) i by simp
  assume "a \<in> set (ring s)"
  then obtain j where j: "j < length (ring s)" "ring s ! j = a" by (auto simp: in_set_conv_nth)
  let ?L = "length (ring s)"
  let ?n = "(j + ?L - i) mod ?L"
  have "(i + ?n) mod ?L = (i + (j + ?L - i)) mod ?L" by (simp add: mod_add_right_eq)
  also have "\<dots> = j" using i j by simp
  finally have "holder (turns ?n s) = Some a" using th [of ?n] assms(2) i j by simp
  moreover have "?n < ?L" using i(1) by (intro mod_less_divisor) linarith
  ultimately show "\<exists>n < ?L. holder (turns n s) = Some a" by blast
qed

end

subsection \<open>State\<close>

record agent_conn =
  ac_info :: agent_info
  ac_session_id :: string
  ac_outbox :: "frame list"
  ac_closed :: bool
  ac_disconnect :: bool
  ac_api_key :: string

definition ROOM_TOMBSTONE_TTL :: nat where
  "ROOM_TOMBSTONE_TTL = 5 * 60 * 1000"

definition MAX_ROOM_TOMBSTONES :: nat where
  "MAX_ROOM_TOMBSTONES = 4096"

definition AGENT_CHANNEL :: nat where
  "AGENT_CHANNEL = 256"

record broker =
  agents :: "(string, agent_conn) dashmap"
  room_members :: "(string, string list) dashmap"
  turn_holders :: "(string, string) dashmap"
  tombstones :: "(string, nat) dashmap"

definition broker_new :: broker where
  "broker_new = \<lparr>agents = [], room_members = [], turn_holders = [], tombstones = []\<rparr>"

definition lifecycle_prune :: "nat \<Rightarrow> (string, nat) dashmap \<Rightarrow> (string, nat) dashmap" where
  "lifecycle_prune now t = cache_prune ROOM_TOMBSTONE_TTL MAX_ROOM_TOMBSTONES now t"

definition lifecycle_tombstone :: "nat \<Rightarrow> string \<Rightarrow> (string, nat) dashmap \<Rightarrow> (string, nat) dashmap" where
  "lifecycle_tombstone now room_id t = cache_insert ROOM_TOMBSTONE_TTL MAX_ROOM_TOMBSTONES now room_id t"

interpretation tomb: expiry_cache "\<lambda>m. m" lifecycle_prune lifecycle_tombstone
  ROOM_TOMBSTONE_TTL MAX_ROOM_TOMBSTONES
  by (rule expiry_cache_view [OF expiry_cache_loop])
     (simp_all add: ROOM_TOMBSTONE_TTL_def lifecycle_prune_def lifecycle_tombstone_def)

subsection \<open>Sending\<close>

text \<open>\<open>try_send\<close> on the bounded channel of \<open>create_agent_channel\<close>.\<close>

definition accepts :: "agent_conn \<Rightarrow> bool" where
  "accepts c \<longleftrightarrow> \<not> ac_closed c \<and> length (ac_outbox c) < AGENT_CHANNEL"

definition send_to_agent :: "string \<Rightarrow> frame \<Rightarrow> broker \<Rightarrow> broker" where
  "send_to_agent agent_id f b =
     (case map_of (agents b) agent_id of
        None \<Rightarrow> b
      | Some c \<Rightarrow>
          b\<lparr>agents := dm_insert agent_id
              (if accepts c then c\<lparr>ac_outbox := ac_outbox c @ [f]\<rparr> else c\<lparr>ac_disconnect := True\<rparr>)
              (agents b)\<rparr>)"

definition get_room_members :: "string \<Rightarrow> broker \<Rightarrow> string list" where
  "get_room_members room_id b = (case map_of (room_members b) room_id of Some ms \<Rightarrow> ms | None \<Rightarrow> [])"

definition is_agent_in_room :: "string \<Rightarrow> string \<Rightarrow> broker \<Rightarrow> bool" where
  "is_agent_in_room agent_id room_id b =
     (case map_of (room_members b) room_id of
        Some ms \<Rightarrow> list_ex (\<lambda>m. m = agent_id) ms | None \<Rightarrow> False)"

definition broadcast_to_room :: "string \<Rightarrow> string \<Rightarrow> frame \<Rightarrow> broker \<Rightarrow> broker" where
  "broadcast_to_room room_id sender_id f b =
     (case map_of (room_members b) room_id of
        None \<Rightarrow> b
      | Some ms \<Rightarrow> fold (\<lambda>m b. if m = sender_id then b else send_to_agent m f b) ms b)"

definition broadcast_to_room_all :: "string \<Rightarrow> frame \<Rightarrow> broker \<Rightarrow> broker" where
  "broadcast_to_room_all room_id f b =
     (case map_of (room_members b) room_id of
        None \<Rightarrow> b
      | Some ms \<Rightarrow> fold (\<lambda>m b. send_to_agent m f b) ms b)"

text \<open>The frame, with its identifier, is built once and cloned for every mentioned member.\<close>

definition mention_frame :: "string \<Rightarrow> chat_message \<Rightarrow> string \<Rightarrow> frame" where
  "mention_frame uid message room_id =
     frame_event uid Mention (JObj [(''room_id'', JStr room_id), (''message'', chat_message_to_json message)])"

definition send_mentions :: "string \<Rightarrow> string list \<Rightarrow> chat_message \<Rightarrow> string \<Rightarrow> broker \<Rightarrow> broker" where
  "send_mentions uid mentions message room_id b =
     fold (\<lambda>a b. if is_agent_in_room a room_id b
                 then send_to_agent a (mention_frame uid message room_id) b else b) mentions b"

subsection \<open>Membership\<close>

text \<open>\<open>JoinOutcome\<close> is its one field; \<open>Err(Destroyed)\<close> is \<open>None\<close>.\<close>

definition join_room :: "nat \<Rightarrow> string \<Rightarrow> string \<Rightarrow> bool \<Rightarrow> broker \<Rightarrow> string option option \<times> broker" where
  "join_room now agent_id room_id room_exists b =
     (let b = b\<lparr>tombstones := lifecycle_prune now (tombstones b)\<rparr> in
      if room_id \<in> set (dm_keys (tombstones b)) \<or> \<not> room_exists then (None, b)
      else
        let entry = get_room_members room_id b;
            b = b\<lparr>room_members := dm_insert room_id
                    (if list_ex (\<lambda>m. m = agent_id) entry then entry else entry @ [agent_id])
                    (room_members b)\<rparr>
        in if map_of (turn_holders b) room_id = None
           then (Some (Some agent_id), b\<lparr>turn_holders := dm_insert room_id agent_id (turn_holders b)\<rparr>)
           else (Some None, b))"

record leave_outcome =
  lo_now_empty :: bool
  lo_new_holder :: "string option"
  lo_holder_changed :: bool

definition leave_room :: "nat \<Rightarrow> string \<Rightarrow> string \<Rightarrow> broker \<Rightarrow> leave_outcome \<times> broker" where
  "leave_room now agent_id room_id b =
     (let b = b\<lparr>tombstones := lifecycle_prune now (tombstones b)\<rparr>;
          was_holder = (map_of (turn_holders b) room_id = Some agent_id);
          b = (case map_of (room_members b) room_id of
                 None \<Rightarrow> b
               | Some ms \<Rightarrow> b\<lparr>room_members := dm_insert room_id (filter (\<lambda>m. m \<noteq> agent_id) ms)
                                                 (room_members b)\<rparr>);
          now_empty = (get_room_members room_id b = [])
      in if was_holder
         then (if now_empty
               then (\<lparr>lo_now_empty = now_empty, lo_new_holder = None, lo_holder_changed = True\<rparr>,
                     b\<lparr>turn_holders := dm_remove room_id (turn_holders b)\<rparr>)
               else (case get_room_members room_id b of
                  next_id # _ \<Rightarrow>
                    (\<lparr>lo_now_empty = now_empty, lo_new_holder = Some next_id, lo_holder_changed = True\<rparr>,
                     b\<lparr>turn_holders := dm_insert room_id next_id (turn_holders b)\<rparr>)
                | [] \<Rightarrow>
                    (\<lparr>lo_now_empty = now_empty, lo_new_holder = None, lo_holder_changed = True\<rparr>,
                     b\<lparr>turn_holders := dm_remove room_id (turn_holders b)\<rparr>)))
         else (\<lparr>lo_now_empty = now_empty, lo_new_holder = None, lo_holder_changed = False\<rparr>, b))"

definition rooms_for_agent :: "string \<Rightarrow> broker \<Rightarrow> string list" where
  "rooms_for_agent agent_id b =
     dm_keys (dm_retain (\<lambda>_ ms. list_ex (\<lambda>m. m = agent_id) ms) (room_members b))"

fun leave_rooms :: "nat \<Rightarrow> string \<Rightarrow> string list \<Rightarrow> broker \<Rightarrow> (string \<times> leave_outcome) list \<times> broker" where
  "leave_rooms now agent_id [] b = ([], b)"
| "leave_rooms now agent_id (r # rs) b =
     (let (out, b) = leave_room now agent_id r b;
          (outs, b) = leave_rooms now agent_id rs b
      in ((r, out) # outs, b))"

definition leave_all_rooms :: "nat \<Rightarrow> string \<Rightarrow> broker \<Rightarrow> (string \<times> leave_outcome) list \<times> broker" where
  "leave_all_rooms now agent_id b = leave_rooms now agent_id (rooms_for_agent agent_id b) b"

definition turn_holder :: "string \<Rightarrow> broker \<Rightarrow> string option" where
  "turn_holder room_id b = map_of (turn_holders b) room_id"

text \<open>\<open>Iterator::position\<close>.\<close>

fun position :: "'a \<Rightarrow> 'a list \<Rightarrow> nat option" where
  "position x [] = None"
| "position x (y # ys) = (if y = x then Some 0 else map_option Suc (position x ys))"

definition advance_turn_from :: "string \<Rightarrow> string \<Rightarrow> broker \<Rightarrow> string option \<times> broker" where
  "advance_turn_from room_id sender_id b =
     (let members = get_room_members room_id b in
      if members = [] then (None, b\<lparr>turn_holders := dm_remove room_id (turn_holders b)\<rparr>)
      else
        let next_id = (case position sender_id members of
                         Some i \<Rightarrow> members ! ((i + 1) mod length members)
                       | None \<Rightarrow> members ! 0)
        in (Some next_id, b\<lparr>turn_holders := dm_insert room_id next_id (turn_holders b)\<rparr>))"

text \<open>\<open>destroy_room_with\<close> runs the store's deletion under the lifecycle lock; its result is an
  argument.\<close>

definition destroy_room_with ::
    "nat \<Rightarrow> string \<Rightarrow> 'e + 't \<Rightarrow> broker \<Rightarrow> ('e + 't \<times> string list) \<times> broker" where
  "destroy_room_with now room_id deleted b =
     (let b = b\<lparr>tombstones := lifecycle_prune now (tombstones b)\<rparr> in
      case deleted of
        Inl e \<Rightarrow> (Inl e, b)
      | Inr d \<Rightarrow>
          (Inr (d, get_room_members room_id b),
           b\<lparr>tombstones := lifecycle_tombstone now room_id (tombstones b),
             room_members := dm_remove room_id (room_members b),
             turn_holders := dm_remove room_id (turn_holders b)\<rparr>))"

definition destroy_room :: "nat \<Rightarrow> string \<Rightarrow> broker \<Rightarrow> string list \<times> broker" where
  "destroy_room now room_id b =
     (case destroy_room_with now room_id (Inr () :: unit + unit) b of
        (Inr (_, members), b') \<Rightarrow> (members, b') | (Inl _, b') \<Rightarrow> ([], b'))"

definition is_room_destroyed :: "nat \<Rightarrow> string \<Rightarrow> broker \<Rightarrow> bool \<times> broker" where
  "is_room_destroyed now room_id b =
     (let b = b\<lparr>tombstones := lifecycle_prune now (tombstones b)\<rparr>
      in (room_id \<in> set (dm_keys (tombstones b)), b))"

subsection \<open>The broker's invariant\<close>

text \<open>Maps have distinct keys, members are distinct; a room has a token holder exactly when it has
  members, and the holder is one of them; a room with a tombstone has no members.\<close>

definition broker_wf :: "broker \<Rightarrow> bool" where
  "broker_wf b \<longleftrightarrow>
     distinct (dm_keys (agents b)) \<and> distinct (dm_keys (room_members b))
     \<and> distinct (dm_keys (turn_holders b)) \<and> distinct (dm_keys (tombstones b))
     \<and> (\<forall>r. distinct (get_room_members r b))
     \<and> (\<forall>r. case turn_holder r b of
               None \<Rightarrow> get_room_members r b = [] | Some h \<Rightarrow> h \<in> set (get_room_members r b))
     \<and> (\<forall>r. map_of (tombstones b) r \<noteq> None \<longrightarrow> get_room_members r b = [])"

definition members_in :: "(string, string list) dashmap \<Rightarrow> string \<Rightarrow> string list" where
  "members_in m r = (case map_of m r of Some ms \<Rightarrow> ms | None \<Rightarrow> [])"

lemma members_in_simps [simp]:
  "members_in [] r = []"
  "members_in (dm_insert q ms m) r = (if r = q then ms else members_in m r)"
  "members_in (dm_remove q m) r = (if r = q then [] else members_in m r)"
  by (simp_all add: members_in_def)

lemma get_room_members_in: "get_room_members r b = members_in (room_members b) r"
  by (simp add: get_room_members_def members_in_def)

lemmas broker_views = get_room_members_in turn_holder_def

lemma is_agent_in_room_iff [simp]: "is_agent_in_room a r b \<longleftrightarrow> a \<in> set (get_room_members r b)"
  by (auto simp: is_agent_in_room_def get_room_members_def list_ex_iff split: option.splits)

lemma broker_wfD:
  assumes "broker_wf b"
  shows "distinct (dm_keys (agents b))" "distinct (dm_keys (room_members b))"
    "distinct (dm_keys (turn_holders b))" "distinct (dm_keys (tombstones b))"
    "distinct (get_room_members r b)"
    "turn_holder r b = Some h \<Longrightarrow> h \<in> set (get_room_members r b)"
    "turn_holder r b = None \<longleftrightarrow> get_room_members r b = []"
    "map_of (tombstones b) r = Some t \<Longrightarrow> get_room_members r b = []"
  using assms unfolding broker_wf_def
  by (fastforce split: option.splits)+

lemma broker_wfI:
  assumes "distinct (dm_keys (agents b))" "distinct (dm_keys (room_members b))"
    "distinct (dm_keys (turn_holders b))" "distinct (dm_keys (tombstones b))"
    and "\<And>r. distinct (get_room_members r b)"
    and "\<And>r h. turn_holder r b = Some h \<Longrightarrow> h \<in> set (get_room_members r b)"
    and "\<And>r. turn_holder r b = None \<Longrightarrow> get_room_members r b = []"
    and "\<And>r t. map_of (tombstones b) r = Some t \<Longrightarrow> get_room_members r b = []"
  shows "broker_wf b"
  using assms unfolding broker_wf_def by (auto split: option.splits)

lemma broker_new_wf [simp]: "broker_wf broker_new"
  by (rule broker_wfI) (simp_all add: broker_new_def get_room_members_def turn_holder_def)

lemma broker_wf_cong:
  assumes "broker_wf b" "room_members b' = room_members b" "turn_holders b' = turn_holders b"
    and "distinct (dm_keys (agents b'))" "distinct (dm_keys (tombstones b'))"
    and "\<And>r t. map_of (tombstones b') r = Some t \<Longrightarrow> map_of (tombstones b) r \<noteq> None"
  shows "broker_wf b'"
proof -
  note D = broker_wfD [OF assms(1)]
  have "get_room_members r b' = get_room_members r b" "turn_holder r b' = turn_holder r b" for r
    using assms(2,3) by (simp_all add: broker_views)
  then show ?thesis using D assms(2-6) by (intro broker_wfI) fastforce+
qed

lemma wf_prune [wf_intros]:
  assumes "broker_wf b"
  shows "broker_wf (b\<lparr>tombstones := lifecycle_prune now (tombstones b)\<rparr>)"
  using broker_wfD(1,4) [OF assms] tomb.tidy_distinct [OF broker_wfD(4) [OF assms]]
  by (intro broker_wf_cong [OF assms]) (auto dest: tomb.tidy_fresh [OF broker_wfD(4) [OF assms]])

lemma wf_set_agents [wf_intros]:
  "broker_wf b \<Longrightarrow> distinct (dm_keys a) \<Longrightarrow> broker_wf (b\<lparr>agents := a\<rparr>)"
  by (rule broker_wf_cong) (auto dest: broker_wfD(4))

lemma wf_send_to_agent [wf_intros]: "broker_wf b \<Longrightarrow> broker_wf (send_to_agent a f b)"
  by (auto simp: send_to_agent_def intro!: wf_set_agents dest: broker_wfD(1) split: option.splits)

lemma wf_broadcast [wf_intros]:
  assumes "broker_wf b"
  shows "broker_wf (broadcast_to_room r a f b)" "broker_wf (broadcast_to_room_all r f b)"
    "broker_wf (send_mentions u ms m r b)"
proof -
  have 1: "broker_wf (fold (\<lambda>m b. if m = a then b else send_to_agent m f b) xs b)" for xs
    using assms by (induction xs arbitrary: b) (auto intro: wf_send_to_agent)
  have 2: "broker_wf (fold (\<lambda>m b. send_to_agent m f b) xs b)" for xs
    using assms by (induction xs arbitrary: b) (auto intro: wf_send_to_agent)
  show "broker_wf (broadcast_to_room r a f b)" "broker_wf (broadcast_to_room_all r f b)"
    using assms 1 2 by (auto simp: broadcast_to_room_def broadcast_to_room_all_def split: option.splits)
  show "broker_wf (send_mentions u ms m r b)" unfolding send_mentions_def
    using assms by (induction ms arbitrary: b) (auto intro: wf_send_to_agent)
qed

text \<open>Setting the members and the holder of one room.\<close>

lemma wf_set_room:
  assumes wf: "broker_wf b" and "distinct ms"
    and "case h of None \<Rightarrow> ms = [] | Some x \<Rightarrow> x \<in> set ms"
    and "map_of (tombstones b) r \<noteq> None \<Longrightarrow> ms = []"
    and mem: "\<And>q. get_room_members q b' = (if q = r then ms else get_room_members q b)"
    and hold: "\<And>q. turn_holder q b' = (if q = r then h else turn_holder q b)"
    and "distinct (dm_keys (room_members b'))" "distinct (dm_keys (turn_holders b'))"
    and "agents b' = agents b" "tombstones b' = tombstones b"
  shows "broker_wf b'"
proof (rule broker_wfI)
  note D = broker_wfD [OF wf]
  show "distinct (dm_keys (agents b'))" "distinct (dm_keys (tombstones b'))" using assms(9,10) D by simp_all
  show "distinct (dm_keys (room_members b'))" "distinct (dm_keys (turn_holders b'))" by (rule assms(7,8))+
  show "distinct (get_room_members q b')" for q using D(5) assms(2) by (simp add: mem)
  show "turn_holder q b' = Some x \<Longrightarrow> x \<in> set (get_room_members q b')" for q x
    using D(6) assms(3) by (auto simp: mem hold split: if_splits)
  show "turn_holder q b' = None \<Longrightarrow> get_room_members q b' = []" for q
    using D(7) assms(3) by (auto simp: mem hold split: if_splits)
  show "map_of (tombstones b') q = Some t \<Longrightarrow> get_room_members q b' = []" for q t
    using D(8) assms(4,10) by (auto simp: mem)
qed

lemma join_room_eq:
  "join_room now a r ex b =
    (let b = b\<lparr>tombstones := lifecycle_prune now (tombstones b)\<rparr>; ms = get_room_members r b in
     if map_of (tombstones b) r \<noteq> None \<or> \<not> ex then (None, b)
     else if turn_holder r b = None
     then (Some (Some a), b\<lparr>room_members := dm_insert r (if a \<in> set ms then ms else ms @ [a]) (room_members b),
             turn_holders := dm_insert r a (turn_holders b)\<rparr>)
     else (Some None, b\<lparr>room_members := dm_insert r (if a \<in> set ms then ms else ms @ [a]) (room_members b)\<rparr>))"
  by (simp add: join_room_def Let_def turn_holder_def get_room_members_in map_of_eq_None_iff list_ex_iff)

lemma wf_join_room [wf_intros]:
  assumes "broker_wf b"
  shows "broker_wf (snd (join_room now a r ex b))"
proof -
  let ?b = "b\<lparr>tombstones := lifecycle_prune now (tombstones b)\<rparr>"
  let ?ms = "get_room_members r ?b"
  let ?new = "if a \<in> set ?ms then ?ms else ?ms @ [a]"
  have wf: "broker_wf ?b" using assms by (rule wf_prune)
  note D = broker_wfD [OF wf]
  consider "map_of (tombstones ?b) r \<noteq> None \<or> \<not> ex" | "map_of (tombstones ?b) r = None" ex "turn_holder r ?b = None"
    | h where "map_of (tombstones ?b) r = None" ex "turn_holder r ?b = Some h"
    by (cases "turn_holder r ?b") auto
  then show ?thesis
  proof cases
    case 1
    then show ?thesis using wf by (simp add: join_room_eq)
  next
    case 2
    have "broker_wf (?b\<lparr>room_members := dm_insert r ?new (room_members ?b),
        turn_holders := dm_insert r a (turn_holders ?b)\<rparr>)"
      using 2 D(2,3,5) by (intro wf_set_room [where h = "Some a" and r = r and ms = ?new, OF wf])
        (auto simp: broker_views)
    then show ?thesis using 2 by (simp add: join_room_eq Let_def)
  next
    case 3
    have "broker_wf (?b\<lparr>room_members := dm_insert r ?new (room_members ?b)\<rparr>)"
      using 3 D(2,3,5,6) by (intro wf_set_room [where h = "Some h" and r = r and ms = ?new, OF wf])
        (auto simp: broker_views)
    then show ?thesis using 3 by (simp add: join_room_eq Let_def)
  qed
qed

lemma members_leave:
  "get_room_members q (snd (leave_room now a r b))
     = (if q = r then filter (\<lambda>m. m \<noteq> a) (get_room_members r b) else get_room_members q b)"
  by (auto simp: leave_room_def Let_def get_room_members_in members_in_def split: option.splits list.splits)

lemma wf_leave_room [wf_intros]:
  assumes "broker_wf b"
  shows "broker_wf (snd (leave_room now a r b))"
proof -
  let ?b = "b\<lparr>tombstones := lifecycle_prune now (tombstones b)\<rparr>"
  let ?ms = "filter (\<lambda>m. m \<noteq> a) (get_room_members r ?b)"
  have wf: "broker_wf ?b" using assms by (rule wf_prune)
  note D = broker_wfD [OF wf]
  let ?h = "if turn_holder r ?b = Some a then (if ?ms = [] then None else Some (hd ?ms)) else turn_holder r ?b"
  show ?thesis
  proof (rule wf_set_room [where h = ?h and r = r and ms = ?ms, OF wf])
    show "distinct ?ms" using D(5) by simp
    show "case ?h of None \<Rightarrow> ?ms = [] | Some x \<Rightarrow> x \<in> set ?ms"
    proof (cases "turn_holder r ?b = Some a")
      case True
      then show ?thesis using hd_in_set [of ?ms] by (simp del: set_filter)
    next
      case False
      then show ?thesis using D(6,7) [of r] by (cases "turn_holder r ?b") auto
    qed
    show "map_of (tombstones ?b) r \<noteq> None \<Longrightarrow> ?ms = []" using D(8) by auto
    show "turn_holder q (snd (leave_room now a r b)) = (if q = r then ?h else turn_holder q ?b)" for q
      by (auto simp: leave_room_def Let_def broker_views members_in_def split: option.splits list.splits)
    show "get_room_members q (snd (leave_room now a r b)) = (if q = r then ?ms else get_room_members q ?b)" for q
      unfolding members_leave by (simp add: broker_views)
    show "distinct (dm_keys (room_members (snd (leave_room now a r b))))"
      "distinct (dm_keys (turn_holders (snd (leave_room now a r b))))"
      using D(2,3) by (auto simp: leave_room_def Let_def split: option.splits list.splits)
  qed (auto simp: leave_room_def Let_def split: option.splits list.splits)
qed

lemma wf_leave_all_rooms [wf_intros]:
  assumes "broker_wf b"
  shows "broker_wf (snd (leave_all_rooms now a b))"
proof -
  have "broker_wf (snd (leave_rooms now a rs b))" for rs
    using assms
  proof (induction rs arbitrary: b)
    case (Cons r rs)
    then show ?case using wf_leave_room [of b now a r] by (simp add: Let_def split_beta)
  qed simp
  then show ?thesis by (simp add: leave_all_rooms_def)
qed

lemma position_Some: "position x xs = Some i \<Longrightarrow> i < length xs \<and> xs ! i = x"
  by (induction xs arbitrary: i) (auto split: if_splits)

lemma position_nth: "distinct xs \<Longrightarrow> i < length xs \<Longrightarrow> position (xs ! i) xs = Some i"
  by (induction xs arbitrary: i) (auto simp: nth_Cons split: nat.splits)

lemma wf_advance_turn [wf_intros]:
  assumes "broker_wf b"
  shows "broker_wf (snd (advance_turn_from r a b))"
proof -
  note D = broker_wfD [OF assms]
  let ?ms = "get_room_members r b"
  let ?n = "case position a ?ms of Some i \<Rightarrow> ?ms ! ((i + 1) mod length ?ms) | None \<Rightarrow> ?ms ! 0"
  have "?ms \<noteq> [] \<Longrightarrow> ?n \<in> set ?ms" by (auto split: option.splits)
  then show ?thesis using D
    by (intro wf_set_room [where h = "if ?ms = [] then None else Some ?n" and r = r and ms = ?ms, OF assms])
       (auto simp: advance_turn_from_def Let_def broker_views cong: option.case_cong)
qed

lemma wf_destroy_room_with [wf_intros]:
  assumes "broker_wf b"
  shows "broker_wf (snd (destroy_room_with now r d b))"
proof -
  let ?b = "b\<lparr>tombstones := lifecycle_prune now (tombstones b)\<rparr>"
  have wf: "broker_wf ?b" using assms by (rule wf_prune)
  note D = broker_wfD [OF wf]
  let ?c = "?b\<lparr>room_members := dm_remove r (room_members ?b), turn_holders := dm_remove r (turn_holders ?b)\<rparr>"
  have c: "broker_wf ?c" using D
    by (intro wf_set_room [where h = None and r = r and ms = "[]", OF wf]) (auto simp: broker_views)
  let ?t = "lifecycle_tombstone now r (tombstones ?b)"
  have "broker_wf (?c\<lparr>tombstones := ?t\<rparr>)"
  proof (rule broker_wfI)
    note C = broker_wfD [OF c]
    have "distinct (dm_keys ?t)" using tomb.put_distinct [OF D(4)] by simp
    then show "distinct (dm_keys (tombstones (?c\<lparr>tombstones := ?t\<rparr>)))" by simp
    show "distinct (dm_keys (agents (?c\<lparr>tombstones := ?t\<rparr>)))" using C(1) by simp
    show "map_of (tombstones (?c\<lparr>tombstones := ?t\<rparr>)) q = Some u \<Longrightarrow>
        get_room_members q (?c\<lparr>tombstones := ?t\<rparr>) = []" for q u
    proof (cases "q = r")
      case False
      assume "map_of (tombstones (?c\<lparr>tombstones := ?t\<rparr>)) q = Some u"
      then have "map_of (tombstones ?b) q \<noteq> None"
        using False cache_insert_old [OF D(4)] by (auto simp: lifecycle_tombstone_def)
      with D(8) [of q] show ?thesis by (auto simp: broker_views)
    qed (simp add: broker_views)
  qed (use broker_wfD [OF c] in \<open>auto simp: broker_views\<close>)
  note t = this
  have "broker_wf (snd (destroy_room_with now r (Inr x :: 'e + 't) b))" for x
    using broker_wfD(1,4) [OF t]
    by (intro broker_wf_cong [OF t]) (auto simp: destroy_room_with_def Let_def)
  then show ?thesis using wf by (cases d) (simp_all add: destroy_room_with_def Let_def)
qed

subsection \<open>Histories of the broker\<close>

datatype broker_op =
    B_Join nat string string bool
  | B_Leave nat string string
  | B_Leave_All nat string
  | B_Advance string string
  | B_Destroy nat string bool
  | B_Check nat string
  | B_Broadcast string string frame
  | B_Mention string "string list" chat_message string

fun broker_step :: "broker_op \<Rightarrow> broker \<Rightarrow> broker" where
  "broker_step (B_Join now a r ex) b = snd (join_room now a r ex b)"
| "broker_step (B_Leave now a r) b = snd (leave_room now a r b)"
| "broker_step (B_Leave_All now a) b = snd (leave_all_rooms now a b)"
| "broker_step (B_Advance r a) b = snd (advance_turn_from r a b)"
| "broker_step (B_Destroy now r ok) b =
     snd (destroy_room_with now r (if ok then Inr () else Inl ()) b)"
| "broker_step (B_Check now r) b = snd (is_room_destroyed now r b)"
| "broker_step (B_Broadcast r a f) b = broadcast_to_room r a f b"
| "broker_step (B_Mention u ms m r) b = send_mentions u ms m r b"

lemma wf_broker_step: "broker_wf b \<Longrightarrow> broker_wf (broker_step op b)"
  by (cases op) (simp_all add: wf_intros is_room_destroyed_def Let_def)


subsection \<open>Turns\<close>

interpretation room_turn: turn_ring "get_room_members r" "turn_holder r" "\<lambda>a b. snd (advance_turn_from r a b)" for r
proof
  fix a b i
  show "get_room_members r (snd (advance_turn_from r a b)) = get_room_members r b"
    by (simp add: advance_turn_from_def Let_def get_room_members_in)
  assume "distinct (get_room_members r b)" "i < length (get_room_members r b)"
  then show "turn_holder r (snd (advance_turn_from r (get_room_members r b ! i) b))
      = Some (get_room_members r b ! (Suc i mod length (get_room_members r b)))"
    by (auto simp: advance_turn_from_def Let_def turn_holder_def position_nth)
qed

text \<open>C30. The turn token is fair: while the membership stays the same and each holder speaks, every
  member holds the token within one round of the room, and after a round it is back where it was.\<close>

theorem turn_token_round_robin:
  assumes "broker_wf b" "turn_holder room_id b = Some h"
  shows "turn_holder room_id (room_turn.turns room_id (length (get_room_members room_id b)) b) = Some h
    \<and> (\<forall>a \<in> set (get_room_members room_id b).
          \<exists>n < length (get_room_members room_id b). turn_holder room_id (room_turn.turns room_id n b) = Some a)"
  using room_turn.one_round [OF broker_wfD(5) [OF assms(1)] assms(2) broker_wfD(6) [OF assms]] by blast

definition demo_broker :: broker where
  "demo_broker = snd (join_room 2 ''a2'' ''r1'' True (snd (join_room 1 ''a1'' ''r1'' True broker_new)))"

lemma demo_broker_wf [simp]: "broker_wf demo_broker"
  unfolding demo_broker_def by (intro wf_intros broker_new_wf)

lemma demo_broker_sel [simp]:
  "get_room_members ''r1'' demo_broker = [''a1'', ''a2'']" "turn_holder ''r1'' demo_broker = Some ''a1''"
  by (simp_all add: demo_broker_def join_room_eq lifecycle_prune_def cache_prune_def evict_small
      broker_new_def broker_views members_in_def Let_def)

theorem turn_token_round_robin_witness:
  "turn_holder ''r1'' (room_turn.turns ''r1'' 2 demo_broker) = Some ''a1''
   \<and> (\<exists>n < 2. turn_holder ''r1'' (room_turn.turns ''r1'' n demo_broker) = Some ''a2'')"
  using turn_token_round_robin [OF demo_broker_wf, of "''r1''" "''a1''"] by (simp add: numeral_2_eq_2)

subsection \<open>Who receives what\<close>

definition outbox :: "broker \<Rightarrow> string \<Rightarrow> frame list" where
  "outbox b a = (case map_of (agents b) a of Some c \<Rightarrow> ac_outbox c | None \<Rightarrow> [])"

definition can_receive :: "broker \<Rightarrow> string \<Rightarrow> bool" where
  "can_receive b a \<longleftrightarrow> (case map_of (agents b) a of Some c \<Rightarrow> accepts c | None \<Rightarrow> False)"

lemma send_outbox:
  "outbox (send_to_agent a f b) x = outbox b x @ (if x = a \<and> can_receive b a then [f] else [])"
  by (auto simp: send_to_agent_def outbox_def can_receive_def split: option.splits)

lemma send_other [simp]:
  "x \<noteq> a \<Longrightarrow> can_receive (send_to_agent a f b) x = can_receive b x"
  "room_members (send_to_agent a f b) = room_members b"
  "turn_holders (send_to_agent a f b) = turn_holders b"
  "tombstones (send_to_agent a f b) = tombstones b"
  by (auto simp: send_to_agent_def can_receive_def split: option.splits)

lemma fold_send_outbox:
  "distinct ms \<Longrightarrow> outbox (fold (\<lambda>m b. if P m then b else send_to_agent m f b) ms b) x
     = outbox b x @ (if x \<in> set ms \<and> \<not> P x \<and> can_receive b x then [f] else [])"
proof (induction ms arbitrary: b)
  case (Cons m ms)
  show ?case
  proof (cases "P m")
    case True
    then show ?thesis using Cons by auto
  next
    case False
    then show ?thesis using Cons by (cases "x = m") (auto simp: send_outbox)
  qed
qed simp

lemma fold_mention_outbox:
  "a \<notin> set ms \<or> \<not> Q a \<Longrightarrow>
   outbox (fold (\<lambda>m b. if Q m then send_to_agent m f b else b) ms b) a = outbox b a"
  by (induction ms arbitrary: b) (auto simp: send_outbox)

lemma send_mentions_fold:
  "send_mentions u ms m r b
     = fold (\<lambda>a c. if a \<in> set (get_room_members r b) then send_to_agent a (mention_frame u m r) c else c) ms b"
proof -
  have "fold (\<lambda>a c. if is_agent_in_room a r c then send_to_agent a (mention_frame u m r) c else c) ms c
     = fold (\<lambda>a c. if a \<in> set (get_room_members r b) then send_to_agent a (mention_frame u m r) c else c) ms c"
    if "room_members c = room_members b" for c
    using that by (induction ms arbitrary: c) (simp_all add: get_room_members_in)
  then show ?thesis by (simp add: send_mentions_def)
qed

text \<open>C9. A broadcast reaches every other member of the room whose queue has space exactly once, and no
  outsider; nor does a mention leave the room, whatever agent identifiers the sender names.\<close>

theorem broadcast_confined_to_members:
  assumes "broker_wf b"
  shows "outbox (broadcast_to_room room_id sender f b) a
      = outbox b a @ (if a \<in> set (get_room_members room_id b) \<and> a \<noteq> sender \<and> can_receive b a then [f] else [])
    \<and> (a \<notin> set (get_room_members room_id b) \<longrightarrow>
        outbox (send_mentions uid mentions m room_id b) a = outbox b a)"
proof
  note d = broker_wfD(5) [OF assms, of room_id]
  show "outbox (broadcast_to_room room_id sender f b) a
      = outbox b a @ (if a \<in> set (get_room_members room_id b) \<and> a \<noteq> sender \<and> can_receive b a then [f] else [])"
  proof (cases "map_of (room_members b) room_id")
    case None
    then show ?thesis by (simp add: broadcast_to_room_def get_room_members_def)
  next
    case (Some ms)
    with d fold_send_outbox [of ms "\<lambda>m. m = sender" f b a] show ?thesis
      by (simp add: broadcast_to_room_def get_room_members_def)
  qed
  show "a \<notin> set (get_room_members room_id b) \<longrightarrow>
      outbox (send_mentions uid mentions m room_id b) a = outbox b a"
    unfolding send_mentions_fold by (intro impI fold_mention_outbox) simp
qed

theorem broadcast_confined_to_members_witness:
  "outbox (broadcast_to_room ''r1'' ''a1'' (frame_pong ''f'' None) demo_broker) ''outsider''
     = outbox demo_broker ''outsider''"
  using broadcast_confined_to_members [OF demo_broker_wf, of "''r1''" "''a1''" "frame_pong ''f'' None" "''outsider''"]
  by simp

subsection \<open>Destroyed rooms stay closed\<close>

text \<open>The instant an operation reads from the clock, and whether it leaves a new tombstone.\<close>

fun op_instant :: "broker_op \<Rightarrow> nat option" where
  "op_instant (B_Join now a r ex) = Some now"
| "op_instant (B_Leave now a r) = Some now"
| "op_instant (B_Leave_All now a) = Some now"
| "op_instant (B_Destroy now r ok) = Some now"
| "op_instant (B_Check now r) = Some now"
| "op_instant _ = None"

fun op_destroys :: "broker_op \<Rightarrow> string option" where
  "op_destroys (B_Destroy now r ok) = (if ok then Some r else None)"
| "op_destroys _ = None"

definition destructions :: "broker_op list \<Rightarrow> nat" where
  "destructions ops = length (filter (\<lambda>op. op_destroys op \<noteq> None) ops)"

lemma tombstones_ops [simp]:
  "tombstones (snd (join_room now a q ex b)) = lifecycle_prune now (tombstones b)"
  "tombstones (snd (leave_room now a q b)) = lifecycle_prune now (tombstones b)"
  "tombstones (snd (advance_turn_from q a b)) = tombstones b"
  "tombstones (snd (is_room_destroyed now q b)) = lifecycle_prune now (tombstones b)"
  "tombstones (broadcast_to_room q a f b) = tombstones b"
  "tombstones (send_mentions u ms m q b) = tombstones b"
proof -
  have 1: "tombstones (fold (\<lambda>m b. if P m then b else send_to_agent m f b) xs b) = tombstones b" for P xs
    by (induction xs arbitrary: b) auto
  have 2: "tombstones (fold (\<lambda>a c. if P a then send_to_agent a f c else c) xs b) = tombstones b" for P f xs
    by (induction xs arbitrary: b) auto
  show "tombstones (broadcast_to_room q a f b) = tombstones b"
    by (simp add: broadcast_to_room_def 1 split: option.splits)
  show "tombstones (send_mentions u ms m q b) = tombstones b"
    unfolding send_mentions_fold by (rule 2)
qed (auto simp: join_room_def leave_room_def advance_turn_from_def is_room_destroyed_def Let_def
      split: option.splits list.splits)

lemma remembered_leave_rooms:
  "tomb.remembers r t n (tombstones b) \<Longrightarrow> now - t < ROOM_TOMBSTONE_TTL \<Longrightarrow>
   tomb.remembers r t n (tombstones (snd (leave_rooms now a rs b)))"
proof (induction rs arbitrary: b)
  case (Cons q rs)
  then show ?case using Cons.IH [of "snd (leave_room now a q b)"]
    by (simp add: Let_def split_beta tomb.remembers_tidy)
qed simp

lemma remembered_step:
  assumes "tomb.remembers r t (destructions [op] + n) (tombstones b)"
    and "\<forall>now. op_instant op = Some now \<longrightarrow> now - t < ROOM_TOMBSTONE_TTL" "op_destroys op \<noteq> Some r"
  shows "tomb.remembers r t n (tombstones (broker_step op b))"
  using assms
  by (cases op) (auto simp: tomb.remembers_tidy tomb.remembers_put leave_all_rooms_def
      remembered_leave_rooms destroy_room_with_def destructions_def Let_def)

lemma remembered_steps:
  "tomb.remembers r t (destructions ops) (tombstones b) \<Longrightarrow>
   \<forall>op \<in> set ops. (\<forall>u. op_instant op = Some u \<longrightarrow> u - t < ROOM_TOMBSTONE_TTL) \<and> op_destroys op \<noteq> Some r \<Longrightarrow>
   tomb.remembers r t 0 (tombstones (fold broker_step ops b))"
proof (induction ops arbitrary: b)
  case (Cons op ops)
  have "destructions (op # ops) = destructions [op] + destructions ops" by (simp add: destructions_def)
  with Cons.prems have "tomb.remembers r t (destructions ops) (tombstones (broker_step op b))"
    by (intro remembered_step) auto
  with Cons show ?case by simp
qed (simp add: destructions_def)



subsection \<open>The unlocked turn update\<close>

text \<open>\<open>advance_turn_from\<close> takes no lock: it reads the members and then writes the holder. Between the
  two accesses another thread may run a locked operation.\<close>

definition advance_read :: "string \<Rightarrow> broker \<Rightarrow> string list" where
  "advance_read room_id b = get_room_members room_id b"

definition advance_write :: "string \<Rightarrow> string \<Rightarrow> string list \<Rightarrow> broker \<Rightarrow> broker" where
  "advance_write room_id sender_id members b =
     (if members = [] then b\<lparr>turn_holders := dm_remove room_id (turn_holders b)\<rparr>
      else b\<lparr>turn_holders := dm_insert room_id
             (case position sender_id members of
                Some i \<Rightarrow> members ! ((i + 1) mod length members) | None \<Rightarrow> members ! 0) (turn_holders b)\<rparr>)"

lemma advance_turn_split:
  "snd (advance_turn_from r a b) = advance_write r a (advance_read r b) b"
  by (simp add: advance_turn_from_def advance_write_def advance_read_def Let_def)

text \<open>Run without interference the two accesses keep the broker's invariant; but when a member leaves
  between them the token can be left with an agent that is no longer in the room.\<close>

lemma turn_update_race:
  "snd (advance_turn_from room_id sender_id b) = advance_write room_id sender_id (advance_read room_id b) b
   \<and> (let b' = advance_write ''r1'' ''a1'' (advance_read ''r1'' demo_broker)
                 (snd (leave_room 3 ''a2'' ''r1'' demo_broker))
      in turn_holder ''r1'' b' = Some ''a2'' \<and> \<not> is_agent_in_room ''a2'' ''r1'' b')"
proof -
  have "map_of (room_members demo_broker) ''r1'' = Some [''a1'', ''a2'']"
    "map_of (turn_holders demo_broker) ''r1'' = Some ''a1''"
    using demo_broker_sel by (auto simp: get_room_members_def turn_holder_def split: option.splits)
  then show ?thesis
    by (simp add: advance_turn_split advance_read_def advance_write_def leave_room_def Let_def
        get_room_members_def turn_holder_def)
qed

end
