(* ===== verification/Voting.thy ===== *)
theory Voting
  imports Store_Votes Broker "HOL-Library.Multiset"
begin

text \<open>
  The vote manager (\<open>voting.rs\<close>): the open votes with their ballots, the elections in their two-second
  nomination window, and the leader of each room. A spawned timer is an operation of its own
  (\<open>vote_deadline\<close>, \<open>election_timer\<close>) that may happen at any later time. A set of agents is a list,
  of which only membership is used. The winner of an election is drawn at random; here the draw is
  an argument.
\<close>

subsection \<open>State\<close>

record active_vote =
  av_vote_id :: string
  av_room_id :: string
  av_title :: string
  av_description :: "string option"
  av_options :: "string list"
  av_created_by :: string
  av_created_at :: int
  av_closes_at :: "int option"
  av_ballots :: "(string \<times> string \<times> nat) list"
  av_eligible_voters :: nat
  av_eligible_agents :: "string list"

record active_election =
  ae_room_id :: string
  ae_candidates :: "string list"
  ae_declined :: "string list"
  ae_started_by :: string

record vote_manager =
  active_votes :: "(string, active_vote) dashmap"
  active_elections :: "(string, active_election) dashmap"
  room_leaders :: "(string, string) dashmap"

definition restored_vote :: "(string \<Rightarrow> bool) \<Rightarrow> (string \<Rightarrow> bool) \<Rightarrow> store \<Rightarrow> vote_row \<Rightarrow> active_vote" where
  "restored_vote fault_ballots fault_eligible s meta =
     \<lparr>av_vote_id = vm_vote_id meta, av_room_id = vm_room_id meta, av_title = vm_title meta,
      av_description = vm_description meta, av_options = vm_options meta,
      av_created_by = vm_created_by meta, av_created_at = vm_created_at meta,
      av_closes_at = vm_closes_at meta,
      av_ballots = (case get_vote_ballots (fault_ballots (vm_vote_id meta)) (vm_vote_id meta) s of
                      Inr bs \<Rightarrow> bs | Inl _ \<Rightarrow> []),
      av_eligible_voters = vm_eligible_voters meta,
      av_eligible_agents = (case get_vote_eligible_agents (fault_eligible (vm_vote_id meta)) (vm_vote_id meta) s of
                      Inr es \<Rightarrow> es | Inl _ \<Rightarrow> [])\<rparr>"

definition vote_manager_new ::
    "bool \<Rightarrow> (string \<Rightarrow> bool) \<Rightarrow> (string \<Rightarrow> bool) \<Rightarrow> store \<Rightarrow> vote_manager" where
  "vote_manager_new fault fault_ballots fault_eligible s =
     \<lparr>active_votes = (case list_open_votes fault s of
          Inl _ \<Rightarrow> []
        | Inr metas \<Rightarrow> fold (\<lambda>meta m. dm_insert (vm_vote_id meta)
                              (restored_vote fault_ballots fault_eligible s meta) m) metas []),
      active_elections = [], room_leaders = []\<rparr>"

subsection \<open>Votes\<close>

definition mgr_create_vote ::
    "int \<Rightarrow> int option \<Rightarrow> string \<Rightarrow> string \<Rightarrow> string \<Rightarrow> string option \<Rightarrow> string list \<Rightarrow> string
     \<Rightarrow> string list \<Rightarrow> vote_manager \<Rightarrow> active_vote \<times> vote_manager" where
  "mgr_create_vote now closes_at vote_id room_id title description options created_by eligible_agents vm =
     (let vote = \<lparr>av_vote_id = vote_id, av_room_id = room_id, av_title = title,
                  av_description = description, av_options = options, av_created_by = created_by,
                  av_created_at = now, av_closes_at = closes_at, av_ballots = [],
                  av_eligible_voters = length eligible_agents, av_eligible_agents = eligible_agents\<rparr>
      in (vote, vm\<lparr>active_votes := dm_insert vote_id vote (active_votes vm)\<rparr>))"

text \<open>The counting loop, shared by the published result and the status query.\<close>

definition tally_counts :: "nat \<Rightarrow> nat list \<Rightarrow> nat list" where
  "tally_counts n choices =
     fold (\<lambda>i counts. if i < length counts then counts[i := counts ! i + 1] else counts) choices (replicate n 0)"

definition tally_rows :: "string list \<Rightarrow> nat list \<Rightarrow> vote_tally list" where
  "tally_rows options counts =
     map (\<lambda>i. \<lparr>tl_option_index = i, tl_option_text = options ! i, tl_count = counts ! i\<rparr>) [0..<length options]"

definition vote_result :: "active_vote \<Rightarrow> vote_result_payload" where
  "vote_result vote =
     \<lparr>vr_vote_id = av_vote_id vote, vr_room_id = av_room_id vote, vr_title = av_title vote,
      vr_options = av_options vote,
      vr_tally = tally_rows (av_options vote)
                   (tally_counts (length (av_options vote)) (map (snd \<circ> snd) (av_ballots vote))),
      vr_ballots = map (\<lambda>(a, n, i). \<lparr>be_agent_id = a, be_agent_name = n, be_option_index = i\<rparr>) (av_ballots vote),
      vr_total_votes = length (av_ballots vote),
      vr_eligible_voters = av_eligible_voters vote\<rparr>"

text \<open>The result of \<open>store.close_vote\<close> is ignored.\<close>

definition close_and_broadcast_vote ::
    "string \<Rightarrow> bool \<Rightarrow> active_vote \<Rightarrow> broker \<Rightarrow> store \<Rightarrow> broker \<times> store" where
  "close_and_broadcast_vote uid fault vote b s =
     (broadcast_to_room_all (av_room_id vote)
        (frame_event uid VoteResult (vote_result_to_json (vote_result vote))) b,
      snd (close_vote fault (av_vote_id vote) s))"

definition vote_deadline ::
    "string \<Rightarrow> bool \<Rightarrow> string \<Rightarrow> vote_manager \<Rightarrow> broker \<Rightarrow> store \<Rightarrow> vote_manager \<times> broker \<times> store" where
  "vote_deadline uid fault vote_id vm b s =
     (case map_of (active_votes vm) vote_id of
        None \<Rightarrow> (vm, b, s)
      | Some vote \<Rightarrow> (vm\<lparr>active_votes := dm_remove vote_id (active_votes vm)\<rparr>,
                      close_and_broadcast_vote uid fault vote b s))"

definition mgr_cast_vote ::
    "string \<Rightarrow> bool \<Rightarrow> string \<Rightarrow> string \<Rightarrow> string \<Rightarrow> nat \<Rightarrow> vote_manager \<Rightarrow> broker \<Rightarrow> store
     \<Rightarrow> (error_code + nat \<times> nat) \<times> vote_manager \<times> broker \<times> store" where
  "mgr_cast_vote uid fault vote_id agent_id agent_name option_index vm b s =
     (case map_of (active_votes vm) vote_id of
        None \<Rightarrow> (Inl VoteNotFound, vm, b, s)
      | Some vote \<Rightarrow>
          if length (av_options vote) \<le> option_index then (Inl InvalidOption, vm, b, s)
          else if agent_id \<notin> set (av_eligible_agents vote) then (Inl AccessDenied, vm, b, s)
          else if list_ex (\<lambda>(id, _, _). id = agent_id) (av_ballots vote) then (Inl AlreadyVoted, vm, b, s)
          else
            let vote = vote\<lparr>av_ballots := av_ballots vote @ [(agent_id, agent_name, option_index)]\<rparr>;
                vm = vm\<lparr>active_votes := dm_insert vote_id vote (active_votes vm)\<rparr>;
                votes_cast = length (av_ballots vote);
                eligible = av_eligible_voters vote
            in (Inr (votes_cast, eligible),
                if eligible \<le> votes_cast then vote_deadline uid fault vote_id vm b s else (vm, b, s)))"

subsection \<open>Elections and leaders\<close>

definition start_election ::
    "string \<Rightarrow> string list \<Rightarrow> string \<Rightarrow> vote_manager \<Rightarrow> (error_code + unit) \<times> vote_manager" where
  "start_election room_id candidates started_by vm =
     (if room_id \<in> set (dm_keys (active_elections vm)) then (Inl ElectionInProgress, vm)
      else (Inr (), vm\<lparr>active_elections := dm_insert room_id
             \<lparr>ae_room_id = room_id, ae_candidates = candidates, ae_declined = [],
              ae_started_by = started_by\<rparr> (active_elections vm)\<rparr>))"

definition decline_election ::
    "string \<Rightarrow> string \<Rightarrow> vote_manager \<Rightarrow> (error_code + unit) \<times> vote_manager" where
  "decline_election room_id agent_id vm =
     (case map_of (active_elections vm) room_id of
        None \<Rightarrow> (Inl NoElectionActive, vm)
      | Some el \<Rightarrow> (Inr (), vm\<lparr>active_elections := dm_insert room_id
             (el\<lparr>ae_declined := List.insert agent_id (ae_declined el)\<rparr>) (active_elections vm)\<rparr>))"

definition leader_cleared :: "string \<Rightarrow> string \<Rightarrow> string \<Rightarrow> frame" where
  "leader_cleared uid room_id reason =
     frame_event uid LeaderCleared (JObj [(''room_id'', JStr room_id), (''reason'', JStr reason)])"

text \<open>The callback after two seconds; \<open>now\<close> and \<open>now'\<close> are the instants of its two checks.\<close>

definition election_timer ::
    "string \<Rightarrow> nat \<Rightarrow> nat \<Rightarrow> nat \<Rightarrow> string \<Rightarrow> vote_manager \<Rightarrow> broker \<Rightarrow> vote_manager \<times> broker" where
  "election_timer uid now now' draw room_id vm b =
     (let (gone, b) = is_room_destroyed now room_id b in
      if gone then (vm\<lparr>active_elections := dm_remove room_id (active_elections vm),
                       room_leaders := dm_remove room_id (room_leaders vm)\<rparr>, b)
      else case map_of (active_elections vm) room_id of
        None \<Rightarrow> (vm, b)
      | Some el \<Rightarrow>
          let vm = vm\<lparr>active_elections := dm_remove room_id (active_elections vm)\<rparr>;
              remaining = filter (\<lambda>c. c \<notin> set (ae_declined el)) (ae_candidates el)
          in if remaining = []
             then (vm, broadcast_to_room_all room_id
                         (leader_cleared uid room_id ''all candidates declined'') b)
             else
               let winner_id = remaining ! (draw mod length remaining);
                   winner_name = (case map_of (agents b) winner_id of
                                    Some c \<Rightarrow> ai_name (ac_info c) | None \<Rightarrow> winner_id);
                   (gone, b) = is_room_destroyed now' room_id b
               in if gone then (vm\<lparr>room_leaders := dm_remove room_id (room_leaders vm)\<rparr>, b)
                  else (vm\<lparr>room_leaders := dm_insert room_id winner_id (room_leaders vm)\<rparr>,
                        broadcast_to_room_all room_id
                          (frame_event uid LeaderElected (JObj [(''room_id'', JStr room_id),
                            (''leader_id'', JStr winner_id), (''leader_name'', JStr winner_name)])) b))"

definition clear_leader :: "string \<Rightarrow> string \<Rightarrow> vote_manager \<Rightarrow> broker \<Rightarrow> vote_manager \<times> broker" where
  "clear_leader uid room_id vm b =
     (case map_of (room_leaders vm) room_id of
        None \<Rightarrow> (vm, b)
      | Some _ \<Rightarrow> (vm\<lparr>room_leaders := dm_remove room_id (room_leaders vm)\<rparr>,
                   broadcast_to_room_all room_id (leader_cleared uid room_id ''leader left'') b))"

definition is_leader :: "string \<Rightarrow> string \<Rightarrow> vote_manager \<Rightarrow> bool" where
  "is_leader room_id agent_id vm =
     (case map_of (room_leaders vm) room_id of Some leader \<Rightarrow> leader = agent_id | None \<Rightarrow> False)"

definition get_leader :: "string \<Rightarrow> vote_manager \<Rightarrow> string option" where
  "get_leader room_id vm = map_of (room_leaders vm) room_id"

definition clear_leader_if_agent ::
    "string \<Rightarrow> string \<Rightarrow> vote_manager \<Rightarrow> broker \<Rightarrow> vote_manager \<times> broker" where
  "clear_leader_if_agent uid agent_id vm b =
     fold (\<lambda>room_id (vm, b). clear_leader uid room_id vm b)
       (dm_keys (dm_retain (\<lambda>_ leader. leader = agent_id) (room_leaders vm))) (vm, b)"

definition forget_room_votes :: "string \<Rightarrow> vote_manager \<Rightarrow> vote_manager" where
  "forget_room_votes room_id vm =
     vm\<lparr>active_votes := dm_retain (\<lambda>_ v. av_room_id v \<noteq> room_id) (active_votes vm),
        active_elections := dm_remove room_id (active_elections vm),
        room_leaders := dm_remove room_id (room_leaders vm)\<rparr>"

subsection \<open>Counting\<close>

lemma length_tally_fold [simp]:
  "length (fold (\<lambda>i counts. if i < length counts then counts[i := counts ! i + 1] else counts) is c) = length c"
  by (induction "is" arbitrary: c) auto

lemma length_tally_counts [simp]: "length (tally_counts n is) = n"
  by (simp add: tally_counts_def)

lemma tally_fold_nth:
  "k < length c \<Longrightarrow>
   fold (\<lambda>i counts. if i < length counts then counts[i := counts ! i + 1] else counts) is c ! k
     = c ! k + length (filter (\<lambda>i. i = k) is)"
  by (induction "is" arbitrary: c) (auto simp: nth_list_update)

lemma tally_counts_nth: "k < n \<Longrightarrow> tally_counts n is ! k = length (filter (\<lambda>i. i = k) is)"
  by (simp add: tally_counts_def tally_fold_nth)

lemma sum_list_tally_fold:
  "sum_list (fold (\<lambda>i counts. if i < length counts then counts[i := counts ! i + 1] else counts) is c)
     = sum_list c + length (filter (\<lambda>i. i < length c) is)"
proof (induction "is" arbitrary: c)
  case (Cons i "is")
  have "i < length c \<Longrightarrow> sum_list (c[i := c ! i + 1]) = Suc (sum_list c)"
    by (subst sum_list_update) (auto simp: elem_le_sum_list)
  then show ?case using Cons [of "c[i := c ! i + 1]"] Cons [of c] by auto
qed simp

lemma tally_counts_sum: "list_all (\<lambda>i. i < n) is \<Longrightarrow> sum_list (tally_counts n is) = length is"
  by (simp add: tally_counts_def sum_list_tally_fold list_all_iff sum_list_replicate)

lemma tally_counts_mset: "mset is = mset js \<Longrightarrow> tally_counts n is = tally_counts n js"
proof (rule nth_equalityI)
  fix k assume "mset is = mset js" "k < length (tally_counts n is)"
  moreover from this have "length (filter (\<lambda>i. i = k) is) = length (filter (\<lambda>i. i = k) js)"
    by (metis mset_filter size_mset)
  ultimately show "tally_counts n is ! k = tally_counts n js ! k" by (simp add: tally_counts_nth)
qed simp

lemma map_tl_count [simp]: "length c = length os \<Longrightarrow> map tl_count (tally_rows os c) = c"
  by (auto simp: tally_rows_def comp_def intro: nth_equalityI)

subsection \<open>Elections\<close>

lemma decline_election_fold:
  "map_of (active_elections vm) r = Some el \<Longrightarrow>
   \<exists>el'. map_of (active_elections (fold (\<lambda>a vm. snd (decline_election r a vm)) ds vm)) r = Some el'
     \<and> ae_candidates el' = ae_candidates el \<and> set (ae_declined el') = set (ae_declined el) \<union> set ds
     \<and> room_leaders (fold (\<lambda>a vm. snd (decline_election r a vm)) ds vm) = room_leaders vm"
proof (induction ds arbitrary: vm el)
  case (Cons a ds)
  let ?el = "el\<lparr>ae_declined := List.insert a (ae_declined el)\<rparr>"
  let ?vm = "vm\<lparr>active_elections := dm_insert r ?el (active_elections vm)\<rparr>"
  have "snd (decline_election r a vm) = ?vm" using Cons.prems by (simp add: decline_election_def)
  moreover have "map_of (active_elections ?vm) r = Some ?el" by simp
  ultimately show ?case using Cons.IH [of ?vm ?el] by auto
qed simp

lemma not_destroyed:
  assumes "broker_wf b" "map_of (tombstones b) r = None"
  shows "is_room_destroyed now r b = (False, b\<lparr>tombstones := lifecycle_prune now (tombstones b)\<rparr>)"
    "map_of (lifecycle_prune now (tombstones b)) r = None"
proof -
  have p: "map_of (lifecycle_prune now (tombstones b)) r = None"
    using tomb.tidy_fresh [OF broker_wfD(4) [OF assms(1)], of now r] assms(2)
    by (cases "map_of (lifecycle_prune now (tombstones b)) r") auto
  then show "map_of (lifecycle_prune now (tombstones b)) r = None" .
  from p show "is_room_destroyed now r b = (False, b\<lparr>tombstones := lifecycle_prune now (tombstones b)\<rparr>)"
    by (simp add: is_room_destroyed_def Let_def map_of_eq_None_iff)
qed

text \<open>C38. The leader that an election yields is one of the candidates, and one that did not decline. When all
  decline the election ends, but the room keeps the leader it had before, although the room is told
  that there is none.\<close>

theorem election_outcome:
  assumes "broker_wf b" "map_of (tombstones b) room_id = None"
    and "start_election room_id candidates started_by vm = (Inr (), vm1)"
    and "vm2 = fold (\<lambda>a vm. snd (decline_election room_id a vm)) declined vm1"
  shows "map_of (active_elections (fst (election_timer uid now now' draw room_id vm2 b))) room_id = None
    \<and> (if set candidates \<subseteq> set declined
       then get_leader room_id (fst (election_timer uid now now' draw room_id vm2 b)) = get_leader room_id vm
       else \<exists>w. w \<in> set candidates - set declined
              \<and> get_leader room_id (fst (election_timer uid now now' draw room_id vm2 b)) = Some w)"
proof -
  let ?el = "\<lparr>ae_room_id = room_id, ae_candidates = candidates, ae_declined = [], ae_started_by = started_by\<rparr>"
  have "map_of (active_elections vm1) room_id = Some ?el" "room_leaders vm1 = room_leaders vm"
    using assms(3) by (auto simp: start_election_def split: if_splits)
  with decline_election_fold [OF this(1), of declined] obtain el
    where el: "map_of (active_elections vm2) room_id = Some el" "ae_candidates el = candidates"
      "set (ae_declined el) = set declined" "room_leaders vm2 = room_leaders vm"
    by (auto simp: assms(4))
  let ?b = "b\<lparr>tombstones := lifecycle_prune now (tombstones b)\<rparr>"
  note nd = not_destroyed [OF assms(1,2)]
  have nd': "is_room_destroyed now' room_id ?b
      = (False, ?b\<lparr>tombstones := lifecycle_prune now' (tombstones ?b)\<rparr>)"
    using nd(2) wf_prune [OF assms(1)] by (intro not_destroyed(1)) simp_all
  let ?rem = "filter (\<lambda>c. c \<notin> set (ae_declined el)) (ae_candidates el)"
  show ?thesis
  proof (cases "?rem = []")
    case True
    then have "set candidates \<subseteq> set declined" using el by (auto simp: filter_empty_conv)
    then show ?thesis using True el nd(1) by (simp add: election_timer_def Let_def get_leader_def)
  next
    case False
    let ?w = "?rem ! (draw mod length ?rem)"
    have "?w \<in> set ?rem" using False by (intro nth_mem mod_less_divisor) simp
    then have w: "?w \<in> set candidates - set declined" using el by auto
    have leader: "fst (election_timer uid now now' draw room_id vm2 b)
        = vm2\<lparr>active_elections := dm_remove room_id (active_elections vm2),
             room_leaders := dm_insert room_id ?w (room_leaders vm2)\<rparr>"
      using False el nd(1) nd' by (simp add: election_timer_def Let_def)
    from w show ?thesis unfolding leader by (auto simp: get_leader_def)
  qed
qed

theorem election_outcome_witness:
  "get_leader ''r1'' (fst (election_timer ''u'' 5 6 0 ''r1''
      (snd (decline_election ''r1'' ''a1''
        (snd (start_election ''r1'' [''a1''] ''a1'' \<lparr>active_votes = [], active_elections = [],
            room_leaders = [(''r1'', ''a1'')]\<rparr>)))) demo_broker)) = Some ''a1''"
proof -
  let ?vm = "\<lparr>active_votes = [], active_elections = [], room_leaders = [(''r1'', ''a1'')]\<rparr> :: vote_manager"
  have t: "map_of (tombstones demo_broker) ''r1'' = None"
    by (simp add: demo_broker_def lifecycle_prune_def cache_prune_def evict_small broker_new_def)
  have s: "start_election ''r1'' [''a1''] ''a1'' ?vm = (Inr (), snd (start_election ''r1'' [''a1''] ''a1'' ?vm))"
    by (simp add: start_election_def)
  from election_outcome [OF demo_broker_wf t s refl, where declined = "[''a1'']" and uid = "''u''" and now = 5
      and now' = 6 and draw = 0] show ?thesis
    by (simp add: get_leader_def)
qed

end
