(* ===== verification/Reconnect.thy ===== *)
theory Reconnect
  imports Core_Models Access Expiry_Cache
begin

text \<open>
  Reconnect stashes (\<open>reconnect.rs\<close>): what is kept of a disconnected agent for two minutes, the frames
  buffered for it meanwhile, the exclusive lease under which a returning agent takes its stash over,
  and the memory of destroyed rooms which keeps them out of the stashes. Instants are milliseconds;
  all checks of one call read the clock at one instant. A \<open>HashSet\<close> of rooms is a list in its
  iteration order.
\<close>

subsection \<open>State\<close>

definition RECONNECT_WINDOW :: nat where
  "RECONNECT_WINDOW = 120 * 1000"

definition MAX_BUFFERED_MESSAGES :: nat where
  "MAX_BUFFERED_MESSAGES = 200"

definition DESTROYED_ROOM_TTL :: nat where
  "DESTROYED_ROOM_TTL = RECONNECT_WINDOW + 60 * 1000"

definition MAX_DESTROYED_ROOMS :: nat where
  "MAX_DESTROYED_ROOMS = 4096"

record stashed_agent =
  sa_agent_id :: string
  sa_name :: string
  sa_api_key :: string
  sa_rooms :: "string list"
  sa_missed_messages :: "frame list"
  sa_disconnected_at :: nat
  sa_reclaim_token :: "string option"

record reconnect_manager =
  stashed :: "(string, stashed_agent) dashmap"
  destroyed_rooms :: "(string, nat) dashmap"

datatype reclaim_error = CredentialMismatch | AlreadyClaimed

text \<open>A lease that has not been committed yet.\<close>

record reclaim_lease =
  rl_agent_id :: string
  rl_token :: string

definition reconnect_new :: reconnect_manager where
  "reconnect_new = \<lparr>stashed = [], destroyed_rooms = []\<rparr>"

subsection \<open>Destroyed rooms\<close>

definition destroyed_prune :: "nat \<Rightarrow> reconnect_manager \<Rightarrow> reconnect_manager" where
  "destroyed_prune now rm = rm\<lparr>destroyed_rooms :=
     cache_prune DESTROYED_ROOM_TTL MAX_DESTROYED_ROOMS now (destroyed_rooms rm)\<rparr>"

definition destroyed_insert :: "nat \<Rightarrow> string \<Rightarrow> reconnect_manager \<Rightarrow> reconnect_manager" where
  "destroyed_insert now room_id rm = rm\<lparr>destroyed_rooms :=
     cache_insert DESTROYED_ROOM_TTL MAX_DESTROYED_ROOMS now room_id (destroyed_rooms rm)\<rparr>"

interpretation gone: expiry_cache destroyed_rooms destroyed_prune destroyed_insert
  DESTROYED_ROOM_TTL MAX_DESTROYED_ROOMS
  by (rule expiry_cache_view [OF expiry_cache_loop])
     (simp_all add: DESTROYED_ROOM_TTL_def RECONNECT_WINDOW_def destroyed_prune_def destroyed_insert_def)

definition room_is_destroyed :: "nat \<Rightarrow> string \<Rightarrow> reconnect_manager \<Rightarrow> bool" where
  "room_is_destroyed now room_id rm \<longleftrightarrow> room_id \<in> set (dm_keys (destroyed_rooms (destroyed_prune now rm)))"

subsection \<open>Operations\<close>

text \<open>The background task, every 30 seconds.\<close>

definition cleanup_tick :: "nat \<Rightarrow> reconnect_manager \<Rightarrow> reconnect_manager" where
  "cleanup_tick now rm =
     destroyed_prune now (rm\<lparr>stashed := dm_retain (\<lambda>_ v. now - sa_disconnected_at v < RECONNECT_WINDOW)
                                          (stashed rm)\<rparr>)"

definition stash :: "nat \<Rightarrow> string \<Rightarrow> string \<Rightarrow> string \<Rightarrow> string list \<Rightarrow> reconnect_manager \<Rightarrow> reconnect_manager" where
  "stash now agent_id name api_key rooms rm =
     (let rooms = filter (\<lambda>r. \<not> room_is_destroyed now r rm) rooms;
          rm = destroyed_prune now rm
      in rm\<lparr>stashed := dm_insert agent_id
            \<lparr>sa_agent_id = agent_id, sa_name = name, sa_api_key = api_key,
             sa_rooms = filter (\<lambda>r. \<not> room_is_destroyed now r rm) rooms,
             sa_missed_messages = [], sa_disconnected_at = now, sa_reclaim_token = None\<rparr> (stashed rm)\<rparr>)"

definition begin_reclaim ::
    "nat \<Rightarrow> string \<Rightarrow> string \<Rightarrow> string \<Rightarrow> bool \<Rightarrow> reconnect_manager
     \<Rightarrow> (reclaim_error + reclaim_lease option) \<times> reconnect_manager" where
  "begin_reclaim now token agent_id api_key no_auth rm =
     (case map_of (stashed rm) agent_id of
        None \<Rightarrow> (Inr None, rm)
      | Some st \<Rightarrow>
          if RECONNECT_WINDOW \<le> now - sa_disconnected_at st
          then (Inr None, rm\<lparr>stashed := dm_remove agent_id (stashed rm)\<rparr>)
          else if \<not> no_auth \<and> sa_api_key st \<noteq> api_key then (Inl CredentialMismatch, rm)
          else if sa_reclaim_token st \<noteq> None then (Inl AlreadyClaimed, rm)
          else (Inr (Some \<lparr>rl_agent_id = agent_id, rl_token = token\<rparr>),
                rm\<lparr>stashed := dm_insert agent_id (st\<lparr>sa_reclaim_token := Some token\<rparr>) (stashed rm)\<rparr>))"

definition lease_snapshot :: "reclaim_lease \<Rightarrow> reconnect_manager \<Rightarrow> stashed_agent option" where
  "lease_snapshot l rm =
     (case map_of (stashed rm) (rl_agent_id l) of
        None \<Rightarrow> None
      | Some st \<Rightarrow> if sa_reclaim_token st = Some (rl_token l) then Some st else None)"

definition lease_commit :: "reclaim_lease \<Rightarrow> reconnect_manager \<Rightarrow> stashed_agent option \<times> reconnect_manager" where
  "lease_commit l rm =
     (case map_of (stashed rm) (rl_agent_id l) of
        None \<Rightarrow> (None, rm)
      | Some st \<Rightarrow>
          if sa_reclaim_token st = Some (rl_token l)
          then (Some (st\<lparr>sa_reclaim_token := None\<rparr>),
                rm\<lparr>stashed := dm_remove (rl_agent_id l) (stashed rm)\<rparr>)
          else (None, rm))"

text \<open>\<open>Drop\<close> of a lease that was not committed.\<close>

definition lease_drop :: "reclaim_lease \<Rightarrow> reconnect_manager \<Rightarrow> reconnect_manager" where
  "lease_drop l rm =
     (case map_of (stashed rm) (rl_agent_id l) of
        None \<Rightarrow> rm
      | Some st \<Rightarrow>
          if sa_reclaim_token st = Some (rl_token l)
          then rm\<lparr>stashed := dm_insert (rl_agent_id l) (st\<lparr>sa_reclaim_token := None\<rparr>) (stashed rm)\<rparr>
          else rm)"

definition reclaim ::
    "nat \<Rightarrow> string \<Rightarrow> string \<Rightarrow> string \<Rightarrow> bool \<Rightarrow> reconnect_manager
     \<Rightarrow> (reclaim_error + stashed_agent option) \<times> reconnect_manager" where
  "reclaim now token agent_id api_key no_auth rm =
     (case begin_reclaim now token agent_id api_key no_auth rm of
        (Inl e, rm) \<Rightarrow> (Inl e, rm)
      | (Inr None, rm) \<Rightarrow> (Inr None, rm)
      | (Inr (Some l), rm) \<Rightarrow> (case lease_commit l rm of (st, rm) \<Rightarrow> (Inr st, rm)))"

definition buffer_message :: "nat \<Rightarrow> string \<Rightarrow> frame \<Rightarrow> reconnect_manager \<Rightarrow> reconnect_manager" where
  "buffer_message now agent_id f rm =
     (let gone = (case frame_room_id f of None \<Rightarrow> False | Some r \<Rightarrow> room_is_destroyed now r rm);
          rm = (case frame_room_id f of None \<Rightarrow> rm | Some _ \<Rightarrow> destroyed_prune now rm)
      in if gone then rm
         else case map_of (stashed rm) agent_id of
           None \<Rightarrow> rm
         | Some st \<Rightarrow>
             if length (sa_missed_messages st) < MAX_BUFFERED_MESSAGES
             then rm\<lparr>stashed := dm_insert agent_id
                       (st\<lparr>sa_missed_messages := sa_missed_messages st @ [f]\<rparr>) (stashed rm)\<rparr>
             else rm)"

definition stash_may_see :: "string \<Rightarrow> string option \<Rightarrow> string set \<Rightarrow> bool \<Rightarrow> stashed_agent \<Rightarrow> bool" where
  "stash_may_see visibility owner_key granted_keys no_auth st \<longleftrightarrow>
     can_access_room_parts visibility owner_key (sa_api_key st) no_auth
     \<or> (sa_api_key st \<noteq> [] \<and> sa_api_key st \<in> granted_keys)"

text \<open>The result is the list of the agents for which the event was buffered.\<close>

definition buffer_visible_room_event ::
    "nat \<Rightarrow> string \<Rightarrow> string option \<Rightarrow> string set \<Rightarrow> bool \<Rightarrow> frame \<Rightarrow> reconnect_manager
     \<Rightarrow> string list \<times> reconnect_manager" where
  "buffer_visible_room_event now visibility owner_key granted_keys no_auth f rm =
     (let gone = (case frame_room_id f of None \<Rightarrow> False | Some r \<Rightarrow> room_is_destroyed now r rm);
          take = (\<lambda>st. stash_may_see visibility owner_key granted_keys no_auth st \<and> \<not> gone
                       \<and> length (sa_missed_messages st) < MAX_BUFFERED_MESSAGES);
          rm' = (if list_ex (\<lambda>(_, st). stash_may_see visibility owner_key granted_keys no_auth st) (stashed rm)
                    \<and> frame_room_id f \<noteq> None
                 then destroyed_prune now rm else rm)
      in (dm_keys (dm_retain (\<lambda>_ st. take st) (stashed rm)),
          rm'\<lparr>stashed := dm_map (\<lambda>_ st. if take st
                then st\<lparr>sa_missed_messages := sa_missed_messages st @ [f]\<rparr> else st) (stashed rm)\<rparr>))"

definition is_stashed :: "string \<Rightarrow> reconnect_manager \<Rightarrow> bool" where
  "is_stashed agent_id rm \<longleftrightarrow> agent_id \<in> set (dm_keys (stashed rm))"

definition stashed_members_of_room :: "string \<Rightarrow> reconnect_manager \<Rightarrow> string list" where
  "stashed_members_of_room room_id rm = dm_keys (dm_retain (\<lambda>_ st. room_id \<in> set (sa_rooms st)) (stashed rm))"

definition forget_room_stashes :: "nat \<Rightarrow> string \<Rightarrow> reconnect_manager \<Rightarrow> reconnect_manager" where
  "forget_room_stashes now room_id rm =
     (let rm = destroyed_insert now room_id rm
      in rm\<lparr>stashed := dm_map (\<lambda>_ st. st\<lparr>sa_rooms := filter (\<lambda>r. r \<noteq> room_id) (sa_rooms st),
             sa_missed_messages := filter (\<lambda>f. frame_room_id f \<noteq> Some room_id) (sa_missed_messages st)\<rparr>)
             (stashed rm)\<rparr>)"

subsection \<open>A forgotten room stays forgotten\<close>

datatype stash_op =
    RC_Tick nat
  | RC_Stash nat string string string "string list"
  | RC_Begin nat string string string bool
  | RC_Commit reclaim_lease
  | RC_Drop reclaim_lease
  | RC_Buffer nat string frame
  | RC_Event nat string "string option" "string set" bool frame
  | RC_Forget nat string

fun stash_step :: "stash_op \<Rightarrow> reconnect_manager \<Rightarrow> reconnect_manager" where
  "stash_step (RC_Tick now) rm = cleanup_tick now rm"
| "stash_step (RC_Stash now a n k rs) rm = stash now a n k rs rm"
| "stash_step (RC_Begin now tok a k na) rm = snd (begin_reclaim now tok a k na rm)"
| "stash_step (RC_Commit l) rm = snd (lease_commit l rm)"
| "stash_step (RC_Drop l) rm = lease_drop l rm"
| "stash_step (RC_Buffer now a f) rm = buffer_message now a f rm"
| "stash_step (RC_Event now v ok gk na f) rm = snd (buffer_visible_room_event now v ok gk na f rm)"
| "stash_step (RC_Forget now r) rm = forget_room_stashes now r rm"

fun stash_instant :: "stash_op \<Rightarrow> nat option" where
  "stash_instant (RC_Tick now) = Some now"
| "stash_instant (RC_Stash now a n k rs) = Some now"
| "stash_instant (RC_Begin now tok a k na) = Some now"
| "stash_instant (RC_Buffer now a f) = Some now"
| "stash_instant (RC_Event now v ok gk na f) = Some now"
| "stash_instant (RC_Forget now r) = Some now"
| "stash_instant _ = None"

fun forgets :: "stash_op \<Rightarrow> string option" where
  "forgets (RC_Forget now r) = Some r"
| "forgets _ = None"

definition forgotten :: "stash_op list \<Rightarrow> nat" where
  "forgotten ops = length (filter (\<lambda>op. forgets op \<noteq> None) ops)"

definition free_of :: "string \<Rightarrow> stashed_agent \<Rightarrow> bool" where
  "free_of r st \<longleftrightarrow> r \<notin> set (sa_rooms st) \<and> list_all (\<lambda>f. frame_room_id f \<noteq> Some r) (sa_missed_messages st)"

text \<open>No stash holds the room or a frame about it, and the room is remembered as destroyed at \<open>t\<close>.\<close>

definition room_gone :: "string \<Rightarrow> nat \<Rightarrow> nat \<Rightarrow> reconnect_manager \<Rightarrow> bool" where
  "room_gone r t n rm \<longleftrightarrow>
     gone.remembers r t n rm \<and> distinct (dm_keys (stashed rm)) \<and> (\<forall>a st. map_of (stashed rm) a = Some st \<longrightarrow> free_of r st)"

lemma remembers_view: "gone.remembers r t n (rm\<lparr>stashed := x\<rparr>) = gone.remembers r t n rm"
  by (simp add: gone.remembers_def)

lemma stashed_cache_ops [simp]:
  "stashed (destroyed_prune now rm) = stashed rm" "stashed (destroyed_insert now r rm) = stashed rm"
  by (simp_all add: destroyed_prune_def destroyed_insert_def)

lemma gone_is_destroyed:
  "gone.remembers r t n rm \<Longrightarrow> now - t < DESTROYED_ROOM_TTL \<Longrightarrow> room_is_destroyed now r rm"
  by (simp add: room_is_destroyed_def gone.remembers_key [OF gone.remembers_tidy] del: set_map)

lemma room_gone_stashed:
  "room_gone r t n rm \<Longrightarrow> map_of (stashed rm) a = Some st \<Longrightarrow> free_of r st"
  by (simp add: room_gone_def)

lemma room_gone_set:
  "room_gone r t n rm \<Longrightarrow> free_of r st \<Longrightarrow> room_gone r t n (rm\<lparr>stashed := dm_insert a st (stashed rm)\<rparr>)"
  by (simp add: room_gone_def remembers_view)

lemma room_gone_remove:
  "room_gone r t n rm \<Longrightarrow> room_gone r t n (rm\<lparr>stashed := dm_remove a (stashed rm)\<rparr>)"
  by (auto simp: room_gone_def remembers_view)

lemma room_gone_prune:
  "room_gone r t n rm \<Longrightarrow> now - t < DESTROYED_ROOM_TTL \<Longrightarrow> room_gone r t n (destroyed_prune now rm)"
  by (simp add: room_gone_def gone.remembers_tidy)

lemma free_of_simps [simp]:
  "free_of r (st\<lparr>sa_reclaim_token := x\<rparr>) = free_of r st"
  "free_of r (st\<lparr>sa_missed_messages := sa_missed_messages st @ [f]\<rparr>)
     \<longleftrightarrow> free_of r st \<and> frame_room_id f \<noteq> Some r"
  by (auto simp: free_of_def)

lemma room_gone_stash:
  assumes "room_gone r t n rm" "now - t < DESTROYED_ROOM_TTL"
  shows "room_gone r t n (stash now a nm k rs rm)"
proof -
  have "room_is_destroyed now r rm"
    using assms gone_is_destroyed by (auto simp: room_gone_def)
  then have "free_of r \<lparr>sa_agent_id = a, sa_name = nm, sa_api_key = k,
      sa_rooms = filter (\<lambda>x. \<not> room_is_destroyed now x rm \<and> \<not> room_is_destroyed now x (destroyed_prune now rm)) rs,
      sa_missed_messages = [], sa_disconnected_at = now, sa_reclaim_token = None\<rparr>"
    by (simp add: free_of_def)
  from room_gone_set [OF room_gone_prune [OF assms] this] show ?thesis
    by (simp add: stash_def Let_def)
qed

lemma room_gone_buffer:
  assumes "room_gone r t n rm" "now - t < DESTROYED_ROOM_TTL"
  shows "room_gone r t n (buffer_message now a f rm)"
proof -
  have "room_is_destroyed now r rm"
    using assms gone_is_destroyed by (auto simp: room_gone_def)
  then have put: "room_gone r t n (rm'\<lparr>stashed := dm_insert a (st\<lparr>sa_missed_messages :=
      sa_missed_messages st @ [f]\<rparr>) (stashed rm)\<rparr>)"
    if "map_of (stashed rm) a = Some st" "frame_room_id f \<noteq> Some r" "room_gone r t n rm'" "stashed rm' = stashed rm"
    for st rm'
    using room_gone_set [OF that(3), of "st\<lparr>sa_missed_messages := sa_missed_messages st @ [f]\<rparr>" a]
      room_gone_stashed [OF assms(1) that(1)] that by simp
  then show ?thesis using room_gone_prune [OF assms] assms(1) \<open>room_is_destroyed now r rm\<close>
    by (auto simp: buffer_message_def Let_def intro!: put split: option.splits)
qed

lemma room_gone_event:
  assumes "room_gone r t n rm" "now - t < DESTROYED_ROOM_TTL"
  shows "room_gone r t n (snd (buffer_visible_room_event now v ok gk na f rm))"
proof -
  have "room_is_destroyed now r rm"
    using assms gone_is_destroyed by (auto simp: room_gone_def)
  then show ?thesis using room_gone_prune [OF assms] assms(1)
    by (auto simp: buffer_visible_room_event_def Let_def room_gone_def remembers_view split: option.splits)
qed

lemma room_gone_forget:
  assumes "room_gone r t (Suc n) rm" "now - t < DESTROYED_ROOM_TTL" "q \<noteq> r"
  shows "room_gone r t n (forget_room_stashes now q rm)"
  using assms gone.remembers_put
  by (fastforce simp: forget_room_stashes_def Let_def room_gone_def remembers_view free_of_def list_all_iff)

lemma room_gone_step:
  assumes "room_gone r t (forgotten [op] + n) rm" "forgets op \<noteq> Some r"
    and "\<forall>now. stash_instant op = Some now \<longrightarrow> now - t < DESTROYED_ROOM_TTL"
  shows "room_gone r t n (stash_step op rm)"
proof (cases op)
  case (RC_Tick now)
  with assms have "room_gone r t n rm" "now - t < DESTROYED_ROOM_TTL" by (simp_all add: forgotten_def)
  then have "room_gone r t n (rm\<lparr>stashed := dm_retain (\<lambda>_ v. now - sa_disconnected_at v < RECONNECT_WINDOW)
      (stashed rm)\<rparr>)"
    by (auto simp: room_gone_def remembers_view dm_lookup_retain_Some)
  then show ?thesis using RC_Tick \<open>now - t < DESTROYED_ROOM_TTL\<close> by (simp add: cleanup_tick_def room_gone_prune)
next
  case (RC_Begin now tok a k na)
  with assms show ?thesis
    by (auto simp: begin_reclaim_def forgotten_def intro!: room_gone_set room_gone_remove
        dest: room_gone_stashed split: option.splits)
next
  case (RC_Commit l)
  with assms show ?thesis
    by (auto simp: lease_commit_def forgotten_def intro!: room_gone_remove split: option.splits)
next
  case (RC_Drop l)
  with assms show ?thesis
    by (auto simp: lease_drop_def forgotten_def intro!: room_gone_set dest: room_gone_stashed split: option.splits)
qed (use assms in \<open>simp_all add: forgotten_def room_gone_stash room_gone_buffer room_gone_event room_gone_forget\<close>)

lemma room_gone_steps:
  "room_gone r t (forgotten ops) rm \<Longrightarrow>
   \<forall>op \<in> set ops. (\<forall>u. stash_instant op = Some u \<longrightarrow> u - t < DESTROYED_ROOM_TTL) \<and> forgets op \<noteq> Some r \<Longrightarrow>
   room_gone r t 0 (fold stash_step ops rm)"
proof (induction ops arbitrary: rm)
  case (Cons op ops)
  have "forgotten (op # ops) = forgotten [op] + forgotten ops" by (simp add: forgotten_def)
  with Cons.prems have "room_gone r t (forgotten ops) (stash_step op rm)"
    by (intro room_gone_step) auto
  with Cons show ?case by simp
qed (simp add: forgotten_def)


definition demo_stashes :: reconnect_manager where
  "demo_stashes = stash 1000 ''a1'' ''Ann'' ''k1'' [''r1'', ''r2''] reconnect_new"

lemma demo_stashes_eq:
  "demo_stashes = \<lparr>stashed = [(''a1'', \<lparr>sa_agent_id = ''a1'', sa_name = ''Ann'', sa_api_key = ''k1'',
     sa_rooms = [''r1'', ''r2''], sa_missed_messages = [], sa_disconnected_at = 1000,
     sa_reclaim_token = None\<rparr>)], destroyed_rooms = []\<rparr>"
  by (simp add: demo_stashes_def stash_def room_is_destroyed_def destroyed_prune_def cache_prune_def
      evict_small reconnect_new_def)


subsection \<open>The lease\<close>

lemma is_stashed_iff: "is_stashed a rm \<longleftrightarrow> map_of (stashed rm) a \<noteq> None"
  by (simp add: is_stashed_def map_of_eq_None_iff)

text \<open>What may happen between the begin of a reclaim of \<open>a\<close> and its commit: other reclaims and their leases,
  stashes of other agents, buffered frames, cleanups, all within the window of the stash made at \<open>t0\<close>.\<close>

fun while_leased :: "string \<Rightarrow> string \<Rightarrow> nat \<Rightarrow> stash_op \<Rightarrow> bool" where
  "while_leased a tok t0 (RC_Tick now) \<longleftrightarrow> now - t0 < RECONNECT_WINDOW"
| "while_leased a tok t0 (RC_Stash now a' n k rs) \<longleftrightarrow> a' \<noteq> a"
| "while_leased a tok t0 (RC_Begin now tok' a' k na) \<longleftrightarrow> now - t0 < RECONNECT_WINDOW"
| "while_leased a tok t0 (RC_Commit l) \<longleftrightarrow> rl_token l \<noteq> tok"
| "while_leased a tok t0 (RC_Drop l) \<longleftrightarrow> rl_token l \<noteq> tok"
| "while_leased a tok t0 (RC_Buffer now a' f) \<longleftrightarrow> True"
| "while_leased a tok t0 (RC_Event now v ok gk na f) \<longleftrightarrow> True"
| "while_leased a tok t0 (RC_Forget now r) \<longleftrightarrow> False"

text \<open>The later stash is the earlier one with more frames.\<close>

definition extends :: "stashed_agent \<Rightarrow> stashed_agent \<Rightarrow> bool" where
  "extends st st' \<longleftrightarrow> (\<exists>fs. st' = st\<lparr>sa_missed_messages := sa_missed_messages st @ fs\<rparr>)"

lemma extends_refl [simp]: "extends st st"
  by (auto simp: extends_def intro: exI [of _ "[]"])

lemma extends_more [intro]: "extends st (st\<lparr>sa_missed_messages := sa_missed_messages st @ fs\<rparr>)"
  by (auto simp: extends_def)

lemma extends_trans [trans]: "extends st st1 \<Longrightarrow> extends st1 st2 \<Longrightarrow> extends st st2"
  by (auto simp: extends_def)

lemma extends_sel:
  "extends st st' \<Longrightarrow> sa_reclaim_token st' = sa_reclaim_token st \<and> sa_disconnected_at st' = sa_disconnected_at st
     \<and> sa_rooms st' = sa_rooms st \<and> sa_api_key st' = sa_api_key st"
  by (auto simp: extends_def)

lemma leased_step:
  assumes "map_of (stashed rm) a = Some st" "sa_reclaim_token st = Some tok" "sa_disconnected_at st = t0"
    and "distinct (dm_keys (stashed rm))" "while_leased a tok t0 op"
  shows "distinct (dm_keys (stashed (stash_step op rm)))
    \<and> (\<exists>st'. map_of (stashed (stash_step op rm)) a = Some st' \<and> extends st st')"
  using assms
  by (cases op)
     (auto simp: cleanup_tick_def stash_def begin_reclaim_def lease_commit_def lease_drop_def
       buffer_message_def buffer_visible_room_event_def Let_def dm_lookup_retain
       split: option.splits)

lemma leased_steps:
  "map_of (stashed rm) a = Some st \<Longrightarrow> sa_reclaim_token st = Some tok \<Longrightarrow> sa_disconnected_at st = t0 \<Longrightarrow>
   distinct (dm_keys (stashed rm)) \<Longrightarrow> list_all (while_leased a tok t0) ops \<Longrightarrow>
   \<exists>st'. map_of (stashed (fold stash_step ops rm)) a = Some st' \<and> extends st st'"
proof (induction ops arbitrary: rm st)
  case (Cons op ops)
  from leased_step [OF Cons.prems(1-4)] Cons.prems(5) obtain st1
    where 1: "distinct (dm_keys (stashed (stash_step op rm)))"
      "map_of (stashed (stash_step op rm)) a = Some st1" "extends st st1" by auto
  from Cons.IH [OF 1(2) _ _ 1(1)] extends_sel [OF 1(3)] Cons.prems obtain st'
    where "map_of (stashed (fold stash_step ops (stash_step op rm))) a = Some st'" "extends st1 st'" by auto
  with 1(3) show ?case using extends_trans by auto
qed simp



text \<open>A stash is handed over only for the key it was made with, unless authentication is off, and not
  after the window of two minutes.\<close>

lemma reclaim_needs_the_key:
  assumes "reclaim now tok agent_id key no_auth rm = (Inr (Some st), rm')"
  shows "(no_auth \<or> sa_api_key st = key) \<and> now - sa_disconnected_at st < RECONNECT_WINDOW
    \<and> \<not> is_stashed agent_id rm'"
  using assms
  by (auto simp: reclaim_def begin_reclaim_def lease_commit_def is_stashed_iff split: option.splits if_splits prod.splits)

lemma reclaim_needs_the_key_witness:
  "\<exists>st rm'. reclaim 2000 ''t1'' ''a1'' ''k1'' False demo_stashes = (Inr (Some st), rm') \<and> sa_api_key st = ''k1''"
proof -
  have "\<exists>st rm'. reclaim 2000 ''t1'' ''a1'' ''k1'' False demo_stashes = (Inr (Some st), rm')"
    by (simp add: reclaim_def begin_reclaim_def lease_commit_def demo_stashes_eq RECONNECT_WINDOW_def)
  then obtain st rm' where r: "reclaim 2000 ''t1'' ''a1'' ''k1'' False demo_stashes = (Inr (Some st), rm')" by blast
  with reclaim_needs_the_key [OF r] show ?thesis by auto
qed

end
