(* ===== verification/Store_Keys.thy ===== *)
theory Store_Keys
  imports Store_Rooms
begin

text \<open>
  The credential half of \<open>store.rs\<close>: API keys, the binding of agent identities to keys, agent
  sessions, and room invites with their single-use redemption.
\<close>

subsection \<open>Keys, identities, sessions\<close>

definition create_api_key :: "bool \<Rightarrow> int \<Rightarrow> string \<Rightarrow> string option \<Rightarrow> store \<Rightarrow> (store_error + unit) \<times> store" where
  "create_api_key fault now api_key label s =
     (if fault then (Inl (SE_Db IoFault), s)
      else if api_key \<in> ak_api_key ` set (db_api_keys s) then (Inl (SE_Db PrimaryKeyTaken), s)
      else (Inr (), s\<lparr>db_api_keys := db_api_keys s @
             [\<lparr>ak_api_key = api_key, ak_tier = ''free'', ak_label = label, ak_created_at = now\<rparr>]\<rparr>))"

definition validate_api_key :: "bool \<Rightarrow> string \<Rightarrow> store \<Rightarrow> store_error + bool" where
  "validate_api_key fault api_key s =
     (if fault then Inl (SE_Db IoFault)
      else Inr (0 < length (filter (\<lambda>k. ak_api_key k = api_key) (db_api_keys s))))"

definition get_key_tier :: "bool \<Rightarrow> string \<Rightarrow> store \<Rightarrow> store_error + string" where
  "get_key_tier fault api_key s =
     (if fault then Inl (SE_Db IoFault)
      else case row_find ak_api_key api_key (db_api_keys s) of
        None \<Rightarrow> Inl (SE_Db NoRows)
      | Some k \<Rightarrow> Inr (ak_tier k))"

definition record_session_start ::
    "bool \<Rightarrow> int \<Rightarrow> string \<Rightarrow> string \<Rightarrow> string \<Rightarrow> string list \<Rightarrow> store \<Rightarrow> (store_error + unit) \<times> store" where
  "record_session_start fault now session_id agent_id agent_name capabilities s =
     (if fault then (Inl (SE_Db IoFault), s)
      else if session_id \<in> ss_session_id ` set (db_sessions s) then (Inl (SE_Db PrimaryKeyTaken), s)
      else (Inr (), s\<lparr>db_sessions := db_sessions s @
             [\<lparr>ss_session_id = session_id, ss_agent_id = agent_id, ss_agent_name = agent_name,
               ss_capabilities = capabilities, ss_connected_at = now, ss_disconnected_at = None\<rparr>]\<rparr>))"

definition record_session_end :: "bool \<Rightarrow> int \<Rightarrow> string \<Rightarrow> store \<Rightarrow> (store_error + unit) \<times> store" where
  "record_session_end fault now session_id s =
     (if fault then (Inl (SE_Db IoFault), s)
      else (Inr (), s\<lparr>db_sessions := row_update ss_session_id session_id
             (\<lambda>r. r\<lparr>ss_disconnected_at := Some now\<rparr>) (db_sessions s)\<rparr>))"

text \<open>\<open>INSERT OR IGNORE\<close>, then the stored owner is compared with the caller's key.\<close>

definition claim_agent_identity :: "bool \<Rightarrow> string \<Rightarrow> string \<Rightarrow> store \<Rightarrow> (store_error + bool) \<times> store" where
  "claim_agent_identity fault agent_id owner_key s =
     (if fault then (Inl (SE_Db IoFault), s)
      else
        let s = (if agent_id \<in> id_agent_id ` set (db_identities s) then s
                 else s\<lparr>db_identities := db_identities s @
                        [\<lparr>id_agent_id = agent_id, id_owner_key = owner_key\<rparr>]\<rparr>)
        in case row_find id_agent_id agent_id (db_identities s) of
             None \<Rightarrow> (Inl (SE_Db NoRows), s)
           | Some r \<Rightarrow> (Inr (id_owner_key r = owner_key), s))"

definition identity_owner :: "store \<Rightarrow> string \<Rightarrow> string option" where
  "identity_owner s agent_id = map_option id_owner_key (row_find id_agent_id agent_id (db_identities s))"

subsection \<open>Invites\<close>

definition create_invite ::
    "bool \<Rightarrow> string \<Rightarrow> string \<Rightarrow> string \<Rightarrow> bool \<Rightarrow> store \<Rightarrow> (store_error + unit) \<times> store" where
  "create_invite fault token_hash room_id created_by_key single_use s =
     (if fault then (Inl (SE_Db IoFault), s)
      else if token_hash \<in> ir_token_hash ` set (db_invites s) then (Inl (SE_Db PrimaryKeyTaken), s)
      else (Inr (), s\<lparr>db_invites := db_invites s @
             [\<lparr>ir_token_hash = token_hash, ir_room_id = room_id, ir_created_by_key = created_by_key,
               ir_single_use = single_use, ir_redeemed_count = 0, ir_revoked = False\<rparr>]\<rparr>))"

definition get_invite :: "bool \<Rightarrow> string \<Rightarrow> store \<Rightarrow> store_error + invite_row option" where
  "get_invite fault token_hash s =
     (if fault then Inl (SE_Db IoFault) else Inr (row_find ir_token_hash token_hash (db_invites s)))"

text \<open>The guarded \<open>UPDATE\<close> of \<open>redeem_invite\<close>, on one row.\<close>

definition redeem_row :: "string \<Rightarrow> invite_row \<Rightarrow> invite_row" where
  "redeem_row token_hash i =
     (if ir_token_hash i = token_hash \<and> \<not> ir_revoked i
      then i\<lparr>ir_redeemed_count := ir_redeemed_count i + 1,
             ir_revoked := (if ir_single_use i then True else ir_revoked i)\<rparr>
      else i)"

definition redeem_invite :: "bool \<Rightarrow> string \<Rightarrow> store \<Rightarrow> (store_error + string option) \<times> store" where
  "redeem_invite fault token_hash s =
     (if fault then (Inl (SE_Db IoFault), s)
      else
        let affected = length (filter (\<lambda>i. ir_token_hash i = token_hash \<and> \<not> ir_revoked i) (db_invites s));
            s' = s\<lparr>db_invites := map (redeem_row token_hash) (db_invites s)\<rparr>
        in if affected = 0 then (Inr None, s)
           else case row_find ir_token_hash token_hash (db_invites s') of
             None \<Rightarrow> (Inl (SE_Db NoRows), s)
           | Some i \<Rightarrow> (Inr (Some (ir_room_id i)), s'))"

definition revoke_invite :: "bool \<Rightarrow> string \<Rightarrow> store \<Rightarrow> (store_error + bool) \<times> store" where
  "revoke_invite fault token_hash s =
     (if fault then (Inl (SE_Db IoFault), s)
      else (Inr (token_hash \<in> ir_token_hash ` set (db_invites s)),
            s\<lparr>db_invites := row_update ir_token_hash token_hash (\<lambda>i. i\<lparr>ir_revoked := True\<rparr>)
                              (db_invites s)\<rparr>))"

subsection \<open>Consistency\<close>

lemma wf_create_api_key [wf_intros]: "store_wf s \<Longrightarrow> store_wf (snd (create_api_key fault now k label s))"
  using store_wfD(26) [of s] by (auto simp: create_api_key_def intro!: wf_set_api_keys)

lemma wf_record_session_start [wf_intros]:
  "store_wf s \<Longrightarrow> store_wf (snd (record_session_start fault now sid aid an caps s))"
  using store_wfD(28) [of s] by (auto simp: record_session_start_def intro!: wf_set_sessions)

lemma wf_record_session_end [wf_intros]:
  "store_wf s \<Longrightarrow> store_wf (snd (record_session_end fault now sid s))"
  using store_wfD(28) [of s] by (auto simp: record_session_end_def intro!: wf_set_sessions)

lemma wf_claim_agent_identity [wf_intros]:
  "store_wf s \<Longrightarrow> store_wf (snd (claim_agent_identity fault aid k s))"
  using store_wfD(27) [of s]
  by (auto simp: claim_agent_identity_def Let_def intro!: wf_set_identities split: option.splits)

lemma wf_create_invite [wf_intros]:
  "store_wf s \<Longrightarrow> store_wf (snd (create_invite fault h r k su s))"
  using store_wfD(15) [of s] by (auto simp: create_invite_def intro!: wf_set_invites)

lemma redeem_row_sel [simp]:
  "ir_token_hash (redeem_row h i) = ir_token_hash i" "ir_room_id (redeem_row h i) = ir_room_id i"
  "ir_single_use (redeem_row h i) = ir_single_use i"
  by (simp_all add: redeem_row_def)

lemma wf_redeem_invite [wf_intros]: "store_wf s \<Longrightarrow> store_wf (snd (redeem_invite fault h s))"
  using store_wfD(15) [of s]
  by (auto simp: redeem_invite_def Let_def comp_def intro!: wf_set_invites split: option.splits)

lemma wf_revoke_invite [wf_intros]: "store_wf s \<Longrightarrow> store_wf (snd (revoke_invite fault h s))"
  using store_wfD(15) [of s] by (auto simp: revoke_invite_def intro!: wf_set_invites)

subsection \<open>Ownership of identities\<close>

lemma claim_owner:
  "claim_agent_identity False aid k s
     = (Inr (case identity_owner s aid of None \<Rightarrow> True | Some k' \<Rightarrow> k' = k),
        snd (claim_agent_identity False aid k s))"
  "identity_owner (snd (claim_agent_identity f a k s)) aid
     = (case identity_owner s aid of Some k' \<Rightarrow> Some k'
        | None \<Rightarrow> if a = aid \<and> \<not> f then Some k else None)"
  by (auto simp: claim_agent_identity_def identity_owner_def row_find_append Let_def
      split: option.splits if_splits)

text \<open>An agent identity belongs for ever to the key that first claimed it: whatever claims follow, by
  whomever and with whatever faults, a later claim succeeds exactly with the same key.\<close>

lemma identity_owner_permanent:
  assumes "claim_agent_identity False aid key s = (Inr True, s1)"
    and "s2 = fold (\<lambda>(fault, a, k) s. snd (claim_agent_identity fault a k s)) later s1"
  shows "fst (claim_agent_identity False aid key' s2) = Inr (key' = key)"
proof -
  have "identity_owner (fold (\<lambda>(fault, a, k) s. snd (claim_agent_identity fault a k s)) later s) aid = Some key"
    if "identity_owner s aid = Some key" for s
    using that by (induction later arbitrary: s) (auto simp: claim_owner(2))
  moreover have "identity_owner s1 aid = Some key"
    using assms(1) claim_owner(1) [where aid = aid and k = key and s = s]
      claim_owner(2) [where f = False and a = aid and k = key and s = s and aid = aid]
    by (auto split: option.splits)
  ultimately have "identity_owner s2 aid = Some key" using assms(2) by simp
  then show ?thesis using claim_owner(1) [where aid = aid and k = key' and s = s2]
    by (cases "claim_agent_identity False aid key' s2") (simp add: eq_commute [of key' key])
qed

subsection \<open>Redemption\<close>

datatype invite_op =
    Invite_Create bool string string string bool
  | Invite_Redeem bool string
  | Invite_Revoke bool string

fun invite_step :: "invite_op \<Rightarrow> store \<Rightarrow> store" where
  "invite_step (Invite_Create f h r k su) s = snd (create_invite f h r k su s)"
| "invite_step (Invite_Redeem f h) s = snd (redeem_invite f h s)"
| "invite_step (Invite_Revoke f h) s = snd (revoke_invite f h s)"

text \<open>How often \<open>h\<close> is redeemed in a history.\<close>

fun redemptions :: "string \<Rightarrow> invite_op list \<Rightarrow> store \<Rightarrow> nat" where
  "redemptions h [] s = 0"
| "redemptions h (op # ops) s =
     (case op of
        Invite_Redeem f h' \<Rightarrow>
          if h' = h \<and> (case fst (redeem_invite f h' s) of Inr (Some _) \<Rightarrow> True | _ \<Rightarrow> False) then 1 else 0
      | _ \<Rightarrow> 0)
     + redemptions h ops (invite_step op s)"

abbreviation invite_of :: "store \<Rightarrow> string \<Rightarrow> invite_row option" where
  "invite_of s h \<equiv> row_find ir_token_hash h (db_invites s)"

lemma row_find_map:
  "(\<And>r. key (f r) = key r) \<Longrightarrow> row_find key k (map f rows) = map_option f (row_find key k rows)"
  by (induction rows) auto

lemma redeem_hit:
  assumes "distinct (map ir_token_hash (db_invites s))" "invite_of s h = Some i"
  shows "filter (\<lambda>i. ir_token_hash i = h \<and> \<not> ir_revoked i) (db_invites s) = [] \<longleftrightarrow> ir_revoked i"
proof -
  have "x \<in> set (db_invites s) \<and> ir_token_hash x = h \<longleftrightarrow> x = i" for x
    using row_find_unique [OF assms(1), of h x] assms(2) by auto
  then show ?thesis by (simp add: filter_empty_conv) metis
qed

lemma redeem_invite_eq:
  assumes "distinct (map ir_token_hash (db_invites s))" "invite_of s h = Some i"
  shows "redeem_invite False h s =
    (if ir_revoked i then (Inr None, s)
     else (Inr (Some (ir_room_id i)), s\<lparr>db_invites := map (redeem_row h) (db_invites s)\<rparr>))"
  using redeem_hit [OF assms] assms(2)
  by (simp add: redeem_invite_def Let_def row_find_map)

lemma invite_step_invite:
  assumes "store_wf s" "invite_of s h = Some i"
  shows "store_wf (invite_step op s)"
    and "\<exists>j. invite_of (invite_step op s) h = Some j \<and> ir_single_use j = ir_single_use i
      \<and> ir_room_id j = ir_room_id i \<and> (ir_revoked i \<longrightarrow> ir_revoked j)"
proof -
  note d = store_wfD(15) [OF assms(1)]
  show "store_wf (invite_step op s)"
    by (cases op) (simp_all add: assms(1) wf_create_invite wf_redeem_invite wf_revoke_invite)
  show "\<exists>j. invite_of (invite_step op s) h = Some j \<and> ir_single_use j = ir_single_use i
      \<and> ir_room_id j = ir_room_id i \<and> (ir_revoked i \<longrightarrow> ir_revoked j)"
  proof (cases op)
    case (Invite_Create f h' r k su)
    with assms(2) show ?thesis by (auto simp: create_invite_def row_find_append)
  next
    case (Invite_Redeem f h')
    have "snd (redeem_invite f h' s) = s
        \<or> snd (redeem_invite f h' s) = s\<lparr>db_invites := map (redeem_row h') (db_invites s)\<rparr>"
      by (auto simp: redeem_invite_def Let_def split: option.splits)
    then show ?thesis using Invite_Redeem assms(2)
      by (auto simp: row_find_map redeem_row_def)
  next
    case (Invite_Revoke f h')
    with assms(2) show ?thesis by (auto simp: revoke_invite_def)
  qed
qed

text \<open>C19. A single-use invite is redeemed at most once, and a revoked invite never again, whatever else is
  created, redeemed or revoked meanwhile; the redemption that succeeds leads to the invite's own room.\<close>

theorem single_use_invite_redeemed_once:
  assumes "store_wf s" "row_find ir_token_hash h (db_invites s) = Some i" "ir_single_use i \<or> ir_revoked i"
  shows "redemptions h ops s \<le> (if ir_revoked i then 0 else 1)
    \<and> (\<forall>room. fst (redeem_invite False h s) = Inr (Some room) \<longrightarrow> room = ir_room_id i)"
proof
  show "\<forall>room. fst (redeem_invite False h s) = Inr (Some room) \<longrightarrow> room = ir_room_id i"
    using redeem_invite_eq [OF store_wfD(15) [OF assms(1)] assms(2)] by simp
  show "redemptions h ops s \<le> (if ir_revoked i then 0 else 1)"
    using assms
  proof (induction ops arbitrary: s i)
    case (Cons op ops)
    note d = store_wfD(15) [OF Cons.prems(1)]
    note st = invite_step_invite [OF Cons.prems(1,2)]
    from st(2) [of op] obtain j where j: "invite_of (invite_step op s) h = Some j"
      "ir_single_use j = ir_single_use i" "ir_revoked i \<longrightarrow> ir_revoked j" by auto
    have IH: "redemptions h ops (invite_step op s) \<le> (if ir_revoked j then 0 else 1)"
      using Cons.IH [OF st(1) j(1)] j Cons.prems(3) by auto
    show ?case
    proof (cases "\<exists>room. op = Invite_Redeem False h \<and> fst (redeem_invite False h s) = Inr (Some room)")
      case True
      then obtain room where o: "op = Invite_Redeem False h" "fst (redeem_invite False h s) = Inr (Some room)"
        by auto
      then have nr: "\<not> ir_revoked i" using redeem_invite_eq [OF d Cons.prems(2)] by (auto split: if_splits)
      with Cons.prems(3) have "ir_single_use i" by simp
      with o nr j(1) redeem_invite_eq [OF d Cons.prems(2)] Cons.prems(2)
      have "ir_revoked j" by (auto simp: row_find_map redeem_row_def dest: row_find_SomeD)
      with IH o nr show ?thesis by simp
    next
      case False
      then have "(case op of Invite_Redeem f h' \<Rightarrow>
          if h' = h \<and> (case fst (redeem_invite f h' s) of Inr (Some _) \<Rightarrow> True | _ \<Rightarrow> False) then 1 else 0
          | _ \<Rightarrow> 0) = (0::nat)"
        by (cases op) (auto split: sum.splits option.splits simp: redeem_invite_def)
      with IH j(3) show ?thesis by (auto split: if_splits)
    qed
  qed simp
qed

theorem single_use_invite_redeemed_once_witness:
  "redemptions ''h'' [Invite_Redeem False ''h'', Invite_Redeem False ''h'', Invite_Revoke False ''h'']
     (snd (create_invite False ''h'' ''r1'' ''k1'' True demo_store)) \<le> 1"
proof -
  let ?s = "snd (create_invite False ''h'' ''r1'' ''k1'' True demo_store)"
  have "\<exists>i. row_find ir_token_hash ''h'' (db_invites ?s) = Some i \<and> ir_single_use i \<and> \<not> ir_revoked i"
    by (simp add: create_invite_def demo_store_def)
  then obtain i where i: "row_find ir_token_hash ''h'' (db_invites ?s) = Some i"
    "ir_single_use i \<or> ir_revoked i" "\<not> ir_revoked i" by auto
  note once = single_use_invite_redeemed_once [OF wf_create_invite [OF demo_store_wf] i(1,2),
      where ops = "[Invite_Redeem False ''h'', Invite_Redeem False ''h'', Invite_Revoke False ''h'']"]
  show ?thesis using conjunct1 [OF once] i(3) by (simp only: if_False)
qed

end
