(* ===== verification/Rate_Limit.thy ===== *)
theory Rate_Limit
  imports Prelude
begin

text \<open>
  Per-key and per-address limits (\<open>rate_limit.rs\<close>): the tiers, the counters of a key, the message
  window of a minute, the signup window of an hour. The interface \<open>window_limiter\<close> is what both
  windows promise; it is interpreted for signups and for messages.

  An \<open>Instant\<close> is a natural number (milliseconds on the monotonic clock), so that \<open>elapsed\<close> is the
  truncated difference, which is what \<open>Instant::elapsed\<close> returns. The counters are \<open>u64\<close> and
  wrap.
\<close>

subsection \<open>The window interface\<close>

locale window_limiter =
  fixes attempt :: "nat \<Rightarrow> 'k \<Rightarrow> 's \<Rightarrow> bool \<times> 's"
    and used :: "'s \<Rightarrow> 'k \<Rightarrow> nat"
    and opened :: "'s \<Rightarrow> 'k \<Rightarrow> nat option"
    and cap :: nat
    and width :: nat
  assumes other: "k' \<noteq> k \<Longrightarrow>
      used (snd (attempt now k s)) k' = used s k' \<and> opened (snd (attempt now k s)) k' = opened s k'"
    and running: "opened s k = Some t \<Longrightarrow> now - t \<le> width \<Longrightarrow> used s k \<le> cap \<Longrightarrow>
      opened (snd (attempt now k s)) k = Some t
      \<and> fst (attempt now k s) = (used s k < cap)
      \<and> used (snd (attempt now k s)) k = used s k + (if used s k < cap then 1 else 0)"
    and reopened: "opened s k = None \<or> (\<exists>t. opened s k = Some t \<and> width < now - t) \<Longrightarrow>
      opened (snd (attempt now k s)) k = Some now
      \<and> fst (attempt now k s) = (0 < cap)
      \<and> used (snd (attempt now k s)) k = (if 0 < cap then 1 else 0)"
begin

text \<open>A run of attempts (key and instant); how many of key \<open>k\<close> are granted, and the state after.\<close>

fun run :: "('k \<times> nat) list \<Rightarrow> 's \<Rightarrow> 's" where
  "run [] s = s"
| "run ((k, now) # as) s = run as (snd (attempt now k s))"

fun granted :: "'k \<Rightarrow> ('k \<times> nat) list \<Rightarrow> 's \<Rightarrow> nat" where
  "granted k [] s = 0"
| "granted k ((k', now) # as) s =
     (if k' = k \<and> fst (attempt now k' s) then 1 else 0) + granted k as (snd (attempt now k' s))"

lemma attempt_used_le:
  assumes "used s k \<le> cap"
  shows "used (snd (attempt now k' s)) k \<le> cap"
proof (cases "k' = k")
  case False
  then show ?thesis using assms other [of k k' now s] by simp
next
  case True
  then show ?thesis
    using assms running [of s k _ now] reopened [of s k now]
    by (cases "opened s k") (fastforce simp: not_le split: if_splits)+
qed

lemma run_used_le: "used s k \<le> cap \<Longrightarrow> used (run as s) k \<le> cap"
  by (induction as s rule: run.induct) (simp_all add: attempt_used_le)

text \<open>A window that opened at \<open>t0\<close> or later pays from its remaining budget only, an older one or a
  missing one may be reopened once: the attempts of an interval no longer than a window's width are
  paid by at most two windows.\<close>

lemma granted_interval:
  assumes "used s k \<le> cap" "\<forall>(k', now) \<in> set as. t0 \<le> now \<and> now \<le> t0 + width"
  shows "granted k as s \<le>
    (if \<exists>t\<ge>t0. opened s k = Some t then cap - used s k else 2 * cap - used s k)"
  using assms
proof (induction as arbitrary: s)
  case Nil
  then show ?case by simp
next
  case (Cons a as)
  obtain k' now where a: "a = (k', now)" by (cases a)
  let ?s' = "snd (attempt now k' s)"
  have now: "t0 \<le> now" "now \<le> t0 + width" using Cons.prems a by auto
  have IH: "granted k as ?s' \<le>
      (if \<exists>t\<ge>t0. opened ?s' k = Some t then cap - used ?s' k else 2 * cap - used ?s' k)"
    using Cons.prems by (intro Cons.IH) (simp_all add: attempt_used_le)
  consider "k' \<noteq> k" | t where "k' = k" "opened s k = Some t" "now - t \<le> width"
    | "k' = k" "opened s k = None \<or> (\<exists>t. opened s k = Some t \<and> width < now - t)"
  proof (cases "k' = k")
    case True
    then show ?thesis using that(2,3) by (cases "opened s k"; metis not_le)
  qed (rule that(1))
  then show ?case
  proof cases
    case 1
    then have "used ?s' k = used s k" "opened ?s' k = opened s k" using other [of k k' now s] by auto
    with IH a 1 show ?thesis by (auto split: if_splits)
  next
    case 2
    with running [OF 2(2,3) Cons.prems(1)] IH a show ?thesis
      by (cases "used s k < cap") (auto split: if_splits)
  next
    case 3
    have "\<not> (\<exists>t\<ge>t0. opened s k = Some t)" using 3(2) now by auto
    with 3 reopened [OF 3(2)] IH a now Cons.prems(1) show ?thesis
      by (cases "0 < cap") (auto split: if_splits)
  qed
qed

lemma granted_burst:
  assumes "used s k \<le> cap" "\<forall>(k', now) \<in> set as. t0 \<le> now \<and> now \<le> t0 + width"
  shows "granted k as s \<le> 2 * cap"
  using granted_interval [OF assms] by (simp split: if_splits)

end

subsection \<open>Tiers\<close>

record tier_limits =
  max_agents :: nat
  max_messages_per_minute :: nat
  max_rooms :: nat
  max_message_bytes :: nat
  history_retention_days :: "nat option"

definition tier_free :: tier_limits where
  "tier_free = \<lparr>max_agents = 20, max_messages_per_minute = 200, max_rooms = 50,
     max_message_bytes = 64 * 1024, history_retention_days = Some 14\<rparr>"

definition tier_pro :: tier_limits where
  "tier_pro = \<lparr>max_agents = 200, max_messages_per_minute = 2000, max_rooms = 500,
     max_message_bytes = 256 * 1024, history_retention_days = Some 90\<rparr>"

definition for_tier :: "string \<Rightarrow> tier_limits" where
  "for_tier tier = (if tier = ''pro'' then tier_pro else tier_free)"

subsection \<open>The limiter\<close>

definition SIGNUP_MAX_PER_WINDOW :: nat where
  "SIGNUP_MAX_PER_WINDOW = 10"

definition SIGNUP_WINDOW :: nat where
  "SIGNUP_WINDOW = 3600 * 1000"

record signup_window =
  sw_count :: nat
  sw_start :: nat

record key_usage =
  ku_agents :: nat
  ku_msgs :: nat
  ku_msg_start :: nat
  ku_rooms :: nat

record rate_limiter =
  usage :: "(string, key_usage) dashmap"
  signups :: "(string, signup_window) dashmap"

definition rate_limiter_new :: rate_limiter where
  "rate_limiter_new = \<lparr>usage = [], signups = []\<rparr>"

definition key_usage_new :: "nat \<Rightarrow> key_usage" where
  "key_usage_new now = \<lparr>ku_agents = 0, ku_msgs = 0, ku_msg_start = now, ku_rooms = 0\<rparr>"

text \<open>\<open>fetch_add(1)\<close> on an \<open>AtomicU64\<close>.\<close>

definition u64_inc :: "nat \<Rightarrow> nat" where
  "u64_inc n = (n + 1) mod 2 ^ 64"

definition try_register_signup :: "nat \<Rightarrow> string \<Rightarrow> rate_limiter \<Rightarrow> bool \<times> rate_limiter" where
  "try_register_signup now ip rl =
     (let w = (case map_of (signups rl) ip of Some w \<Rightarrow> w | None \<Rightarrow> \<lparr>sw_count = 0, sw_start = now\<rparr>);
          w = (if SIGNUP_WINDOW < now - sw_start w then \<lparr>sw_count = 0, sw_start = now\<rparr> else w)
      in if SIGNUP_MAX_PER_WINDOW \<le> sw_count w
         then (False, rl\<lparr>signups := dm_insert ip w (signups rl)\<rparr>)
         else (True, rl\<lparr>signups := dm_insert ip (w\<lparr>sw_count := sw_count w + 1\<rparr>) (signups rl)\<rparr>))"

definition get_or_create :: "nat \<Rightarrow> string \<Rightarrow> rate_limiter \<Rightarrow> key_usage \<times> rate_limiter" where
  "get_or_create now api_key rl =
     (case map_of (usage rl) api_key of
        Some u \<Rightarrow> (u, rl)
      | None \<Rightarrow> (key_usage_new now,
                 rl\<lparr>usage := dm_insert api_key (key_usage_new now) (usage rl)\<rparr>))"

definition check_agent_limit :: "nat \<Rightarrow> string \<Rightarrow> tier_limits \<Rightarrow> rate_limiter \<Rightarrow> bool \<times> rate_limiter" where
  "check_agent_limit now api_key limits rl =
     (let (u, rl) = get_or_create now api_key rl in (ku_agents u < max_agents limits, rl))"

definition check_message_rate :: "nat \<Rightarrow> string \<Rightarrow> tier_limits \<Rightarrow> rate_limiter \<Rightarrow> bool \<times> rate_limiter" where
  "check_message_rate now api_key limits rl =
     (let (u, rl) = get_or_create now api_key rl;
          u = (if 60 * 1000 < now - ku_msg_start u then u\<lparr>ku_msg_start := now, ku_msgs := 0\<rparr> else u)
      in (ku_msgs u < max_messages_per_minute limits,
          rl\<lparr>usage := dm_insert api_key u (usage rl)\<rparr>))"

definition check_room_limit :: "nat \<Rightarrow> string \<Rightarrow> tier_limits \<Rightarrow> rate_limiter \<Rightarrow> bool \<times> rate_limiter" where
  "check_room_limit now api_key limits rl =
     (let (u, rl) = get_or_create now api_key rl in (ku_rooms u < max_rooms limits, rl))"

definition increment_message :: "nat \<Rightarrow> string \<Rightarrow> rate_limiter \<Rightarrow> rate_limiter" where
  "increment_message now api_key rl =
     (let (u, rl) = get_or_create now api_key rl
      in rl\<lparr>usage := dm_insert api_key (u\<lparr>ku_msgs := u64_inc (ku_msgs u)\<rparr>) (usage rl)\<rparr>)"

definition add_agent :: "nat \<Rightarrow> string \<Rightarrow> rate_limiter \<Rightarrow> rate_limiter" where
  "add_agent now api_key rl =
     (let (u, rl) = get_or_create now api_key rl
      in rl\<lparr>usage := dm_insert api_key (u\<lparr>ku_agents := u64_inc (ku_agents u)\<rparr>) (usage rl)\<rparr>)"

definition remove_agent :: "string \<Rightarrow> rate_limiter \<Rightarrow> rate_limiter" where
  "remove_agent api_key rl =
     (case map_of (usage rl) api_key of
        None \<Rightarrow> rl
      | Some u \<Rightarrow>
          (if 0 < ku_agents u
           then rl\<lparr>usage := dm_insert api_key (u\<lparr>ku_agents := ku_agents u - 1\<rparr>) (usage rl)\<rparr>
           else rl))"

definition add_room :: "nat \<Rightarrow> string \<Rightarrow> rate_limiter \<Rightarrow> rate_limiter" where
  "add_room now api_key rl =
     (let (u, rl) = get_or_create now api_key rl
      in rl\<lparr>usage := dm_insert api_key (u\<lparr>ku_rooms := u64_inc (ku_rooms u)\<rparr>) (usage rl)\<rparr>)"

definition remove_room :: "string \<Rightarrow> rate_limiter \<Rightarrow> rate_limiter" where
  "remove_room api_key rl =
     (case map_of (usage rl) api_key of
        None \<Rightarrow> rl
      | Some u \<Rightarrow>
          (if 0 < ku_rooms u
           then rl\<lparr>usage := dm_insert api_key (u\<lparr>ku_rooms := ku_rooms u - 1\<rparr>) (usage rl)\<rparr>
           else rl))"

subsection \<open>What the counters hold\<close>

definition agents_of :: "rate_limiter \<Rightarrow> string \<Rightarrow> nat" where
  "agents_of rl k = (case map_of (usage rl) k of None \<Rightarrow> 0 | Some u \<Rightarrow> ku_agents u)"

definition rooms_of :: "rate_limiter \<Rightarrow> string \<Rightarrow> nat" where
  "rooms_of rl k = (case map_of (usage rl) k of None \<Rightarrow> 0 | Some u \<Rightarrow> ku_rooms u)"

definition msgs_of :: "rate_limiter \<Rightarrow> string \<Rightarrow> nat" where
  "msgs_of rl k = (case map_of (usage rl) k of None \<Rightarrow> 0 | Some u \<Rightarrow> ku_msgs u)"

definition msg_opened :: "rate_limiter \<Rightarrow> string \<Rightarrow> nat option" where
  "msg_opened rl k = map_option ku_msg_start (map_of (usage rl) k)"

definition signups_of :: "rate_limiter \<Rightarrow> string \<Rightarrow> nat" where
  "signups_of rl ip = (case map_of (signups rl) ip of None \<Rightarrow> 0 | Some w \<Rightarrow> sw_count w)"

definition signup_opened :: "rate_limiter \<Rightarrow> string \<Rightarrow> nat option" where
  "signup_opened rl ip = map_option sw_start (map_of (signups rl) ip)"

lemmas rate_ops = get_or_create_def check_agent_limit_def check_message_rate_def check_room_limit_def
  increment_message_def add_agent_def remove_agent_def add_room_def remove_room_def key_usage_new_def

lemmas rate_views = agents_of_def rooms_of_def msgs_of_def msg_opened_def

text \<open>The handlers count a message only after the check and the insertion have succeeded.\<close>

definition take_message :: "tier_limits \<Rightarrow> nat \<Rightarrow> string \<Rightarrow> rate_limiter \<Rightarrow> bool \<times> rate_limiter" where
  "take_message limits now api_key rl =
     (let (allowed, rl) = check_message_rate now api_key limits rl
      in (allowed, if allowed then increment_message now api_key rl else rl))"

lemma tier_caps [simp]:
  "0 < max_messages_per_minute (for_tier t)" "max_messages_per_minute (for_tier t) \<le> 2000"
  by (simp_all add: for_tier_def tier_free_def tier_pro_def)

interpretation signup: window_limiter try_register_signup signups_of signup_opened
  SIGNUP_MAX_PER_WINDOW SIGNUP_WINDOW
  by unfold_locales
    (auto simp: try_register_signup_def signups_of_def signup_opened_def Let_def
       SIGNUP_MAX_PER_WINDOW_def split: option.splits)

interpretation messages: window_limiter "take_message (for_tier tier)" msgs_of msg_opened
  "max_messages_per_minute (for_tier tier)" "60 * 1000" for tier
proof -
  have small: "n < max_messages_per_minute (for_tier tier) \<Longrightarrow> Suc n mod 18446744073709551616 = Suc n" for n
    using tier_caps(2) [of tier] by (intro mod_less) linarith
  show "window_limiter (take_message (for_tier tier)) msgs_of msg_opened
      (max_messages_per_minute (for_tier tier)) (60 * 1000)"
    by unfold_locales
      (auto simp: take_message_def rate_ops rate_views Let_def u64_inc_def small split: option.splits)
qed

lemma limiter_start [simp]:
  "signups_of rate_limiter_new ip = 0" "msgs_of rate_limiter_new k = 0"
  by (simp_all add: signups_of_def msgs_of_def rate_limiter_new_def)

text \<open>C37. However its attempts fall against the server's fixed windows, and whatever other addresses did
  before or meanwhile, a client address mints at most twice the hourly cap of keys in any hour.\<close>

theorem signup_burst_bound:
  assumes "\<forall>(ip', now) \<in> set as. start \<le> now \<and> now \<le> start + SIGNUP_WINDOW"
  shows "signup.granted ip as (signup.run earlier rate_limiter_new) \<le> 2 * SIGNUP_MAX_PER_WINDOW"
  by (rule signup.granted_burst [OF signup.run_used_le assms]) simp

theorem signup_burst_bound_witness:
  "signup.granted ''a'' [(''a'', 3600001), (''b'', 3600002), (''a'', 7200000)]
     (signup.run [(''a'', 5)] rate_limiter_new) \<le> 2 * SIGNUP_MAX_PER_WINDOW"
  by (rule signup_burst_bound [where start = 3600000]) (simp add: SIGNUP_WINDOW_def)

text \<open>A key of any tier sends at most twice its messages-per-minute cap in any minute, and within a
  window that opened less than a minute ago at most the rest of its budget.\<close>

lemma message_burst_bound:
  assumes "\<forall>(k', now) \<in> set as. start \<le> now \<and> now \<le> start + 60 * 1000"
  shows "messages.granted tier k as (messages.run tier earlier rate_limiter_new)
      \<le> (if \<exists>t\<ge>start. msg_opened (messages.run tier earlier rate_limiter_new) k = Some t
          then max_messages_per_minute (for_tier tier)
                 - msgs_of (messages.run tier earlier rate_limiter_new) k
          else 2 * max_messages_per_minute (for_tier tier))"
proof -
  have "msgs_of (messages.run tier earlier rate_limiter_new) k \<le> max_messages_per_minute (for_tier tier)"
    by (rule messages.run_used_le) simp
  from messages.granted_interval [OF this assms] show ?thesis by (auto split: if_splits)
qed

lemma message_burst_bound_witness:
  "messages.granted ''pro'' ''k'' [(''k'', 1000), (''k'', 2000), (''j'', 61000)]
     (messages.run ''pro'' [(''k'', 7)] rate_limiter_new) \<le> 4000"
  using message_burst_bound [of "[(''k'', 1000), (''k'', 2000), (''j'', 61000)]" 1000 "''pro''" "''k''"
      "[(''k'', 7)]"]
  by (simp add: for_tier_def tier_pro_def split: if_splits)

text \<open>The agent and room counters of the keys: an addition and a removal touch one counter of one key,
  a removal at zero does nothing, and a check changes no counter.\<close>

lemma agents_of_ops [simp]:
  "agents_of (add_agent now k rl) k' = (if k' = k then u64_inc (agents_of rl k) else agents_of rl k')"
  "agents_of (remove_agent k rl) k' = (if k' = k then agents_of rl k - 1 else agents_of rl k')"
  "agents_of (add_room now k rl) k' = agents_of rl k'"
  "agents_of (remove_room k rl) k' = agents_of rl k'"
  "agents_of (increment_message now k rl) k' = agents_of rl k'"
  "agents_of (snd (check_agent_limit now k limits rl)) k' = agents_of rl k'"
  "agents_of (snd (check_room_limit now k limits rl)) k' = agents_of rl k'"
  "agents_of (snd (check_message_rate now k limits rl)) k' = agents_of rl k'"
  by (auto simp: rate_ops agents_of_def Let_def split: option.splits)

lemma rooms_of_ops [simp]:
  "rooms_of (add_room now k rl) k' = (if k' = k then u64_inc (rooms_of rl k) else rooms_of rl k')"
  "rooms_of (remove_room k rl) k' = (if k' = k then rooms_of rl k - 1 else rooms_of rl k')"
  "rooms_of (add_agent now k rl) k' = rooms_of rl k'"
  "rooms_of (remove_agent k rl) k' = rooms_of rl k'"
  "rooms_of (increment_message now k rl) k' = rooms_of rl k'"
  "rooms_of (snd (check_agent_limit now k limits rl)) k' = rooms_of rl k'"
  "rooms_of (snd (check_room_limit now k limits rl)) k' = rooms_of rl k'"
  "rooms_of (snd (check_message_rate now k limits rl)) k' = rooms_of rl k'"
  by (auto simp: rate_ops rooms_of_def Let_def split: option.splits)

lemma check_limits_fst [simp]:
  "fst (check_agent_limit now k limits rl) = (agents_of rl k < max_agents limits)"
  "fst (check_room_limit now k limits rl) = (rooms_of rl k < max_rooms limits)"
  by (auto simp: rate_ops rooms_of_def agents_of_def Let_def split: option.splits)

end
