(* ===== verification/Crypto.thy ===== *)
theory Crypto
  imports Prelude
begin

text \<open>
  End-to-end encryption of message contents (\<open>crypto.rs\<close> of \<open>cowchat-core\<close>). HKDF-SHA256,
  ChaCha20-Poly1305 and Base64 are third-party: they are the fields of \<open>aead_lib\<close>, and \<open>aead_laws\<close> states
  what the code relies on, that opening undoes sealing and decoding undoes encoding. The random nonce
  and the random bytes of a secret are arguments. UTF-8 validity, which \<open>String::from_utf8\<close> tests, is
  defined here.
\<close>

subsection \<open>UTF-8\<close>

text \<open>The number of bytes of the sequence that a lead byte opens, 0 for a byte that opens none, and the
  narrower range of the second byte after the leads E0, ED, F0 and F4.\<close>

definition utf8_len :: "char \<Rightarrow> nat" where
  "utf8_len a =
     (if byte a < 128 then 1
      else if 194 \<le> byte a \<and> byte a \<le> 223 then 2
      else if 224 \<le> byte a \<and> byte a \<le> 239 then 3
      else if 240 \<le> byte a \<and> byte a \<le> 244 then 4 else 0)"

definition second_ok :: "char \<Rightarrow> char \<Rightarrow> bool" where
  "second_ok a b \<longleftrightarrow>
     (byte a = 224 \<longrightarrow> 160 \<le> byte b) \<and> (byte a = 237 \<longrightarrow> byte b < 160)
     \<and> (byte a = 240 \<longrightarrow> 144 \<le> byte b) \<and> (byte a = 244 \<longrightarrow> byte b < 144)"

fun utf8_valid :: "string \<Rightarrow> bool" where
  "utf8_valid [] \<longleftrightarrow> True"
| "utf8_valid (a # s) \<longleftrightarrow>
     (let n = utf8_len a in
      1 \<le> n \<and> n - 1 \<le> length s \<and> list_all is_cont (take (n - 1) s)
      \<and> (2 \<le> n \<longrightarrow> second_ok a (hd s)) \<and> utf8_valid (drop (n - 1) s))"

lemma utf8_valid_ascii: "list_all (\<lambda>c. byte c < 128) s \<Longrightarrow> utf8_valid s"
  by (induction s) (simp_all add: utf8_len_def)

subsection \<open>Blobs\<close>

definition cipher_prefix :: string where
  "cipher_prefix = ''cow1:''"

definition NONCE_LEN :: nat where
  "NONCE_LEN = 12"

definition is_ciphertext :: "string \<Rightarrow> bool" where
  "is_ciphertext s \<longleftrightarrow> take (length cipher_prefix) s = cipher_prefix"

datatype crypto_error = NotCiphertext | Malformed | DecryptFailed

record aead_lib =
  hkdf_sha256 :: "string \<Rightarrow> string \<Rightarrow> string"
  chacha_seal :: "string \<Rightarrow> string \<Rightarrow> string \<Rightarrow> string"
  chacha_open :: "string \<Rightarrow> string \<Rightarrow> string \<Rightarrow> string option"
  b64_encode :: "string \<Rightarrow> string"
  b64_decode :: "string \<Rightarrow> string option"

definition aead_laws :: "aead_lib \<Rightarrow> bool" where
  "aead_laws lib \<longleftrightarrow>
     (\<forall>key nonce text. chacha_open lib key nonce (chacha_seal lib key nonce text) = Some text)
     \<and> (\<forall>bytes. b64_decode lib (b64_encode lib bytes) = Some bytes)"

text \<open>Two lower-case hexadecimal digits per byte (\<open>{b:02x}\<close>).\<close>

definition hex_digit :: "nat \<Rightarrow> char" where
  "hex_digit n = ''0123456789abcdef'' ! n"

definition generate_secret :: "char list \<Rightarrow> string" where
  "generate_secret bytes = concat (map (\<lambda>b. [hex_digit (byte b div 16), hex_digit (byte b mod 16)]) bytes)"

definition derive_room_key :: "aead_lib \<Rightarrow> string \<Rightarrow> string \<Rightarrow> string" where
  "derive_room_key lib secret room_id = hkdf_sha256 lib secret (''cowchat-e2e-v1:'' @ room_id)"

definition encrypt :: "aead_lib \<Rightarrow> string \<Rightarrow> string \<Rightarrow> string \<Rightarrow> string \<Rightarrow> string" where
  "encrypt lib nonce secret room_id plaintext =
     (let key = derive_room_key lib secret room_id;
          ct = chacha_seal lib key nonce plaintext
      in cipher_prefix @ b64_encode lib (nonce @ ct))"

definition decrypt :: "aead_lib \<Rightarrow> string \<Rightarrow> string \<Rightarrow> string \<Rightarrow> crypto_error + string" where
  "decrypt lib secret room_id blob =
     (if \<not> is_ciphertext blob then Inl NotCiphertext
      else case b64_decode lib (drop (length cipher_prefix) blob) of
        None \<Rightarrow> Inl Malformed
      | Some raw \<Rightarrow>
          if length raw < NONCE_LEN then Inl Malformed
          else case chacha_open lib (derive_room_key lib secret room_id) (take NONCE_LEN raw) (drop NONCE_LEN raw) of
            None \<Rightarrow> Inl DecryptFailed
          | Some pt \<Rightarrow> if utf8_valid pt then Inr pt else Inl Malformed)"

lemma is_ciphertext_encrypt [simp]: "is_ciphertext (encrypt lib nonce secret room_id plaintext)"
  by (simp add: is_ciphertext_def encrypt_def Let_def)

lemma decrypt_encrypt:
  assumes "aead_laws lib" "length nonce = NONCE_LEN" "utf8_valid plaintext"
  shows "decrypt lib secret room_id (encrypt lib nonce secret room_id plaintext) = Inr plaintext"
proof -
  have "drop (length cipher_prefix) (encrypt lib nonce secret room_id plaintext)
      = b64_encode lib (nonce @ chacha_seal lib (derive_room_key lib secret room_id) nonce plaintext)"
    by (simp add: encrypt_def Let_def)
  with assms show ?thesis by (simp add: decrypt_def aead_laws_def)
qed

text \<open>What decryption accepts was opened under the key of exactly this room.\<close>

lemma decrypt_Inr:
  assumes "decrypt lib secret room_id blob = Inr text"
  shows "is_ciphertext blob \<and> utf8_valid text
    \<and> (\<exists>nonce ct. b64_decode lib (drop (length cipher_prefix) blob) = Some (nonce @ ct) \<and> length nonce = NONCE_LEN
         \<and> chacha_open lib (derive_room_key lib secret room_id) nonce ct = Some text)"
proof -
  from assms obtain raw where raw: "b64_decode lib (drop (length cipher_prefix) blob) = Some raw"
      "\<not> length raw < NONCE_LEN"
      "chacha_open lib (derive_room_key lib secret room_id) (take NONCE_LEN raw) (drop NONCE_LEN raw) = Some text"
      and "is_ciphertext blob" "utf8_valid text"
    by (auto simp: decrypt_def split: if_splits option.splits)
  moreover have "raw = take NONCE_LEN raw @ drop NONCE_LEN raw" by simp
  moreover have "length (take NONCE_LEN raw) = NONCE_LEN" using raw(2) by simp
  ultimately show ?thesis by metis
qed

lemma length_generate_secret: "length (generate_secret bytes) = 2 * length bytes"
  by (induction bytes) (simp_all add: generate_secret_def)

text \<open>A library for the witnesses: the key and the nonce are written in front of the text.\<close>

definition demo_lib :: aead_lib where
  "demo_lib = \<lparr>hkdf_sha256 = (\<lambda>s i. i @ s), chacha_seal = (\<lambda>k n t. k @ n @ t),
     chacha_open = (\<lambda>k n c. if take (length (k @ n)) c = k @ n then Some (drop (length (k @ n)) c) else None),
     b64_encode = rev, b64_decode = (\<lambda>s. Some (rev s))\<rparr>"

lemma demo_lib_laws: "aead_laws demo_lib"
  by (simp add: aead_laws_def demo_lib_def)

end
