(* ===== verification/Server.thy ===== *)
theory Server
  imports Webhooks Tasks Voting Reconnect Store_Keys Rate_Limit Crypto
begin

text \<open>
  The state that the command handlers share (the \<open>Arc\<close>s passed to \<open>handle_frame\<close> in \<open>handler.rs\<close>)
  and the helper functions at the top of \<open>handler.rs\<close>.

  A handler is a function of the server state, the caller (the registered connection that sent the
  frame), and an environment that answers what the code asks of the outside: the \<open>k\<close>-th reading of
  the monotonic and of the wall clock, the \<open>k\<close>-th fresh UUID, whether the \<open>k\<close>-th call on the store
  fails, chrono's addition of a duration (which panics out of range), a random invite token, SHA-256,
  and the network. The result of \<open>serde_json::from_value\<close> on the payload is an argument, \<open>None\<close> for
  a payload that does not decode. A handler runs to its end without interleaving; the handlers that
  guard against a destruction running in between are split at that point.
\<close>

record config =
  cf_no_auth :: bool
  cf_allow_private :: bool

record caller =
  ca_agent_id :: string
  ca_agent_name :: string
  ca_api_key :: string

record env =
  ev_instant :: "nat \<Rightarrow> nat"
  ev_utc :: "nat \<Rightarrow> int"
  ev_uid :: "nat \<Rightarrow> string"
  ev_fault :: "nat \<Rightarrow> bool"
  ev_after :: "int \<Rightarrow> nat \<Rightarrow> int option"
  ev_token :: string
  ev_hash :: "string \<Rightarrow> string"
  ev_net :: net

text \<open>\<open>sv_spawned\<close> are the messages whose spawned enqueue task has not run yet.\<close>

record server =
  sv_store :: store
  sv_broker :: broker
  sv_votes :: vote_manager
  sv_tasks :: task_map
  sv_limits :: rate_limiter
  sv_reconnect :: reconnect_manager
  sv_spawned :: "chat_message list"

subsection \<open>Replies\<close>

definition reject :: "env \<Rightarrow> string option \<Rightarrow> error_code \<Rightarrow> server \<Rightarrow> frame \<times> server" where
  "reject ev req code sv = (frame_error (ev_uid ev 0) req code, sv)"

definition answer :: "env \<Rightarrow> string option \<Rightarrow> json \<Rightarrow> server \<Rightarrow> frame \<times> server" where
  "answer ev req payload sv = (frame_ok (ev_uid ev 0) req payload, sv)"

definition answer_as :: "env \<Rightarrow> string option \<Rightarrow> frame_type \<Rightarrow> json \<Rightarrow> server \<Rightarrow> frame \<times> server" where
  "answer_as ev req t payload sv = (frame_reply (ev_uid ev 0) req t payload, sv)"

lemma snd_replies [simp]:
  "snd (reject ev req code sv) = sv" "snd (answer ev req payload sv) = sv"
  "snd (answer_as ev req t payload sv) = sv"
  by (simp_all add: reject_def answer_def answer_as_def)

lemma type_replies [simp]:
  "f_type (fst (reject ev req code sv)) = Error" "f_type (fst (answer ev req payload sv)) = Ok"
  "f_type (fst (answer_as ev req t payload sv)) = t"
  "f_reply_to (fst (reject ev req code sv)) = req" "f_reply_to (fst (answer ev req payload sv)) = req"
  "f_reply_to (fst (answer_as ev req t payload sv)) = req"
  by (simp_all add: reject_def answer_def answer_as_def)

subsection \<open>Helpers of the handlers\<close>

definition room_name_conflicts :: "bool \<Rightarrow> string \<Rightarrow> string option \<Rightarrow> store \<Rightarrow> store_error + bool" where
  "room_name_conflicts fault name excluded_room_id s =
     (case get_room_by_name fault name s of
        Inl e \<Rightarrow> Inl e
      | Inr None \<Rightarrow> Inr False
      | Inr (Some room) \<Rightarrow> Inr (Some (rm_room_id room) \<noteq> excluded_room_id))"

definition broadcast_visible_room_event ::
    "nat \<Rightarrow> bool \<Rightarrow> room \<Rightarrow> frame \<Rightarrow> server \<Rightarrow> server" where
  "broadcast_visible_room_event now no_auth room event sv =
     (let granted = granted_keys_for_room (rm_room_id room) (sv_store sv);
          (buffered, rm) = buffer_visible_room_event now (rm_visibility room) (rm_owner_key room)
                             granted no_auth event (sv_reconnect sv);
          b = fold (\<lambda>(id, conn) b.
                 if id \<notin> set buffered \<and> can_access_room room (ac_api_key conn) no_auth (sv_store sv)
                 then send_to_agent id event b else b) (agents (sv_broker sv)) (sv_broker sv)
      in sv\<lparr>sv_reconnect := rm, sv_broker := b\<rparr>)"

definition broadcast_room_destroyed :: "bool \<Rightarrow> room \<Rightarrow> string set \<Rightarrow> frame \<Rightarrow> broker \<Rightarrow> broker" where
  "broadcast_room_destroyed no_auth room granted_keys event b =
     fold (\<lambda>(id, conn) b.
         if can_access_room_parts (rm_visibility room) (rm_owner_key room) (ac_api_key conn) no_auth
            \<or> (ac_api_key conn \<noteq> [] \<and> ac_api_key conn \<in> granted_keys)
         then send_to_agent id event b else b) (agents b) b"

definition room_is_encrypted :: "bool \<Rightarrow> string \<Rightarrow> store \<Rightarrow> bool" where
  "room_is_encrypted fault room_id s =
     (case get_room fault room_id s of Inr (Some r) \<Rightarrow> rm_encrypted r | _ \<Rightarrow> False)"

definition plaintext_in_encrypted_room :: "bool \<Rightarrow> string \<Rightarrow> string \<Rightarrow> store \<Rightarrow> bool" where
  "plaintext_in_encrypted_room fault content room_id s \<longleftrightarrow>
     room_is_encrypted fault room_id s \<and> \<not> is_ciphertext content"

definition oversized :: "string \<Rightarrow> tier_limits \<Rightarrow> bool" where
  "oversized content limits \<longleftrightarrow> max_message_bytes limits < length content"

definition authorize_room ::
    "bool \<Rightarrow> string \<Rightarrow> string \<Rightarrow> bool \<Rightarrow> store \<Rightarrow> error_code + room" where
  "authorize_room fault room_id agent_api_key no_auth s =
     (case get_room fault room_id s of
        Inr (Some room) \<Rightarrow>
          if can_access_room room agent_api_key no_auth s then Inr room else Inl AccessDenied
      | _ \<Rightarrow> Inl RoomNotFound)"

text \<open>The lookup \<open>get_key_tier(..).unwrap_or_else(|_| "free")\<close> and the limits of the tier.\<close>

definition limits_of_key :: "bool \<Rightarrow> string \<Rightarrow> store \<Rightarrow> tier_limits" where
  "limits_of_key fault api_key s =
     for_tier (case get_key_tier fault api_key s of Inr tier \<Rightarrow> tier | Inl _ \<Rightarrow> ''free'')"

definition broadcast_turn_changed :: "string \<Rightarrow> string \<Rightarrow> string \<Rightarrow> broker \<Rightarrow> broker" where
  "broadcast_turn_changed uid room_id reason b =
     broadcast_to_room_all room_id
       (frame_event uid TurnChanged (turn_changed_to_json
          \<lparr>tc_room_id = room_id, tc_current_turn_holder = turn_holder room_id b,
           tc_turn_order = get_room_members room_id b, tc_reason = reason\<rparr>)) b"

text \<open>\<open>agent.info.last_active = Some(Utc::now())\<close>, when the agent is still registered.\<close>

definition update_info :: "string \<Rightarrow> (agent_info \<Rightarrow> agent_info) \<Rightarrow> broker \<Rightarrow> broker" where
  "update_info agent_id f b =
     (case map_of (agents b) agent_id of
        None \<Rightarrow> b
      | Some c \<Rightarrow> b\<lparr>agents := dm_insert agent_id (c\<lparr>ac_info := f (ac_info c)\<rparr>) (agents b)\<rparr>)"

definition touch_agent :: "int \<Rightarrow> string \<Rightarrow> broker \<Rightarrow> broker" where
  "touch_agent now agent_id b = update_info agent_id (\<lambda>i. i\<lparr>ai_last_active := Some now\<rparr>) b"

text \<open>The agents of a list of identifiers that are connected, \<open>filter_map(|id| broker.agents.get(id))\<close>.\<close>

definition infos_of :: "broker \<Rightarrow> string list \<Rightarrow> agent_info list" where
  "infos_of b ids = map ac_info (List.map_filter (map_of (agents b)) ids)"

end
