(* ===== verification/Handle_Rooms.thy ===== *)
theory Handle_Rooms
  imports Server
begin

text \<open>
  The handlers of the room commands (\<open>handler.rs\<close>): create, rename, join, leave, destroy, and the
  queries about rooms, agents and history. Each is the whole function: the decoded payload, the
  guards in their order, the store and broker calls, the events, and the reply.
\<close>

subsection \<open>Create and rename\<close>

text \<open>The room limit, checked for keyed callers unless authentication is off.\<close>

definition over_room_limit :: "config \<Rightarrow> env \<Rightarrow> caller \<Rightarrow> server \<Rightarrow> bool \<times> server" where
  "over_room_limit cfg ev c sv =
     (if \<not> cf_no_auth cfg \<and> ca_api_key c \<noteq> []
      then let limits = limits_of_key (ev_fault ev 0) (ca_api_key c) (sv_store sv);
               (ok, rl) = check_room_limit (ev_instant ev 0) (ca_api_key c) limits (sv_limits sv)
           in (\<not> ok, sv\<lparr>sv_limits := rl\<rparr>)
      else (False, sv))"

text \<open>The part under the room mutation guard.\<close>

definition create_room_guarded ::
    "config \<Rightarrow> env \<Rightarrow> caller \<Rightarrow> string option \<Rightarrow> create_room_payload \<Rightarrow> string \<Rightarrow> server \<Rightarrow> frame \<times> server" where
  "create_room_guarded cfg ev c req p room_name sv =
     (case (case cr_parent_id p of
              None \<Rightarrow> Inr None
            | Some parent_id \<Rightarrow>
                (case authorize_room (ev_fault ev 1) parent_id (ca_api_key c) (cf_no_auth cfg) (sv_store sv) of
                   Inl code \<Rightarrow> Inl code | Inr room \<Rightarrow> Inr (Some room))) of
        Inl code \<Rightarrow> reject ev req code sv
      | Inr _ \<Rightarrow>
     (case room_name_conflicts (ev_fault ev 2) room_name None (sv_store sv) of
        Inl _ \<Rightarrow> reject ev req InternalError sv
      | Inr True \<Rightarrow> reject ev req RoomNameTaken sv
      | Inr False \<Rightarrow>
          (case create_room_with_visibility (ev_fault ev 3) (ev_fault ev 4) (ev_utc ev 0) (ev_uid ev 1) room_name
                  (cr_description p) (cr_parent_id p) (Some (ca_agent_id c))
                  (if cr_public p then ''public'' else ''private'')
                  (if ca_api_key c = [] then None else Some (ca_api_key c)) (cr_encrypted p) (sv_store sv) of
             (Inl (SE_RoomNameTaken _), s) \<Rightarrow> reject ev req RoomNameTaken (sv\<lparr>sv_store := s\<rparr>)
           | (Inl (SE_InvalidRoomName _), s) \<Rightarrow> reject ev req InvalidPayload (sv\<lparr>sv_store := s\<rparr>)
           | (Inl _, s) \<Rightarrow> reject ev req InternalError (sv\<lparr>sv_store := s\<rparr>)
           | (Inr room, s) \<Rightarrow>
               let sv = sv\<lparr>sv_store := s,
                           sv_limits := (if ca_api_key c \<noteq> [] then add_room (ev_instant ev 1) (ca_api_key c) (sv_limits sv)
                                         else sv_limits sv)\<rparr>;
                   event = frame_event (ev_uid ev 2) RoomCreated (room_to_json room)
               in answer ev req (room_to_json room)
                    (broadcast_visible_room_event (ev_instant ev 2) (cf_no_auth cfg) room event sv))))"

definition handle_create_room ::
    "config \<Rightarrow> env \<Rightarrow> caller \<Rightarrow> string option \<Rightarrow> create_room_payload option \<Rightarrow> server \<Rightarrow> frame \<times> server" where
  "handle_create_room cfg ev c req payload sv =
     (case payload of None \<Rightarrow> reject ev req InvalidPayload sv
      | Some p \<Rightarrow>
     (case normalize_room_name (cr_name p) of
        Inl _ \<Rightarrow> reject ev req InvalidPayload sv
      | Inr room_name \<Rightarrow>
          (case over_room_limit cfg ev c sv of
             (True, sv) \<Rightarrow> reject ev req RateLimitRooms sv
           | (False, sv) \<Rightarrow> create_room_guarded cfg ev c req p room_name sv)))"

fun rename_error_code :: "rename_error \<Rightarrow> error_code" where
  "rename_error_code RE_NotFound = RoomNotFound"
| "rename_error_code RE_AccessDenied = AccessDenied"
| "rename_error_code RE_ProtectedRoom = AccessDenied"
| "rename_error_code (RE_InvalidName _) = InvalidPayload"
| "rename_error_code (RE_NameTaken _) = RoomNameTaken"
| "rename_error_code (RE_Db _) = InternalError"

definition handle_rename_room ::
    "config \<Rightarrow> env \<Rightarrow> caller \<Rightarrow> string option \<Rightarrow> rename_room_payload option \<Rightarrow> server \<Rightarrow> frame \<times> server" where
  "handle_rename_room cfg ev c req payload sv =
     (case payload of None \<Rightarrow> reject ev req InvalidPayload sv
      | Some p \<Rightarrow>
     (case normalize_room_name (rn_name p) of
        Inl _ \<Rightarrow> reject ev req InvalidPayload sv
      | Inr name \<Rightarrow>
     (case get_room (ev_fault ev 0) (rn_room_id p) (sv_store sv) of
        Inl _ \<Rightarrow> reject ev req InternalError sv
      | Inr None \<Rightarrow> reject ev req RoomNotFound sv
      | Inr (Some target) \<Rightarrow>
          if rm_room_id target = ''lobby'' \<or> rm_created_by target = None then reject ev req AccessDenied sv
          else if rm_created_by target \<noteq> Some (ca_agent_id c)
                \<or> \<not> matches_room_owner (rm_owner_key target) (ca_api_key c) (cf_no_auth cfg)
          then reject ev req AccessDenied sv
          else
     (case room_name_conflicts (ev_fault ev 1) name (Some (rn_room_id p)) (sv_store sv) of
        Inl _ \<Rightarrow> reject ev req InternalError sv
      | Inr True \<Rightarrow> reject ev req RoomNameTaken sv
      | Inr False \<Rightarrow>
          (case rename_room_authorized (ev_fault ev 2) (rn_room_id p) (ca_agent_id c) (ca_api_key c)
                  (cf_no_auth cfg) name (sv_store sv) of
             (Inl e, s) \<Rightarrow> reject ev req (rename_error_code e) (sv\<lparr>sv_store := s\<rparr>)
           | (Inr updated, s) \<Rightarrow>
               let event = frame_event (ev_uid ev 1) RoomUpdated (room_to_json updated)
               in answer ev req (room_to_json updated)
                    (broadcast_visible_room_event (ev_instant ev 0) (cf_no_auth cfg) updated event
                       (sv\<lparr>sv_store := s\<rparr>)))))))"

subsection \<open>Join and leave\<close>

definition room_id_payload :: "string \<Rightarrow> json" where
  "room_id_payload room_id = JObj [(''room_id'', JStr room_id)]"

definition handle_join_room ::
    "config \<Rightarrow> env \<Rightarrow> caller \<Rightarrow> string option \<Rightarrow> string option \<Rightarrow> server \<Rightarrow> frame \<times> server" where
  "handle_join_room cfg ev c req payload sv =
     (case payload of None \<Rightarrow> reject ev req InvalidPayload sv
      | Some room_id \<Rightarrow>
     (case authorize_room (ev_fault ev 0) room_id (ca_api_key c) (cf_no_auth cfg) (sv_store sv) of
        Inl code \<Rightarrow> reject ev req code sv
      | Inr _ \<Rightarrow>
          if is_agent_in_room (ca_agent_id c) room_id (sv_broker sv)
          then answer ev req (room_id_payload room_id) sv
          else
            let exists_now = (case get_room (ev_fault ev 1) room_id (sv_store sv) of
                                Inr (Some _) \<Rightarrow> True | _ \<Rightarrow> False)
            in case join_room (ev_instant ev 0) (ca_agent_id c) room_id exists_now (sv_broker sv) of
                 (None, b) \<Rightarrow> reject ev req RoomNotFound (sv\<lparr>sv_broker := b\<rparr>)
               | (Some new_holder, b) \<Rightarrow>
                   let event = frame_event (ev_uid ev 1) AgentJoined
                         (JObj [(''room_id'', JStr room_id),
                                (''agent'', JObj [(''agent_id'', JStr (ca_agent_id c)),
                                                  (''name'', JStr (ca_agent_name c))])]);
                       b = broadcast_to_room room_id (ca_agent_id c) event b;
                       b = (if new_holder \<noteq> None
                            then broadcast_turn_changed (ev_uid ev 2) room_id ''joined'' b else b)
                   in answer ev req (room_id_payload room_id) (sv\<lparr>sv_broker := b\<rparr>)))"

definition agent_left_event :: "string \<Rightarrow> string \<Rightarrow> string \<Rightarrow> frame" where
  "agent_left_event uid room_id agent_id =
     frame_event uid AgentLeft (JObj [(''room_id'', JStr room_id), (''agent_id'', JStr agent_id)])"

definition handle_leave_room ::
    "env \<Rightarrow> caller \<Rightarrow> string option \<Rightarrow> string option \<Rightarrow> server \<Rightarrow> frame \<times> server" where
  "handle_leave_room ev c req payload sv =
     (case payload of None \<Rightarrow> reject ev req InvalidPayload sv
      | Some room_id \<Rightarrow>
          if \<not> is_agent_in_room (ca_agent_id c) room_id (sv_broker sv) then reject ev req NotInRoom sv
          else
            let b = broadcast_to_room room_id (ca_agent_id c)
                      (agent_left_event (ev_uid ev 1) room_id (ca_agent_id c)) (sv_broker sv);
                (outcome, b) = leave_room (ev_instant ev 0) (ca_agent_id c) room_id b;
                b = (if lo_holder_changed outcome \<and> \<not> lo_now_empty outcome
                     then broadcast_turn_changed (ev_uid ev 2) room_id ''left'' b else b)
            in answer ev req (room_id_payload room_id) (sv\<lparr>sv_broker := b\<rparr>))"

subsection \<open>Destroy\<close>

fun destroy_error_code :: "destroy_error \<Rightarrow> error_code" where
  "destroy_error_code DE_NotFound = RoomNotFound"
| "destroy_error_code DE_AccessDenied = AccessDenied"
| "destroy_error_code DE_ProtectedRoom = AccessDenied"
| "destroy_error_code (DE_Db _) = InternalError"
| "destroy_error_code (DE_Cleanup _) = InternalError"

definition handle_destroy_room ::
    "config \<Rightarrow> env \<Rightarrow> caller \<Rightarrow> string option \<Rightarrow> string option \<Rightarrow> server \<Rightarrow> frame \<times> server" where
  "handle_destroy_room cfg ev c req payload sv =
     (case payload of None \<Rightarrow> reject ev req InvalidPayload sv
      | Some room_id \<Rightarrow>
          let granted_keys = granted_keys_for_room room_id (sv_store sv);
              (deleted, s) = destroy_room_authorized (ev_fault ev 0) room_id (ca_agent_id c) (ca_api_key c)
                               (cf_no_auth cfg) (sv_store sv)
          in case destroy_room_with (ev_instant ev 0) room_id deleted (sv_broker sv) of
               (Inl e, b) \<Rightarrow> reject ev req (destroy_error_code e) (sv\<lparr>sv_store := s, sv_broker := b\<rparr>)
             | (Inr (room, _), b) \<Rightarrow>
                 let event = frame_event (ev_uid ev 1) RoomDestroyed (room_id_payload (rm_room_id room))
                 in answer ev req (room_id_payload (rm_room_id room))
                      (sv\<lparr>sv_store := s,
                         sv_broker := broadcast_room_destroyed (cf_no_auth cfg) room granted_keys event b,
                         sv_votes := forget_room_votes (rm_room_id room) (sv_votes sv),
                         sv_tasks := forget_room_tasks (rm_room_id room) (sv_tasks sv),
                         sv_reconnect := forget_room_stashes (ev_instant ev 1) (rm_room_id room) (sv_reconnect sv),
                         sv_limits := (case rm_owner_key room of
                                         Some k \<Rightarrow> remove_room k (sv_limits sv) | None \<Rightarrow> sv_limits sv)\<rparr>))"

subsection \<open>Queries\<close>

definition handle_get_history ::
    "config \<Rightarrow> env \<Rightarrow> caller \<Rightarrow> string option \<Rightarrow> get_history_payload option \<Rightarrow> server \<Rightarrow> frame \<times> server" where
  "handle_get_history cfg ev c req payload sv =
     (case payload of None \<Rightarrow> reject ev req InvalidPayload sv
      | Some p \<Rightarrow>
     (case authorize_room (ev_fault ev 0) (gh_room_id p) (ca_api_key c) (cf_no_auth cfg) (sv_store sv) of
        Inl code \<Rightarrow> reject ev req code sv
      | Inr _ \<Rightarrow>
     (case get_history_filtered (ev_fault ev 1) (gh_room_id p) (gh_limit p) (gh_before p) (gh_since p)
             (gh_since_seq p) (sv_store sv) of
        Inl _ \<Rightarrow> reject ev req InternalError sv
      | Inr messages \<Rightarrow> answer_as ev req HistoryResult
          (JObj [(''room_id'', JStr (gh_room_id p)), (''messages'', JArr (map chat_message_to_json messages))]) sv)))"

definition handle_room_tip ::
    "config \<Rightarrow> env \<Rightarrow> caller \<Rightarrow> string option \<Rightarrow> string option \<Rightarrow> server \<Rightarrow> frame \<times> server" where
  "handle_room_tip cfg ev c req payload sv =
     (case payload of None \<Rightarrow> reject ev req InvalidPayload sv
      | Some room_id \<Rightarrow>
     (case authorize_room (ev_fault ev 0) room_id (ca_api_key c) (cf_no_auth cfg) (sv_store sv) of
        Inl code \<Rightarrow> reject ev req code sv
      | Inr _ \<Rightarrow>
     (case room_tip (ev_fault ev 1) room_id (sv_store sv) of
        Inl _ \<Rightarrow> reject ev req InternalError sv
      | Inr seq \<Rightarrow> answer_as ev req RoomTipResult
          (JObj [(''room_id'', JStr room_id), (''seq'', JInt seq)]) sv)))"

text \<open>The loop that fills in the member count and the last activity of a listed room.\<close>

definition enrich_room :: "bool \<Rightarrow> broker \<Rightarrow> store \<Rightarrow> room \<Rightarrow> room" where
  "enrich_room fault b s room =
     (let room = room\<lparr>rm_member_count := Some (length (get_room_members (rm_room_id room) b))\<rparr>
      in case get_history fault (rm_room_id room) 1 None s of
           Inl _ \<Rightarrow> room
         | Inr msgs \<Rightarrow> room\<lparr>rm_last_activity := (if msgs = [] then None else Some (cm_timestamp (last msgs)))\<rparr>)"

text \<open>A payload that does not decode counts as one without a parent.\<close>

definition handle_list_rooms ::
    "config \<Rightarrow> env \<Rightarrow> caller \<Rightarrow> string option \<Rightarrow> string option option \<Rightarrow> server \<Rightarrow> frame \<times> server" where
  "handle_list_rooms cfg ev c req payload sv =
     (let parent_id = (case payload of Some p \<Rightarrow> p | None \<Rightarrow> None) in
      case list_rooms (ev_fault ev 0) parent_id (sv_store sv) of
        Inl _ \<Rightarrow> reject ev req InternalError sv
      | Inr rooms \<Rightarrow>
          let rooms = filter (\<lambda>r. can_access_room r (ca_api_key c) (cf_no_auth cfg) (sv_store sv)) rooms;
              rooms = map (\<lambda>(k, r). enrich_room (ev_fault ev k) (sv_broker sv) (sv_store sv) r) (enumerate 1 rooms)
          in answer_as ev req RoomList (JObj [(''rooms'', JArr (map room_to_json rooms))]) sv)"

definition handle_list_agents ::
    "config \<Rightarrow> env \<Rightarrow> caller \<Rightarrow> string option \<Rightarrow> string option option \<Rightarrow> server \<Rightarrow> frame \<times> server" where
  "handle_list_agents cfg ev c req payload sv =
     (let room_id = (case payload of Some p \<Rightarrow> p | None \<Rightarrow> None);
          reply = (\<lambda>infos. answer_as ev req AgentList
                     (JObj [(''agents'', JArr (map agent_info_to_json infos))]) sv)
      in case room_id of
           Some r \<Rightarrow>
             (case authorize_room (ev_fault ev 0) r (ca_api_key c) (cf_no_auth cfg) (sv_store sv) of
                Inl code \<Rightarrow> reject ev req code sv
              | Inr _ \<Rightarrow> reply (infos_of (sv_broker sv) (get_room_members r (sv_broker sv))))
         | None \<Rightarrow>
             reply (map (ac_info \<circ> snd) (filter (\<lambda>(_, conn). cf_no_auth cfg \<or> ac_api_key conn = ca_api_key c)
                      (agents (sv_broker sv)))))"

definition handle_room_info ::
    "config \<Rightarrow> env \<Rightarrow> caller \<Rightarrow> string option \<Rightarrow> string option \<Rightarrow> server \<Rightarrow> frame \<times> server" where
  "handle_room_info cfg ev c req payload sv =
     (case payload of None \<Rightarrow> reject ev req InvalidPayload sv
      | Some room_id \<Rightarrow>
     (case authorize_room (ev_fault ev 0) room_id (ca_api_key c) (cf_no_auth cfg) (sv_store sv) of
        Inl code \<Rightarrow> reject ev req code sv
      | Inr room \<Rightarrow>
          let members = get_room_members room_id (sv_broker sv);
              children = (case list_rooms (ev_fault ev 1) (Some room_id) (sv_store sv) of
                            Inr rs \<Rightarrow> rs | Inl _ \<Rightarrow> []);
              sub_rooms = filter (\<lambda>r. can_access_room r (ca_api_key c) (cf_no_auth cfg) (sv_store sv)) children
          in answer_as ev req RoomInfoResult (JObj
               [(''room'', room_to_json room),
                (''agents'', JArr (map agent_info_to_json (infos_of (sv_broker sv) members))),
                (''sub_rooms'', JArr (map room_to_json sub_rooms)),
                (''current_turn_holder'', json_opt JStr (turn_holder room_id (sv_broker sv))),
                (''turn_order'', json_strs members)]) sv))"

end
