(* ===== verification/Handle_Messages.thy ===== *)
theory Handle_Messages
  imports Server
begin

text \<open>
  The handlers that send messages and presence (\<open>handler.rs\<close>): \<open>send_message\<close>, \<open>thinking\<close>,
  \<open>decision\<close>, \<open>set_typing\<close>, \<open>set_presence\<close>.
\<close>

subsection \<open>Messages\<close>

text \<open>The size and rate checks that \<open>send_message\<close> and \<open>thinking\<close> share: an error code, or nothing.\<close>

definition message_limits ::
    "config \<Rightarrow> env \<Rightarrow> caller \<Rightarrow> string \<Rightarrow> server \<Rightarrow> error_code option \<times> server" where
  "message_limits cfg ev c content sv =
     (if \<not> cf_no_auth cfg \<and> ca_api_key c \<noteq> []
      then let limits = limits_of_key (ev_fault ev 1) (ca_api_key c) (sv_store sv) in
           if oversized content limits then (Some MessageTooLarge, sv)
           else let (ok, rl) = check_message_rate (ev_instant ev 0) (ca_api_key c) limits (sv_limits sv)
                in (if ok then None else Some RateLimitMessages, sv\<lparr>sv_limits := rl\<rparr>)
      else (None, sv))"

definition count_message :: "env \<Rightarrow> caller \<Rightarrow> rate_limiter \<Rightarrow> rate_limiter" where
  "count_message ev c rl =
     (if ca_api_key c \<noteq> [] then increment_message (ev_instant ev 1) (ca_api_key c) rl else rl)"

text \<open>What follows a stored message: the event to the other members, the mentions, the turn.\<close>

definition publish_message ::
    "env \<Rightarrow> caller \<Rightarrow> send_message_payload \<Rightarrow> chat_message \<Rightarrow> broker \<Rightarrow> broker" where
  "publish_message ev c p message b =
     (let b = touch_agent (ev_utc ev 1) (ca_agent_id c) b;
          event = frame_event (ev_uid ev 2) MessageReceived (chat_message_to_json message);
          b = broadcast_to_room (sm_room_id p) (ca_agent_id c) event b;
          b = (if sm_mentions p \<noteq> [] then send_mentions (ev_uid ev 3) (sm_mentions p) message (sm_room_id p) b else b);
          b = snd (advance_turn_from (sm_room_id p) (ca_agent_id c) b)
      in broadcast_turn_changed (ev_uid ev 4) (sm_room_id p) ''message_sent'' b)"

definition handle_send_message ::
    "config \<Rightarrow> env \<Rightarrow> caller \<Rightarrow> string option \<Rightarrow> send_message_payload option \<Rightarrow> server \<Rightarrow> frame \<times> server" where
  "handle_send_message cfg ev c req payload sv =
     (case payload of None \<Rightarrow> reject ev req InvalidPayload sv
      | Some p \<Rightarrow>
          if \<not> is_agent_in_room (ca_agent_id c) (sm_room_id p) (sv_broker sv) then reject ev req NotInRoom sv
          else if plaintext_in_encrypted_room (ev_fault ev 0) (sm_content p) (sm_room_id p) (sv_store sv)
          then reject ev req PlaintextInEncryptedRoom sv
          else
     (case message_limits cfg ev c (sm_content p) sv of
        (Some code, sv) \<Rightarrow> reject ev req code sv
      | (None, sv) \<Rightarrow>
     (case insert_message (ev_fault ev 2) (ev_utc ev 0) (ev_uid ev 1) (sm_room_id p) (ca_agent_id c)
             (ca_agent_name c) (sm_content p) (sm_reply_to p) (sm_metadata p) (sv_store sv) of
        (Inl _, s) \<Rightarrow> reject ev req InternalError (sv\<lparr>sv_store := s\<rparr>)
      | (Inr message, s) \<Rightarrow>
          answer ev req (chat_message_to_json message)
            (sv\<lparr>sv_store := s, sv_limits := count_message ev c (sv_limits sv),
               sv_broker := publish_message ev c p message (sv_broker sv),
               sv_spawned := sv_spawned sv @ [message]\<rparr>))))"

definition handle_thinking ::
    "config \<Rightarrow> env \<Rightarrow> caller \<Rightarrow> string option \<Rightarrow> thinking_payload option \<Rightarrow> server \<Rightarrow> frame \<times> server" where
  "handle_thinking cfg ev c req payload sv =
     (case payload of None \<Rightarrow> reject ev req InvalidPayload sv
      | Some p \<Rightarrow>
          if \<not> is_agent_in_room (ca_agent_id c) (th_room_id p) (sv_broker sv) then reject ev req NotInRoom sv
          else if plaintext_in_encrypted_room (ev_fault ev 0) (th_content p) (th_room_id p) (sv_store sv)
          then reject ev req PlaintextInEncryptedRoom sv
          else
     (case message_limits cfg ev c (th_content p) sv of
        (Some code, sv) \<Rightarrow> reject ev req code sv
      | (None, sv) \<Rightarrow>
     (case insert_message (ev_fault ev 2) (ev_utc ev 0) (ev_uid ev 1) (th_room_id p) (ca_agent_id c)
             (ca_agent_name c) (th_content p) None (JObj [(''type'', JStr ''thinking'')]) (sv_store sv) of
        (Inl _, s) \<Rightarrow> reject ev req InternalError (sv\<lparr>sv_store := s\<rparr>)
      | (Inr message, s) \<Rightarrow>
          let event = frame_event (ev_uid ev 2) Thinking (chat_message_to_json message)
          in answer ev req (chat_message_to_json message)
            (sv\<lparr>sv_store := s, sv_limits := count_message ev c (sv_limits sv),
               sv_broker := broadcast_to_room (th_room_id p) (ca_agent_id c) event (sv_broker sv),
               sv_spawned := sv_spawned sv @ [message]\<rparr>))))"

definition handle_decision ::
    "env \<Rightarrow> caller \<Rightarrow> string option \<Rightarrow> decision_payload option \<Rightarrow> server \<Rightarrow> frame \<times> server" where
  "handle_decision ev c req payload sv =
     (case payload of None \<Rightarrow> reject ev req InvalidPayload sv
      | Some p \<Rightarrow>
          if \<not> is_agent_in_room (ca_agent_id c) (dp_room_id p) (sv_broker sv) then reject ev req NotInRoom sv
          else if \<not> is_leader (dp_room_id p) (ca_agent_id c) (sv_votes sv) then reject ev req NotLeader sv
          else if plaintext_in_encrypted_room (ev_fault ev 0) (dp_content p) (dp_room_id p) (sv_store sv)
          then reject ev req PlaintextInEncryptedRoom sv
          else
     (case insert_message (ev_fault ev 1) (ev_utc ev 0) (ev_uid ev 1) (dp_room_id p) (ca_agent_id c)
             (ca_agent_name c) (dp_content p) None
             (JObj [(''type'', JStr ''decision''), (''decided_by'', JStr (ca_agent_id c))]) (sv_store sv) of
        (Inl _, s) \<Rightarrow> reject ev req InternalError (sv\<lparr>sv_store := s\<rparr>)
      | (Inr _, s) \<Rightarrow>
          let event = frame_event (ev_uid ev 2) DecisionMade (JObj
                [(''room_id'', JStr (dp_room_id p)), (''message_id'', JStr (ev_uid ev 1)),
                 (''leader_id'', JStr (ca_agent_id c)), (''leader_name'', JStr (ca_agent_name c)),
                 (''content'', JStr (dp_content p)), (''metadata'', dp_metadata p),
                 (''timestamp'', JTime (ev_utc ev 1))])
          in answer ev req (JObj [(''message_id'', JStr (ev_uid ev 1)), (''room_id'', JStr (dp_room_id p))])
            (sv\<lparr>sv_store := s,
               sv_broker := broadcast_to_room_all (dp_room_id p) event (sv_broker sv)\<rparr>)))"

subsection \<open>Presence\<close>

definition handle_set_typing ::
    "env \<Rightarrow> caller \<Rightarrow> string option \<Rightarrow> set_typing_payload option \<Rightarrow> server \<Rightarrow> frame \<times> server" where
  "handle_set_typing ev c req payload sv =
     (case payload of None \<Rightarrow> reject ev req InvalidPayload sv
      | Some p \<Rightarrow>
          if \<not> is_agent_in_room (ca_agent_id c) (ty_room_id p) (sv_broker sv) then reject ev req NotInRoom sv
          else
            let b = touch_agent (ev_utc ev 0) (ca_agent_id c) (sv_broker sv);
                event = frame_event (ev_uid ev 1) TypingIndicator (JObj
                  [(''room_id'', JStr (ty_room_id p)), (''agent_id'', JStr (ca_agent_id c)),
                   (''agent_name'', JStr (ca_agent_name c)), (''typing'', JBool (ty_typing p))])
            in answer ev req (JObj [(''room_id'', JStr (ty_room_id p))])
                 (sv\<lparr>sv_broker := broadcast_to_room (ty_room_id p) (ca_agent_id c) event b\<rparr>))"

definition handle_set_presence ::
    "env \<Rightarrow> caller \<Rightarrow> string option \<Rightarrow> set_presence_payload option \<Rightarrow> server \<Rightarrow> frame \<times> server" where
  "handle_set_presence ev c req payload sv =
     (case payload of None \<Rightarrow> reject ev req InvalidPayload sv
      | Some p \<Rightarrow>
          if sp_status p \<notin> set [''idle'', ''waiting'', ''working'', ''thinking'']
          then reject ev req InvalidPayload sv
          else if map_of (agents (sv_broker sv)) (ca_agent_id c) = None then reject ev req NotRegistered sv
          else
            let b = update_info (ca_agent_id c) (\<lambda>i. i\<lparr>ai_status := Some (sp_status p),
                      ai_status_detail := sp_status_detail p, ai_progress := sp_progress p,
                      ai_last_active := Some (ev_utc ev 0)\<rparr>) (sv_broker sv);
                rooms = rooms_for_agent (ca_agent_id c) b;
                event = frame_event (ev_uid ev 1) PresenceUpdate (JObj
                  [(''agent_id'', JStr (ca_agent_id c)), (''agent_name'', JStr (ca_agent_name c)),
                   (''status'', JStr (sp_status p)), (''status_detail'', json_opt JStr (sp_status_detail p)),
                   (''progress'', json_opt (\<lambda>n. JInt (int n)) (sp_progress p))])
            in answer ev req (JObj [(''status'', JStr (sp_status p))])
                 (sv\<lparr>sv_broker := fold (\<lambda>r. broadcast_to_room r (ca_agent_id c) event) rooms b\<rparr>))"

end
