(* ===== verification/Handle_Votes.thy ===== *)
theory Handle_Votes
  imports Server
begin

text \<open>
  The handlers of votes and elections (\<open>handler.rs\<close>). A vote or an election is created in two steps,
  since a destruction of the room may run between the insertion and the final check of the tombstone:
  \<open>open_vote\<close> and \<open>open_election\<close> end where the code calls \<open>is_room_destroyed\<close>.

  The only handler that can panic is \<open>create_vote\<close>: chrono panics when the deadline is out of
  its range. A panic is the reply \<open>None\<close>.
\<close>

subsection \<open>Creating a vote\<close>

definition open_vote ::
    "env \<Rightarrow> caller \<Rightarrow> string option \<Rightarrow> create_vote_payload option \<Rightarrow> server
     \<Rightarrow> (frame option + active_vote \<times> nat) \<times> server" where
  "open_vote ev c req payload sv =
     (let stop = (\<lambda>code sv. (Inl (Some (fst (reject ev req code sv))), sv)) in
      case payload of None \<Rightarrow> stop InvalidPayload sv
      | Some p \<Rightarrow>
          if \<not> is_agent_in_room (ca_agent_id c) (cv_room_id p) (sv_broker sv) then stop NotInRoom sv
          else if length (cv_options p) < 2 then stop InvalidPayload sv
          else
            let vote_id = ev_uid ev 1;
                eligible_agents = get_room_members (cv_room_id p) (sv_broker sv);
                deadline = (\<lambda>now. case cv_duration_secs p of
                              None \<Rightarrow> Some None | Some secs \<Rightarrow> map_option Some (ev_after ev now secs))
            in case deadline (ev_utc ev 0) of None \<Rightarrow> (Inl None, sv)
             | Some closes_at \<Rightarrow>
            (case create_vote (ev_fault ev 0) (ev_utc ev 1) vote_id (cv_room_id p) (cv_title p)
                    (cv_description p) (cv_options p) (ca_agent_id c) closes_at eligible_agents (sv_store sv) of
               (Inl _, s) \<Rightarrow> stop InternalError (sv\<lparr>sv_store := s\<rparr>)
             | (Inr _, s) \<Rightarrow>
                 (case deadline (ev_utc ev 2) of None \<Rightarrow> (Inl None, sv\<lparr>sv_store := s\<rparr>)
                  | Some closes_at \<Rightarrow>
                 (case mgr_create_vote (ev_utc ev 2) closes_at vote_id (cv_room_id p) (cv_title p)
                         (cv_description p) (cv_options p) (ca_agent_id c) eligible_agents (sv_votes sv) of
                    (vote, vm) \<Rightarrow> (Inr (vote, length eligible_agents), sv\<lparr>sv_store := s, sv_votes := vm\<rparr>)))))"

definition open_vote_info :: "active_vote \<Rightarrow> nat \<Rightarrow> nat \<Rightarrow> vote_info" where
  "open_vote_info vote votes_cast eligible =
     \<lparr>vi_vote_id = av_vote_id vote, vi_room_id = av_room_id vote, vi_title = av_title vote,
      vi_description = av_description vote, vi_options = av_options vote,
      vi_created_by = av_created_by vote, vi_created_at = av_created_at vote,
      vi_closes_at = av_closes_at vote, vi_status = Open, vi_votes_cast = votes_cast,
      vi_eligible_voters = eligible, vi_tally = None\<rparr>"

text \<open>The check of the tombstone, which takes back a vote of a destroyed room, and the publication.\<close>

definition publish_vote ::
    "env \<Rightarrow> string option \<Rightarrow> active_vote \<Rightarrow> nat \<Rightarrow> server \<Rightarrow> frame \<times> server" where
  "publish_vote ev req vote eligible sv =
     (case is_room_destroyed (ev_instant ev 0) (av_room_id vote) (sv_broker sv) of
        (True, b) \<Rightarrow>
          reject ev req RoomNotFound
            (sv\<lparr>sv_broker := b, sv_votes := forget_room_votes (av_room_id vote) (sv_votes sv),
               sv_store := snd (delete_room_artifacts (ev_fault ev 1) (av_room_id vote) (sv_store sv))\<rparr>)
      | (False, b) \<Rightarrow>
          let info = open_vote_info vote 0 eligible;
              event = frame_event (ev_uid ev 2) VoteCreated (vote_info_to_json info)
          in answer ev req (vote_info_to_json info)
               (sv\<lparr>sv_broker := broadcast_to_room_all (av_room_id vote) event b\<rparr>))"

definition handle_create_vote ::
    "env \<Rightarrow> caller \<Rightarrow> string option \<Rightarrow> create_vote_payload option \<Rightarrow> server \<Rightarrow> frame option \<times> server" where
  "handle_create_vote ev c req payload sv =
     (case open_vote ev c req payload sv of
        (Inl reply, sv) \<Rightarrow> (reply, sv)
      | (Inr (vote, eligible), sv) \<Rightarrow> apfst Some (publish_vote ev req vote eligible sv))"

subsection \<open>Casting a ballot\<close>

fun cast_error_code :: "store_error \<Rightarrow> error_code" where
  "cast_error_code SE_VoteNotFound = VoteNotFound"
| "cast_error_code SE_VoteClosed = VoteClosed"
| "cast_error_code SE_AlreadyVoted = AlreadyVoted"
| "cast_error_code _ = InternalError"

text \<open>The number of options when the vote is open in memory, its room, and whether the caller may vote.\<close>

definition ballot_context :: "env \<Rightarrow> caller \<Rightarrow> string \<Rightarrow> server \<Rightarrow> nat option \<times> string option \<times> bool" where
  "ballot_context ev c vote_id sv =
     (case map_of (active_votes (sv_votes sv)) vote_id of
        Some vote \<Rightarrow> (Some (length (av_options vote)), Some (av_room_id vote),
                      ca_agent_id c \<in> set (av_eligible_agents vote))
      | None \<Rightarrow>
          (None,
           (case get_vote_meta (ev_fault ev 1) vote_id (sv_store sv) of
              Inr (Some meta) \<Rightarrow> Some (vm_room_id meta) | _ \<Rightarrow> None),
           (case get_vote_eligible_agents (ev_fault ev 0) vote_id (sv_store sv) of
              Inr es \<Rightarrow> list_ex (\<lambda>e. e = ca_agent_id c) es | Inl _ \<Rightarrow> False)))"

definition handle_cast_vote ::
    "env \<Rightarrow> caller \<Rightarrow> string option \<Rightarrow> cast_vote_payload option \<Rightarrow> server \<Rightarrow> frame \<times> server" where
  "handle_cast_vote ev c req payload sv =
     (case payload of None \<Rightarrow> reject ev req InvalidPayload sv
      | Some p \<Rightarrow>
     (case ballot_context ev c (bv_vote_id p) sv of
        (_, None, _) \<Rightarrow> reject ev req VoteNotFound sv
      | (option_count, Some room_id, eligible) \<Rightarrow>
          if \<not> is_agent_in_room (ca_agent_id c) room_id (sv_broker sv) then reject ev req NotInRoom sv
          else if \<not> eligible then reject ev req AccessDenied sv
          else if (case option_count of Some n \<Rightarrow> n \<le> bv_option_index p | None \<Rightarrow> False)
          then reject ev req InvalidOption sv
          else
     (case cast_ballot (ev_fault ev 2) (ev_fault ev 3) (ev_utc ev 0) (bv_vote_id p) (ca_agent_id c) (ca_agent_name c)
             (bv_option_index p) (sv_store sv) of
        (Inl e, s) \<Rightarrow> reject ev req (cast_error_code e) (sv\<lparr>sv_store := s\<rparr>)
      | (Inr _, s) \<Rightarrow>
     (case mgr_cast_vote (ev_uid ev 1) (ev_fault ev 4) (bv_vote_id p) (ca_agent_id c) (ca_agent_name c)
             (bv_option_index p) (sv_votes sv) (sv_broker sv) s of
        (result, vm, b, s) \<Rightarrow>
          let sv = sv\<lparr>sv_store := s, sv_votes := vm, sv_broker := b\<rparr>
          in case result of
               Inl code \<Rightarrow> reject ev req code sv
             | Inr (votes_cast, eligible) \<Rightarrow> answer ev req (JObj
                 [(''vote_id'', JStr (bv_vote_id p)), (''votes_cast'', JInt (int votes_cast)),
                  (''eligible_voters'', JInt (int eligible))]) sv))))"

subsection \<open>Queries\<close>

definition vote_status_from_str :: "string \<Rightarrow> vote_status" where
  "vote_status_from_str status = (if eq_ignore_ascii_case status ''closed'' then Closed else Open)"

definition build_vote_tally :: "string list \<Rightarrow> (string \<times> string \<times> nat) list \<Rightarrow> vote_tally list" where
  "build_vote_tally options ballots =
     tally_rows options (tally_counts (length options) (map (\<lambda>(_, _, i). i) ballots))"

definition vote_info_from_meta :: "vote_row \<Rightarrow> nat \<Rightarrow> vote_tally list option \<Rightarrow> vote_info" where
  "vote_info_from_meta meta votes_cast tally =
     \<lparr>vi_vote_id = vm_vote_id meta, vi_room_id = vm_room_id meta, vi_title = vm_title meta,
      vi_description = vm_description meta, vi_options = vm_options meta,
      vi_created_by = vm_created_by meta, vi_created_at = vm_created_at meta,
      vi_closes_at = vm_closes_at meta, vi_status = vote_status_from_str (vm_status meta),
      vi_votes_cast = votes_cast, vi_eligible_voters = vm_eligible_voters meta, vi_tally = tally\<rparr>"

definition load_closed_vote_tally ::
    "bool \<Rightarrow> store \<Rightarrow> string \<Rightarrow> string list \<Rightarrow> store_error + vote_tally list" where
  "load_closed_vote_tally fault s vote_id options =
     (case get_vote_ballots fault vote_id s of
        Inl e \<Rightarrow> Inl e | Inr ballots \<Rightarrow> Inr (build_vote_tally options ballots))"

text \<open>What both queries compute for a persisted vote.\<close>

definition persisted_vote_info :: "bool \<Rightarrow> bool \<Rightarrow> store \<Rightarrow> vote_row \<Rightarrow> store_error + vote_info" where
  "persisted_vote_info fault_count fault_tally s meta =
     (case get_vote_ballot_count fault_count (vm_vote_id meta) s of
        Inl e \<Rightarrow> Inl e
      | Inr votes_cast \<Rightarrow>
          if eq_ignore_ascii_case (vm_status meta) ''closed''
          then (case load_closed_vote_tally fault_tally s (vm_vote_id meta) (vm_options meta) of
                  Inl e \<Rightarrow> Inl e
                | Inr tally \<Rightarrow> Inr (vote_info_from_meta meta votes_cast (Some tally)))
          else Inr (vote_info_from_meta meta votes_cast None))"

definition handle_get_vote_status ::
    "config \<Rightarrow> env \<Rightarrow> caller \<Rightarrow> string option \<Rightarrow> string option \<Rightarrow> server \<Rightarrow> frame \<times> server" where
  "handle_get_vote_status cfg ev c req payload sv =
     (case payload of None \<Rightarrow> reject ev req InvalidPayload sv
      | Some vote_id \<Rightarrow>
     (case map_of (active_votes (sv_votes sv)) vote_id of
        Some vote \<Rightarrow>
          (case authorize_room (ev_fault ev 0) (av_room_id vote) (ca_api_key c) (cf_no_auth cfg) (sv_store sv) of
             Inl code \<Rightarrow> reject ev req code sv
           | Inr _ \<Rightarrow> answer ev req (vote_info_to_json
               (open_vote_info vote (length (av_ballots vote)) (av_eligible_voters vote))) sv)
      | None \<Rightarrow>
     (case get_vote_meta (ev_fault ev 0) vote_id (sv_store sv) of
        Inl _ \<Rightarrow> reject ev req InternalError sv
      | Inr None \<Rightarrow> reject ev req VoteNotFound sv
      | Inr (Some meta) \<Rightarrow>
     (case authorize_room (ev_fault ev 1) (vm_room_id meta) (ca_api_key c) (cf_no_auth cfg) (sv_store sv) of
        Inl code \<Rightarrow> reject ev req code sv
      | Inr _ \<Rightarrow>
     (case persisted_vote_info (ev_fault ev 2) (ev_fault ev 3) (sv_store sv) meta of
        Inl _ \<Rightarrow> reject ev req InternalError sv
      | Inr info \<Rightarrow> answer ev req (vote_info_to_json info) sv)))))"

text \<open>The loop over the persisted votes; the first failing query ends it.\<close>

fun persisted_vote_infos ::
    "(nat \<Rightarrow> bool) \<Rightarrow> nat \<Rightarrow> string set \<Rightarrow> store \<Rightarrow> vote_row list \<Rightarrow> store_error + vote_info list" where
  "persisted_vote_infos fault k seen s [] = Inr []"
| "persisted_vote_infos fault k seen s (meta # metas) =
     (if vm_vote_id meta \<in> seen then persisted_vote_infos fault k seen s metas
      else case persisted_vote_info (fault k) (fault (Suc k)) s meta of
        Inl e \<Rightarrow> Inl e
      | Inr info \<Rightarrow>
          (case persisted_vote_infos fault (k + 2) seen s metas of
             Inl e \<Rightarrow> Inl e | Inr infos \<Rightarrow> Inr (info # infos)))"

definition handle_list_votes ::
    "config \<Rightarrow> env \<Rightarrow> caller \<Rightarrow> string option \<Rightarrow> list_votes_payload option \<Rightarrow> server \<Rightarrow> frame \<times> server" where
  "handle_list_votes cfg ev c req payload sv =
     (case payload of None \<Rightarrow> reject ev req InvalidPayload sv
      | Some p \<Rightarrow>
     (case authorize_room (ev_fault ev 0) (lv_room_id p) (ca_api_key c) (cf_no_auth cfg) (sv_store sv) of
        Inl code \<Rightarrow> reject ev req code sv
      | Inr _ \<Rightarrow>
          let actives = filter (\<lambda>v. av_room_id v = lv_room_id p) (map snd (active_votes (sv_votes sv)));
              seen = set (map av_vote_id actives);
              open_infos = map (\<lambda>v. open_vote_info v (length (av_ballots v)) (av_eligible_voters v)) actives
          in case list_votes (ev_fault ev 1) (lv_room_id p) (lv_limit p) (sv_store sv) of
               Inl _ \<Rightarrow> reject ev req InternalError sv
             | Inr metas \<Rightarrow>
                 (case persisted_vote_infos (ev_fault ev) 2 seen (sv_store sv) metas of
                    Inl _ \<Rightarrow> reject ev req InternalError sv
                  | Inr infos \<Rightarrow>
                      let votes = take (lv_limit p) (sort_key (\<lambda>v. - vi_created_at v) (open_infos @ infos))
                      in answer ev req (JObj [(''room_id'', JStr (lv_room_id p)),
                           (''votes'', JArr (map vote_info_to_json votes))]) sv)))"

subsection \<open>Elections\<close>

definition open_election ::
    "env \<Rightarrow> caller \<Rightarrow> string option \<Rightarrow> string option \<Rightarrow> server \<Rightarrow> (frame + string \<times> string list) \<times> server" where
  "open_election ev c req payload sv =
     (let stop = (\<lambda>code sv. (Inl (fst (reject ev req code sv)), sv)) in
      case payload of None \<Rightarrow> stop InvalidPayload sv
      | Some room_id \<Rightarrow>
          if \<not> is_agent_in_room (ca_agent_id c) room_id (sv_broker sv) then stop NotInRoom sv
          else
            let candidates = get_room_members room_id (sv_broker sv) in
            if candidates = [] then stop InvalidPayload sv
            else (case start_election room_id candidates (ca_agent_id c) (sv_votes sv) of
                    (Inl code, vm) \<Rightarrow> stop code (sv\<lparr>sv_votes := vm\<rparr>)
                  | (Inr _, vm) \<Rightarrow> (Inr (room_id, candidates), sv\<lparr>sv_votes := vm\<rparr>)))"

definition publish_election ::
    "env \<Rightarrow> caller \<Rightarrow> string option \<Rightarrow> string \<Rightarrow> string list \<Rightarrow> server \<Rightarrow> frame \<times> server" where
  "publish_election ev c req room_id candidates sv =
     (case is_room_destroyed (ev_instant ev 0) room_id (sv_broker sv) of
        (True, b) \<Rightarrow> reject ev req RoomNotFound
          (sv\<lparr>sv_broker := b, sv_votes := forget_room_votes room_id (sv_votes sv)\<rparr>)
      | (False, b) \<Rightarrow>
          let event = frame_event (ev_uid ev 1) ElectionStarted (JObj
                [(''room_id'', JStr room_id), (''candidates'', json_strs candidates),
                 (''started_by'', JStr (ca_agent_id c)), (''opt_out_seconds'', JInt 2)])
          in answer ev req (JObj [(''room_id'', JStr room_id), (''candidates'', json_strs candidates),
                 (''message'', JStr ''Election started. Agents have 2 seconds to decline.'')])
               (sv\<lparr>sv_broker := broadcast_to_room_all room_id event b\<rparr>))"

definition handle_elect_leader ::
    "env \<Rightarrow> caller \<Rightarrow> string option \<Rightarrow> string option \<Rightarrow> server \<Rightarrow> frame \<times> server" where
  "handle_elect_leader ev c req payload sv =
     (case open_election ev c req payload sv of
        (Inl reply, sv) \<Rightarrow> (reply, sv)
      | (Inr (room_id, candidates), sv) \<Rightarrow> publish_election ev c req room_id candidates sv)"

definition handle_decline_election ::
    "env \<Rightarrow> caller \<Rightarrow> string option \<Rightarrow> string option \<Rightarrow> server \<Rightarrow> frame \<times> server" where
  "handle_decline_election ev c req payload sv =
     (case payload of None \<Rightarrow> reject ev req InvalidPayload sv
      | Some room_id \<Rightarrow>
          if \<not> is_agent_in_room (ca_agent_id c) room_id (sv_broker sv) then reject ev req NotInRoom sv
          else (case decline_election room_id (ca_agent_id c) (sv_votes sv) of
                  (Inl code, vm) \<Rightarrow> reject ev req code (sv\<lparr>sv_votes := vm\<rparr>)
                | (Inr _, vm) \<Rightarrow> answer ev req (JObj [(''room_id'', JStr room_id),
                    (''message'', JStr ''Declined election'')]) (sv\<lparr>sv_votes := vm\<rparr>)))"

end
