(* ===== verification/Handle_Hooks.thy ===== *)
theory Handle_Hooks
  imports Server
begin

text \<open>
  The handlers of tasks, webhook subscriptions and room invites (\<open>handler.rs\<close>). Subscribing and
  creating an invite are split where the code checks for a destruction that ran meanwhile.
\<close>

subsection \<open>Tasks\<close>

definition handle_assign_task ::
    "env \<Rightarrow> caller \<Rightarrow> string option \<Rightarrow> assign_task_payload option \<Rightarrow> server \<Rightarrow> frame \<times> server" where
  "handle_assign_task ev c req payload sv =
     (case payload of None \<Rightarrow> reject ev req InvalidPayload sv
      | Some p \<Rightarrow>
          if \<not> is_agent_in_room (ca_agent_id c) (at_room_id p) (sv_broker sv) then reject ev req NotInRoom sv
          else (case create_task (ev_fault ev 0) (ev_utc ev 0) (ev_uid ev 1) (at_room_id p) (at_title p)
                       (at_description p) (at_assignee p) (ca_agent_id c) (sv_tasks sv) (sv_store sv) of
                  (Inl _, m, s) \<Rightarrow> reject ev req InternalError (sv\<lparr>sv_tasks := m, sv_store := s\<rparr>)
                | (Inr task, m, s) \<Rightarrow>
                    let event = frame_event (ev_uid ev 2) TaskAssigned (task_info_to_json task)
                    in answer ev req (task_info_to_json task)
                         (sv\<lparr>sv_tasks := m, sv_store := s,
                            sv_broker := broadcast_to_room_all (at_room_id p) event (sv_broker sv)\<rparr>)))"

definition handle_update_task ::
    "env \<Rightarrow> caller \<Rightarrow> string option \<Rightarrow> update_task_payload option \<Rightarrow> server \<Rightarrow> frame \<times> server" where
  "handle_update_task ev c req payload sv =
     (case payload of None \<Rightarrow> reject ev req InvalidPayload sv
      | Some p \<Rightarrow>
     (case get_task (ut_task_id p) (sv_tasks sv) of
        None \<Rightarrow> reject ev req TaskNotFound sv
      | Some t \<Rightarrow>
          if \<not> is_agent_in_room (ca_agent_id c) (tk_room_id t) (sv_broker sv) then reject ev req NotInRoom sv
          else (case update_task (ev_fault ev 0) (ev_utc ev 0) (ut_task_id p) (ut_status p) (ut_assignee p)
                       (ut_note p) (sv_tasks sv) (sv_store sv) of
                  (Inl _, m, s) \<Rightarrow> reject ev req InternalError (sv\<lparr>sv_tasks := m, sv_store := s\<rparr>)
                | (Inr None, m, s) \<Rightarrow> reject ev req TaskNotFound (sv\<lparr>sv_tasks := m, sv_store := s\<rparr>)
                | (Inr (Some task), m, s) \<Rightarrow>
                    let event = frame_event (ev_uid ev 1) TaskUpdated (task_info_to_json task)
                    in answer ev req (task_info_to_json task)
                         (sv\<lparr>sv_tasks := m, sv_store := s,
                            sv_broker := broadcast_to_room_all (tk_room_id t) event (sv_broker sv)\<rparr>))))"

definition handle_list_tasks ::
    "config \<Rightarrow> env \<Rightarrow> caller \<Rightarrow> string option \<Rightarrow> list_tasks_payload option \<Rightarrow> server \<Rightarrow> frame \<times> server" where
  "handle_list_tasks cfg ev c req payload sv =
     (case payload of None \<Rightarrow> reject ev req InvalidPayload sv
      | Some p \<Rightarrow>
     (case authorize_room (ev_fault ev 0) (lt_room_id p) (ca_api_key c) (cf_no_auth cfg) (sv_store sv) of
        Inl code \<Rightarrow> reject ev req code sv
      | Inr _ \<Rightarrow> answer_as ev req TaskList (JObj
          [(''room_id'', JStr (lt_room_id p)),
           (''tasks'', JArr (map task_info_to_json (list_tasks (lt_room_id p) (lt_status p) (sv_tasks sv))))]) sv))"

subsection \<open>The backlog of a subscription\<close>

text \<open>The loop body over one page; \<open>k\<close> counts the store calls and the delivery identifiers.\<close>

definition enqueue_backlog ::
    "(nat \<Rightarrow> bool) \<Rightarrow> (nat \<Rightarrow> string) \<Rightarrow> nat \<Rightarrow> int \<Rightarrow> subscription \<Rightarrow> chat_message list \<Rightarrow> store \<Rightarrow> store" where
  "enqueue_backlog fault uid k now sub backlog s =
     fold (\<lambda>(j, msg) s.
         if matches_filter sub msg
         then snd (enqueue_delivery (fault j) (uid j) (sub_subscription_id sub) (cm_seq msg)
                     (cm_message_id msg) now s)
         else s) (enumerate k backlog) s"

lemma enqueue_delivery_frame [frame_simps]:
  "db_messages (snd (enqueue_delivery f d sid n m now s)) = db_messages s"
  "db_rooms (snd (enqueue_delivery f d sid n m now s)) = db_rooms s"
  "db_subs (snd (enqueue_delivery f d sid n m now s)) = db_subs s"
  "db_grants (snd (enqueue_delivery f d sid n m now s)) = db_grants s"
  "grants_cache (snd (enqueue_delivery f d sid n m now s)) = grants_cache s"
  by (simp_all add: enqueue_delivery_def)

lemma enqueue_backlog_frame [frame_simps]:
  "db_messages (enqueue_backlog fault uid k now sub ms s) = db_messages s"
  "db_rooms (enqueue_backlog fault uid k now sub ms s) = db_rooms s"
  "db_subs (enqueue_backlog fault uid k now sub ms s) = db_subs s"
  "db_grants (enqueue_backlog fault uid k now sub ms s) = db_grants s"
  "grants_cache (enqueue_backlog fault uid k now sub ms s) = grants_cache s"
  by (induction ms arbitrary: k s) (simp_all add: enqueue_backlog_def frame_simps)

definition rows_behind :: "string \<Rightarrow> int \<Rightarrow> store \<Rightarrow> message_row list" where
  "rows_behind room_id n s = filter (\<lambda>m. n < mr_seq m) (room_rows room_id s)"

lemma last_of_page:
  assumes "get_history_filtered f room_id n None None (Some pos) s = Inr page" "page \<noteq> []"
  shows "length (rows_behind room_id (cm_seq (last page)) s) < length (rows_behind room_id pos s)"
proof -
  let ?rows = "take n (sort_key mr_seq (rows_behind room_id pos s))"
  from assms have p: "page = map map_message_row ?rows"
    by (auto simp: get_history_filtered_def rows_behind_def split: if_splits)
  with assms(2) have ne: "?rows \<noteq> []" by auto
  define r where "r = last ?rows"
  have "r \<in> set ?rows" unfolding r_def using ne by (rule last_in_set)
  then have r: "r \<in> set (rows_behind room_id pos s)" using in_set_takeD by fastforce
  have "rows_behind room_id (mr_seq r) s = filter (\<lambda>m. mr_seq r < mr_seq m) (rows_behind room_id pos s)"
    using r unfolding rows_behind_def filter_filter by (intro filter_cong) auto
  moreover have "length (filter (\<lambda>m. mr_seq r < mr_seq m) (rows_behind room_id pos s))
      < length (rows_behind room_id pos s)"
    using r by (intro length_filter_less [where x = r]) simp_all
  moreover have "cm_seq (last page) = mr_seq r" using ne unfolding p r_def by (simp add: last_map)
  ultimately show ?thesis by simp
qed

text \<open>The loop of \<open>subscribe\<close>: pages of 1000 behind a moving cursor. It ends since the messages behind
  the cursor become fewer with every page.\<close>

function backfill ::
    "(nat \<Rightarrow> bool) \<Rightarrow> (nat \<Rightarrow> string) \<Rightarrow> nat \<Rightarrow> int \<Rightarrow> subscription \<Rightarrow> string \<Rightarrow> int \<Rightarrow> store \<Rightarrow> store" where
  "backfill fault uid k now sub room_id pos s =
     (case get_history_filtered (fault k) room_id 1000 None None (Some pos) s of
        Inl _ \<Rightarrow> s
      | Inr backlog \<Rightarrow>
          if backlog = [] then s
          else
            let s' = enqueue_backlog fault uid (Suc k) now sub backlog s
            in if length backlog < 1000 then s'
               else backfill fault uid (Suc k + length backlog) now sub room_id (cm_seq (last backlog)) s')"
  by pat_completeness auto
termination
proof (relation "measure (\<lambda>(fault, uid, k, now, sub, room_id, pos, s). length (rows_behind room_id pos s))",
    goal_cases)
  case 1
  show ?case by simp
next
  case (2 fault uid k now sub room_id pos s backlog s')
  have "rows_behind room_id n s' = rows_behind room_id n s" for n
    using 2(3) by (simp add: rows_behind_def frame_simps)
  then show ?case using last_of_page [OF 2(1,2)] by simp
qed

declare backfill.simps [simp del]

subsection \<open>Subscriptions\<close>

definition open_subscription ::
    "config \<Rightarrow> env \<Rightarrow> caller \<Rightarrow> string option \<Rightarrow> subscribe_payload option \<Rightarrow> server
     \<Rightarrow> (frame + subscription \<times> string) \<times> server" where
  "open_subscription cfg ev c req payload sv =
     (let stop = (\<lambda>code sv. (Inl (fst (reject ev req code sv)), sv)) in
      case payload of None \<Rightarrow> stop InvalidPayload sv
      | Some p \<Rightarrow>
     (case validate_url (ev_net ev) (cf_allow_private cfg) (su_webhook_url p) of
        Inl _ \<Rightarrow> stop InvalidPayload sv
      | Inr _ \<Rightarrow>
          if su_secret p = [] then stop InvalidPayload sv
          else
     (case authorize_room (ev_fault ev 0) (su_room_id p) (ca_api_key c) (cf_no_auth cfg) (sv_store sv) of
        Inl code \<Rightarrow> stop code sv
      | Inr _ \<Rightarrow>
          let since_seq = (case su_since_seq p of
                 Some n \<Rightarrow> n
               | None \<Rightarrow> (case room_tip (ev_fault ev 1) (su_room_id p) (sv_store sv) of Inr n \<Rightarrow> n | Inl _ \<Rightarrow> 0));
              owner_key = (if cf_no_auth cfg then ''no-auth'' else ca_api_key c)
          in case create_subscription (ev_fault ev 2) (ev_utc ev 0) (ev_uid ev 1) (su_room_id p) owner_key
                    (su_webhook_url p) (su_secret p) (su_kinds p) (su_only_from p) (su_not_from p)
                    (su_exclude_thinking p) since_seq (sv_store sv) of
               (Inl _, s) \<Rightarrow> stop InternalError (sv\<lparr>sv_store := s\<rparr>)
             | (Inr sub, s) \<Rightarrow> (Inr (sub, owner_key), sv\<lparr>sv_store := s\<rparr>))))"

definition finish_subscription ::
    "env \<Rightarrow> string option \<Rightarrow> subscription \<Rightarrow> string \<Rightarrow> server \<Rightarrow> frame \<times> server" where
  "finish_subscription ev req sub owner_key sv =
     (case is_room_destroyed (ev_instant ev 0) (sub_room_id sub) (sv_broker sv) of
        (True, b) \<Rightarrow> reject ev req RoomNotFound
          (sv\<lparr>sv_broker := b,
             sv_store := snd (delete_subscription (ev_fault ev 3) (sub_subscription_id sub) owner_key (sv_store sv))\<rparr>)
      | (False, b) \<Rightarrow> answer ev req (subscription_to_json sub)
          (sv\<lparr>sv_broker := b,
             sv_store := backfill (ev_fault ev) (ev_uid ev) 4 (ev_utc ev 1) sub (sub_room_id sub)
                           (sub_since_seq sub) (sv_store sv)\<rparr>))"

definition handle_subscribe ::
    "config \<Rightarrow> env \<Rightarrow> caller \<Rightarrow> string option \<Rightarrow> subscribe_payload option \<Rightarrow> server \<Rightarrow> frame \<times> server" where
  "handle_subscribe cfg ev c req payload sv =
     (case open_subscription cfg ev c req payload sv of
        (Inl reply, sv) \<Rightarrow> (reply, sv)
      | (Inr (sub, owner_key), sv) \<Rightarrow> finish_subscription ev req sub owner_key sv)"

definition handle_unsubscribe ::
    "env \<Rightarrow> caller \<Rightarrow> string option \<Rightarrow> string option \<Rightarrow> server \<Rightarrow> frame \<times> server" where
  "handle_unsubscribe ev c req payload sv =
     (case payload of None \<Rightarrow> reject ev req InvalidPayload sv
      | Some subscription_id \<Rightarrow>
     (case delete_subscription (ev_fault ev 0) subscription_id (ca_api_key c) (sv_store sv) of
        (Inr True, s) \<Rightarrow> answer ev req (JObj [(''deleted'', JBool True)]) (sv\<lparr>sv_store := s\<rparr>)
      | (Inr False, s) \<Rightarrow> reject ev req AccessDenied (sv\<lparr>sv_store := s\<rparr>)
      | (Inl _, s) \<Rightarrow> reject ev req InternalError (sv\<lparr>sv_store := s\<rparr>)))"

definition handle_list_subscriptions ::
    "env \<Rightarrow> caller \<Rightarrow> string option \<Rightarrow> string option option \<Rightarrow> server \<Rightarrow> frame \<times> server" where
  "handle_list_subscriptions ev c req payload sv =
     (case payload of None \<Rightarrow> reject ev req InvalidPayload sv
      | Some room_id \<Rightarrow>
     (case list_subscriptions (ev_fault ev 0) (ca_api_key c) room_id (sv_store sv) of
        Inr subs \<Rightarrow> answer ev req (JObj [(''subscriptions'', JArr (map subscription_to_json subs))]) sv
      | Inl _ \<Rightarrow> reject ev req InternalError sv))"

definition handle_enable_subscription ::
    "env \<Rightarrow> caller \<Rightarrow> string option \<Rightarrow> string option \<Rightarrow> server \<Rightarrow> frame \<times> server" where
  "handle_enable_subscription ev c req payload sv =
     (case payload of None \<Rightarrow> reject ev req InvalidPayload sv
      | Some subscription_id \<Rightarrow>
     (case get_subscription (ev_fault ev 0) subscription_id (sv_store sv) of
        Inl _ \<Rightarrow> reject ev req InternalError sv
      | Inr None \<Rightarrow> reject ev req AccessDenied sv
      | Inr (Some row) \<Rightarrow>
          let sub = sr_sub row in
          if sr_owner_key row \<noteq> ca_api_key c then reject ev req AccessDenied sv
          else
     (case set_subscription_status (ev_fault ev 1) (sub_subscription_id sub) ''active'' (Some 0) (sv_store sv) of
        (Inl _, s) \<Rightarrow> reject ev req InternalError (sv\<lparr>sv_store := s\<rparr>)
      | (Inr _, s) \<Rightarrow>
          let s = (case get_history_filtered (ev_fault ev 2) (sub_room_id sub) 1000 None None
                           (Some (sub_last_delivered_seq sub)) s of
                     Inl _ \<Rightarrow> s
                   | Inr backlog \<Rightarrow> enqueue_backlog (ev_fault ev) (ev_uid ev) 3 (ev_utc ev 0) sub backlog s)
          in answer ev req (JObj [(''subscription_id'', JStr (sub_subscription_id sub)),
                                  (''status'', JStr ''active'')]) (sv\<lparr>sv_store := s\<rparr>))))"

subsection \<open>Invites\<close>

definition generate_invite_token :: "env \<Rightarrow> string" where
  "generate_invite_token ev = ''cinv_'' @ ev_token ev"

definition open_invite ::
    "config \<Rightarrow> env \<Rightarrow> caller \<Rightarrow> string option \<Rightarrow> create_invite_payload option \<Rightarrow> server
     \<Rightarrow> (frame + room \<times> bool) \<times> server" where
  "open_invite cfg ev c req payload sv =
     (let stop = (\<lambda>code sv. (Inl (fst (reject ev req code sv)), sv)) in
      case payload of None \<Rightarrow> stop InvalidPayload sv
      | Some p \<Rightarrow>
     (case authorize_room (ev_fault ev 0) (ci_room_id p) (ca_api_key c) (cf_no_auth cfg) (sv_store sv) of
        Inl code \<Rightarrow> stop code sv
      | Inr room \<Rightarrow>
     (case create_invite (ev_fault ev 1) (ev_hash ev (generate_invite_token ev)) (rm_room_id room)
             (ca_api_key c) (ci_single_use p) (sv_store sv) of
        (Inl _, s) \<Rightarrow> stop InternalError (sv\<lparr>sv_store := s\<rparr>)
      | (Inr _, s) \<Rightarrow> (Inr (room, ci_single_use p), sv\<lparr>sv_store := s\<rparr>))))"

definition finish_invite :: "env \<Rightarrow> string option \<Rightarrow> room \<Rightarrow> bool \<Rightarrow> server \<Rightarrow> frame \<times> server" where
  "finish_invite ev req room single_use sv =
     (case is_room_destroyed (ev_instant ev 0) (rm_room_id room) (sv_broker sv) of
        (True, b) \<Rightarrow> reject ev req RoomNotFound
          (sv\<lparr>sv_broker := b,
             sv_store := snd (delete_room_artifacts (ev_fault ev 2) (rm_room_id room) (sv_store sv))\<rparr>)
      | (False, b) \<Rightarrow> answer ev req (invite_info_to_json
          \<lparr>ii_token = generate_invite_token ev, ii_room_id = rm_room_id room, ii_room_name = rm_name room,
           ii_single_use = single_use\<rparr>) (sv\<lparr>sv_broker := b\<rparr>))"

definition handle_create_invite ::
    "config \<Rightarrow> env \<Rightarrow> caller \<Rightarrow> string option \<Rightarrow> create_invite_payload option \<Rightarrow> server \<Rightarrow> frame \<times> server" where
  "handle_create_invite cfg ev c req payload sv =
     (case open_invite cfg ev c req payload sv of
        (Inl reply, sv) \<Rightarrow> (reply, sv)
      | (Inr (room, single_use), sv) \<Rightarrow> finish_invite ev req room single_use sv)"

definition handle_revoke_invite ::
    "config \<Rightarrow> env \<Rightarrow> caller \<Rightarrow> string option \<Rightarrow> string option \<Rightarrow> server \<Rightarrow> frame \<times> server" where
  "handle_revoke_invite cfg ev c req payload sv =
     (case payload of None \<Rightarrow> reject ev req InvalidPayload sv
      | Some token \<Rightarrow>
     (case get_invite (ev_fault ev 0) (ev_hash ev token) (sv_store sv) of
        Inl _ \<Rightarrow> reject ev req InternalError sv
      | Inr None \<Rightarrow> reject ev req InviteNotFound sv
      | Inr (Some invite) \<Rightarrow>
          let is_creator = (ir_created_by_key invite = ca_api_key c);
              is_room_owner = (case get_room (ev_fault ev 1) (ir_room_id invite) (sv_store sv) of
                 Inr (Some room) \<Rightarrow> matches_room_owner (rm_owner_key room) (ca_api_key c) (cf_no_auth cfg)
               | _ \<Rightarrow> False)
          in if \<not> cf_no_auth cfg \<and> \<not> is_creator \<and> \<not> is_room_owner then reject ev req AccessDenied sv
             else case revoke_invite (ev_fault ev 2) (ev_hash ev token) (sv_store sv) of
               (Inr True, s) \<Rightarrow> answer ev req (JObj [(''revoked'', JBool True),
                                  (''room_id'', JStr (ir_room_id invite))]) (sv\<lparr>sv_store := s\<rparr>)
             | (Inr False, s) \<Rightarrow> reject ev req InviteNotFound (sv\<lparr>sv_store := s\<rparr>)
             | (Inl _, s) \<Rightarrow> reject ev req InternalError (sv\<lparr>sv_store := s\<rparr>)))"

end
