(* ===== verification/Dispatch.thy ===== *)
theory Dispatch
  imports Handle_Rooms Handle_Messages Handle_Votes Handle_Hooks
begin

text \<open>
  \<open>handle_frame\<close> of \<open>handler.rs\<close>: one frame of a registered agent in, one reply out. What serde does
  with a payload is a record of functions, one for each payload type; a payload with a single field
  is that field. The reply \<open>None\<close> is a panic.
\<close>

record decoder =
  de_create_room :: "json \<Rightarrow> create_room_payload option"
  de_join_room :: "json \<Rightarrow> string option"
  de_leave_room :: "json \<Rightarrow> string option"
  de_rename_room :: "json \<Rightarrow> rename_room_payload option"
  de_destroy_room :: "json \<Rightarrow> string option"
  de_send_message :: "json \<Rightarrow> send_message_payload option"
  de_get_history :: "json \<Rightarrow> get_history_payload option"
  de_list_rooms :: "json \<Rightarrow> string option option"
  de_list_agents :: "json \<Rightarrow> string option option"
  de_room_info :: "json \<Rightarrow> string option"
  de_room_tip :: "json \<Rightarrow> string option"
  de_create_vote :: "json \<Rightarrow> create_vote_payload option"
  de_cast_vote :: "json \<Rightarrow> cast_vote_payload option"
  de_get_vote_status :: "json \<Rightarrow> string option"
  de_list_votes :: "json \<Rightarrow> list_votes_payload option"
  de_elect_leader :: "json \<Rightarrow> string option"
  de_decline_election :: "json \<Rightarrow> string option"
  de_decision :: "json \<Rightarrow> decision_payload option"
  de_set_typing :: "json \<Rightarrow> set_typing_payload option"
  de_set_presence :: "json \<Rightarrow> set_presence_payload option"
  de_thinking :: "json \<Rightarrow> thinking_payload option"
  de_subscribe :: "json \<Rightarrow> subscribe_payload option"
  de_unsubscribe :: "json \<Rightarrow> string option"
  de_list_subscriptions :: "json \<Rightarrow> string option option"
  de_enable_subscription :: "json \<Rightarrow> string option"
  de_create_invite :: "json \<Rightarrow> create_invite_payload option"
  de_revoke_invite :: "json \<Rightarrow> string option"
  de_assign_task :: "json \<Rightarrow> assign_task_payload option"
  de_update_task :: "json \<Rightarrow> update_task_payload option"
  de_list_tasks :: "json \<Rightarrow> list_tasks_payload option"

definition handle_frame ::
    "config \<Rightarrow> decoder \<Rightarrow> env \<Rightarrow> caller \<Rightarrow> frame \<Rightarrow> server \<Rightarrow> frame option \<times> server" where
  "handle_frame cfg de ev c f sv =
     (let req = f_id f; p = f_payload f in
      case f_type f of
        CreateVote \<Rightarrow> handle_create_vote ev c req (de_create_vote de p) sv
      | t \<Rightarrow> apfst Some (case t of
          Ping \<Rightarrow> (frame_pong (ev_uid ev 0) req, sv)
        | CreateRoom \<Rightarrow> handle_create_room cfg ev c req (de_create_room de p) sv
        | JoinRoom \<Rightarrow> handle_join_room cfg ev c req (de_join_room de p) sv
        | LeaveRoom \<Rightarrow> handle_leave_room ev c req (de_leave_room de p) sv
        | RenameRoom \<Rightarrow> handle_rename_room cfg ev c req (de_rename_room de p) sv
        | DestroyRoom \<Rightarrow> handle_destroy_room cfg ev c req (de_destroy_room de p) sv
        | SendMessage \<Rightarrow> handle_send_message cfg ev c req (de_send_message de p) sv
        | GetHistory \<Rightarrow> handle_get_history cfg ev c req (de_get_history de p) sv
        | ListRooms \<Rightarrow> handle_list_rooms cfg ev c req (de_list_rooms de p) sv
        | ListAgents \<Rightarrow> handle_list_agents cfg ev c req (de_list_agents de p) sv
        | RoomInfo \<Rightarrow> handle_room_info cfg ev c req (de_room_info de p) sv
        | RoomTip \<Rightarrow> handle_room_tip cfg ev c req (de_room_tip de p) sv
        | CastVote \<Rightarrow> handle_cast_vote ev c req (de_cast_vote de p) sv
        | GetVoteStatus \<Rightarrow> handle_get_vote_status cfg ev c req (de_get_vote_status de p) sv
        | ListVotes \<Rightarrow> handle_list_votes cfg ev c req (de_list_votes de p) sv
        | ElectLeader \<Rightarrow> handle_elect_leader ev c req (de_elect_leader de p) sv
        | DeclineElection \<Rightarrow> handle_decline_election ev c req (de_decline_election de p) sv
        | Decision \<Rightarrow> handle_decision ev c req (de_decision de p) sv
        | SetTyping \<Rightarrow> handle_set_typing ev c req (de_set_typing de p) sv
        | SetPresence \<Rightarrow> handle_set_presence ev c req (de_set_presence de p) sv
        | Thinking \<Rightarrow> handle_thinking cfg ev c req (de_thinking de p) sv
        | Subscribe \<Rightarrow> handle_subscribe cfg ev c req (de_subscribe de p) sv
        | Unsubscribe \<Rightarrow> handle_unsubscribe ev c req (de_unsubscribe de p) sv
        | ListSubscriptions \<Rightarrow> handle_list_subscriptions ev c req (de_list_subscriptions de p) sv
        | EnableSubscription \<Rightarrow> handle_enable_subscription ev c req (de_enable_subscription de p) sv
        | CreateInvite \<Rightarrow> handle_create_invite cfg ev c req (de_create_invite de p) sv
        | RevokeInvite \<Rightarrow> handle_revoke_invite cfg ev c req (de_revoke_invite de p) sv
        | AssignTask \<Rightarrow> handle_assign_task ev c req (de_assign_task de p) sv
        | UpdateTask \<Rightarrow> handle_update_task ev c req (de_update_task de p) sv
        | ListTasks \<Rightarrow> handle_list_tasks cfg ev c req (de_list_tasks de p) sv
        | _ \<Rightarrow> reject ev req InvalidPayload sv))"

end
