(* ===== verification/Sessions.thy ===== *)
theory Sessions
  imports Dispatch
begin

text \<open>
  The life of a connection (\<open>connection_loop\<close> in \<open>server.rs\<close>): registration with its checks, the
  reclaim of a stash and the takeover of a live connection, the first frames that are written, the
  frames of a registered agent, and the cleanup at the end.

  A connection is split where it waits for its peer: \<open>register\<close> runs up to the hand-over of the first
  frames to the writer, \<open>registration_failed\<close> and \<open>registration_written\<close> are what follows when the
  writer reports, \<open>connection_frame\<close> is one round of the loop, \<open>disconnect\<close> the cleanup. The
  timeouts, the heartbeat, and the bytes on the wire are not modelled.
\<close>

subsection \<open>Helpers\<close>

definition accessible_room :: "bool \<Rightarrow> string \<Rightarrow> string \<Rightarrow> bool \<Rightarrow> store \<Rightarrow> room option" where
  "accessible_room fault room_id api_key no_auth s =
     (case get_room fault room_id s of
        Inr (Some room) \<Rightarrow> if can_access_room room api_key no_auth s then Some room else None
      | _ \<Rightarrow> None)"

text \<open>\<open>tcp_connection_allows_keyless\<close>, with \<open>is_loopback\<close> of the peer address as an argument.\<close>

definition tcp_connection_allows_keyless :: "bool \<Rightarrow> bool \<Rightarrow> bool" where
  "tcp_connection_allows_keyless allow_keyless_local is_loopback \<longleftrightarrow> allow_keyless_local \<and> is_loopback"

text \<open>\<open>retain\<close> with a check that calls the store; the \<open>j\<close>-th check may fail.\<close>

definition retain_indexed :: "(nat \<Rightarrow> 'a \<Rightarrow> bool) \<Rightarrow> 'a list \<Rightarrow> 'a list" where
  "retain_indexed P xs = map snd (filter (\<lambda>(j, x). P j x) (enumerate 0 xs))"

definition accessible_frames :: "(nat \<Rightarrow> bool) \<Rightarrow> string \<Rightarrow> bool \<Rightarrow> store \<Rightarrow> frame list \<Rightarrow> frame list" where
  "accessible_frames fault api_key no_auth s fs =
     retain_indexed (\<lambda>j f. case frame_room_id f of
         Some r \<Rightarrow> accessible_room (fault j) r api_key no_auth s \<noteq> None | None \<Rightarrow> True) fs"

definition accessible_rooms :: "(nat \<Rightarrow> bool) \<Rightarrow> string \<Rightarrow> bool \<Rightarrow> store \<Rightarrow> string list \<Rightarrow> string list" where
  "accessible_rooms fault api_key no_auth s rs =
     retain_indexed (\<lambda>j r. accessible_room (fault j) r api_key no_auth s \<noteq> None) rs"

subsection \<open>Admission\<close>

text \<open>A connection that is being registered, and how a registration frame is refused: with the
  connection open for another attempt, or closed.\<close>

record session =
  se_agent_id :: string
  se_name :: string
  se_session_id :: string
  se_api_key :: string

datatype refusal = Retry error_code | Hang_Up error_code

definition authenticated ::
    "bool \<Rightarrow> bool \<Rightarrow> string \<Rightarrow> bool \<Rightarrow> string \<Rightarrow> store \<Rightarrow> bool" where
  "authenticated no_auth allow_keyless server_key fault key s \<longleftrightarrow>
     no_auth \<or> (allow_keyless \<and> key = [])
     \<or> (key \<noteq> [] \<and> (key = server_key
         \<or> (case validate_api_key fault key s of Inr valid \<Rightarrow> valid | Inl _ \<Rightarrow> False)))"

text \<open>The checks before the lifecycle guard: protocol, key, agent limit, identity.\<close>

definition register_checks ::
    "config \<Rightarrow> bool \<Rightarrow> string \<Rightarrow> env \<Rightarrow> register_payload option \<Rightarrow> server
     \<Rightarrow> (refusal + register_payload \<times> string) \<times> server" where
  "register_checks cfg allow_keyless server_key ev payload sv =
     (case payload of None \<Rightarrow> (Inl (Retry InvalidPayload), sv)
      | Some p \<Rightarrow>
          let client_protocol = (case rp_protocol_version p of Some v \<Rightarrow> v | None \<Rightarrow> 1);
              key = rp_key p;
              no_auth = cf_no_auth cfg
          in if \<not> (MIN_SUPPORTED_PROTOCOL \<le> client_protocol \<and> client_protocol \<le> PROTOCOL_VERSION)
             then (Inl (Hang_Up UnsupportedProtocol), sv)
             else if \<not> authenticated no_auth allow_keyless server_key (ev_fault ev 0) key (sv_store sv)
             then (Inl (Hang_Up Unauthorized), sv)
             else
               let (ok, rl) = (if \<not> no_auth \<and> key \<noteq> []
                     then check_agent_limit (ev_instant ev 0) key (limits_of_key (ev_fault ev 1) key (sv_store sv)) (sv_limits sv)
                     else (True, sv_limits sv));
                   sv = sv\<lparr>sv_limits := rl\<rparr>
               in if \<not> ok then (Inl (Hang_Up RateLimitAgents), sv)
                  else
                    let agent_id = (case rp_agent_id p of Some a \<Rightarrow> a | None \<Rightarrow> ev_uid ev 1) in
                    if \<not> no_auth \<and> key \<noteq> [] \<and> rp_agent_id p \<noteq> None
                    then (case claim_agent_identity (ev_fault ev 2) agent_id key (sv_store sv) of
                            (Inr True, s) \<Rightarrow> (Inr (p, agent_id), sv\<lparr>sv_store := s\<rparr>)
                          | (Inr False, s) \<Rightarrow> (Inl (Retry AgentIdTaken), sv\<lparr>sv_store := s\<rparr>)
                          | (Inl _, s) \<Rightarrow> (Inl (Retry InternalError), sv\<lparr>sv_store := s\<rparr>))
                    else (Inr (p, agent_id), sv))"

text \<open>The decision under the guard: reclaim a stash, take over a live connection, or install a new
  one. \<open>af i\<close> are the failures of the store calls of the \<open>i\<close>-th \<open>retain\<close>.\<close>

record claim =
  cl_rooms :: "string list option"
  cl_takeover :: "string list option"
  cl_lease :: "reclaim_lease option"

definition register_claim ::
    "config \<Rightarrow> env \<Rightarrow> (nat \<Rightarrow> nat \<Rightarrow> bool) \<Rightarrow> register_payload \<Rightarrow> string \<Rightarrow> server \<Rightarrow> (refusal + claim) \<times> server" where
  "register_claim cfg ev af p agent_id sv =
     (let key = rp_key p; no_auth = cf_no_auth cfg;
          (reclaimed, rm) = (if rp_reconnect p
             then begin_reclaim (ev_instant ev 1) (ev_uid ev 2) agent_id key no_auth (sv_reconnect sv)
             else (Inr None, sv_reconnect sv));
          sv = sv\<lparr>sv_reconnect := rm\<rparr>
      in case reclaimed of
           Inl _ \<Rightarrow> (Inl (Retry AgentIdTaken), sv)
         | Inr (Some lease) \<Rightarrow>
             let rooms = (case lease_snapshot lease rm of Some st \<Rightarrow> sa_rooms st | None \<Rightarrow> [])
             in (Inr \<lparr>cl_rooms = Some (accessible_rooms (af 0) key no_auth (sv_store sv) rooms),
                      cl_takeover = None, cl_lease = Some lease\<rparr>, sv)
         | Inr None \<Rightarrow>
             (case map_of (agents (sv_broker sv)) agent_id of
                None \<Rightarrow> (Inr \<lparr>cl_rooms = None, cl_takeover = None, cl_lease = None\<rparr>, sv)
              | Some existing \<Rightarrow>
                  if rp_reconnect p
                  then if \<not> no_auth \<and> ac_api_key existing \<noteq> key then (Inl (Retry AgentIdTaken), sv)
                       else (Inr \<lparr>cl_rooms = None,
                                  cl_takeover = Some (accessible_rooms (af 1) key no_auth (sv_store sv)
                                    (rooms_for_agent agent_id (sv_broker sv))),
                                  cl_lease = None\<rparr>, sv)
                  else (Inl (Retry AgentIdTaken), sv)))"

subsection \<open>Installation\<close>

definition new_connection :: "env \<Rightarrow> register_payload \<Rightarrow> string \<Rightarrow> string \<Rightarrow> agent_conn" where
  "new_connection ev p agent_id session_id =
     \<lparr>ac_info = \<lparr>ai_agent_id = agent_id, ai_name = rp_name p, ai_capabilities = rp_capabilities p,
        ai_connected_at = Some (ev_utc ev 1), ai_last_active = Some (ev_utc ev 2),
        ai_status = Some ''idle'', ai_status_detail = None, ai_progress = None\<rparr>,
      ac_session_id = session_id, ac_outbox = [], ac_closed = False, ac_disconnect = False,
      ac_api_key = rp_key p\<rparr>"

definition rejoined_event :: "string \<Rightarrow> string \<Rightarrow> string \<Rightarrow> string \<Rightarrow> frame" where
  "rejoined_event uid room_id agent_id name =
     frame_event uid AgentJoined (JObj [(''room_id'', JStr room_id),
       (''agent'', JObj [(''agent_id'', JStr agent_id), (''name'', JStr name)]),
       (''reconnected'', JBool True)])"

text \<open>The joins of a takeover, and the joins of a reconnect with their events. Result: the rooms restored.\<close>

definition rejoin :: "env \<Rightarrow> (nat \<Rightarrow> bool) \<Rightarrow> string \<Rightarrow> string \<Rightarrow> bool \<Rightarrow> store \<Rightarrow> nat \<times> string \<Rightarrow> broker
    \<Rightarrow> string option option \<times> broker" where
  "rejoin ev fault agent_id key no_auth s j_room b =
     (case j_room of (j, room_id) \<Rightarrow>
        join_room (ev_instant ev (2 + j)) agent_id room_id
          (accessible_room (fault j) room_id key no_auth s \<noteq> None) b)"

fun restore_rooms ::
    "env \<Rightarrow> (nat \<Rightarrow> bool) \<Rightarrow> string \<Rightarrow> string \<Rightarrow> string \<Rightarrow> bool \<Rightarrow> store \<Rightarrow> (nat \<times> string) list \<Rightarrow> broker
     \<Rightarrow> string list \<times> broker" where
  "restore_rooms ev fault agent_id name key no_auth s [] b = ([], b)"
| "restore_rooms ev fault agent_id name key no_auth s ((j, room_id) # rs) b =
     (case rejoin ev fault agent_id key no_auth s (j, room_id) b of
        (None, b) \<Rightarrow> restore_rooms ev fault agent_id name key no_auth s rs b
      | (Some _, b) \<Rightarrow>
          let b = broadcast_to_room room_id agent_id (rejoined_event (ev_uid ev (4 + j)) room_id agent_id name) b;
              (restored, b) = restore_rooms ev fault agent_id name key no_auth s rs b
          in (room_id # restored, b))"

definition install ::
    "config \<Rightarrow> env \<Rightarrow> (nat \<Rightarrow> nat \<Rightarrow> bool) \<Rightarrow> register_payload \<Rightarrow> string \<Rightarrow> string \<Rightarrow> claim \<Rightarrow> server
     \<Rightarrow> string list \<times> server" where
  "install cfg ev af p agent_id session_id cl sv =
     (let key = rp_key p; no_auth = cf_no_auth cfg; b = sv_broker sv;
          b = b\<lparr>agents := dm_insert agent_id (new_connection ev p agent_id session_id) (agents b)\<rparr>;
          b = (case cl_takeover cl of
                 None \<Rightarrow> b
               | Some rooms \<Rightarrow> fold (\<lambda>jr b. snd (rejoin ev (af 2) agent_id key no_auth (sv_store sv) jr b))
                                 (enumerate 0 rooms) b);
          (restored, b) = (case cl_rooms cl of
                 None \<Rightarrow> ([], b)
               | Some rooms \<Rightarrow> restore_rooms ev (af 3) agent_id (rp_name p) key no_auth (sv_store sv)
                                 (enumerate 0 rooms) b)
      in (restored, sv\<lparr>sv_broker := b\<rparr>))"

definition register_reply ::
    "string \<Rightarrow> string option \<Rightarrow> register_payload \<Rightarrow> string \<Rightarrow> string list option \<Rightarrow> frame list \<Rightarrow> frame" where
  "register_reply uid req p agent_id restored missed =
     frame_ok uid req (JObj
       ([(''agent_id'', JStr agent_id), (''name'', JStr (rp_name p)),
         (''protocol_version'', JInt (int PROTOCOL_VERSION))]
        @ (case restored of
             None \<Rightarrow> []
           | Some rooms \<Rightarrow> [(''reconnected'', JBool True), (''rooms'', json_strs (sort rooms)),
                            (''missed_messages'', JInt (int (length missed)))])))"

text \<open>Everything up to the hand-over of the first frames: the refusal, or the session, the first frames
  and the lease that is still open.\<close>

definition register ::
    "config \<Rightarrow> bool \<Rightarrow> string \<Rightarrow> env \<Rightarrow> (nat \<Rightarrow> nat \<Rightarrow> bool) \<Rightarrow> string option \<Rightarrow> register_payload option \<Rightarrow> server
     \<Rightarrow> (refusal + session \<times> frame list \<times> reclaim_lease option) \<times> server" where
  "register cfg allow_keyless server_key ev af req payload sv =
     (case register_checks cfg allow_keyless server_key ev payload sv of
        (Inl r, sv) \<Rightarrow> (Inl r, sv)
      | (Inr (p, agent_id), sv) \<Rightarrow>
     (case register_claim cfg ev af p agent_id sv of
        (Inl r, sv) \<Rightarrow> (Inl r, sv)
      | (Inr cl, sv) \<Rightarrow>
          let key = rp_key p; no_auth = cf_no_auth cfg; session_id = ev_uid ev 3;
              sv = sv\<lparr>sv_limits := (if key \<noteq> [] then add_agent (ev_instant ev 2) key (sv_limits sv) else sv_limits sv),
                      sv_store := snd (record_session_start (ev_fault ev 3) (ev_utc ev 0) session_id agent_id
                                         (rp_name p) (rp_capabilities p) (sv_store sv))\<rparr>;
              (restored, sv) = install cfg ev af p agent_id session_id cl sv;
              missed = (case Option.bind (cl_lease cl) (\<lambda>l. lease_snapshot l (sv_reconnect sv)) of
                          Some st \<Rightarrow> sa_missed_messages st | None \<Rightarrow> []);
              missed = accessible_frames (af 4) key no_auth (sv_store sv) missed;
              restored = retain_indexed (\<lambda>j r. is_agent_in_room agent_id r (sv_broker sv)
                           \<and> accessible_room (af 5 j) r key no_auth (sv_store sv) \<noteq> None) restored;
              reply = register_reply (ev_uid ev 0) req p agent_id
                        (if cl_rooms cl \<noteq> None then Some restored else None) missed
          in (Inr (\<lparr>se_agent_id = agent_id, se_name = rp_name p, se_session_id = session_id, se_api_key = key\<rparr>,
                   reply # missed, cl_lease cl), sv)))"

subsection \<open>After the first write\<close>

definition owns_entry :: "session \<Rightarrow> broker \<Rightarrow> bool" where
  "owns_entry se b \<longleftrightarrow>
     (case map_of (agents b) (se_agent_id se) of
        Some c \<Rightarrow> ac_session_id c = se_session_id se | None \<Rightarrow> False)"

definition registration_failed :: "env \<Rightarrow> session \<Rightarrow> reclaim_lease option \<Rightarrow> server \<Rightarrow> server" where
  "registration_failed ev se lease sv =
     (let b = sv_broker sv;
          b = (if owns_entry se b
               then snd (leave_rooms (ev_instant ev 0) (se_agent_id se)
                      (rooms_for_agent (se_agent_id se) b)
                      (b\<lparr>agents := dm_remove (se_agent_id se) (agents b)\<rparr>))
               else b)
      in sv\<lparr>sv_broker := b,
            sv_limits := (if se_api_key se \<noteq> [] then remove_agent (se_api_key se) (sv_limits sv) else sv_limits sv),
            sv_store := snd (record_session_end (ev_fault ev 0) (ev_utc ev 0) (se_session_id se) (sv_store sv)),
            sv_reconnect := (case lease of Some l \<Rightarrow> lease_drop l (sv_reconnect sv) | None \<Rightarrow> sv_reconnect sv)\<rparr>)"

text \<open>\<open>tx.send(frame).await\<close> waits for room in the channel of the session, which is gone once the entry
  belongs to another session.\<close>

definition queue_frame :: "session \<Rightarrow> frame \<Rightarrow> broker \<Rightarrow> broker" where
  "queue_frame se f b =
     (case map_of (agents b) (se_agent_id se) of
        None \<Rightarrow> b
      | Some c \<Rightarrow> if ac_session_id c = se_session_id se \<and> \<not> ac_closed c
                  then b\<lparr>agents := dm_insert (se_agent_id se) (c\<lparr>ac_outbox := ac_outbox c @ [f]\<rparr>) (agents b)\<rparr>
                  else b)"

definition registration_written ::
    "config \<Rightarrow> (nat \<Rightarrow> bool) \<Rightarrow> session \<Rightarrow> frame list \<Rightarrow> reclaim_lease option \<Rightarrow> server \<Rightarrow> server" where
  "registration_written cfg fault se replayed lease sv =
     (case lease of None \<Rightarrow> sv
      | Some l \<Rightarrow>
     (case lease_commit l (sv_reconnect sv) of
        (None, rm) \<Rightarrow> sv\<lparr>sv_reconnect := rm\<rparr>
      | (Some st, rm) \<Rightarrow>
          let replayed_ids = List.map_filter f_id replayed;
              rest = filter (\<lambda>f. case f_id f of Some i \<Rightarrow> i \<notin> set replayed_ids | None \<Rightarrow> True) (sa_missed_messages st);
              rest = accessible_frames fault (se_api_key se) (cf_no_auth cfg) (sv_store sv) rest
          in sv\<lparr>sv_reconnect := rm, sv_broker := fold (queue_frame se) rest (sv_broker sv)\<rparr>))"

subsection \<open>Frames and the end\<close>

definition caller_of :: "session \<Rightarrow> caller" where
  "caller_of se = \<lparr>ca_agent_id = se_agent_id se, ca_agent_name = se_name se, ca_api_key = se_api_key se\<rparr>"

text \<open>A panic ends the task of the connection without its cleanup.\<close>

definition connection_frame ::
    "config \<Rightarrow> decoder \<Rightarrow> env \<Rightarrow> session \<Rightarrow> frame \<Rightarrow> server \<Rightarrow> server" where
  "connection_frame cfg de ev se f sv =
     (if f_type f = Pong then sv
      else case handle_frame cfg de ev (caller_of se) f sv of
        (None, sv) \<Rightarrow> sv
      | (Some reply, sv) \<Rightarrow> sv\<lparr>sv_broker := queue_frame se reply (sv_broker sv)\<rparr>)"

text \<open>The cleanup of one room.\<close>

definition leave_on_disconnect :: "env \<Rightarrow> string \<Rightarrow> nat \<times> string \<Rightarrow> server \<Rightarrow> server" where
  "leave_on_disconnect ev agent_id j_room sv =
     (case j_room of (j, room_id) \<Rightarrow>
        let (outcome, b) = leave_room (ev_instant ev (1 + j)) agent_id room_id (sv_broker sv);
            event = agent_left_event (ev_uid ev (2 * j)) room_id agent_id;
            b = broadcast_to_room_all room_id event b;
            rm = fold (\<lambda>sid rm. if sid \<noteq> agent_id then buffer_message (ev_instant ev (1 + j)) sid event rm else rm)
                   (stashed_members_of_room room_id (sv_reconnect sv)) (sv_reconnect sv);
            b = (if lo_holder_changed outcome \<and> \<not> lo_now_empty outcome
                 then broadcast_turn_changed (ev_uid ev (2 * j + 1)) room_id ''disconnected'' b else b)
        in sv\<lparr>sv_broker := b, sv_reconnect := rm\<rparr>)"

definition disconnect :: "env \<Rightarrow> session \<Rightarrow> server \<Rightarrow> server" where
  "disconnect ev se sv =
     (let sv = sv\<lparr>sv_limits := (if se_api_key se \<noteq> [] then remove_agent (se_api_key se) (sv_limits sv)
                                else sv_limits sv)\<rparr>;
          finish = (\<lambda>sv. sv\<lparr>sv_store := snd (record_session_end (ev_fault ev 0) (ev_utc ev 0)
                                              (se_session_id se) (sv_store sv))\<rparr>)
      in if \<not> owns_entry se (sv_broker sv) then finish sv
         else
           let a = se_agent_id se;
               rooms = rooms_for_agent a (sv_broker sv);
               sv = (if rooms = [] then sv
                     else sv\<lparr>sv_reconnect := stash (ev_instant ev 0) a (se_name se) (se_api_key se) rooms (sv_reconnect sv)\<rparr>);
               sv = fold (leave_on_disconnect ev a) (enumerate 0 rooms) sv;
               (vm, b) = clear_leader_if_agent (ev_uid ev (2 * length rooms)) a (sv_votes sv) (sv_broker sv);
               b = (if owns_entry se b then b\<lparr>agents := dm_remove a (agents b)\<rparr> else b)
           in finish (sv\<lparr>sv_votes := vm, sv_broker := b\<rparr>))"

end
