(* ===== verification/Confinement.thy ===== *)
theory Confinement
  imports Sessions
begin

text \<open>
  Who may see what: which agents a step delivers frames to, and the invariant that every member of a
  room is a connected agent whose key may access the room. The lemmas of this theory state for every
  broker operation and every handler that it delivers frames about a room only to agents that may
  access the room, and that it keeps the invariant.
\<close>

subsection \<open>Access on the level of rows\<close>

definition allowed :: "bool \<Rightarrow> store \<Rightarrow> string \<Rightarrow> string \<Rightarrow> bool" where
  "allowed no_auth s key room_id \<longleftrightarrow>
     (case room_find room_id s of None \<Rightarrow> False
      | Some row \<Rightarrow> can_access_room (map_room_row row) key no_auth s)"

text \<open>What access and ownership rest on: the rooms' visibility and owners, the grants, the identities.\<close>

definition access_view :: "store \<Rightarrow> (string \<times> string \<times> string option) list \<times> (string, string set) dashmap
    \<times> identity_row list" where
  "access_view s = (map (\<lambda>r. (rr_room_id r, rr_visibility r, rm_owner_key (map_room_row r))) (db_rooms s),
     grants_cache s, db_identities s)"

lemma find_view:
  assumes "map g xs = map g ys" "\<And>x y. g x = g y \<Longrightarrow> P x = P y"
  shows "map_option g (find P xs) = map_option g (find P ys)"
  using assms(1)
proof (induction xs arbitrary: ys)
  case (Cons x xs)
  then obtain y ys' where ys: "ys = y # ys'" "g x = g y" "map g xs = map g ys'" by auto
  with assms(2) [OF ys(2)] Cons.IH [OF ys(3)] show ?case by simp
qed simp

lemma allowed_view: "access_view s = access_view s' \<Longrightarrow> allowed na s k r = allowed na s' k r"
proof -
  assume v: "access_view s = access_view s'"
  let ?g = "\<lambda>r. (rr_room_id r, rr_visibility r, rm_owner_key (map_room_row r))"
  have "map_option ?g (room_find r s) = map_option ?g (room_find r s')"
    unfolding room_find_def row_find_def using v by (intro find_view) (auto simp: access_view_def)
  moreover have "grants_cache s = grants_cache s'" using v by (simp add: access_view_def)
  ultimately show ?thesis
    by (cases "room_find r s"; cases "room_find r s'")
       (auto simp: allowed_def can_access_room_def key_has_grant_def cached_grants_def)
qed

lemma authorize_allowed: "authorize_room f r k na s = Inr room \<Longrightarrow> allowed na s k r \<and> rm_room_id room = r"
  by (auto simp: authorize_room_def allowed_def get_room_def query_room_by_id_def dest: room_find_SomeD
      split: sum.splits option.splits if_splits)

lemma accessible_allowed: "accessible_room f r k na s = Some room \<Longrightarrow> allowed na s k r"
  by (auto simp: accessible_room_def allowed_def get_room_def query_room_by_id_def
      split: sum.splits option.splits if_splits)

lemma allowed_exists: "allowed na s k r \<Longrightarrow> room_exists r s"
  using room_find_exists [of r s] by (auto simp: allowed_def split: option.splits)

subsection \<open>Deliveries\<close>

definition key_of :: "broker \<Rightarrow> string \<Rightarrow> string option" where
  "key_of b a = map_option ac_api_key (map_of (agents b) a)"

definition session_of :: "broker \<Rightarrow> string \<Rightarrow> string option" where
  "session_of b a = map_option ac_session_id (map_of (agents b) a)"

definition delivers :: "(string \<Rightarrow> frame \<Rightarrow> bool) \<Rightarrow> broker \<Rightarrow> broker \<Rightarrow> bool" where
  "delivers P b b' \<longleftrightarrow> (\<forall>a. key_of b' a = key_of b a \<and> session_of b' a = session_of b a
     \<and> (\<exists>fs. outbox b' a = outbox b a @ fs \<and> (\<forall>f \<in> set fs. P a f)))"

lemma delivers_refl [simp]: "delivers P b b"
  by (simp add: delivers_def)

lemma delivers_trans: "delivers P b b' \<Longrightarrow> delivers P b' b'' \<Longrightarrow> delivers P b b''"
  unfolding delivers_def by (metis (no_types, lifting) append.assoc set_append Un_iff)

lemma delivers_mono: "delivers P b b' \<Longrightarrow> (\<And>a f. key_of b a \<noteq> None \<Longrightarrow> P a f \<Longrightarrow> Q a f) \<Longrightarrow> delivers Q b b'"
proof -
  assume d: "delivers P b b'" and PQ: "\<And>a f. key_of b a \<noteq> None \<Longrightarrow> P a f \<Longrightarrow> Q a f"
  have "\<exists>fs. outbox b' a = outbox b a @ fs \<and> (\<forall>f \<in> set fs. Q a f)" for a
  proof (cases "key_of b a")
    case None
    moreover have "key_of b' a = key_of b a" using d by (simp add: delivers_def)
    ultimately have "outbox b a = []" "outbox b' a = []"
      by (auto simp: key_of_def outbox_def split: option.splits)
    then show ?thesis by simp
  next
    case (Some k)
    with d PQ show ?thesis unfolding delivers_def by (metis option.distinct(1))
  qed
  with d show ?thesis by (simp add: delivers_def)
qed

lemma delivers_keys: "delivers P b b' \<Longrightarrow> key_of b' a = key_of b a"
  by (simp add: delivers_def)

lemma key_of_send [simp]:
  "key_of (send_to_agent a f b) x = key_of b x" "session_of (send_to_agent a f b) x = session_of b x"
  by (auto simp: key_of_def session_of_def send_to_agent_def split: option.splits)

lemma delivers_send: "(key_of b a \<noteq> None \<Longrightarrow> P a f) \<Longrightarrow> delivers P b (send_to_agent a f b)"
  by (auto simp: delivers_def send_outbox can_receive_def key_of_def [of b a] split: option.splits)

lemma delivers_fold:
  "(\<And>x c. x \<in> set xs \<Longrightarrow> delivers P b c \<Longrightarrow> room_members c = room_members b \<Longrightarrow>
      delivers P c (g x c) \<and> room_members (g x c) = room_members c) \<Longrightarrow>
   delivers P b (fold g xs b) \<and> room_members (fold g xs b) = room_members b"
proof (induction xs arbitrary: b)
  case (Cons x xs)
  then have x: "delivers P b (g x b)" "room_members (g x b) = room_members b" by auto
  have "delivers P (g x b) (fold g xs (g x b)) \<and> room_members (fold g xs (g x b)) = room_members (g x b)"
  proof (rule Cons.IH)
    fix y c assume c: "y \<in> set xs" "delivers P (g x b) c" "room_members c = room_members (g x b)"
    then have "delivers P b c" using x(1) delivers_trans by blast
    with c x(2) show "delivers P c (g y c) \<and> room_members (g y c) = room_members c"
      using Cons.prems [of y c] by simp
  qed
  with x show ?case by (auto intro: delivers_trans)
qed simp

text \<open>A frame about a room goes to members of the room.\<close>

definition member_frame :: "broker \<Rightarrow> string \<Rightarrow> frame \<Rightarrow> bool" where
  "member_frame b a f \<longleftrightarrow> (\<forall>r. frame_room_id f = Some r \<longrightarrow> a \<in> set (get_room_members r b))"

lemma members_cong: "room_members c = room_members b \<Longrightarrow> get_room_members r c = get_room_members r b"
  by (simp add: get_room_members_in)

lemma member_frame_cong: "room_members c = room_members b \<Longrightarrow> member_frame c = member_frame b"
  using members_cong [of c b] by (intro ext) (simp add: member_frame_def)

lemma room_members_broadcast [simp]:
  "room_members (broadcast_to_room r x f b) = room_members b"
  "room_members (broadcast_to_room_all r f b) = room_members b"
  "room_members (send_mentions u ms m r b) = room_members b"
proof -
  have 1: "room_members (fold (\<lambda>m b. if P m b then b else send_to_agent m f b) xs b) = room_members b" for P xs
    by (induction xs arbitrary: b) simp_all
  have 2: "room_members (fold (\<lambda>m b. if P m b then send_to_agent m f b else b) xs b) = room_members b" for P xs f
    by (induction xs arbitrary: b) simp_all
  show "room_members (broadcast_to_room r x f b) = room_members b"
    by (simp add: broadcast_to_room_def 1 split: option.split)
  show "room_members (broadcast_to_room_all r f b) = room_members b"
    using 2 [of "\<lambda>_ _. True"] by (simp add: broadcast_to_room_all_def split: option.split)
  show "room_members (send_mentions u ms m r b) = room_members b"
    unfolding send_mentions_def by (rule 2)
qed

lemma delivers_send_all:
  assumes "\<And>m. m \<in> set ms \<Longrightarrow> P m f"
  shows "delivers P b (fold (\<lambda>m b. if m = x then b else send_to_agent m f b) ms b)"
    and "delivers P b (fold (\<lambda>m b. send_to_agent m f b) ms b)"
  by (rule delivers_fold [THEN conjunct1], auto intro!: delivers_send assms)+

lemma delivers_broadcast:
  assumes "frame_room_id f = Some r \<or> frame_room_id f = None"
  shows "delivers (member_frame b) b (broadcast_to_room r x f b)"
    and "delivers (member_frame b) b (broadcast_to_room_all r f b)"
proof -
  have m: "member_frame b a f" if "map_of (room_members b) r = Some ms" "a \<in> set ms" for a ms
    using that assms by (auto simp: member_frame_def get_room_members_def)
  show "delivers (member_frame b) b (broadcast_to_room r x f b)"
    using m by (auto simp: broadcast_to_room_def intro!: delivers_send_all split: option.splits)
  show "delivers (member_frame b) b (broadcast_to_room_all r f b)"
    using m by (auto simp: broadcast_to_room_all_def intro!: delivers_send_all split: option.splits)
qed

lemma delivers_mentions: "delivers (member_frame b) b (send_mentions u ms m r b)"
  unfolding send_mentions_def
proof (intro delivers_fold [THEN conjunct1])
  fix a and c :: broker assume "room_members c = room_members b"
  then have g: "get_room_members r c = get_room_members r b" by (rule members_cong)
  show "delivers (member_frame b) c
          (if is_agent_in_room a r c then send_to_agent a (mention_frame u m r) c else c)
        \<and> room_members (if is_agent_in_room a r c then send_to_agent a (mention_frame u m r) c else c) = room_members c"
    using g by (auto intro!: delivers_send simp: member_frame_def mention_frame_def frame_room_id_def)
qed

subsection \<open>Operations that post to members\<close>

definition posts :: "broker \<Rightarrow> broker \<Rightarrow> bool" where
  "posts b b' \<longleftrightarrow> delivers (member_frame b) b b' \<and> room_members b' = room_members b"

named_theorems posts_intros \<open>broker operations that deliver to members only and change no membership\<close>

lemma posts_refl [simp, posts_intros]: "posts b b"
  by (simp add: posts_def)

lemma posts_trans: "posts b c \<Longrightarrow> posts c d \<Longrightarrow> posts b d"
  unfolding posts_def using member_frame_cong [of c b] by (auto intro: delivers_trans)

lemma delivers_agents: "agents b' = agents b \<Longrightarrow> delivers P b b'"
  by (simp add: delivers_def key_of_def session_of_def outbox_def)

lemma posts_same: "agents b' = agents b \<Longrightarrow> room_members b' = room_members b \<Longrightarrow> posts b b'"
  by (simp add: posts_def delivers_agents)

lemma posts_broadcast [posts_intros]:
  assumes "frame_room_id f = Some r \<or> frame_room_id f = None" "posts b c"
  shows "posts b (broadcast_to_room r x f c)" "posts b (broadcast_to_room_all r f c)"
  by (rule posts_trans [OF assms(2)], simp add: posts_def delivers_broadcast [OF assms(1)])+

lemma posts_mentions [posts_intros]: "posts b c \<Longrightarrow> posts b (send_mentions u ms m r c)"
  by (erule posts_trans) (simp add: posts_def delivers_mentions)

lemma posts_update_info: "posts b (update_info a g b)"
  by (auto simp: posts_def update_info_def delivers_def key_of_def session_of_def outbox_def split: option.splits)

lemma posts_touch [posts_intros]:
  "posts b c \<Longrightarrow> posts b (update_info a g c)" "posts b c \<Longrightarrow> posts b (touch_agent now a c)"
  using posts_update_info by (auto simp: touch_agent_def elim!: posts_trans)

lemma agents_turn_ops [simp]:
  "agents (snd (advance_turn_from r a b)) = agents b"
  "room_members (snd (advance_turn_from r a b)) = room_members b"
  "agents (snd (is_room_destroyed now r b)) = agents b"
  "room_members (snd (is_room_destroyed now r b)) = room_members b"
  "agents (snd (join_room now a r ex b)) = agents b"
  "agents (snd (leave_room now a r b)) = agents b"
  "agents (snd (destroy_room_with now r d b)) = agents b"
  by (auto simp: advance_turn_from_def is_room_destroyed_def join_room_def leave_room_def
      destroy_room_with_def Let_def split: option.splits list.splits sum.splits)

lemma posts_turn_ops [posts_intros]:
  "posts b c \<Longrightarrow> posts b (snd (advance_turn_from r a c))"
  "posts b c \<Longrightarrow> posts b (snd (is_room_destroyed now r c))"
  by (auto elim!: posts_trans intro!: posts_same)

lemma room_id_head [simp]:
  "frame_room_id (frame_event u t (JObj ((''room_id'', JStr r) # kvs))) = Some r"
  by (simp add: frame_room_id_def)

lemma json_get_head: "json_get k (JObj ((k', v) # kvs)) = (if k' = k then Some v else json_get k (JObj kvs))"
  by simp

lemma room_id_json [simp]:
  "json_get ''room_id'' (room_to_json rm) = Some (JStr (rm_room_id rm))"
  "json_get ''room_id'' (chat_message_to_json m) = Some (JStr (cm_room_id m))"
  "json_get ''room_id'' (task_info_to_json t) = Some (JStr (tk_room_id t))"
  "json_get ''room_id'' (vote_info_to_json v) = Some (JStr (vi_room_id v))"
  "json_get ''room_id'' (vote_result_to_json res) = Some (JStr (vr_room_id res))"
  "json_get ''room_id'' (turn_changed_to_json tc) = Some (JStr (tc_room_id tc))"
  by (simp_all add: room_to_json_def chat_message_to_json_def task_info_to_json_def vote_info_to_json_def
      vote_result_to_json_def turn_changed_to_json_def)

lemma frame_room_event [simp]:
  "json_get ''room_id'' p = Some (JStr r) \<Longrightarrow> frame_room_id (frame_event u t p) = Some r"
  by (simp add: frame_room_id_def)

lemma posts_turn_changed [posts_intros]: "posts b c \<Longrightarrow> posts b (broadcast_turn_changed u r why c)"
  unfolding broadcast_turn_changed_def by (rule posts_broadcast(2)) simp_all

lemma wf_update_info [wf_intros]:
  "broker_wf b \<Longrightarrow> broker_wf (update_info a g b)" "broker_wf b \<Longrightarrow> broker_wf (touch_agent now a b)"
proof -
  have "broker_wf b \<Longrightarrow> broker_wf (update_info a g b)" for g
    unfolding update_info_def by (auto split: option.splits intro!: wf_set_agents dest: broker_wfD(1))
  then show "broker_wf b \<Longrightarrow> broker_wf (update_info a g b)" "broker_wf b \<Longrightarrow> broker_wf (touch_agent now a b)"
    by (auto simp: touch_agent_def)
qed

lemma wf_is_destroyed [wf_intros]: "broker_wf b \<Longrightarrow> broker_wf (snd (is_room_destroyed now r b))"
  by (simp add: is_room_destroyed_def Let_def wf_prune)

lemma wf_turn_changed [wf_intros]: "broker_wf b \<Longrightarrow> broker_wf (broadcast_turn_changed u r why b)"
  unfolding broadcast_turn_changed_def by (rule wf_intros)

subsection \<open>What the store says about access\<close>

lemma access_view_eqI:
  "db_rooms s' = db_rooms s \<Longrightarrow> grants_cache s' = grants_cache s \<Longrightarrow> db_identities s' = db_identities s \<Longrightarrow>
   access_view s' = access_view s"
  by (simp add: access_view_def)

lemma view_messages [simp]:
  "access_view (snd (insert_message f now m r a n c rep meta s)) = access_view s"
  "access_view (snd (purge_messages_by_tier f now t age s)) = access_view s"
  by (auto intro!: access_view_eqI simp: insert_message_def insert_message_row_def ensure_sequence_def
      purge_messages_by_tier_def delete_messages_where_def Let_def split: sum.splits if_splits)

lemma view_keys [simp]:
  "access_view (snd (create_api_key f now k l s)) = access_view s"
  "access_view (snd (record_session_start f now sid a n caps s)) = access_view s"
  "access_view (snd (record_session_end f now sid s)) = access_view s"
  "access_view (snd (create_invite f h r k single s)) = access_view s"
  "access_view (snd (redeem_invite f h s)) = access_view s"
  "access_view (snd (revoke_invite f h s)) = access_view s"
  by (auto intro!: access_view_eqI simp: create_api_key_def record_session_start_def record_session_end_def
      create_invite_def redeem_invite_def revoke_invite_def Let_def
      split: if_splits option.splits)

lemma view_votes [simp]:
  "access_view (snd (create_vote f now v r t d os c cl es s)) = access_view s"
  "access_view (snd (cast_ballot f g now v a n i s)) = access_view s"
  "access_view (snd (close_vote f v s)) = access_view s"
  "access_view (snd (save_task f task s)) = access_view s"
  by (auto intro!: access_view_eqI simp: create_vote_def cast_ballot_def close_vote_def save_task_def Let_def
      split: if_splits option.splits)

lemma identities_backlog [simp]:
  "db_identities (snd (enqueue_delivery f d sid n m now s)) = db_identities s"
  "db_identities (enqueue_backlog fault uid j now sub ms s) = db_identities s"
proof -
  show *: "db_identities (snd (enqueue_delivery f d sid n m now s)) = db_identities s" for f d sid n m now s
    by (simp add: enqueue_delivery_def)
  show "db_identities (enqueue_backlog fault uid j now sub ms s) = db_identities s"
    by (induction ms arbitrary: j s) (simp_all add: enqueue_backlog_def *)
qed

lemma view_hooks [simp]:
  "access_view (snd (create_subscription f now sid r k u sec ks o1 n ex sq s)) = access_view s"
  "access_view (snd (delete_subscription f sid k s)) = access_view s"
  "access_view (snd (set_subscription_status f sid st cnt s)) = access_view s"
  "access_view (enqueue_backlog fault uid j now sub ms s) = access_view s"
  by (auto intro!: access_view_eqI simp: create_subscription_def delete_subscription_def Let_def
      set_subscription_status_def sub_update_def delete_subscriptions_where_def frame_simps
      split: if_splits)

lemma view_backfill [simp]: "access_view (backfill fault uid k now sub r pos s) = access_view s"
proof (induction fault uid k now sub r pos s rule: backfill.induct)
  case (1 fault uid k now sub r pos s)
  show ?case
  proof (cases "get_history_filtered (fault k) r 1000 None None (Some pos) s")
    case (Inr page)
    with 1 [OF Inr] show ?thesis by (subst backfill.simps) (simp add: Let_def)
  qed (subst backfill.simps, simp)
qed

text \<open>Operations that add rooms or change names take nobody's access away.\<close>

definition access_kept :: "store \<Rightarrow> store \<Rightarrow> bool" where
  "access_kept s s' \<longleftrightarrow> (\<forall>na k r. allowed na s k r \<longrightarrow> allowed na s' k r) \<and> db_identities s' = db_identities s"

lemma access_kept_view: "access_view s' = access_view s \<Longrightarrow> access_kept s s'"
  using allowed_view [of s' s] unfolding access_kept_def by (simp add: access_view_def)

lemma access_kept_refl [simp]: "access_kept s s"
  by (simp add: access_kept_def)

lemma access_kept_create:
  "access_kept s (snd (create_room_with_visibility f g now r name d p c v k e s))"
proof -
  have "access_kept s s'" if "insert_room_row row s = Inr s'" for row s'
  proof -
    from that have "db_rooms s' = db_rooms s @ [row]" "grants_cache s' = grants_cache s"
      "db_identities s' = db_identities s"
      by (auto simp: insert_room_row_def Let_def split: if_splits)
    then show ?thesis
      by (auto simp: access_kept_def allowed_def room_find_def row_find_append can_access_room_def
          key_has_grant_def cached_grants_def split: option.splits)
  qed
  then show ?thesis
    by (auto simp: create_room_with_visibility_def Let_def split: sum.splits option.splits db_failure.splits)
qed

lemma view_rename [simp]:
  "access_view (snd (rename_room_authorized f r a k na name s)) = access_view s"
proof -
  have "map (\<lambda>r. (rr_room_id r, rr_visibility r, rm_owner_key (map_room_row r)))
      (row_update rr_room_id rid (\<lambda>r. r\<lparr>rr_name := nm\<rparr>) rows)
     = map (\<lambda>r. (rr_room_id r, rr_visibility r, rm_owner_key (map_room_row r))) rows" for rid nm rows
    by (induction rows) (auto simp: row_update_def map_room_row_def)
  then show ?thesis
    by (auto simp: rename_room_authorized_def access_view_def Let_def split: sum.splits option.splits)
qed

end
