(* ===== verification/Handler_Safety.thy ===== *)
theory Handler_Safety
  imports Confinement
begin

text \<open>
  Every handler keeps the state sound: the database and the broker consistent, every member of a room
  connected under a key that may access the room. And every event a handler sends about a room
  goes to connections that may access the room.
\<close>

declare One_nat_def [simp del]

subsection \<open>Sound states and good steps\<close>

definition authorized :: "bool \<Rightarrow> server \<Rightarrow> bool" where
  "authorized na sv \<longleftrightarrow> (\<forall>r. \<forall>a \<in> set (get_room_members r (sv_broker sv)).
     \<exists>k. key_of (sv_broker sv) a = Some k \<and> allowed na (sv_store sv) k r)"

definition sound :: "bool \<Rightarrow> server \<Rightarrow> bool" where
  "sound na sv \<longleftrightarrow> store_wf (sv_store sv) \<and> broker_wf (sv_broker sv) \<and> authorized na sv"

definition visible :: "bool \<Rightarrow> server \<Rightarrow> server \<Rightarrow> string \<Rightarrow> frame \<Rightarrow> bool" where
  "visible na sv sv' a f \<longleftrightarrow> (\<forall>r. frame_room_id f = Some r \<longrightarrow>
     (\<exists>k. key_of (sv_broker sv) a = Some k \<and> (allowed na (sv_store sv) k r \<or> allowed na (sv_store sv') k r)))"

text \<open>Neither identities nor the keys of stashes change.\<close>

definition stash_key :: "reconnect_manager \<Rightarrow> string \<Rightarrow> string option" where
  "stash_key rm a = map_option sa_api_key (map_of (stashed rm) a)"

definition calm :: "server \<Rightarrow> server \<Rightarrow> bool" where
  "calm sv sv' \<longleftrightarrow> db_identities (sv_store sv') = db_identities (sv_store sv)
     \<and> stash_key (sv_reconnect sv') = stash_key (sv_reconnect sv)
     \<and> (distinct (dm_keys (stashed (sv_reconnect sv))) \<longrightarrow> distinct (dm_keys (stashed (sv_reconnect sv'))))"

lemma calm_refl [simp]: "calm sv sv"
  by (simp add: calm_def)

lemma calm_trans: "calm sv mid \<Longrightarrow> calm mid sv' \<Longrightarrow> calm sv sv'"
  by (simp add: calm_def)

lemma stash_key_map:
  "(\<And>st. sa_api_key (g st) = sa_api_key st) \<Longrightarrow> stashed rm' = dm_map (\<lambda>_ st. g st) (stashed rm) \<Longrightarrow>
   stash_key rm' = stash_key rm"
  by (simp add: stash_key_def fun_eq_iff option.map_comp comp_def)

lemma stash_key_ops [simp]:
  "stash_key (snd (buffer_visible_room_event now v ok gk na f rm)) = stash_key rm"
  "stash_key (forget_room_stashes now r rm) = stash_key rm"
  by (rule stash_key_map, auto simp: buffer_visible_room_event_def forget_room_stashes_def Let_def)+

lemma distinct_stash_ops [simp]:
  "dm_keys (stashed (snd (buffer_visible_room_event now v ok gk na f rm))) = dm_keys (stashed rm)"
  "dm_keys (stashed (forget_room_stashes now r rm)) = dm_keys (stashed rm)"
  by (simp_all add: buffer_visible_room_event_def forget_room_stashes_def Let_def)

lemma calm_broker [simp]: "calm sv (sv\<lparr>sv_broker := b\<rparr>)"
  by (simp add: calm_def)

lemma calm_eqI: "db_identities (sv_store sv') = db_identities (sv_store sv) \<Longrightarrow> sv_reconnect sv' = sv_reconnect sv \<Longrightarrow> calm sv sv'"
  by (simp add: calm_def)

definition good_step :: "bool \<Rightarrow> server \<Rightarrow> server \<Rightarrow> bool" where
  "good_step na sv sv' \<longleftrightarrow> sound na sv' \<and> calm sv sv' \<and> delivers (visible na sv sv') (sv_broker sv) (sv_broker sv')"

lemma soundD:
  "sound na sv \<Longrightarrow> store_wf (sv_store sv)" "sound na sv \<Longrightarrow> broker_wf (sv_broker sv)"
  "sound na sv \<Longrightarrow> a \<in> set (get_room_members r (sv_broker sv)) \<Longrightarrow>
     \<exists>k. key_of (sv_broker sv) a = Some k \<and> allowed na (sv_store sv) k r"
  by (auto simp: sound_def authorized_def)

lemma good_refl [simp]: "sound na sv \<Longrightarrow> good_step na sv sv"
  by (simp add: good_step_def)

lemma members_visible:
  assumes "sound na sv" "delivers (member_frame (sv_broker sv)) (sv_broker sv) b"
  shows "delivers (visible na sv sv') (sv_broker sv) b"
  using assms(2)
proof (rule delivers_mono)
  fix a f assume "member_frame (sv_broker sv) a f"
  then show "visible na sv sv' a f"
    using soundD(3) [OF assms(1)] unfolding member_frame_def visible_def by blast
qed

lemma authorized_subset:
  assumes "sound na sv" "\<And>a. key_of (sv_broker sv') a = key_of (sv_broker sv) a"
    and "\<And>r a k. a \<in> set (get_room_members r (sv_broker sv')) \<Longrightarrow> a \<in> set (get_room_members r (sv_broker sv))
      \<and> (allowed na (sv_store sv) k r \<longrightarrow> allowed na (sv_store sv') k r)"
  shows "authorized na sv'"
  unfolding authorized_def
proof (intro allI ballI)
  fix r a assume "a \<in> set (get_room_members r (sv_broker sv'))"
  with assms(3) have "a \<in> set (get_room_members r (sv_broker sv))"
    "\<And>k. allowed na (sv_store sv) k r \<Longrightarrow> allowed na (sv_store sv') k r" by blast+
  with soundD(3) [OF assms(1)] show "\<exists>k. key_of (sv_broker sv') a = Some k \<and> allowed na (sv_store sv') k r"
    unfolding assms(2) by meson
qed

lemma good_posts:
  assumes "sound na sv" "posts (sv_broker sv) (sv_broker sv')" "broker_wf (sv_broker sv')" "store_wf (sv_store sv')"
    and "\<And>k r. get_room_members r (sv_broker sv) \<noteq> [] \<Longrightarrow> allowed na (sv_store sv) k r \<Longrightarrow> allowed na (sv_store sv') k r"
    and "calm sv sv'"
  shows "good_step na sv sv'"
proof -
  have d: "delivers (member_frame (sv_broker sv)) (sv_broker sv) (sv_broker sv')"
    and "room_members (sv_broker sv') = room_members (sv_broker sv)"
    using assms(2) by (auto simp: posts_def)
  note m = members_cong [OF this(2)]
  have "authorized na sv'"
    using assms(5) by (intro authorized_subset [OF assms(1)]) (force simp: m delivers_keys [OF d])+
  then show ?thesis using assms members_visible [OF assms(1) d] by (simp add: good_step_def sound_def)
qed

lemma good_quiet:
  assumes "sound na sv" "posts (sv_broker sv) (sv_broker sv')" "broker_wf (sv_broker sv')" "store_wf (sv_store sv')"
    and "access_kept (sv_store sv) (sv_store sv')" "sv_reconnect sv' = sv_reconnect sv"
  shows "good_step na sv sv'"
  using assms by (intro good_posts) (auto simp: access_kept_def calm_eqI)

lemma good_store:
  assumes "sound na sv" "sv_broker sv' = sv_broker sv" "store_wf (sv_store sv')"
    and "access_view (sv_store sv') = access_view (sv_store sv)" "sv_reconnect sv' = sv_reconnect sv"
  shows "good_step na sv sv'"
  using assms soundD(2) [OF assms(1)] by (intro good_quiet) (auto intro: access_kept_view)

lemma good_trans:
  assumes "good_step na sv mid" "good_step na mid sv'" "sv_store mid = sv_store sv'"
  shows "good_step na sv sv'"
proof -
  have d: "delivers (visible na sv mid) (sv_broker sv) (sv_broker mid)"
    "delivers (visible na mid sv') (sv_broker mid) (sv_broker sv')"
    using assms(1,2) by (auto simp: good_step_def)
  have k: "key_of (sv_broker mid) a = key_of (sv_broker sv) a" for a using d(1) by (rule delivers_keys)
  have "delivers (visible na sv sv') (sv_broker sv) (sv_broker mid)"
    using d(1) by (rule delivers_mono) (use assms(3) in \<open>simp add: visible_def\<close>)
  moreover have "delivers (visible na sv sv') (sv_broker mid) (sv_broker sv')"
    using d(2) by (rule delivers_mono) (use assms(3) in \<open>auto simp: visible_def k\<close>)
  ultimately have "delivers (visible na sv sv') (sv_broker sv) (sv_broker sv')" by (rule delivers_trans)
  moreover have "calm sv sv'" using assms(1,2) calm_trans by (auto simp: good_step_def)
  ultimately show ?thesis using assms(2) by (simp add: good_step_def)
qed

text \<open>The connection that sent the frame is registered, with the caller's key unless authentication is off.\<close>

definition live :: "config \<Rightarrow> caller \<Rightarrow> server \<Rightarrow> bool" where
  "live cfg c sv \<longleftrightarrow> (\<exists>k. key_of (sv_broker sv) (ca_agent_id c) = Some k
     \<and> (cf_no_auth cfg \<or> k = ca_api_key c))"

lemma allowed_no_auth: "allowed True s k r \<longleftrightarrow> room_exists r s"
  using room_find_exists [of r s]
  by (auto simp: allowed_def can_access_room_def can_access_room_parts_def split: option.splits)

lemma live_allowed:
  assumes "live cfg c sv" "allowed (cf_no_auth cfg) s (ca_api_key c) r"
  shows "\<exists>k. key_of (sv_broker sv) (ca_agent_id c) = Some k \<and> allowed (cf_no_auth cfg) s k r"
  using assms allowed_exists [OF assms(2)] by (cases "cf_no_auth cfg") (auto simp: live_def allowed_no_auth)

subsection \<open>Events about visible rooms\<close>

lemma fold_agents:
  assumes "distinct (dm_keys (agents b))"
    and "\<And>id conn. map_of (agents b) id = Some conn \<Longrightarrow> Q id conn \<Longrightarrow> P id f"
  shows "delivers P b (fold (\<lambda>(id, conn) b. if Q id conn then send_to_agent id f b else b) (agents b) b)
    \<and> room_members (fold (\<lambda>(id, conn) b. if Q id conn then send_to_agent id f b else b) (agents b) b) = room_members b"
proof (rule delivers_fold)
  fix x and c :: broker assume "x \<in> set (agents b)"
  then have "map_of (agents b) (fst x) = Some (snd x)"
    using assms(1) by (metis dm_entry_lookup surjective_pairing)
  then show "delivers P c ((\<lambda>(id, conn) b. if Q id conn then send_to_agent id f b else b) x c)
      \<and> room_members ((\<lambda>(id, conn) b. if Q id conn then send_to_agent id f b else b) x c) = room_members c"
    using assms(2) by (auto simp: case_prod_unfold intro!: delivers_send)
qed

lemma wf_fold_agents:
  "broker_wf b \<Longrightarrow> broker_wf (fold (\<lambda>(id, conn) b. if Q id conn then send_to_agent id f b else b) xs b)"
  by (induction xs arbitrary: b) (auto simp: wf_send_to_agent)

lemma visible_event_step:
  assumes "sound na sv" "room_find r (sv_store sv) = Some row"
    and "rm_room_id room = r" "rm_visibility room = rr_visibility row"
    and "rm_owner_key room = rm_owner_key (map_room_row row)" "frame_room_id event = Some r"
  shows "good_step na sv (broadcast_visible_room_event now na room event sv)"
proof -
  let ?b = "sv_broker sv" and ?s = "sv_store sv"
  obtain buffered rm where bf: "buffer_visible_room_event now (rm_visibility room) (rm_owner_key room)
      (granted_keys_for_room (rm_room_id room) ?s) na event (sv_reconnect sv) = (buffered, rm)" by force
  let ?Q = "\<lambda>id conn. id \<notin> set buffered \<and> can_access_room room (ac_api_key conn) na ?s"
  let ?b' = "fold (\<lambda>(id, conn) b. if ?Q id conn then send_to_agent id event b else b) (agents ?b) ?b"
  have sv': "broadcast_visible_room_event now na room event sv = sv\<lparr>sv_reconnect := rm, sv_broker := ?b'\<rparr>"
    by (simp add: broadcast_visible_room_event_def bf Let_def)
  have d: "delivers (visible na sv (sv\<lparr>sv_reconnect := rm, sv_broker := ?b'\<rparr>)) ?b ?b' \<and> room_members ?b' = room_members ?b"
  proof (rule fold_agents)
    show "distinct (dm_keys (agents ?b))" using soundD(2) [OF assms(1)] by (rule broker_wfD)
    fix id conn assume "map_of (agents ?b) id = Some conn" "?Q id conn"
    moreover from this(2) have "allowed na ?s (ac_api_key conn) r"
      using assms(2-5) by (auto simp: allowed_def can_access_room_def dest: room_find_SomeD)
    ultimately show "visible na sv (sv\<lparr>sv_reconnect := rm, sv_broker := ?b'\<rparr>) id event"
      using assms(6) by (simp add: visible_def key_of_def)
  qed
  moreover have "broker_wf ?b'" by (rule wf_fold_agents) (rule soundD(2) [OF assms(1)])
  moreover have "authorized na (sv\<lparr>sv_reconnect := rm, sv_broker := ?b'\<rparr>)"
    using d members_cong [of ?b' ?b] by (intro authorized_subset [OF assms(1)]) (simp_all add: delivers_def)
  moreover have "calm sv (sv\<lparr>sv_reconnect := rm, sv_broker := ?b'\<rparr>)"
    using stash_key_ops(1) distinct_stash_ops(1) bf unfolding calm_def by (simp, metis snd_conv)
  ultimately show ?thesis
    unfolding sv' using soundD(1) [OF assms(1)] by (simp add: good_step_def sound_def)
qed

subsection \<open>The room handlers\<close>

lemma over_room_limit_frame:
  "over_room_limit cfg ev c sv = (over, sv') \<Longrightarrow> sv_store sv' = sv_store sv \<and> sv_broker sv' = sv_broker sv
     \<and> sv_reconnect sv' = sv_reconnect sv"
  by (auto simp: over_room_limit_def Let_def split: if_splits prod.splits)

lemma created_row:
  assumes "create_room_with_visibility f g now rid name d p c v k e s = (Inr room, s')"
  shows "\<exists>row. room_find rid s' = Some row \<and> room = map_room_row row"
  using assms
  by (auto simp: create_room_with_visibility_def query_room_by_id_def room_find_def Let_def
      split: sum.splits option.splits if_splits db_failure.splits)

lemma good_room_event:
  assumes "good_step na sv sv1" "room_find r (sv_store sv1) = Some row"
    and "rm_room_id room = r" "rm_visibility room = rr_visibility row"
    and "rm_owner_key room = rm_owner_key (map_room_row row)" "frame_room_id event = Some r"
  shows "good_step na sv (broadcast_visible_room_event now na room event sv1)"
proof (rule good_trans [OF assms(1)])
  show "good_step na sv1 (broadcast_visible_room_event now na room event sv1)"
    using assms by (intro visible_event_step) (auto simp: good_step_def)
qed (simp add: broadcast_visible_room_event_def Let_def split: prod.split)

lemma good_create_room_guarded:
  assumes "sound (cf_no_auth cfg) sv"
  shows "good_step (cf_no_auth cfg) sv (snd (create_room_guarded cfg ev c req p name sv))"
proof -
  obtain res s where cr: "create_room_with_visibility (ev_fault ev 3) (ev_fault ev 4) (ev_utc ev 0) (ev_uid ev 1)
      name (cr_description p) (cr_parent_id p) (Some (ca_agent_id c)) (if cr_public p then ''public'' else ''private'')
      (if ca_api_key c = [] then None else Some (ca_api_key c)) (cr_encrypted p) (sv_store sv) = (res, s)" by force
  have wf: "store_wf s" using wf_create_room [OF soundD(1) [OF assms]] cr by (metis snd_conv)
  have kept: "access_kept (sv_store sv) s" using access_kept_create cr by (metis snd_conv)
  have good: "good_step (cf_no_auth cfg) sv sv1" if "sv_store sv1 = s" "sv_broker sv1 = sv_broker sv"
    "sv_reconnect sv1 = sv_reconnect sv" for sv1
    using that assms wf kept soundD(2) [OF assms] by (intro good_quiet) simp_all
  have event: "good_step (cf_no_auth cfg) sv (broadcast_visible_room_event now (cf_no_auth cfg) room
      (frame_event u RoomCreated (room_to_json room)) sv1)"
    if "res = Inr room" "sv_store sv1 = s" "sv_broker sv1 = sv_broker sv" "sv_reconnect sv1 = sv_reconnect sv"
    for room now u sv1
  proof -
    from created_row cr that(1) obtain row where
      row: "room_find (ev_uid ev 1) s = Some row" "room = map_room_row row" by blast
    then have "rm_room_id room = ev_uid ev 1" by (auto dest: room_find_SomeD)
    then show ?thesis using row good [OF that(2-4)] that(2)
      by (intro good_room_event [where row = row]) simp_all
  qed
  show ?thesis using assms unfolding create_room_guarded_def cr
    by (auto simp: Let_def split: sum.splits option.splits bool.splits store_error.splits
        intro!: event intro: good simp del: One_nat_def)
qed

lemma good_create_room:
  assumes "sound (cf_no_auth cfg) sv"
  shows "good_step (cf_no_auth cfg) sv (snd (handle_create_room cfg ev c req payload sv))"
proof (cases payload)
  case (Some p)
  show ?thesis
  proof (cases "normalize_room_name (cr_name p)")
    case (Inr name)
    obtain over sv1 where o: "over_room_limit cfg ev c sv = (over, sv1)" by force
    note f = over_room_limit_frame [OF o]
    have 1: "good_step (cf_no_auth cfg) sv sv1"
      using assms f soundD(1) [OF assms] by (intro good_store) simp_all
    then have "sound (cf_no_auth cfg) sv1" by (simp add: good_step_def)
    from good_create_room_guarded [OF this] have
      2: "good_step (cf_no_auth cfg) sv1 (snd (create_room_guarded cfg ev c req p name sv1))" .
    have "visible na sv1 x = visible na sv x" for na x by (intro ext) (simp add: visible_def f)
    then have 3: "good_step (cf_no_auth cfg) sv (snd (create_room_guarded cfg ev c req p name sv1))"
      using 2 f calm_trans [of sv sv1] 1 by (simp add: good_step_def)
    show ?thesis using 1 3 by (cases over) (simp_all add: handle_create_room_def Some Inr o)
  qed (simp add: handle_create_room_def Some assms)
qed (simp add: handle_create_room_def assms)

lemma renamed_row:
  assumes "rename_room_authorized f r a k na name s = (Inr room, s')"
  shows "\<exists>row. room_find r s' = Some row \<and> rm_room_id room = r \<and> rm_visibility room = rr_visibility row
    \<and> rm_owner_key room = rm_owner_key (map_room_row row)"
proof -
  have upd: "row_find rr_room_id r (row_update rr_room_id r (\<lambda>x. x\<lparr>rr_name := n\<rparr>) rows)
      = map_option (\<lambda>x. x\<lparr>rr_name := n\<rparr>) (row_find rr_room_id r rows)" for n rows
    by (induction rows) (auto simp: row_find_def row_update_def)
  have own: "rm_owner_key (map_room_row (x\<lparr>rr_name := n\<rparr>)) = rm_owner_key (map_room_row x)" for x n
    by (simp add: map_room_row_def)
  show ?thesis using assms
    by (auto simp: rename_room_authorized_def room_find_def upd own Let_def dest: row_find_SomeD
        split: sum.splits option.splits if_splits)
qed

lemma good_rename_room:
  assumes "sound (cf_no_auth cfg) sv"
  shows "good_step (cf_no_auth cfg) sv (snd (handle_rename_room cfg ev c req payload sv))"
proof (cases payload)
  case (Some p)
  show ?thesis
  proof (cases "normalize_room_name (rn_name p)")
    case (Inr name)
    obtain res s where rn: "rename_room_authorized (ev_fault ev 2) (rn_room_id p) (ca_agent_id c) (ca_api_key c)
        (cf_no_auth cfg) name (sv_store sv) = (res, s)" by force
    have wf: "store_wf s" using wf_rename_room [OF soundD(1) [OF assms]] rn by (metis snd_conv)
    have view: "access_view s = access_view (sv_store sv)" using view_rename rn by (metis snd_conv)
    have 1: "good_step (cf_no_auth cfg) sv (sv\<lparr>sv_store := s\<rparr>)"
      using assms wf view by (intro good_store) simp_all
    have 2: "good_step (cf_no_auth cfg) sv (broadcast_visible_room_event now (cf_no_auth cfg) room
        (frame_event u RoomUpdated (room_to_json room)) (sv\<lparr>sv_store := s\<rparr>))"
      if "res = Inr room" for room now u
    proof -
      from renamed_row rn that obtain row where
        "room_find (rn_room_id p) s = Some row" "rm_room_id room = rn_room_id p"
        "rm_visibility room = rr_visibility row" "rm_owner_key room = rm_owner_key (map_room_row row)" by blast
      then show ?thesis by (intro good_room_event [OF 1, where row = row]) simp_all
    qed
    show ?thesis using assms 1 2
      by (auto simp: handle_rename_room_def Some Inr rn Let_def split: sum.splits option.splits bool.splits)
  qed (simp add: handle_rename_room_def Some assms)
qed (simp add: handle_rename_room_def assms)

lemma members_join:
  "x \<in> set (get_room_members q (snd (join_room now a r ex b))) \<Longrightarrow>
     x \<in> set (get_room_members q b) \<or> q = r \<and> x = a \<and> ex"
  by (auto simp: join_room_eq Let_def get_room_members_in split: if_splits)

lemma good_join:
  assumes "sound na sv" "key_of (sv_broker sv) a = Some k" "ex \<Longrightarrow> allowed na (sv_store sv) k r"
  shows "good_step na sv (sv\<lparr>sv_broker := snd (join_room now a r ex (sv_broker sv))\<rparr>)"
proof -
  have keys: "key_of (snd (join_room now a r ex (sv_broker sv))) x = key_of (sv_broker sv) x" for x
    by (simp add: key_of_def)
  have "authorized na (sv\<lparr>sv_broker := snd (join_room now a r ex (sv_broker sv))\<rparr>)"
    unfolding authorized_def using soundD(3) [OF assms(1)] assms(2,3)
    by (auto simp: keys dest!: members_join)
  then show ?thesis using soundD(1,2) [OF assms(1)]
    by (simp add: good_step_def sound_def wf_join_room delivers_agents)
qed

lemma good_leave:
  assumes "sound na sv"
  shows "good_step na sv (sv\<lparr>sv_broker := snd (leave_room now a r (sv_broker sv))\<rparr>)"
proof -
  have "authorized na (sv\<lparr>sv_broker := snd (leave_room now a r (sv_broker sv))\<rparr>)"
    by (rule authorized_subset [OF assms]) (auto simp: key_of_def members_leave split: if_splits)
  then show ?thesis using soundD(1,2) [OF assms]
    by (simp add: good_step_def sound_def wf_leave_room delivers_agents)
qed

text \<open>Further posts of a handler that leaves the store alone.\<close>

lemma good_then_posts:
  assumes "good_step na sv sv1" "posts (sv_broker sv1) b" "broker_wf b" "sv_store sv' = sv_store sv1" "sv_broker sv' = b"
    "sv_reconnect sv' = sv_reconnect sv1"
  shows "good_step na sv sv'"
proof (rule good_trans [OF assms(1)])
  have "sound na sv1" using assms(1) by (simp add: good_step_def)
  then show "good_step na sv1 sv'" using assms soundD(1) by (intro good_quiet) simp_all
qed (simp add: assms(4))

lemma good_join_room:
  assumes "sound (cf_no_auth cfg) sv" "live cfg c sv"
  shows "good_step (cf_no_auth cfg) sv (snd (handle_join_room cfg ev c req payload sv))"
proof (cases payload)
  case (Some r)
  show ?thesis
  proof (cases "authorize_room (ev_fault ev 0) r (ca_api_key c) (cf_no_auth cfg) (sv_store sv)")
    case (Inr room)
    let ?ex = "case get_room (ev_fault ev 1) r (sv_store sv) of Inr (Some _) \<Rightarrow> True | _ \<Rightarrow> False"
    obtain out b where j: "join_room (ev_instant ev 0) (ca_agent_id c) r ?ex (sv_broker sv) = (out, b)" by force
    from live_allowed [OF assms(2)] authorize_allowed [OF Inr] obtain k where
      k: "key_of (sv_broker sv) (ca_agent_id c) = Some k" "allowed (cf_no_auth cfg) (sv_store sv) k r" by blast
    from good_join [OF assms(1) k(1), of ?ex r "ev_instant ev 0"] k(2) j
    have g: "good_step (cf_no_auth cfg) sv (sv\<lparr>sv_broker := b\<rparr>)" by simp
    then have wf: "broker_wf b" by (auto simp: good_step_def dest: soundD(2))
    have "good_step (cf_no_auth cfg) sv (sv\<lparr>sv_broker := b2\<rparr>)" if "posts b b2" "broker_wf b2" for b2
      using that by (intro good_then_posts [OF g]) simp_all
    with g wf assms show ?thesis
      by (auto simp: handle_join_room_def Some Inr j Let_def posts_intros wf_intros split: option.splits)
  qed (simp add: handle_join_room_def Some assms)
qed (simp add: handle_join_room_def assms)

lemma good_leave_room:
  assumes "sound na sv"
  shows "good_step na sv (snd (handle_leave_room ev c req payload sv))"
proof (cases payload)
  case (Some r)
  let ?b1 = "broadcast_to_room r (ca_agent_id c) (agent_left_event (ev_uid ev 1) r (ca_agent_id c)) (sv_broker sv)"
  obtain out b2 where l: "leave_room (ev_instant ev 0) (ca_agent_id c) r ?b1 = (out, b2)" by force
  have 1: "good_step na sv (sv\<lparr>sv_broker := ?b1\<rparr>)"
    using soundD [OF assms] by (intro good_quiet [OF assms]) (auto simp: agent_left_event_def posts_intros wf_intros)
  then have "sound na (sv\<lparr>sv_broker := ?b1\<rparr>)" by (simp add: good_step_def)
  from good_leave [OF this, of "ev_instant ev 0" "ca_agent_id c" r] l
  have 2: "good_step na (sv\<lparr>sv_broker := ?b1\<rparr>) (sv\<lparr>sv_broker := b2\<rparr>)" by simp
  have g: "good_step na sv (sv\<lparr>sv_broker := b2\<rparr>)" by (rule good_trans [OF 1 2]) simp
  then have wf: "broker_wf b2" by (auto simp: good_step_def dest: soundD(2))
  have "good_step na sv (sv\<lparr>sv_broker := b3\<rparr>)" if "posts b2 b3" "broker_wf b3" for b3
    using that by (intro good_then_posts [OF g]) simp_all
  with g wf assms show ?thesis
    by (auto simp: handle_leave_room_def Some l Let_def posts_intros wf_intros)
qed (simp add: handle_leave_room_def assms)

lemma allowed_without:
  assumes "store_wf s" "destroy_room_authorized f r a k na s = (Inr room, s')" "q \<noteq> r"
  shows "allowed na' s' k' q = allowed na' s k' q"
proof -
  note s' = destroy_room_store(1) [OF assms(2)]
  have "row_find rr_room_id q (map (detach r) (filter (\<lambda>x. rr_room_id x \<noteq> r) rows))
      = map_option (detach r) (row_find rr_room_id q rows)" for rows
    using assms(3) by (induction rows) (auto simp: row_find_def)
  then have "room_find q s' = map_option (detach r) (room_find q s)"
    by (simp add: s' room_find_def purge_room_grants_from_cache_def without_room_def)
  moreover have "cached_grants s' k' = cached_grants s k' - {r}"
    using purge_cached_grants [of "without_room r s"] store_wfD(24) [OF assms(1)]
    by (simp add: s' without_room_def cached_grants_def)
  moreover have "rm_owner_key (map_room_row (detach r x)) = rm_owner_key (map_room_row x)" for x
    by (simp add: map_room_row_def detach_def)
  ultimately show ?thesis using assms(3)
    by (auto simp: allowed_def can_access_room_def key_has_grant_def split: option.splits dest: room_find_SomeD)
qed

lemma members_destroy:
  "get_room_members q (snd (destroy_room_with now r d b))
     = (case d of Inl _ \<Rightarrow> get_room_members q b | Inr _ \<Rightarrow> if q = r then [] else get_room_members q b)"
  by (cases d) (auto simp: destroy_room_with_def Let_def get_room_members_in)

lemma granted_cached:
  assumes "distinct (dm_keys (grants_cache s))" "k \<in> granted_keys_for_room r s"
  shows "r \<in> cached_grants s k"
proof -
  from assms(2) obtain rooms where "(k, rooms) \<in> set (grants_cache s)" "r \<in> rooms"
    by (auto simp: granted_keys_for_room_def)
  with dm_entry_lookup [OF assms(1)] show ?thesis by (simp add: cached_grants_def)
qed

lemma good_destroy_room:
  assumes "sound (cf_no_auth cfg) sv"
  shows "good_step (cf_no_auth cfg) sv (snd (handle_destroy_room cfg ev c req payload sv))"
proof (cases payload)
  case (Some r)
  let ?na = "cf_no_auth cfg"
  obtain d s where d: "destroy_room_authorized (ev_fault ev 0) r (ca_agent_id c) (ca_api_key c) ?na (sv_store sv) = (d, s)"
    by force
  obtain out b where b: "destroy_room_with (ev_instant ev 0) r d (sv_broker sv) = (out, b)" by force
  have wf: "store_wf s" "broker_wf b"
    using wf_destroy_room [OF soundD(1) [OF assms]] wf_destroy_room_with [OF soundD(2) [OF assms]] d b by (metis snd_conv)+
  have ag: "agents b = agents (sv_broker sv)" using agents_turn_ops(7) b by (metis snd_conv)
  have mem: "get_room_members q b = (case d of Inl _ \<Rightarrow> get_room_members q (sv_broker sv)
      | Inr _ \<Rightarrow> if q = r then [] else get_room_members q (sv_broker sv))" for q
    using members_destroy [of q "ev_instant ev 0" r d "sv_broker sv"] b by simp
  show ?thesis
  proof (cases d)
    case (Inl e)
    then have out: "out = Inl e" and s: "s = sv_store sv"
      using b d destroy_room_refused by (auto simp: destroy_room_with_def Let_def)
    have "authorized ?na (sv\<lparr>sv_store := s, sv_broker := b\<rparr>)"
      by (rule authorized_subset [OF assms]) (auto simp: key_of_def ag mem Inl s)
    then have "good_step ?na sv (sv\<lparr>sv_store := s, sv_broker := b\<rparr>)"
      using wf by (simp add: good_step_def sound_def delivers_agents ag calm_def s)
    then show ?thesis by (simp add: handle_destroy_room_def Some d b Let_def out)
  next
    case (Inr room)
    then have out: "\<exists>ms. out = Inr (room, ms)" using b by (auto simp: destroy_room_with_def Let_def)
    note ds = destroy_room_store [OF d [unfolded Inr]]
    let ?granted = "granted_keys_for_room r (sv_store sv)"
    let ?event = "frame_event (ev_uid ev 1) RoomDestroyed (room_id_payload (rm_room_id room))"
    let ?b = "broadcast_room_destroyed ?na room ?granted ?event b"
    have see: "allowed ?na (sv_store sv) (ac_api_key conn) r"
      if "can_access_room_parts (rm_visibility room) (rm_owner_key room) (ac_api_key conn) ?na
        \<or> (ac_api_key conn \<noteq> [] \<and> ac_api_key conn \<in> ?granted)" for conn
    proof -
      from ds(3) obtain row where row: "row \<in> set (db_rooms (sv_store sv))" "room = map_room_row row" "rr_room_id row = r"
        by blast
      then have "room_find r (sv_store sv) = Some row"
        using store_wfD [OF soundD(1) [OF assms]] unfolding room_find_def by (simp add: row_find_unique)
      moreover have "ac_api_key conn \<in> ?granted \<Longrightarrow> r \<in> cached_grants (sv_store sv) (ac_api_key conn)"
        by (rule granted_cached [OF store_wfD(24) [OF soundD(1) [OF assms]]])
      ultimately show ?thesis using that row(2,3)
        by (auto simp: allowed_def can_access_room_def key_has_grant_def)
    qed
    have d': "delivers (visible ?na sv sv2) b ?b \<and> room_members ?b = room_members b" for sv2
      unfolding broadcast_room_destroyed_def
    proof (rule fold_agents)
      show "distinct (dm_keys (agents b))" using wf(2) by (rule broker_wfD)
      fix id conn assume conn: "map_of (agents b) id = Some conn"
        "can_access_room_parts (rm_visibility room) (rm_owner_key room) (ac_api_key conn) ?na
          \<or> (ac_api_key conn \<noteq> [] \<and> ac_api_key conn \<in> ?granted)"
      from see [OF conn(2)] conn(1) show "visible ?na sv sv2 id ?event"
        by (simp add: visible_def key_of_def ag room_id_payload_def ds(2))
    qed
    have "broker_wf ?b" unfolding broadcast_room_destroyed_def by (rule wf_fold_agents) (rule wf(2))
    moreover have "authorized ?na sv2" if "sv_store sv2 = s" "sv_broker sv2 = ?b" for sv2
    proof (rule authorized_subset [OF assms])
      show "key_of (sv_broker sv2) a = key_of (sv_broker sv) a" for a
        using delivers_keys [OF conjunct1 [OF d']] by (simp add: that(2) key_of_def ag)
      fix q a k assume "a \<in> set (get_room_members q (sv_broker sv2))"
      then have q: "q \<noteq> r" "a \<in> set (get_room_members q (sv_broker sv))"
        using members_cong [OF conjunct2 [OF d' [of sv]]] by (auto simp: that(2) mem Inr split: if_splits)
      then show "a \<in> set (get_room_members q (sv_broker sv)) \<and>
          (allowed ?na (sv_store sv) k q \<longrightarrow> allowed ?na (sv_store sv2) k q)"
        using allowed_without [OF soundD(1) [OF assms] d [unfolded Inr]] that(1) by simp
    qed
    moreover have "delivers (visible ?na sv sv2) (sv_broker sv) ?b" for sv2
      using d' delivers_trans delivers_agents [OF ag] by blast
    moreover have "db_identities s = db_identities (sv_store sv)"
      unfolding ds(1) by (simp add: purge_room_grants_from_cache_def without_room_def)
    ultimately have g: "good_step ?na sv sv2" if "sv_store sv2 = s" "sv_broker sv2 = ?b"
      "sv_reconnect sv2 = forget_room_stashes now q (sv_reconnect sv)" for sv2 now q
      using that wf(1) by (simp add: good_step_def sound_def calm_def)
    show ?thesis using out by (auto simp: handle_destroy_room_def Some d b Let_def intro!: g)
  qed
qed (simp add: handle_destroy_room_def assms)

lemma queries_frame [simp]:
  "snd (handle_get_history cfg ev c req p1 sv) = sv"
  "snd (handle_room_tip cfg ev c req p2 sv) = sv"
  "snd (handle_list_rooms cfg ev c req p3 sv) = sv"
  "snd (handle_list_agents cfg ev c req p3 sv) = sv"
  "snd (handle_room_info cfg ev c req p2 sv) = sv"
  "snd (handle_get_vote_status cfg ev c req p2 sv) = sv"
  "snd (handle_list_votes cfg ev c req p4 sv) = sv"
  "snd (handle_list_tasks cfg ev c req p5 sv) = sv"
  "snd (handle_list_subscriptions ev c req p3 sv) = sv"
  by (simp_all add: handle_get_history_def handle_room_tip_def handle_list_rooms_def handle_list_agents_def
      handle_room_info_def handle_get_vote_status_def handle_list_votes_def handle_list_tasks_def
      handle_list_subscriptions_def Let_def split: option.split sum.split)

subsection \<open>The message handlers\<close>

lemma message_limits_frame:
  "message_limits cfg ev c content sv = (e, sv') \<Longrightarrow>
   \<exists>rl. sv' = sv\<lparr>sv_limits := rl\<rparr>"
  by (auto simp: message_limits_def Let_def split: if_splits prod.splits intro: exI [of _ "sv_limits sv"])

lemma publish_posts:
  "posts b (publish_message ev c p m b)" "broker_wf b \<Longrightarrow> broker_wf (publish_message ev c p m b)"
  if "cm_room_id m = sm_room_id p"
  using that by (auto simp: publish_message_def Let_def intro!: posts_intros wf_intros)

lemma insert_message_room:
  "insert_message f now mid r a n c rep meta s = (Inr m, s') \<Longrightarrow> cm_room_id m = r \<and> cm_message_id m = mid"
  by (auto simp: insert_message_def Let_def split: if_splits sum.splits)

text \<open>A stored message and the posts about it.\<close>

lemma good_message:
  assumes "sound na sv" "insert_message f now mid r a n c rep meta (sv_store sv) = (res, s)"
    and "sv_store sv' = s" "posts (sv_broker sv) (sv_broker sv')" "broker_wf (sv_broker sv')"
    and "sv_reconnect sv' = sv_reconnect sv"
  shows "good_step na sv sv'"
proof -
  have "store_wf s" using wf_insert_message [OF soundD(1) [OF assms(1)]] assms(2) by (metis snd_conv)
  moreover have "access_view s = access_view (sv_store sv)" using view_messages(1) assms(2) by (metis snd_conv)
  ultimately show ?thesis using assms by (intro good_quiet) (auto intro: access_kept_view)
qed

lemma good_send_message:
  assumes "sound na sv"
  shows "good_step na sv (snd (handle_send_message cfg ev c req payload sv))"
proof (cases payload)
  case (Some p)
  obtain e sv1 where ml: "message_limits cfg ev c (sm_content p) sv = (e, sv1)" by force
  from message_limits_frame [OF ml] obtain rl where sv1: "sv1 = sv\<lparr>sv_limits := rl\<rparr>" ..
  obtain res s where im: "insert_message (ev_fault ev 2) (ev_utc ev 0) (ev_uid ev 1) (sm_room_id p) (ca_agent_id c)
             (ca_agent_name c) (sm_content p) (sm_reply_to p) (sm_metadata p) (sv_store sv) = (res, s)" by force
  note good = good_message [OF assms im]
  note wf = soundD(2) [OF assms]
  have 1: "good_step na sv sv1" unfolding sv1 using assms soundD by (intro good_store) simp_all
  show ?thesis using assms 1 wf insert_message_room im
    by (auto simp: handle_send_message_def Some ml Let_def sv1 publish_posts intro!: good split: option.splits sum.splits)
qed (simp add: handle_send_message_def assms)

lemma good_thinking:
  assumes "sound na sv"
  shows "good_step na sv (snd (handle_thinking cfg ev c req payload sv))"
proof (cases payload)
  case (Some p)
  obtain e sv1 where ml: "message_limits cfg ev c (th_content p) sv = (e, sv1)" by force
  from message_limits_frame [OF ml] obtain rl where sv1: "sv1 = sv\<lparr>sv_limits := rl\<rparr>" ..
  obtain res s where im: "insert_message (ev_fault ev 2) (ev_utc ev 0) (ev_uid ev 1) (th_room_id p) (ca_agent_id c)
             (ca_agent_name c) (th_content p) None (JObj [(''type'', JStr ''thinking'')]) (sv_store sv) = (res, s)" by force
  note good = good_message [OF assms im]
  note wf = soundD(2) [OF assms]
  have 1: "good_step na sv sv1" unfolding sv1 using assms soundD by (intro good_store) simp_all
  have room: "res = Inr m \<Longrightarrow> cm_room_id m = th_room_id p" for m using insert_message_room im by blast
  show ?thesis using assms 1 wf room
    by (auto simp: handle_thinking_def Some ml im Let_def sv1 posts_intros wf_intros intro!: good split: option.splits sum.splits)
qed (simp add: handle_thinking_def assms)

lemma good_decision:
  assumes "sound na sv"
  shows "good_step na sv (snd (handle_decision ev c req payload sv))"
proof (cases payload)
  case (Some p)
  obtain res s where im: "insert_message (ev_fault ev 1) (ev_utc ev 0) (ev_uid ev 1) (dp_room_id p) (ca_agent_id c)
             (ca_agent_name c) (dp_content p) None
             (JObj [(''type'', JStr ''decision''), (''decided_by'', JStr (ca_agent_id c))]) (sv_store sv) = (res, s)" by force
  note good = good_message [OF assms im]
  show ?thesis using assms soundD(2) [OF assms]
    by (auto simp: handle_decision_def Some im Let_def posts_intros wf_intros intro!: good split: sum.splits)
qed (simp add: handle_decision_def assms)

lemma good_set_typing:
  assumes "sound na sv"
  shows "good_step na sv (snd (handle_set_typing ev c req payload sv))"
  using assms soundD(1,2) [OF assms]
  by (auto simp: handle_set_typing_def Let_def posts_intros wf_intros intro!: good_quiet split: option.splits)

lemma posts_presence:
  "frame_room_id f = None \<Longrightarrow> posts b c \<Longrightarrow> posts b (fold (\<lambda>r. broadcast_to_room r a f) rs c)"
  "broker_wf c \<Longrightarrow> broker_wf (fold (\<lambda>r. broadcast_to_room r a f) rs c)"
  by (induction rs arbitrary: c) (auto simp: posts_intros wf_intros)

lemma good_set_presence:
  assumes "sound na sv"
  shows "good_step na sv (snd (handle_set_presence ev c req payload sv))"
proof -
  have "frame_room_id (frame_event u PresenceUpdate (JObj [(''agent_id'', x1), (''agent_name'', x2),
      (''status'', x3), (''status_detail'', x4), (''progress'', x5)])) = None" for u x1 x2 x3 x4 x5
    by (simp add: frame_room_id_def)
  note p = posts_presence(1) [OF this] posts_presence(2)
  show ?thesis using assms soundD(1,2) [OF assms]
    by (auto simp: handle_set_presence_def Let_def posts_intros wf_intros p intro!: good_quiet split: option.splits)
qed

subsection \<open>The vote handlers\<close>

text \<open>Taking back what was written about a room that was destroyed meanwhile: such a room has no members.\<close>

lemma allowed_artifacts:
  assumes "store_wf s" "q \<noteq> r"
  shows "allowed na (snd (delete_room_artifacts f r s)) k q = allowed na s k q"
proof -
  have "cached_grants (purge_room_grants_from_cache r (delete_room_artifacts_in_transaction r s)) k = cached_grants s k - {r}"
    using purge_cached_grants [of "delete_room_artifacts_in_transaction r s"] store_wfD(24) [OF assms(1)]
    by (simp add: delete_room_artifacts_in_transaction_def delete_defs cached_grants_def Let_def)
  moreover have "db_rooms (purge_room_grants_from_cache r (delete_room_artifacts_in_transaction r s)) = db_rooms s"
    by (simp add: purge_room_grants_from_cache_def delete_room_artifacts_in_transaction_def delete_defs Let_def)
  ultimately show ?thesis using assms(2)
    by (auto simp: delete_room_artifacts_def allowed_def room_find_def can_access_room_def key_has_grant_def
        split: option.splits dest: row_find_SomeD)
qed

lemma destroyed_no_members:
  assumes "broker_wf b" "is_room_destroyed now r b = (True, b')"
  shows "get_room_members r b = []"
proof -
  have "broker_wf b'" using wf_is_destroyed [OF assms(1)] assms(2) by (metis snd_conv)
  moreover from assms(2) have "map_of (tombstones b') r \<noteq> None"
    by (auto simp: is_room_destroyed_def Let_def map_of_eq_None_iff)
  ultimately have "get_room_members r b' = []" using broker_wfD(8) by fastforce
  moreover have "room_members b' = room_members b"
    using agents_turn_ops(4) assms(2) by (metis snd_conv)
  ultimately show ?thesis using members_cong by metis
qed

lemma good_take_back:
  assumes "sound na sv" "is_room_destroyed now r (sv_broker sv) = (True, b)"
    and "sv_broker sv' = b" "store_wf (sv_store sv')"
    and "\<And>k q. q \<noteq> r \<Longrightarrow> allowed na (sv_store sv') k q = allowed na (sv_store sv) k q"
    and "calm sv sv'"
  shows "good_step na sv sv'"
proof (rule good_posts [OF assms(1)])
  show "posts (sv_broker sv) (sv_broker sv')" using assms(2,3) posts_turn_ops(2) [of _ _ now r] by (metis posts_refl snd_conv)
  show "broker_wf (sv_broker sv')"
    using wf_is_destroyed [OF soundD(2) [OF assms(1)]] assms(2,3) by (metis snd_conv)
  show "store_wf (sv_store sv')" by fact
  show "allowed na (sv_store sv') k q" if "get_room_members q (sv_broker sv) \<noteq> []" "allowed na (sv_store sv) k q" for k q
    using that assms(5) destroyed_no_members [OF soundD(2) [OF assms(1)] assms(2)] by metis
  show "calm sv sv'" by fact
qed

lemma calm_artifacts [simp]: "db_identities (snd (delete_room_artifacts f r s)) = db_identities s"
  by (simp add: delete_room_artifacts_def purge_room_grants_from_cache_def delete_room_artifacts_in_transaction_def
      delete_defs Let_def)

lemma not_destroyed_posts:
  assumes "is_room_destroyed now r b = (False, b')" "broker_wf b"
  shows "posts b b'" "broker_wf b'"
  using posts_turn_ops(2) [OF posts_refl, of b now r] wf_is_destroyed [OF assms(2), of now r] assms(1) by simp_all

lemma good_open_vote:
  assumes "sound na sv" "open_vote ev c req payload sv = (res, sv')"
  shows "good_step na sv sv' \<and> sv_broker sv' = sv_broker sv"
  using assms soundD(1) [OF assms(1)]
    wf_create_vote [OF soundD(1) [OF assms(1)]] view_votes(1)
  by (auto simp: open_vote_def mgr_create_vote_def Let_def intro!: good_store split: option.splits if_splits prod.splits sum.splits;
      metis snd_conv)

lemma publish_vote_posts:
  assumes "sound na sv"
  shows "posts (sv_broker sv) (sv_broker (snd (publish_vote ev req vote eligible sv)))"
proof -
  obtain g b where d: "is_room_destroyed (ev_instant ev 0) (av_room_id vote) (sv_broker sv) = (g, b)" by force
  then have "posts (sv_broker sv) b" using posts_turn_ops(2) [OF posts_refl] by (metis snd_conv)
  then show ?thesis by (cases g) (auto simp: publish_vote_def d Let_def open_vote_info_def posts_intros)
qed

lemma good_publish_vote:
  assumes "sound na sv"
  shows "good_step na sv (snd (publish_vote ev req vote eligible sv))"
proof -
  obtain g b where d: "is_room_destroyed (ev_instant ev 0) (av_room_id vote) (sv_broker sv) = (g, b)" by force
  show ?thesis
  proof (cases g)
    case True
    then show ?thesis using d
      by (auto simp: publish_vote_def wf_delete_room_artifacts soundD(1) [OF assms]
          allowed_artifacts [OF soundD(1) [OF assms]] calm_def intro!: good_take_back [OF assms])
  next
    case False
    with d have "is_room_destroyed (ev_instant ev 0) (av_room_id vote) (sv_broker sv) = (False, b)" by simp
    note n = not_destroyed_posts [OF this soundD(2) [OF assms]]
    show ?thesis using False d n soundD(1) [OF assms]
      by (auto simp: publish_vote_def Let_def open_vote_info_def posts_intros wf_intros intro!: good_quiet [OF assms])
  qed
qed

text \<open>A handler in two steps whose first step leaves the broker alone.\<close>

lemma good_two:
  assumes "sound na sv" "good_step na sv1 sv'" "posts (sv_broker sv) (sv_broker sv')" "calm sv sv1"
  shows "good_step na sv sv'"
  using assms members_visible [OF assms(1)] calm_trans [OF assms(4)] by (simp add: good_step_def posts_def)

lemma good_create_vote:
  assumes "sound na sv"
  shows "good_step na sv (snd (handle_create_vote ev c req payload sv))"
proof -
  obtain res sv1 where o: "open_vote ev c req payload sv = (res, sv1)" by force
  note g = good_open_vote [OF assms o]
  then have s1: "sound na sv1" by (simp add: good_step_def)
  have "good_step na sv (snd (publish_vote ev req vote el sv1))" for vote el
    using g publish_vote_posts [OF s1, of ev req vote el] by (intro good_two [OF assms good_publish_vote [OF s1]]) (simp_all add: good_step_def)
  with g show ?thesis by (auto simp: handle_create_vote_def o split: sum.split)
qed

lemma vote_deadline_frame:
  "posts b (fst (snd (vote_deadline u f vid vm b s)))"
  "broker_wf b \<Longrightarrow> broker_wf (fst (snd (vote_deadline u f vid vm b s)))"
  "store_wf s \<Longrightarrow> store_wf (snd (snd (vote_deadline u f vid vm b s)))"
  "access_view (snd (snd (vote_deadline u f vid vm b s))) = access_view s"
  by (auto simp: vote_deadline_def close_and_broadcast_vote_def vote_result_def posts_intros wf_intros
      split: option.splits)

lemma mgr_cast_frame:
  assumes "mgr_cast_vote u f vid a n i vm b s = (res, vm', b', s')"
  shows "posts b b'" "broker_wf b \<Longrightarrow> broker_wf b'" "store_wf s \<Longrightarrow> store_wf s'" "access_view s' = access_view s"
  using assms vote_deadline_frame
  by (auto simp: mgr_cast_vote_def Let_def split: option.splits if_splits; metis fst_conv snd_conv)+

lemma good_cast_vote:
  assumes "sound na sv"
  shows "good_step na sv (snd (handle_cast_vote ev c req payload sv))"
proof (cases payload)
  case (Some p)
  obtain res s where cb: "cast_ballot (ev_fault ev 2) (ev_fault ev 3) (ev_utc ev 0) (bv_vote_id p) (ca_agent_id c)
      (ca_agent_name c) (bv_option_index p) (sv_store sv) = (res, s)" by force
  obtain res' vm b s' where mc: "mgr_cast_vote (ev_uid ev 1) (ev_fault ev 4) (bv_vote_id p) (ca_agent_id c)
      (ca_agent_name c) (bv_option_index p) (sv_votes sv) (sv_broker sv) s = (res', vm, b, s')" by (metis prod_cases4)
  have s: "store_wf s" "access_view s = access_view (sv_store sv)"
    using wf_cast_ballot [OF soundD(1) [OF assms]] view_votes(2) cb by (metis snd_conv)+
  note m = mgr_cast_frame [OF mc]
  have 1: "good_step na sv (sv\<lparr>sv_store := s\<rparr>)" using assms s by (intro good_store) simp_all
  have 2: "good_step na sv (sv\<lparr>sv_store := s', sv_votes := vm, sv_broker := b\<rparr>)"
    using m s soundD(2) [OF assms] by (intro good_quiet [OF assms]) (auto intro: access_kept_view)
  show ?thesis using assms 1 2
    by (auto simp: handle_cast_vote_def Some cb mc Let_def split: prod.splits option.splits sum.splits)
qed (simp add: handle_cast_vote_def assms)

lemma good_votes_only:
  assumes "sound na sv" "sv_store sv' = sv_store sv" "sv_broker sv' = sv_broker sv"
    and "sv_reconnect sv' = sv_reconnect sv"
  shows "good_step na sv sv'"
  using assms soundD(1) by (intro good_store) simp_all

lemma good_elect_leader:
  assumes "sound na sv"
  shows "good_step na sv (snd (handle_elect_leader ev c req payload sv))"
proof -
  obtain res sv1 where o: "open_election ev c req payload sv = (res, sv1)" by force
  then have sv1: "sv_store sv1 = sv_store sv" "sv_broker sv1 = sv_broker sv" "sv_reconnect sv1 = sv_reconnect sv"
    by (auto simp: open_election_def Let_def split: option.splits if_splits prod.splits sum.splits)
  have "good_step na sv (snd (publish_election ev c req r cands sv1))" for r cands
  proof -
    obtain g b where d: "is_room_destroyed (ev_instant ev 0) r (sv_broker sv) = (g, b)" by force
    have b: "posts (sv_broker sv) b" "broker_wf b"
      using posts_turn_ops(2) [OF posts_refl] wf_is_destroyed [OF soundD(2) [OF assms]] d by (metis snd_conv)+
    then show ?thesis using soundD(1) [OF assms] d sv1
      by (cases g) (auto simp: publish_election_def Let_def posts_intros wf_intros intro!: good_quiet [OF assms])
  qed
  with good_votes_only [OF assms sv1] show ?thesis
    by (auto simp: handle_elect_leader_def o split: sum.split prod.split)
qed

lemma good_decline_election:
  assumes "sound na sv"
  shows "good_step na sv (snd (handle_decline_election ev c req payload sv))"
  using assms by (auto simp: handle_decline_election_def intro!: good_votes_only split: option.split prod.split sum.split)

subsection \<open>Tasks, subscriptions, invites\<close>

lemma create_task_frame:
  assumes "create_task f now tid r ti d asg by m s = (res, m', s')" "store_wf s"
  shows "store_wf s'" "access_view s' = access_view s" "res = Inr task \<Longrightarrow> tk_room_id task = r"
proof -
  let ?task = "\<lparr>tk_task_id = tid, tk_room_id = r, tk_title = ti, tk_description = d, tk_status = ''pending'',
     tk_assignee = asg, tk_created_by = by, tk_created_at = now, tk_updated_at = None, tk_note = None\<rparr>"
  obtain x y where sv: "save_task f ?task s = (x, y)" by force
  have s': "s' = snd (save_task f ?task s)" and r: "res = Inr task \<Longrightarrow> task = ?task"
    using assms(1) unfolding create_task_def Let_def sv by (cases x; simp)+
  show "store_wf s'" "access_view s' = access_view s"
    unfolding s' by (simp_all add: wf_save_task [OF assms(2)])
  show "res = Inr task \<Longrightarrow> tk_room_id task = r" using r by fastforce
qed

lemma update_task_frame:
  assumes "update_task f now tid st asg nt m s = (res, m', s')" "store_wf s"
  shows "store_wf s'" "access_view s' = access_view s"
    "res = Inr (Some task) \<Longrightarrow> \<exists>old. map_of m tid = Some old \<and> tk_room_id task = tk_room_id old"
proof -
  have "(s' = s \<and> res = Inr None) \<or> (\<exists>old task. map_of m tid = Some old \<and> tk_room_id task = tk_room_id old
      \<and> s' = snd (save_task f task s) \<and> (\<forall>t. res = Inr (Some t) \<longrightarrow> t = task))"
  proof (cases "map_of m tid")
    case (Some old)
    let ?t1 = "case st of Some x \<Rightarrow> old\<lparr>tk_status := x\<rparr> | None \<Rightarrow> old"
    let ?t2 = "case asg of Some x \<Rightarrow> ?t1\<lparr>tk_assignee := Some x\<rparr> | None \<Rightarrow> ?t1"
    let ?t3 = "case nt of Some x \<Rightarrow> ?t2\<lparr>tk_note := Some x\<rparr> | None \<Rightarrow> ?t2"
    let ?t4 = "?t3\<lparr>tk_updated_at := Some now\<rparr>"
    have "tk_room_id ?t4 = tk_room_id old" by (simp split: option.split)
    moreover have "s' = snd (save_task f ?t4 s) \<and> (\<forall>t. res = Inr (Some t) \<longrightarrow> t = ?t4)"
      using assms(1) Some by (cases "save_task f ?t4 s"; cases "fst (save_task f ?t4 s)") (auto simp: update_task_def Let_def)
    ultimately show ?thesis using Some by blast
  qed (use assms(1) in \<open>simp add: update_task_def\<close>)
  then show "store_wf s'" "access_view s' = access_view s"
    "res = Inr (Some task) \<Longrightarrow> \<exists>old. map_of m tid = Some old \<and> tk_room_id task = tk_room_id old"
    using wf_save_task [OF assms(2)] assms(2) by auto
qed

lemma good_assign_task:
  assumes "sound na sv"
  shows "good_step na sv (snd (handle_assign_task ev c req payload sv))"
proof (cases payload)
  case (Some p)
  obtain res m s where t: "create_task (ev_fault ev 0) (ev_utc ev 0) (ev_uid ev 1) (at_room_id p) (at_title p)
      (at_description p) (at_assignee p) (ca_agent_id c) (sv_tasks sv) (sv_store sv) = (res, m, s)" by (metis prod_cases3)
  note s = create_task_frame [OF t soundD(1) [OF assms]]
  then show ?thesis using assms soundD(2) [OF assms]
    by (auto simp: handle_assign_task_def Some t Let_def posts_intros wf_intros split: sum.splits
        intro!: good_quiet [OF assms] access_kept_view)
qed (simp add: handle_assign_task_def assms)

lemma good_update_task:
  assumes "sound na sv"
  shows "good_step na sv (snd (handle_update_task ev c req payload sv))"
proof (cases payload)
  case (Some p)
  obtain res m s where t: "update_task (ev_fault ev 0) (ev_utc ev 0) (ut_task_id p) (ut_status p) (ut_assignee p)
      (ut_note p) (sv_tasks sv) (sv_store sv) = (res, m, s)" by (metis prod_cases3)
  note s = update_task_frame [OF t soundD(1) [OF assms]]
  then show ?thesis using assms soundD(2) [OF assms]
    by (auto simp: handle_update_task_def get_task_def Some t Let_def posts_intros wf_intros
        split: sum.splits option.splits intro!: good_quiet [OF assms] access_kept_view)
qed (simp add: handle_update_task_def assms)

lemma wf_enqueue_backlog [wf_intros]: "store_wf s \<Longrightarrow> store_wf (enqueue_backlog fault uid k now sub ms s)"
proof -
  have "store_wf s \<Longrightarrow> store_wf (fold (\<lambda>(j, msg) s. if matches_filter sub msg
         then snd (enqueue_delivery (fault j) (uid j) (sub_subscription_id sub) (cm_seq msg) (cm_message_id msg) now s)
         else s) xs s)" for xs
    by (induction xs arbitrary: s) (auto simp: wf_delivery_ops(1))
  then show "store_wf s \<Longrightarrow> store_wf (enqueue_backlog fault uid k now sub ms s)" by (simp add: enqueue_backlog_def)
qed

lemma wf_backfill [wf_intros]: "store_wf s \<Longrightarrow> store_wf (backfill fault uid k now sub r pos s)"
proof (induction fault uid k now sub r pos s rule: backfill.induct)
  case (1 fault uid k now sub r pos s)
  show ?case
  proof (cases "get_history_filtered (fault k) r 1000 None None (Some pos) s")
    case (Inr page)
    with 1 show ?thesis by (subst backfill.simps) (simp add: Let_def wf_enqueue_backlog)
  qed (subst backfill.simps, simp add: 1)
qed

lemma good_quiet_store:
  assumes "sound na sv" "posts (sv_broker sv) b" "broker_wf b" "store_wf s" "access_view s = access_view (sv_store sv)"
  shows "good_step na sv (sv\<lparr>sv_broker := b, sv_store := s\<rparr>)"
  using assms by (intro good_quiet) (auto intro: access_kept_view)

lemma good_subscribe:
  assumes "sound na sv"
  shows "good_step na sv (snd (handle_subscribe cfg ev c req payload sv))"
proof -
  obtain res sv1 where o: "open_subscription cfg ev c req payload sv = (res, sv1)" by force
  have sv1: "sv_broker sv1 = sv_broker sv \<and> sv_reconnect sv1 = sv_reconnect sv \<and> store_wf (sv_store sv1)
      \<and> access_view (sv_store sv1) = access_view (sv_store sv)"
  proof (cases "\<exists>f now u r k url sec ks o1 n ex sq. sv1 = sv\<lparr>sv_store :=
      snd (create_subscription f now u r k url sec ks o1 n ex sq (sv_store sv))\<rparr>")
    case True
    then show ?thesis using soundD(1) [OF assms] by (auto simp: wf_create_subscription)
  next
    case False
    have "sv1 = sv" using o False
      by (simp add: open_subscription_def Let_def split: option.splits sum.splits if_splits prod.splits)
         (metis snd_conv)+
    then show ?thesis using soundD(1) [OF assms] by simp
  qed
  then have 1: "good_step na sv sv1" using assms by (intro good_store) simp_all
  then have s1: "sound na sv1" by (simp add: good_step_def)
  have "good_step na sv (snd (finish_subscription ev req sub k sv1))" for sub k
  proof -
    obtain g b where d: "is_room_destroyed (ev_instant ev 0) (sub_room_id sub) (sv_broker sv) = (g, b)" by force
    have b: "posts (sv_broker sv) b" "broker_wf b"
      using posts_turn_ops(2) [OF posts_refl] wf_is_destroyed [OF soundD(2) [OF assms]] d by (metis snd_conv)+
    have "good_step na sv sv2" if "sv_broker sv2 = b" "store_wf (sv_store sv2)" "sv_reconnect sv2 = sv_reconnect sv"
      "access_view (sv_store sv2) = access_view (sv_store sv1)" for sv2
      using that b sv1 by (intro good_quiet [OF assms]) (auto intro: access_kept_view)
    then show ?thesis using sv1 by (cases g) (simp_all add: finish_subscription_def d wf_subscription_ops wf_backfill)
  qed
  with 1 show ?thesis by (auto simp: handle_subscribe_def o split: sum.split prod.split)
qed

lemma good_unsubscribe:
  assumes "sound na sv"
  shows "good_step na sv (snd (handle_unsubscribe ev c req payload sv))"
proof (cases payload)
  case (Some sid)
  obtain res s where d: "delete_subscription (ev_fault ev 0) sid (ca_api_key c) (sv_store sv) = (res, s)" by force
  have "store_wf s" "access_view s = access_view (sv_store sv)"
    using wf_subscription_ops view_hooks(2) soundD(1) [OF assms] d by (metis snd_conv)+
  then have "good_step na sv (sv\<lparr>sv_store := s\<rparr>)" using assms by (intro good_store) simp_all
  then show ?thesis by (auto simp: handle_unsubscribe_def Some d split: sum.split bool.split)
qed (simp add: handle_unsubscribe_def assms)

lemma good_enable_subscription:
  assumes "sound na sv"
  shows "good_step na sv (snd (handle_enable_subscription ev c req payload sv))"
proof -
  have *: "good_step na sv (sv\<lparr>sv_store := s\<rparr>)"
    if "store_wf s" "access_view s = access_view (sv_store sv)" for s
    using that assms by (intro good_store) simp_all
  have s: "store_wf s \<and> access_view s = access_view (sv_store sv)"
    if "set_subscription_status f sid st n (sv_store sv) = (res, s)" for f sid st n res s
    using that wf_subscription_ops view_hooks(3) soundD(1) [OF assms] by (metis snd_conv)
  show ?thesis using assms
    by (auto simp: handle_enable_subscription_def Let_def wf_enqueue_backlog dest!: s intro!: *
        split: option.split sum.split prod.split)
qed

lemma good_create_invite:
  assumes "sound na sv"
  shows "good_step na sv (snd (handle_create_invite cfg ev c req payload sv))"
proof -
  obtain res sv1 where o: "open_invite cfg ev c req payload sv = (res, sv1)" by force
  have ci: "store_wf s \<and> access_view s = access_view (sv_store sv)"
    if "create_invite f h r k sg (sv_store sv) = (x, s)" for f h r k sg x s
    using that wf_create_invite view_keys(4) soundD(1) [OF assms] by (metis snd_conv)
  have sv1: "sv_broker sv1 = sv_broker sv" "store_wf (sv_store sv1)"
      "access_view (sv_store sv1) = access_view (sv_store sv)" "sv_reconnect sv1 = sv_reconnect sv"
    using o soundD(1) [OF assms]
    by (auto simp: open_invite_def Let_def split: option.splits sum.splits prod.splits dest!: ci)
  then have 1: "good_step na sv sv1" using assms by (intro good_store) simp_all
  then have s1: "sound na sv1" by (simp add: good_step_def)
  have "good_step na sv (snd (finish_invite ev req room single sv1))" for room single
  proof (cases "is_room_destroyed (ev_instant ev 0) (rm_room_id room) (sv_broker sv)")
    case (Pair g b)
    note d = Pair
    show ?thesis
    proof (cases g)
      case True
      with d have t: "is_room_destroyed (ev_instant ev 0) (rm_room_id room) (sv_broker sv) = (True, b)" by simp
      have "db_identities (sv_store sv1) = db_identities (sv_store sv)" using sv1(3) by (simp add: access_view_def)
      then show ?thesis using sv1 allowed_artifacts [OF sv1(2)] allowed_view [OF sv1(3)]
        by (intro good_take_back [OF assms t])
           (simp_all add: finish_invite_def t sv1(1) wf_delete_room_artifacts calm_def)
    next
      case False
      with d have t: "is_room_destroyed (ev_instant ev 0) (rm_room_id room) (sv_broker sv) = (False, b)" by simp
      note n = not_destroyed_posts [OF t soundD(2) [OF assms]]
      then show ?thesis using sv1
        by (intro good_quiet [OF assms]) (auto simp: finish_invite_def t intro: access_kept_view)
    qed
  qed
  with 1 show ?thesis by (auto simp: handle_create_invite_def o split: sum.split prod.split)
qed

lemma good_revoke_invite:
  assumes "sound na sv"
  shows "good_step na sv (snd (handle_revoke_invite cfg ev c req payload sv))"
proof -
  have *: "good_step na sv (sv\<lparr>sv_store := s\<rparr>)"
    if "revoke_invite f h (sv_store sv) = (res, s)" for f h res s
  proof -
    have "store_wf s" "access_view s = access_view (sv_store sv)"
      using that wf_revoke_invite view_keys(6) soundD(1) [OF assms] by (metis snd_conv)+
    then show ?thesis using assms by (intro good_store) simp_all
  qed
  show ?thesis using assms
    by (auto simp: handle_revoke_invite_def Let_def intro!: * split: option.split sum.split prod.split bool.split)
qed

subsection \<open>Every frame\<close>

theorem good_handle_frame:
  assumes "sound (cf_no_auth cfg) sv" "live cfg c sv"
  shows "good_step (cf_no_auth cfg) sv (snd (handle_frame cfg de ev c f sv))"
  using assms(1)
  by (cases "f_type f")
     (simp_all add: handle_frame_def Let_def snd_apfst good_create_vote good_create_room good_join_room assms(2)
        good_leave_room good_rename_room good_destroy_room good_send_message good_cast_vote good_elect_leader
        good_decline_election good_decision good_set_typing good_set_presence good_thinking good_subscribe
        good_unsubscribe good_enable_subscription good_create_invite good_revoke_invite good_assign_task
        good_update_task)

end
