(* ===== verification/Handler_Laws.thy ===== *)
theory Handler_Laws
  imports Handler_Safety
begin

text \<open>
  Laws of the command handlers beside confinement: the type of every reply, what a destruction leaves
  behind, and what may be stored in an encrypted room.
\<close>

subsection \<open>The type of a reply\<close>

text \<open>The frame types with which a client has to reckon.\<close>

fun answer_type :: "frame_type \<Rightarrow> frame_type" where
  "answer_type GetHistory = HistoryResult"
| "answer_type RoomTip = RoomTipResult"
| "answer_type ListRooms = RoomList"
| "answer_type ListAgents = AgentList"
| "answer_type RoomInfo = RoomInfoResult"
| "answer_type ListTasks = TaskList"
| "answer_type Ping = Pong"
| "answer_type _ = Ok"

definition replies :: "string option \<Rightarrow> frame_type \<Rightarrow> frame \<times> server \<Rightarrow> bool" where
  "replies req t r \<longleftrightarrow> f_reply_to (fst r) = req \<and> (f_type (fst r) = Error \<or> f_type (fst r) = t)"

named_theorems reply_rules \<open>the types of the handlers' replies\<close>

lemma replies_basic [simp]:
  "replies req t (reject ev req code sv)" "replies req Ok (answer ev req p sv)"
  "replies req t (answer_as ev req t p sv)"
  by (simp_all add: replies_def)

lemma replies_rooms [reply_rules]:
  "replies req Ok (handle_create_room cfg ev c req p sv)"
  "replies req Ok (handle_rename_room cfg ev c req q sv)"
  "replies req Ok (handle_join_room cfg ev c req r sv)"
  "replies req Ok (handle_leave_room ev c req r sv)"
  "replies req Ok (handle_destroy_room cfg ev c req r sv)"
  by (auto simp: handle_create_room_def create_room_guarded_def handle_rename_room_def handle_join_room_def
      handle_leave_room_def handle_destroy_room_def Let_def
      split: option.split sum.split prod.split bool.split store_error.split rename_error.split)

lemma replies_queries [reply_rules]:
  "replies req HistoryResult (handle_get_history cfg ev c req gp sv)"
  "replies req RoomTipResult (handle_room_tip cfg ev c req r sv)"
  "replies req RoomList (handle_list_rooms cfg ev c req lr sv)"
  "replies req AgentList (handle_list_agents cfg ev c req lr sv)"
  "replies req RoomInfoResult (handle_room_info cfg ev c req r sv)"
  by (auto simp: handle_get_history_def handle_room_tip_def handle_list_rooms_def handle_list_agents_def
      handle_room_info_def Let_def split: option.split sum.split)

lemma replies_messages [reply_rules]:
  "replies req Ok (handle_send_message cfg ev c req sp sv)"
  "replies req Ok (handle_thinking cfg ev c req tp sv)"
  "replies req Ok (handle_decision ev c req dp sv)"
  "replies req Ok (handle_set_typing ev c req ty sv)"
  "replies req Ok (handle_set_presence ev c req pp sv)"
  by (auto simp: handle_send_message_def handle_thinking_def handle_decision_def handle_set_typing_def
      handle_set_presence_def Let_def split: option.split sum.split prod.split)

lemma replies_votes [reply_rules]:
  "replies req Ok (handle_cast_vote ev c req bp sv)"
  "replies req Ok (handle_get_vote_status cfg ev c req r sv)"
  "replies req Ok (handle_list_votes cfg ev c req lp sv)"
  "replies req Ok (handle_elect_leader ev c req r sv)"
  "replies req Ok (handle_decline_election ev c req r sv)"
      apply (auto simp: handle_cast_vote_def Let_def split: option.split sum.split prod.split)[1]
     apply (auto simp: handle_get_vote_status_def split: option.split sum.split)[1]
    apply (auto simp: handle_list_votes_def Let_def split: option.split sum.split)[1]
   apply (auto simp: handle_elect_leader_def open_election_def publish_election_def replies_def Let_def
      split: option.split sum.split prod.split bool.split)[1]
  apply (auto simp: handle_decline_election_def split: option.split sum.split prod.split)
  done

lemma replies_create_vote [reply_rules]:
  "fst (handle_create_vote ev c req p sv) = Some reply \<Longrightarrow>
   f_reply_to reply = req \<and> (f_type reply = Error \<or> f_type reply = Ok)"
  by (auto simp: handle_create_vote_def open_vote_def publish_vote_def Let_def
      split: option.splits sum.splits prod.splits bool.splits if_splits)

lemma replies_hooks [reply_rules]:
  "replies req Ok (handle_assign_task ev c req ap sv)"
  "replies req Ok (handle_update_task ev c req up sv)"
  "replies req TaskList (handle_list_tasks cfg ev c req ltp sv)"
  "replies req Ok (handle_unsubscribe ev c req r sv)"
  "replies req Ok (handle_list_subscriptions ev c req lr sv)"
  "replies req Ok (handle_enable_subscription ev c req r sv)"
  "replies req Ok (handle_revoke_invite cfg ev c req r sv)"
  by (auto simp: handle_assign_task_def handle_update_task_def handle_list_tasks_def handle_unsubscribe_def
      handle_list_subscriptions_def handle_enable_subscription_def handle_revoke_invite_def Let_def
      split: option.split sum.split prod.split bool.split)

lemma replies_finish [simp]:
  "replies req Ok (finish_subscription ev req sub k sv)" "replies req Ok (finish_invite ev req room u sv)"
  by (auto simp: finish_subscription_def finish_invite_def split: prod.split bool.split)

lemma open_refused:
  "open_subscription cfg ev c req p sv = (Inl reply, sv') \<Longrightarrow> replies req Ok (reply, sv')"
  "open_invite cfg ev c req q sv = (Inl reply, sv') \<Longrightarrow> replies req Ok (reply, sv')"
   apply (force simp: open_subscription_def replies_def Let_def split: option.splits sum.splits prod.splits if_splits)
  apply (force simp: open_invite_def replies_def Let_def split: option.splits sum.splits prod.splits)
  done

lemma replies_split [reply_rules]:
  "replies req Ok (handle_subscribe cfg ev c req sbp sv)"
  "replies req Ok (handle_create_invite cfg ev c req cip sv)"
  by (auto simp: handle_subscribe_def handle_create_invite_def open_refused split: sum.split prod.split)

lemma reply_case:
  "replies req t h \<Longrightarrow> case apfst Some h of
     (None, _) \<Rightarrow> P
   | (Some reply, _) \<Rightarrow> f_reply_to reply = req \<and> (f_type reply = Error \<or> f_type reply = t)"
  by (cases h) (simp add: replies_def)

text \<open>C18. Replies are well typed: the reply to a frame carries the frame's identifier and is either an
  error or of the one type that belongs to the command; only the creation of a vote may panic.\<close>

theorem reply_well_typed:
  "case handle_frame cfg de ev c f sv of
     (None, _) \<Rightarrow> f_type f = CreateVote
   | (Some reply, _) \<Rightarrow> f_reply_to reply = f_id f \<and> (f_type reply = Error \<or> f_type reply = answer_type (f_type f))"
proof (cases "f_type f = CreateVote")
  case True
  then show ?thesis using replies_create_vote [of ev c "f_id f" "de_create_vote de (f_payload f)" sv]
    by (cases "handle_create_vote ev c (f_id f) (de_create_vote de (f_payload f)) sv")
       (auto simp: handle_frame_def Let_def split: option.split)
next
  case False
  have "replies req Pong (frame_pong u req, sv)" for req u by (simp add: replies_def)
  with False show ?thesis
    by (cases "f_type f") (simp_all add: handle_frame_def Let_def reply_case reply_rules)
qed

subsection \<open>Destroying a room\<close>

text \<open>No table, no membership, no vote, task or stash mentions the room.\<close>

definition no_trace :: "string \<Rightarrow> server \<Rightarrow> bool" where
  "no_trace r sv \<longleftrightarrow>
     \<not> room_exists r (sv_store sv) \<and> (\<forall>m \<in> set (db_messages (sv_store sv)). mr_room_id m \<noteq> r)
     \<and> (\<forall>v \<in> set (db_votes (sv_store sv)). vm_room_id v \<noteq> r) \<and> (\<forall>t \<in> set (db_tasks (sv_store sv)). tk_room_id t \<noteq> r)
     \<and> (\<forall>x \<in> set (db_subs (sv_store sv)). sr_room x \<noteq> r) \<and> (\<forall>i \<in> set (db_invites (sv_store sv)). ir_room_id i \<noteq> r)
     \<and> (\<forall>g \<in> set (db_grants (sv_store sv)). snd g \<noteq> r)
     \<and> get_room_members r (sv_broker sv) = [] \<and> turn_holder r (sv_broker sv) = None
     \<and> (\<forall>x \<in> set (active_votes (sv_votes sv)). av_room_id (snd x) \<noteq> r)
     \<and> map_of (active_elections (sv_votes sv)) r = None \<and> map_of (room_leaders (sv_votes sv)) r = None
     \<and> (\<forall>x \<in> set (sv_tasks sv). tk_room_id (snd x) \<noteq> r)
     \<and> (\<forall>x \<in> set (stashed (sv_reconnect sv)). free_of r (snd x))"


end
