(* ===== verification/Web.thy ===== *)
theory Web
  imports Server
begin

text \<open>
  The HTTP endpoints (\<open>web.rs\<close>): the origin check and the keyless rule of WebSocket upgrades, key
  signup, invite redemption, and the read endpoints. An endpoint is a function of the request and the
  server; the result is a status with a JSON body. \<open>header\<close> looks up a header whose value is visible
  ASCII, \<open>None\<close> otherwise; \<open>parse_ip\<close> and \<open>show_ip\<close> are \<open>IpAddr\<close>'s \<open>FromStr\<close> and \<open>Display\<close>. CORS,
  the bridge between WebSocket and connection loop, and the embedded files are not modelled.
\<close>

record web_config =
  wc_no_auth :: bool
  wc_api_key :: string
  wc_signup_enabled :: bool
  wc_admin_secret :: "string option"
  wc_allowed_origins :: "string list"
  wc_trusted_proxies :: "ip_addr list"

record http_request =
  hr_peer :: ip_addr
  hr_header :: "string \<Rightarrow> string option"
  hr_body :: "json option"

record http_env =
  he_instant :: nat
  he_utc :: int
  he_fault :: "nat \<Rightarrow> bool"
  he_key :: string
  he_hash :: "string \<Rightarrow> string"
  he_parse_ip :: "string \<Rightarrow> ip_addr option"
  he_show_ip :: "ip_addr \<Rightarrow> string"

datatype status = S_OK | S_Created | S_BadRequest | S_Unauthorized | S_Forbidden | S_NotFound
  | S_TooManyRequests | S_InternalServerError

type_synonym response = "status \<times> json"

definition web_error :: "status \<Rightarrow> string \<Rightarrow> response" where
  "web_error st e = (st, JObj [(''error'', JStr e)])"

subsection \<open>Admission of WebSockets\<close>

definition strip_prefix :: "string \<Rightarrow> string \<Rightarrow> string option" where
  "strip_prefix p s = (if take (length p) s = p then Some (drop (length p) s) else None)"

definition origin_matches_host :: "string \<Rightarrow> (string \<Rightarrow> string option) \<Rightarrow> bool" where
  "origin_matches_host origin header =
     (case header ''host'' of
        None \<Rightarrow> False
      | Some host \<Rightarrow>
     (case (case strip_prefix ''http://'' origin of
              Some rest \<Rightarrow> Some rest | None \<Rightarrow> strip_prefix ''https://'' origin) of
        None \<Rightarrow> False
      | Some rest \<Rightarrow>
          let origin_host = takeWhile (\<lambda>c. c \<noteq> CHR ''/'') rest
          in origin_host \<noteq> [] \<and> eq_ignore_ascii_case origin_host host))"

definition origin_allowed :: "(string \<Rightarrow> string option) \<Rightarrow> string list \<Rightarrow> bool" where
  "origin_allowed header allowed =
     (case header ''origin'' of
        None \<Rightarrow> True
      | Some origin \<Rightarrow> origin \<in> set allowed \<or> (allowed = [] \<and> origin_matches_host origin header))"

definition is_loopback :: "ip_addr \<Rightarrow> bool" where
  "is_loopback ip = (case ip of V4 a b c d \<Rightarrow> a = 127
     | V6 a b c d e f g h \<Rightarrow> a = 0 \<and> b = 0 \<and> c = 0 \<and> d = 0 \<and> e = 0 \<and> f = 0 \<and> g = 0 \<and> h = 1)"

text \<open>Whether the upgrade is refused, or else whether the connection may register without a key.\<close>

definition ws_handler :: "web_config \<Rightarrow> http_request \<Rightarrow> bool option" where
  "ws_handler wc r =
     (if \<not> origin_allowed (hr_header r) (wc_allowed_origins wc) then None
      else Some (is_loopback (hr_peer r)))"

subsection \<open>Keys and invites\<close>

text \<open>The last element of \<open>x-forwarded-for\<close>, when the peer is a trusted proxy.\<close>

definition last_part :: "string \<Rightarrow> string" where
  "last_part s = rev (takeWhile (\<lambda>c. c \<noteq> CHR '','') (rev s))"

definition signup_bucket :: "http_env \<Rightarrow> web_config \<Rightarrow> http_request \<Rightarrow> string" where
  "signup_bucket he wc r =
     he_show_ip he
       (if hr_peer r \<in> set (wc_trusted_proxies wc)
        then (case hr_header r ''x-forwarded-for'' of
                None \<Rightarrow> hr_peer r
              | Some v \<Rightarrow> (case he_parse_ip he (trim (last_part v)) of Some ip \<Rightarrow> ip | None \<Rightarrow> hr_peer r))
        else hr_peer r)"

definition json_str :: "string \<Rightarrow> json option \<Rightarrow> string option" where
  "json_str k body = (case Option.bind body (json_get k) of Some (JStr s) \<Rightarrow> Some s | _ \<Rightarrow> None)"

definition web_create_api_key :: "http_env \<Rightarrow> web_config \<Rightarrow> http_request \<Rightarrow> server \<Rightarrow> response \<times> server" where
  "web_create_api_key he wc r sv =
     (if \<not> wc_signup_enabled wc then (web_error S_Forbidden ''HTTP signup is disabled'', sv)
      else if wc_admin_secret wc \<noteq> None \<and> hr_header r ''x-cowchat-admin'' \<noteq> wc_admin_secret wc
      then (web_error S_Unauthorized ''admin secret required'', sv)
      else
        let (ok, rl) = try_register_signup (he_instant he) (signup_bucket he wc r) (sv_limits sv);
            sv = sv\<lparr>sv_limits := rl\<rparr>
        in if \<not> ok
           then (web_error S_TooManyRequests ''signup rate limit exceeded for your IP; try again later'', sv)
           else case create_api_key (he_fault he 0) (he_utc he) (he_key he) (json_str ''label'' (hr_body r))
                       (sv_store sv) of
             (Inl _, s) \<Rightarrow> (web_error S_InternalServerError ''database error'', sv\<lparr>sv_store := s\<rparr>)
           | (Inr _, s) \<Rightarrow>
               ((S_Created, JObj [(''api_key'', JStr (he_key he)), (''tier'', JStr ''free'')]), sv\<lparr>sv_store := s\<rparr>))"

definition web_redeem_invite :: "http_env \<Rightarrow> web_config \<Rightarrow> http_request \<Rightarrow> server \<Rightarrow> response \<times> server" where
  "web_redeem_invite he wc r sv =
     (let (ok, rl) = try_register_signup (he_instant he) (signup_bucket he wc r) (sv_limits sv);
          sv = sv\<lparr>sv_limits := rl\<rparr>;
          invalid = web_error S_NotFound ''invalid invite token'';
          failed = web_error S_InternalServerError ''database error''
      in if \<not> ok
         then (web_error S_TooManyRequests ''redemption rate limit exceeded for your IP; try again later'', sv)
         else case json_str ''token'' (hr_body r) of
           None \<Rightarrow> (web_error S_BadRequest ''token is required'', sv)
         | Some token \<Rightarrow>
             if token = [] then (web_error S_BadRequest ''token is required'', sv)
             else
        (case redeem_invite (he_fault he 0) (he_hash he token) (sv_store sv) of
           (Inl _, s) \<Rightarrow> (failed, sv\<lparr>sv_store := s\<rparr>)
         | (Inr None, s) \<Rightarrow> (invalid, sv\<lparr>sv_store := s\<rparr>)
         | (Inr (Some room_id), s) \<Rightarrow>
        (case get_room (he_fault he 1) room_id s of
           Inr (Some room) \<Rightarrow>
        (case create_api_key (he_fault he 2) (he_utc he) (he_key he) (Some (''invite:'' @ rm_name room)) s of
           (Inl _, s) \<Rightarrow> (failed, sv\<lparr>sv_store := s\<rparr>)
         | (Inr _, s) \<Rightarrow>
        (case add_room_grant (he_fault he 3) (he_key he) room_id s of
           (Inl _, s) \<Rightarrow> (failed, sv\<lparr>sv_store := s\<rparr>)
         | (Inr _, s) \<Rightarrow>
             ((S_Created, JObj [(''api_key'', JStr (he_key he)), (''room_id'', JStr (rm_room_id room)),
                (''room_name'', JStr (rm_name room)), (''tier'', JStr ''free'')]), sv\<lparr>sv_store := s\<rparr>)))
         | _ \<Rightarrow> (invalid, sv\<lparr>sv_store := s\<rparr>))))"

subsection \<open>Reading\<close>

text \<open>The header \<open>x-cowchat-key\<close> when it is the server's key or a stored one.\<close>

definition known_key :: "http_env \<Rightarrow> nat \<Rightarrow> web_config \<Rightarrow> string \<Rightarrow> store \<Rightarrow> bool" where
  "known_key he k wc key s \<longleftrightarrow>
     key = wc_api_key wc \<or> (case validate_api_key (he_fault he k) key s of Inr valid \<Rightarrow> valid | Inl _ \<Rightarrow> False)"

definition api_status :: "http_env \<Rightarrow> server \<Rightarrow> response" where
  "api_status he sv =
     (let rooms = (case list_rooms (he_fault he 0) None (sv_store sv) of Inr rooms \<Rightarrow> rooms | Inl _ \<Rightarrow> [])
      in (S_OK, JObj [(''status'', JStr ''ok''), (''agents_connected'', JInt (int (length (agents (sv_broker sv))))),
                      (''rooms'', JInt (int (length rooms)))]))"

definition api_list_rooms :: "http_env \<Rightarrow> web_config \<Rightarrow> http_request \<Rightarrow> server \<Rightarrow> response" where
  "api_list_rooms he wc r sv =
     (let key = (case hr_header r ''x-cowchat-key'' of
                   Some key \<Rightarrow> if known_key he 0 wc key (sv_store sv) then Some key else None
                 | None \<Rightarrow> None);
          rooms = (case list_rooms_for_key (he_fault he 1) key None (sv_store sv) of Inr rooms \<Rightarrow> rooms | Inl _ \<Rightarrow> [])
      in (S_OK, JObj [(''rooms'', JArr (map room_to_json rooms))]))"

definition agent_brief :: "agent_info \<Rightarrow> json" where
  "agent_brief i = JObj [(''agent_id'', JStr (ai_agent_id i)), (''name'', JStr (ai_name i)),
     (''capabilities'', json_strs (ai_capabilities i))]"

definition api_list_agents :: "http_env \<Rightarrow> web_config \<Rightarrow> http_request \<Rightarrow> server \<Rightarrow> response" where
  "api_list_agents he wc r sv =
     (case hr_header r ''x-cowchat-key'' of
        None \<Rightarrow> (S_Unauthorized, JNull)
      | Some key \<Rightarrow>
          if \<not> known_key he 0 wc key (sv_store sv) then (S_Unauthorized, JNull)
          else (S_OK, JObj [(''agents'', JArr (map (\<lambda>(_, c). agent_brief (ac_info c))
                  (filter (\<lambda>(_, c). wc_no_auth wc \<or> ac_api_key c = key) (agents (sv_broker sv)))))]))"

definition api_room_history :: "http_env \<Rightarrow> string \<Rightarrow> server \<Rightarrow> response" where
  "api_room_history he room_id sv =
     (case get_room (he_fault he 0) room_id (sv_store sv) of
        Inr (Some r) \<Rightarrow>
          if rm_visibility r = ''public''
          then (let messages = (case get_history (he_fault he 1) room_id 100 None (sv_store sv) of
                                  Inr ms \<Rightarrow> ms | Inl _ \<Rightarrow> [])
                in (S_OK, JObj [(''messages'', JArr (map chat_message_to_json messages))]))
          else web_error S_Forbidden ''Room is private''
      | _ \<Rightarrow> web_error S_NotFound ''Room not found'')"

end
