(* ===== verification/System.thy ===== *)
theory System
  imports Handler_Safety Web
begin

text \<open>
  The whole server as a state machine: the shared state and the registered connections with the phase
  of their task. A step is what one task does between two points where it waits: a registration up to
  the hand-over of its first frames, the writer's report, one frame, one reply, the cleanup, one
  delivery round, a timer, an HTTP request. \<open>connection_loop\<close>, \<open>run\<close> and the spawned tasks
  (\<open>server.rs\<close>, \<open>voting.rs\<close>, \<open>webhooks.rs\<close>, \<open>reconnect.rs\<close>) are interleaved in all orders.
\<close>

subsection \<open>The state\<close>

text \<open>\<open>Greeting\<close>: the first frames are with the writer, and a reclaim lease may be open. \<open>Replying\<close>:
  the reply waits for room in the connection's channel.\<close>

datatype phase = Greeting "frame list" "reclaim_lease option" | Ready | Replying frame

record system =
  sy_server :: server
  sy_sessions :: "(string, session \<times> phase) dashmap"

definition set_phase :: "session \<Rightarrow> phase \<Rightarrow> system \<Rightarrow> system" where
  "set_phase se ph sy = sy\<lparr>sy_sessions := dm_insert (se_session_id se) (se, ph) (sy_sessions sy)\<rparr>"

definition end_session :: "session \<Rightarrow> system \<Rightarrow> system" where
  "end_session se sy = sy\<lparr>sy_sessions := dm_remove (se_session_id se) (sy_sessions sy)\<rparr>"

abbreviation in_phase :: "session \<Rightarrow> phase \<Rightarrow> system \<Rightarrow> bool" where
  "in_phase se ph sy \<equiv> map_of (sy_sessions sy) (se_session_id se) = Some (se, ph)"

text \<open>UUIDs are new: the session's, and the agent's when the client brings none.\<close>

definition fresh_ids :: "env \<Rightarrow> register_payload option \<Rightarrow> system \<Rightarrow> bool" where
  "fresh_ids ev payload sy \<longleftrightarrow>
     ev_uid ev 3 \<notin> set (dm_keys (sy_sessions sy))
     \<and> (case payload of Some p \<Rightarrow> rp_agent_id p \<noteq> None
          \<or> (map_of (agents (sv_broker (sy_server sy))) (ev_uid ev 1) = None
             \<and> map_of (stashed (sv_reconnect (sy_server sy))) (ev_uid ev 1) = None)
        | None \<Rightarrow> True)"

text \<open>The writer of a connection takes the next frame, or fails and closes the channel.\<close>

definition writer_takes :: "string \<Rightarrow> broker \<Rightarrow> broker" where
  "writer_takes a b =
     (case map_of (agents b) a of None \<Rightarrow> b
      | Some c \<Rightarrow> b\<lparr>agents := dm_insert a (c\<lparr>ac_outbox := tl (ac_outbox c)\<rparr>) (agents b)\<rparr>)"

definition writer_fails :: "string \<Rightarrow> broker \<Rightarrow> broker" where
  "writer_fails a b =
     (case map_of (agents b) a of None \<Rightarrow> b
      | Some c \<Rightarrow> b\<lparr>agents := dm_insert a (c\<lparr>ac_closed := True\<rparr>) (agents b)\<rparr>)"

text \<open>The ping every 30 seconds is dropped, with the task that sends it, when the channel is full.\<close>

definition heartbeat :: "string \<Rightarrow> session \<Rightarrow> broker \<Rightarrow> broker" where
  "heartbeat uid se b =
     (case map_of (agents b) (se_agent_id se) of
        None \<Rightarrow> b
      | Some c \<Rightarrow> if accepts c
                  then queue_frame se (frame_event uid Ping (JObj [(''heartbeat'', JBool True)])) b
                  else b)"

subsection \<open>The steps\<close>

inductive system_step :: "config \<Rightarrow> bool \<Rightarrow> system \<Rightarrow> system \<Rightarrow> bool" for cfg keyless where
  step_refuse: "register cfg allow server_key ev af req payload (sy_server sy) = (Inl r, sv) \<Longrightarrow>
     allow \<longrightarrow> keyless \<Longrightarrow> fresh_ids ev payload sy \<Longrightarrow>
     system_step cfg keyless sy (sy\<lparr>sy_server := sv\<rparr>)"
| step_register: "register cfg allow server_key ev af req payload (sy_server sy) = (Inr (se, fs, lease), sv) \<Longrightarrow>
     allow \<longrightarrow> keyless \<Longrightarrow> fresh_ids ev payload sy \<Longrightarrow>
     system_step cfg keyless sy (set_phase se (Greeting fs lease) (sy\<lparr>sy_server := sv\<rparr>))"
| step_unwritten: "in_phase se (Greeting fs lease) sy \<Longrightarrow>
     system_step cfg keyless sy (end_session se (sy\<lparr>sy_server := registration_failed ev se lease (sy_server sy)\<rparr>))"
| step_written: "in_phase se (Greeting fs lease) sy \<Longrightarrow>
     system_step cfg keyless sy
       (set_phase se Ready (sy\<lparr>sy_server := registration_written cfg fault se (tl fs) lease (sy_server sy)\<rparr>))"
| step_frame: "in_phase se Ready sy \<Longrightarrow> owns_entry se (sv_broker (sy_server sy)) \<Longrightarrow> f_type f \<noteq> Pong \<Longrightarrow>
     handle_frame cfg de ev (caller_of se) f (sy_server sy) = (Some reply, sv) \<Longrightarrow>
     system_step cfg keyless sy (set_phase se (Replying reply) (sy\<lparr>sy_server := sv\<rparr>))"
| step_panic: "in_phase se Ready sy \<Longrightarrow> owns_entry se (sv_broker (sy_server sy)) \<Longrightarrow>
     handle_frame cfg de ev (caller_of se) f (sy_server sy) = (None, sv) \<Longrightarrow>
     system_step cfg keyless sy (end_session se (sy\<lparr>sy_server := sv\<rparr>))"
| step_reply: "in_phase se (Replying reply) sy \<Longrightarrow> sv = sy_server sy \<Longrightarrow>
     system_step cfg keyless sy
       (set_phase se Ready (sy\<lparr>sy_server := sv\<lparr>sv_broker := queue_frame se reply (sv_broker sv)\<rparr>\<rparr>))"
| step_disconnect: "in_phase se ph sy \<Longrightarrow> \<forall>fs lease. ph \<noteq> Greeting fs lease \<Longrightarrow>
     system_step cfg keyless sy (end_session se (sy\<lparr>sy_server := disconnect ev se (sy_server sy)\<rparr>))"
| step_heartbeat: "in_phase se ph sy \<Longrightarrow> \<forall>fs lease. ph \<noteq> Greeting fs lease \<Longrightarrow> sv = sy_server sy \<Longrightarrow>
     system_step cfg keyless sy (sy\<lparr>sy_server := sv\<lparr>sv_broker := heartbeat uid se (sv_broker sv)\<rparr>\<rparr>)"
| step_writer: "sv = sy_server sy \<Longrightarrow> b = writer_takes a (sv_broker sv) \<or> b = writer_fails a (sv_broker sv) \<Longrightarrow>
     system_step cfg keyless sy (sy\<lparr>sy_server := sv\<lparr>sv_broker := b\<rparr>\<rparr>)"
| step_enqueue: "sv = sy_server sy \<Longrightarrow> sv_spawned sv = xs @ msg # ys \<Longrightarrow>
     system_step cfg keyless sy (sy\<lparr>sy_server := sv\<lparr>sv_spawned := xs @ ys,
       sv_store := enqueue_for_message fault now uid msg (sv_store sv)\<rparr>\<rparr>)"
| step_deliver: "sv = sy_server sy \<Longrightarrow>
     worker_round net (cf_allow_private cfg) fault_load fault2 now now' uid (sv_store sv) = (sent, s) \<Longrightarrow>
     system_step cfg keyless sy (sy\<lparr>sy_server := sv\<lparr>sv_store := s\<rparr>\<rparr>)"
| step_deadline: "sv = sy_server sy \<Longrightarrow>
     \<forall>v. map_of (active_votes (sv_votes sv)) vote_id = Some v \<longrightarrow> av_closes_at v \<noteq> None \<Longrightarrow>
     vote_deadline u f1 vote_id (sv_votes sv) (sv_broker sv) (sv_store sv) = (vm, b, s) \<Longrightarrow>
     system_step cfg keyless sy (sy\<lparr>sy_server := sv\<lparr>sv_votes := vm, sv_broker := b, sv_store := s\<rparr>\<rparr>)"
| step_election: "sv = sy_server sy \<Longrightarrow>
     election_timer u t t' draw room_id (sv_votes sv) (sv_broker sv) = (vm, b) \<Longrightarrow>
     system_step cfg keyless sy (sy\<lparr>sy_server := sv\<lparr>sv_votes := vm, sv_broker := b\<rparr>\<rparr>)"
| step_purge: "sv = sy_server sy \<Longrightarrow>
     system_step cfg keyless sy (sy\<lparr>sy_server := sv\<lparr>sv_store := snd (purge_messages_by_tier f1 now tier age (sv_store sv))\<rparr>\<rparr>)"
| step_tick: "sv = sy_server sy \<Longrightarrow>
     system_step cfg keyless sy (sy\<lparr>sy_server := sv\<lparr>sv_reconnect := cleanup_tick t (sv_reconnect sv)\<rparr>\<rparr>)"
| step_signup: "web_create_api_key he wc r (sy_server sy) = (resp, sv) \<Longrightarrow>
     system_step cfg keyless sy (sy\<lparr>sy_server := sv\<rparr>)"
| step_redeem: "web_redeem_invite he wc r (sy_server sy) = (resp, sv) \<Longrightarrow>
     system_step cfg keyless sy (sy\<lparr>sy_server := sv\<rparr>)"

text \<open>A server that starts on a consistent database, with the votes and tasks it loads from it.\<close>

definition server_new :: "(nat \<Rightarrow> bool) \<Rightarrow> (string \<Rightarrow> bool) \<Rightarrow> (string \<Rightarrow> bool) \<Rightarrow> store \<Rightarrow> server" where
  "server_new fault fault_ballots fault_eligible s =
     \<lparr>sv_store = s, sv_broker = broker_new, sv_votes = vote_manager_new (fault 0) fault_ballots fault_eligible s,
      sv_tasks = task_manager_new (fault 1) s, sv_limits = rate_limiter_new, sv_reconnect = reconnect_new,
      sv_spawned = []\<rparr>"

inductive reachable :: "config \<Rightarrow> bool \<Rightarrow> system \<Rightarrow> bool" for cfg keyless where
  reachable_start: "store_wf s \<Longrightarrow>
     reachable cfg keyless \<lparr>sy_server = server_new fault fb fe s, sy_sessions = []\<rparr>"
| reachable_step: "reachable cfg keyless sy \<Longrightarrow> system_step cfg keyless sy sy' \<Longrightarrow> reachable cfg keyless sy'"

end
