(* ===== verification/System_Safety.thy ===== *)
theory System_Safety
  imports System
begin

text \<open>
  Every reachable state of a server on which all connections are subject to the same rule (either no
  authentication at all, or no keyless admission) is sound: members of rooms are connected agents
  whose key may access the room. And every frame about a room that reaches a connection's channel is
  for a key that may access the room.
\<close>

subsection \<open>The invariant of the shared state\<close>

text \<open>Keys are not empty, and a stash has the key of the live connection of the same agent, unless the
  live connection's key owns the agent's identity.\<close>

definition keyed :: "server \<Rightarrow> bool" where
  "keyed sv \<longleftrightarrow> (\<forall>a k. key_of (sv_broker sv) a = Some k \<longrightarrow> k \<noteq> [])
     \<and> (\<forall>a k. stash_key (sv_reconnect sv) a = Some k \<longrightarrow> k \<noteq> [])
     \<and> (\<forall>a k k'. key_of (sv_broker sv) a = Some k \<longrightarrow> stash_key (sv_reconnect sv) a = Some k' \<longrightarrow>
          k' = k \<or> identity_owner (sv_store sv) a = Some k)"

definition guarded :: "bool \<Rightarrow> server \<Rightarrow> bool" where
  "guarded na sv \<longleftrightarrow> sound na sv \<and> distinct (dm_keys (stashed (sv_reconnect sv))) \<and> (na \<or> keyed sv)"

definition owners_kept :: "store \<Rightarrow> store \<Rightarrow> bool" where
  "owners_kept s s' \<longleftrightarrow> (\<forall>a k. identity_owner s a = Some k \<longrightarrow> identity_owner s' a = Some k)"

definition stashes_kept :: "reconnect_manager \<Rightarrow> reconnect_manager \<Rightarrow> bool" where
  "stashes_kept rm rm' \<longleftrightarrow> (\<forall>a k. stash_key rm' a = Some k \<longrightarrow> stash_key rm a = Some k)
     \<and> (distinct (dm_keys (stashed rm)) \<longrightarrow> distinct (dm_keys (stashed rm')))"

lemma kept_refl [simp]: "owners_kept s s" "stashes_kept rm rm"
  by (simp_all add: owners_kept_def stashes_kept_def)

lemma kept_trans:
  "owners_kept s s' \<Longrightarrow> owners_kept s' s'' \<Longrightarrow> owners_kept s s''"
  "stashes_kept rm rm' \<Longrightarrow> stashes_kept rm' rm'' \<Longrightarrow> stashes_kept rm rm''"
  by (auto simp: owners_kept_def stashes_kept_def)

lemma owners_kept_same: "db_identities s' = db_identities s \<Longrightarrow> owners_kept s s'"
  by (simp add: owners_kept_def identity_owner_def)

lemma guarded_mono:
  assumes "guarded na sv" "sound na sv'"
    and "\<And>a k. key_of (sv_broker sv') a = Some k \<Longrightarrow> key_of (sv_broker sv) a = Some k"
    and "stashes_kept (sv_reconnect sv) (sv_reconnect sv')" "owners_kept (sv_store sv) (sv_store sv')"
  shows "guarded na sv'"
proof -
  have "keyed sv'" if "keyed sv"
    using that assms(3-5) unfolding keyed_def stashes_kept_def owners_kept_def by blast
  then show ?thesis using assms by (auto simp: guarded_def stashes_kept_def)
qed

subsection \<open>What reaches a channel\<close>

text \<open>The frames a step puts into the channel of an agent: those behind the old ones, or all of them
  when the connection is a new one.\<close>

definition arrived :: "broker \<Rightarrow> broker \<Rightarrow> string \<Rightarrow> frame list" where
  "arrived b b' a = (if session_of b' a = session_of b a then drop (length (outbox b a)) (outbox b' a)
     else outbox b' a)"

definition shown :: "bool \<Rightarrow> server \<Rightarrow> server \<Rightarrow> bool" where
  "shown na sv sv' \<longleftrightarrow> (\<forall>a f r. f \<in> set (arrived (sv_broker sv) (sv_broker sv') a) \<longrightarrow> frame_room_id f = Some r \<longrightarrow>
     (\<exists>k. key_of (sv_broker sv') a = Some k \<and> (allowed na (sv_store sv) k r \<or> allowed na (sv_store sv') k r)))"

lemma arrived_delivers:
  "delivers P b b' \<Longrightarrow> f \<in> set (arrived b b' a) \<Longrightarrow> P a f"
  unfolding delivers_def arrived_def by (metis append_eq_conv_conj)

lemma arrived_none: "agents b' = agents b \<Longrightarrow> arrived b b' a = []"
  by (simp add: arrived_def outbox_def session_of_def)

lemma shown_none [simp]: "agents (sv_broker sv') = agents (sv_broker sv) \<Longrightarrow> shown na sv sv'"
  by (simp add: shown_def arrived_none)

text \<open>The sessions after a step that registers nobody are those before it.\<close>

definition entries_kept :: "broker \<Rightarrow> broker \<Rightarrow> bool" where
  "entries_kept b b' \<longleftrightarrow> (\<forall>a sid. session_of b' a = Some sid \<longrightarrow> session_of b a = Some sid \<and> key_of b' a = key_of b a)"

lemma entries_kept_same [simp]: "agents b' = agents b \<Longrightarrow> entries_kept b b'"
  by (simp add: entries_kept_def session_of_def key_of_def)

definition safe_step :: "bool \<Rightarrow> server \<Rightarrow> server \<Rightarrow> bool" where
  "safe_step na sv sv' \<longleftrightarrow> guarded na sv' \<and> shown na sv sv' \<and> entries_kept (sv_broker sv) (sv_broker sv')"

lemma delivers_entries: "delivers P b b' \<Longrightarrow> entries_kept b b'"
  by (simp add: delivers_def entries_kept_def)

lemma good_safe:
  assumes "guarded na sv" "good_step na sv sv'"
  shows "safe_step na sv sv'"
proof -
  have g: "sound na sv'" "calm sv sv'" and d: "delivers (visible na sv sv') (sv_broker sv) (sv_broker sv')"
    using assms(2) by (auto simp: good_step_def)
  have "guarded na sv'"
    using g by (intro guarded_mono [OF assms(1)])
      (auto simp: delivers_keys [OF d] calm_def stashes_kept_def intro: owners_kept_same)
  moreover have "shown na sv sv'"
    using arrived_delivers [OF d] delivers_keys [OF d] unfolding shown_def visible_def by metis
  ultimately show ?thesis using delivers_entries [OF d] by (simp add: safe_step_def)
qed

text \<open>A step that leaves the connections and memberships alone.\<close>

lemma sound_store:
  assumes "sound na sv" "agents (sv_broker sv') = agents (sv_broker sv)"
    and "room_members (sv_broker sv') = room_members (sv_broker sv)" "broker_wf (sv_broker sv')" "store_wf (sv_store sv')"
    and "\<And>k r. allowed na (sv_store sv) k r \<Longrightarrow> allowed na (sv_store sv') k r"
  shows "sound na sv'"
proof -
  note m = members_cong [OF assms(3)]
  have "authorized na sv'"
    using assms(6) by (intro authorized_subset [OF assms(1)]) (auto simp: m key_of_def assms(2))
  then show ?thesis using assms(4,5) by (simp add: sound_def)
qed

lemma safe_store:
  assumes "guarded na sv" "sv_broker sv' = sv_broker sv" "store_wf (sv_store sv')"
    and "\<And>k r. allowed na (sv_store sv) k r \<Longrightarrow> allowed na (sv_store sv') k r"
    and "stashes_kept (sv_reconnect sv) (sv_reconnect sv')" "owners_kept (sv_store sv) (sv_store sv')"
  shows "safe_step na sv sv'"
proof -
  have s: "sound na sv" using assms(1) by (simp add: guarded_def)
  have "sound na sv'" using assms(2-4) soundD(2) [OF s] by (intro sound_store [OF s]) simp_all
  then have "guarded na sv'" using assms(2,5,6) by (intro guarded_mono [OF assms(1)]) simp_all
  then show ?thesis using assms(2) by (simp add: safe_step_def)
qed

lemma guarded_sound: "guarded na sv \<Longrightarrow> sound na sv"
  by (simp add: guarded_def)

subsection \<open>Background steps\<close>

lemma safe_view:
  assumes "guarded na sv" "store_wf s" "access_view s = access_view (sv_store sv)"
  shows "safe_step na sv (sv\<lparr>sv_store := s\<rparr>)" "safe_step na sv (sv\<lparr>sv_spawned := sp, sv_store := s\<rparr>)"
  using assms allowed_view [OF assms(3)]
  by (auto intro!: safe_store owners_kept_same simp: access_view_def)

lemma view_enqueue_for_message [simp]: "access_view (enqueue_for_message fault now uid msg s) = access_view s"
proof -
  have "access_view (fold (enqueue_one fault now uid msg) xs s) = access_view s" for xs s
    by (induction xs arbitrary: s)
       (auto simp: enqueue_one_def access_view_def enqueue_delivery_frame split: prod.split)
  then show ?thesis by (simp add: enqueue_for_message_def split: sum.split)
qed

lemma view_delivery_ops [simp]:
  "access_view (snd (delete_delivery f d s)) = access_view s"
  "access_view (snd (reschedule_delivery f d t n e s)) = access_view s"
  "access_view (snd (advance_subscription_cursor f sid sq s)) = access_view s"
  by (auto intro!: access_view_eqI simp: delete_delivery_def reschedule_delivery_def
      advance_subscription_cursor_def sub_update_def delete_deliveries_where_def)

lemma view_process_delivery [simp]: "access_view (snd (process_delivery net ap fault now now' w d s)) = access_view s"
  by (auto simp: process_delivery_def settle_delivery_def Let_def split: sum.split option.split)

lemma view_worker_round [simp]:
  "access_view (snd (worker_round net ap f fault now now' uid s)) = access_view s"
proof -
  have "access_view (snd (process_batch net ap fault now now' uid k ds s)) = access_view s" for k ds
  proof (induction ds arbitrary: k s)
    case (Cons d ds)
    have "access_view (snd (process_batch net ap fault now now' uid (Suc k) ds
        (snd (process_delivery net ap (fault k) now now' (uid k) d s)))) = access_view s"
      by (simp add: Cons.IH)
    then show ?case by (simp add: case_prod_unfold Let_def)
  qed simp
  then show ?thesis by (simp add: worker_round_def split: sum.split)
qed

lemma good_deadline:
  assumes "sound na sv" "vote_deadline u f vid (sv_votes sv) (sv_broker sv) (sv_store sv) = (vm, b, s)"
  shows "good_step na sv (sv\<lparr>sv_votes := vm, sv_broker := b, sv_store := s\<rparr>)"
  using vote_deadline_frame [where u = u and f = f and vid = vid and vm = "sv_votes sv" and b = "sv_broker sv"
      and s = "sv_store sv"] soundD(1,2) [OF assms(1)] assms
  by (intro good_quiet) (auto intro: access_kept_view)

lemma election_timer_frame:
  "posts b (snd (election_timer u t t' draw r vm b))"
  "broker_wf b \<Longrightarrow> broker_wf (snd (election_timer u t t' draw r vm b))"
proof -
  obtain g b' where d: "is_room_destroyed t r b = (g, b')" by force
  have b': "posts b b'" "broker_wf b \<Longrightarrow> broker_wf b'"
    using posts_turn_ops(2) [OF posts_refl] wf_is_destroyed d by (metis snd_conv)+
  obtain g2 b2 where d2: "is_room_destroyed t' r b' = (g2, b2)" by force
  have b2: "posts b b2" "broker_wf b \<Longrightarrow> broker_wf b2"
    using posts_turn_ops(2) [OF b'(1)] wf_is_destroyed [OF b'(2)] d2 by (metis snd_conv)+
  show "posts b (snd (election_timer u t t' draw r vm b))"
    using b' b2 by (auto simp: election_timer_def d d2 Let_def leader_cleared_def posts_intros split: option.split prod.split)
  show "broker_wf b \<Longrightarrow> broker_wf (snd (election_timer u t t' draw r vm b))"
    using b' b2 by (auto simp: election_timer_def d d2 Let_def wf_intros split: option.split prod.split)
qed

lemma good_election:
  assumes "sound na sv" "election_timer u t t' draw r (sv_votes sv) (sv_broker sv) = (vm, b)"
  shows "good_step na sv (sv\<lparr>sv_votes := vm, sv_broker := b\<rparr>)"
  using election_timer_frame [where b = "sv_broker sv" and vm = "sv_votes sv" and u = u and t = t and t' = t'
      and draw = draw and r = r] soundD(1,2) [OF assms(1)] assms
  by (intro good_quiet) auto

lemma safe_tick:
  assumes "guarded na sv"
  shows "safe_step na sv (sv\<lparr>sv_reconnect := cleanup_tick t (sv_reconnect sv)\<rparr>)"
proof -
  have "stashes_kept rm (cleanup_tick t rm)" if "distinct (dm_keys (stashed rm))" for rm
    using that by (auto simp: stashes_kept_def stash_key_def cleanup_tick_def dm_lookup_retain
        simp del: map_of_map split: option.splits if_splits)
  moreover have "distinct (dm_keys (stashed (sv_reconnect sv)))" using assms by (simp add: guarded_def)
  ultimately show ?thesis using soundD(1) [OF guarded_sound [OF assms]] by (intro safe_store [OF assms]) simp_all
qed

subsection \<open>The writer\<close>

lemma safe_entry:
  assumes "guarded na sv" "map_of (agents (sv_broker sv)) a = Some c"
    and "ac_api_key c' = ac_api_key c" "ac_session_id c' = ac_session_id c" "length (ac_outbox c') \<le> length (ac_outbox c)"
  shows "safe_step na sv (sv\<lparr>sv_broker := (sv_broker sv)\<lparr>agents := dm_insert a c' (agents (sv_broker sv))\<rparr>\<rparr>)"
proof -
  let ?b' = "(sv_broker sv)\<lparr>agents := dm_insert a c' (agents (sv_broker sv))\<rparr>"
  let ?sv' = "sv\<lparr>sv_broker := ?b'\<rparr>"
  note s = guarded_sound [OF assms(1)]
  have k: "key_of ?b' x = key_of (sv_broker sv) x" "session_of ?b' x = session_of (sv_broker sv) x" for x
    using assms(2-4) by (auto simp: key_of_def session_of_def)
  have wf: "broker_wf ?b'" using soundD(2) [OF s] by (auto intro!: wf_set_agents dest: broker_wfD(1))
  have "authorized na ?sv'" by (rule authorized_subset [OF s]) (simp_all add: k get_room_members_in)
  then have "sound na ?sv'" using soundD(1) [OF s] wf by (simp add: sound_def)
  then have "guarded na ?sv'" by (rule guarded_mono [OF assms(1)]) (simp_all add: k)
  moreover have "arrived (sv_broker sv) ?b' x = []" for x
    using assms(2,5) by (simp add: arrived_def k outbox_def)
  ultimately show ?thesis by (simp add: safe_step_def shown_def entries_kept_def k)
qed

lemma safe_writer:
  assumes "guarded na sv" "b = writer_takes a (sv_broker sv) \<or> b = writer_fails a (sv_broker sv)"
  shows "safe_step na sv (sv\<lparr>sv_broker := b\<rparr>)"
  using assms(2) safe_entry [OF assms(1)] safe_store [OF assms(1), of sv] soundD(1) [OF guarded_sound [OF assms(1)]]
  by (auto simp: writer_takes_def writer_fails_def split: option.splits)

subsection \<open>HTTP requests\<close>

lemma grant_allows_more:
  assumes "allowed na s k r"
  shows "allowed na (snd (add_room_grant f key q s)) k r"
proof -
  have "cached_grants s k \<subseteq> cached_grants (snd (add_room_grant f key q s)) k"
    by (auto simp: cached_grants_def add_room_grant_def)
  moreover have "room_find r (snd (add_room_grant f key q s)) = room_find r s"
    by (simp add: room_find_def add_room_grant_def)
  ultimately show ?thesis using assms
    by (auto simp: allowed_def can_access_room_def key_has_grant_def split: option.splits)
qed

lemma safe_signup:
  assumes "guarded na sv" "web_create_api_key he wc r sv = (resp, sv')"
  shows "safe_step na sv sv'"
proof -
  let ?s = "snd (create_api_key (he_fault he 0) (he_utc he) (he_key he) (json_str ''label'' (hr_body r)) (sv_store sv))"
  have "(sv_store sv' = sv_store sv \<or> sv_store sv' = ?s) \<and> sv_broker sv' = sv_broker sv
      \<and> sv_reconnect sv' = sv_reconnect sv"
    using assms(2) by (auto simp: web_create_api_key_def Let_def split: if_splits prod.splits sum.splits)
  moreover have "access_view (sv_store sv') = access_view (sv_store sv) \<and> store_wf (sv_store sv')"
    using calculation soundD(1) [OF guarded_sound [OF assms(1)]] by (auto simp: wf_create_api_key)
  ultimately show ?thesis using allowed_view [of "sv_store sv'" "sv_store sv"]
    by (intro safe_store [OF assms(1)]) (auto intro: owners_kept_same simp: access_view_def)
qed

lemma safe_redeem:
  assumes "guarded na sv" "web_redeem_invite he wc r sv = (resp, sv')"
  shows "safe_step na sv sv'"
proof -
  define same where "same s \<longleftrightarrow> store_wf s \<and> db_identities s = db_identities (sv_store sv)
    \<and> (\<forall>k r. allowed na (sv_store sv) k r \<longrightarrow> allowed na s k r)" for s
  have view: "same s'" if "same s" "store_wf s'" "access_view s' = access_view s" for s s'
    using that allowed_view [OF that(3)] by (simp add: same_def access_view_def)
  have 0: "same (sv_store sv)" using soundD(1) [OF guarded_sound [OF assms(1)]] by (simp add: same_def)
  have 1: "same (snd (redeem_invite f h s))" if "same s" for f h s
    using that by (intro view [OF that]) (simp_all add: same_def wf_redeem_invite)
  have 2: "same (snd (create_api_key f t k l s))" if "same s" for f t k l s
    using that by (intro view [OF that]) (simp_all add: same_def wf_create_api_key)
  have 3: "same (snd (add_room_grant f k q s))" if "same s" for f k q s
  proof -
    have "db_identities (snd (add_room_grant f k q s)) = db_identities s" by (simp add: add_room_grant_def)
    then show ?thesis using that grant_allows_more wf_add_room_grant unfolding same_def by simp
  qed
  have "sv_broker sv' = sv_broker sv \<and> sv_reconnect sv' = sv_reconnect sv \<and> same (sv_store sv')"
    using assms(2)
    by (auto simp: web_redeem_invite_def Let_def case_prod_unfold 0 1 2 3 split: if_splits sum.splits option.splits)
  then show ?thesis by (intro safe_store [OF assms(1)]) (auto simp: same_def intro: owners_kept_same)
qed

end
