(* ===== verification/Scenario.thy ===== *)
theory Scenario
  imports System_Safety
begin

text \<open>
  A small run of the whole server, used to instantiate the theorems about reachable states: an agent
  registers with the server's key, its first frames are written, and it joins its private room.
\<close>

lemma register_new_agent:
  assumes "rp_agent_id p = None" "\<not> rp_reconnect p" "rp_protocol_version p = Some PROTOCOL_VERSION"
    and "rp_key p = skey" "skey \<noteq> []" "map_of (agents (sv_broker sv)) (ev_uid ev 1) = None" "usage (sv_limits sv) = []"
  obtains reply sv' where "register cfg allow skey ev af req (Some p) sv
      = (Inr (\<lparr>se_agent_id = ev_uid ev 1, se_name = rp_name p, se_session_id = ev_uid ev 3, se_api_key = rp_key p\<rparr>,
              [reply], None), sv')"
    "sv_broker sv' = (sv_broker sv)\<lparr>agents := dm_insert (ev_uid ev 1) (new_connection ev p (ev_uid ev 1) (ev_uid ev 3)) (agents (sv_broker sv))\<rparr>"
    "db_rooms (sv_store sv') = db_rooms (sv_store sv)" "grants_cache (sv_store sv') = grants_cache (sv_store sv)"
proof -
  let ?chk = "if \<not> cf_no_auth cfg \<and> rp_key p \<noteq> [] then check_agent_limit (ev_instant ev 0) (rp_key p)
      (limits_of_key (ev_fault ev 1) (rp_key p) (sv_store sv)) (sv_limits sv) else (True, sv_limits sv)"
  have "fst ?chk"
    using assms(7) by (simp add: agents_of_def limits_of_key_def for_tier_def tier_free_def tier_pro_def)
  then obtain rl where rl: "?chk = (True, rl)" by (cases ?chk) auto
  have chk: "register_checks cfg allow skey ev (Some p) sv = (Inr (p, ev_uid ev 1), sv\<lparr>sv_limits := rl\<rparr>)"
    by (unfold register_checks_def option.case Let_def rl prod.case)
      (simp add: assms(1-5) authenticated_def PROTOCOL_VERSION_def MIN_SUPPORTED_PROTOCOL_def)
  have cl: "register_claim cfg ev af p (ev_uid ev 1) (sv\<lparr>sv_limits := rl\<rparr>)
      = (Inr \<lparr>cl_rooms = None, cl_takeover = None, cl_lease = None\<rparr>, sv\<lparr>sv_limits := rl\<rparr>)"
    using assms by (simp add: register_claim_def)
  let ?sv = "sv\<lparr>sv_limits := add_agent (ev_instant ev 2) skey rl,
      sv_store := snd (record_session_start (ev_fault ev 3) (ev_utc ev 0) (ev_uid ev 3) (ev_uid ev 1) (rp_name p)
        (rp_capabilities p) (sv_store sv)),
      sv_broker := (sv_broker sv)\<lparr>agents := dm_insert (ev_uid ev 1) (new_connection ev p (ev_uid ev 1) (ev_uid ev 3))
        (agents (sv_broker sv))\<rparr>\<rparr>"
  have "register cfg allow skey ev af req (Some p) sv
      = (Inr (\<lparr>se_agent_id = ev_uid ev 1, se_name = rp_name p, se_session_id = ev_uid ev 3, se_api_key = rp_key p\<rparr>,
              [register_reply (ev_uid ev 0) req p (ev_uid ev 1) None []], None), ?sv)"
    by (unfold register_def chk cl prod.case sum.case Let_def install_def)
      (simp add: accessible_frames_def retain_indexed_def assms)
  then show thesis by (rule that) (simp_all add: record_session_start_def)
qed

lemma first_join:
  assumes "authorize_room False r (ca_api_key c) (cf_no_auth cfg) (sv_store sv) = Inr room" "ev_fault ev = (\<lambda>_. False)"
    and "sv_broker sv = broker_new\<lparr>agents := [(ca_agent_id c, conn)]\<rparr>" "accepts conn"
  obtains reply f where "handle_join_room cfg ev c req (Some r) sv = (reply, sv\<lparr>sv_broker :=
      \<lparr>agents = [(ca_agent_id c, conn\<lparr>ac_outbox := ac_outbox conn @ [f]\<rparr>)], room_members = [(r, [ca_agent_id c])],
       turn_holders = [(r, ca_agent_id c)], tombstones = []\<rparr>\<rparr>)" "frame_room_id f = Some r"
proof -
  have room: "\<exists>room. get_room False r (sv_store sv) = Inr (Some room)"
    using assms(1) by (auto simp: authorize_room_def split: sum.splits option.splits)
  have prune: "lifecycle_prune t [] = []" for t
    by (simp add: lifecycle_prune_def cache_prune_def evict_small)
  show thesis
    by (rule that, use assms room in \<open>simp_all add: handle_join_room_def is_agent_in_room_def get_room_members_def broker_new_def
        join_room_def prune broadcast_to_room_def broadcast_turn_changed_def broadcast_to_room_all_def send_to_agent_def answer_def
        Let_def\<close>) auto
qed

definition demo_cfg :: config where
  "demo_cfg = \<lparr>cf_no_auth = False, cf_allow_private = False\<rparr>"

definition demo_env :: "string \<Rightarrow> env" where
  "demo_env u = \<lparr>ev_instant = (\<lambda>_. 0), ev_utc = (\<lambda>_. 0), ev_uid = (\<lambda>k. u @ replicate k CHR ''.''),
     ev_fault = (\<lambda>_. False), ev_after = (\<lambda>_ _. None), ev_token = ''t'', ev_hash = id, ev_net = demo_net\<rparr>"

definition demo_decoder :: decoder where
  "demo_decoder = \<lparr>de_create_room = (\<lambda>_. None), de_join_room = (\<lambda>_. Some ''r1''), de_leave_room =
     (\<lambda>_. None), de_rename_room = (\<lambda>_. None), de_destroy_room = (\<lambda>_. None),
     de_send_message = (\<lambda>_. None), de_get_history = (\<lambda>_. None), de_list_rooms = (\<lambda>_.
     None), de_list_agents = (\<lambda>_. None), de_room_info = (\<lambda>_. None), de_room_tip = (\<lambda>_.
     None), de_create_vote = (\<lambda>_. None), de_cast_vote = (\<lambda>_. None), de_get_vote_status =
     (\<lambda>_. None), de_list_votes = (\<lambda>_. None), de_elect_leader = (\<lambda>_. None),
     de_decline_election = (\<lambda>_. None), de_decision = (\<lambda>_. None), de_set_typing = (\<lambda>_.
     None), de_set_presence = (\<lambda>_. None), de_thinking = (\<lambda>_. None), de_subscribe =
     (\<lambda>_. None), de_unsubscribe = (\<lambda>_. None), de_list_subscriptions = (\<lambda>_. None),
     de_enable_subscription = (\<lambda>_. None), de_create_invite = (\<lambda>_. None), de_revoke_invite =
     (\<lambda>_. None), de_assign_task = (\<lambda>_. None), de_update_task = (\<lambda>_. None),
     de_list_tasks = (\<lambda>_. None)\<rparr>"

definition demo_start :: system where
  "demo_start = \<lparr>sy_server = server_new (\<lambda>_. False) (\<lambda>_. False) (\<lambda>_. False) demo_store, sy_sessions = []\<rparr>"

definition demo_payload :: register_payload where
  "demo_payload = \<lparr>rp_key = ''k1'', rp_agent_id = None, rp_name = ''Ann'', rp_capabilities = [], rp_reconnect = False,
     rp_protocol_version = Some PROTOCOL_VERSION\<rparr>"

definition demo_session :: session where
  "demo_session = \<lparr>se_agent_id = ''u.'', se_name = ''Ann'', se_session_id = ''u...'', se_api_key = ''k1''\<rparr>"

lemma demo_reachable: "reachable demo_cfg False demo_start"
  unfolding demo_start_def by (rule reachable_start) simp

lemma demo_fresh: "fresh_ids (demo_env ''u'') (Some demo_payload) demo_start"
  by (simp add: fresh_ids_def demo_payload_def demo_env_def demo_start_def server_new_def broker_new_def reconnect_new_def)

lemma demo_register:
  obtains reply sv where "register demo_cfg False ''k1'' (demo_env ''u'') (\<lambda>_ _. False) None (Some demo_payload)
        (sy_server demo_start) = (Inr (demo_session, [reply], None), sv)"
    "sv_broker sv = broker_new\<lparr>agents := [(''u.'', new_connection (demo_env ''u'') demo_payload ''u.'' ''u...'')]\<rparr>"
    "db_rooms (sv_store sv) = [demo_room]" "grants_cache (sv_store sv) = []"
  by (rule register_new_agent [where cfg = demo_cfg and allow = False and ev = "demo_env ''u''" and p = demo_payload
        and skey = "''k1''" and sv = "sy_server demo_start" and af = "\<lambda>_ _. False" and req = None])
     (simp_all add: demo_payload_def demo_env_def demo_start_def server_new_def broker_new_def rate_limiter_new_def
       demo_session_def numeral_eq_Suc)

lemma demo_run:
  obtains sy sy' f where "reachable demo_cfg False sy" "in_phase demo_session Ready sy" "system_step demo_cfg False sy sy'"
    "f \<in> set (arrived (sv_broker (sy_server sy)) (sv_broker (sy_server sy')) ''u.'')" "frame_room_id f = Some ''r1''"
    "''u.'' \<in> set (get_room_members ''r1'' (sv_broker (sy_server sy')))"
proof -
  obtain reply sv where r: "register demo_cfg False ''k1'' (demo_env ''u'') (\<lambda>_ _. False) None (Some demo_payload)
        (sy_server demo_start) = (Inr (demo_session, [reply], None), sv)"
    "sv_broker sv = broker_new\<lparr>agents := [(''u.'', new_connection (demo_env ''u'') demo_payload ''u.'' ''u...'')]\<rparr>"
    "db_rooms (sv_store sv) = [demo_room]" by (rule demo_register)
  let ?sy1 = "set_phase demo_session (Greeting [reply] None) (demo_start\<lparr>sy_server := sv\<rparr>)"
  have "system_step demo_cfg False demo_start ?sy1"
    by (rule step_register [OF r(1) _ demo_fresh]) simp
  with demo_reachable have 1: "reachable demo_cfg False ?sy1" by (rule reachable_step)
  let ?sy2 = "set_phase demo_session Ready (?sy1\<lparr>sy_server := sv\<rparr>)"
  have "system_step demo_cfg False ?sy1 ?sy2"
    using step_written [where se = demo_session and sy = ?sy1 and cfg = demo_cfg and keyless = False and fault = "\<lambda>_. False"]
    by (simp add: set_phase_def registration_written_def)
  with 1 have 2: "reachable demo_cfg False ?sy2" by (rule reachable_step)
  let ?f = "\<lparr>f_id = None, f_reply_to = None, f_type = JoinRoom, f_payload = JNull\<rparr>"
  let ?conn = "new_connection (demo_env ''u'') demo_payload ''u.'' ''u...''"
  have "authorize_room False ''r1'' ''k1'' False (sv_store sv) = Inr (map_room_row demo_room)"
    using r(3) by (simp add: authorize_room_def get_room_def query_room_by_id_def room_find_def can_access_room_def
      can_access_room_parts_def demo_store_k1)
  moreover have "caller_of demo_session = \<lparr>ca_agent_id = ''u.'', ca_agent_name = ''Ann'', ca_api_key = ''k1''\<rparr>"
    by (simp add: caller_of_def demo_session_def)
  ultimately obtain reply2 g where h: "handle_join_room demo_cfg (demo_env ''v'') (caller_of demo_session) None (Some ''r1'') sv
      = (reply2, sv\<lparr>sv_broker := \<lparr>agents = [(''u.'', ?conn\<lparr>ac_outbox := [g]\<rparr>)], room_members = [(''r1'', [''u.''])],
           turn_holders = [(''r1'', ''u.'')], tombstones = []\<rparr>\<rparr>)" "frame_room_id g = Some ''r1''"
    using first_join [of "''r1''" "caller_of demo_session" demo_cfg sv "map_room_row demo_room" "demo_env ''v''" ?conn] r(2)
    by (auto simp: demo_cfg_def demo_env_def accepts_def new_connection_def AGENT_CHANNEL_def)
  let ?sv2 = "sv\<lparr>sv_broker := \<lparr>agents = [(''u.'', ?conn\<lparr>ac_outbox := [g]\<rparr>)], room_members = [(''r1'', [''u.''])],
           turn_holders = [(''r1'', ''u.'')], tombstones = []\<rparr>\<rparr>"
  let ?sy3 = "set_phase demo_session (Replying reply2) (?sy2\<lparr>sy_server := ?sv2\<rparr>)"
  have ready: "in_phase demo_session Ready ?sy2" by (simp add: set_phase_def)
  then have "system_step demo_cfg False ?sy2 ?sy3"
    by (rule step_frame [where de = demo_decoder and ev = "demo_env ''v''"
          and f = "\<lparr>f_id = None, f_reply_to = None, f_type = JoinRoom, f_payload = JNull\<rparr>"])
       (use h r(2) in \<open>simp_all add: set_phase_def owns_entry_def demo_session_def new_connection_def handle_frame_def demo_decoder_def\<close>)
  with 2 ready show thesis
    by (rule that [where f = g])
       (use h r(2) in \<open>simp_all add: set_phase_def arrived_def session_of_def outbox_def new_connection_def get_room_members_def\<close>)
qed

end
