(* ===== verification/Sealed.thy ===== *)
theory Sealed
  imports Handler_Laws Scenario
begin

text \<open>
  Encrypted rooms: the content of a message of an encrypted room carries the prefix of a ciphertext.
  The handlers keep this as long as the store answers; a store error while the room is looked up lets a
  plaintext through.
\<close>

definition sealed :: "store \<Rightarrow> bool" where
  "sealed s \<longleftrightarrow> (\<forall>m \<in> set (db_messages s). \<forall>r \<in> set (db_rooms s).
     rr_room_id r = mr_room_id m \<longrightarrow> rr_encrypted r \<longrightarrow> is_ciphertext (mr_content m))"

subsection \<open>Operations that add neither messages nor rooms\<close>

definition contents :: "store \<Rightarrow> (string \<times> string) set" where
  "contents s = (\<lambda>m. (mr_room_id m, mr_content m)) ` set (db_messages s)"

definition flags :: "store \<Rightarrow> (string \<times> bool) set" where
  "flags s = (\<lambda>r. (rr_room_id r, rr_encrypted r)) ` set (db_rooms s)"

definition no_new_content :: "store \<Rightarrow> store \<Rightarrow> bool" where
  "no_new_content s s' \<longleftrightarrow> contents s' \<subseteq> contents s \<and> flags s' \<subseteq> flags s"

lemma sealed_iff: "sealed s \<longleftrightarrow> (\<forall>(r, c) \<in> contents s. (r, True) \<in> flags s \<longrightarrow> is_ciphertext c)"
  by (force simp: sealed_def contents_def flags_def)

named_theorems content_rules \<open>store operations that add neither messages nor rooms\<close>

lemma no_new_refl [simp, content_rules]: "no_new_content s s"
  by (simp add: no_new_content_def)

lemma no_new_trans: "no_new_content s s' \<Longrightarrow> no_new_content s' s'' \<Longrightarrow> no_new_content s s''"
  unfolding no_new_content_def using subset_trans by metis

lemma no_new_same: "db_messages s' = db_messages s \<Longrightarrow> db_rooms s' = db_rooms s \<Longrightarrow> no_new_content s s'"
  by (simp add: no_new_content_def contents_def flags_def)

lemma sealed_no_new: "sealed s \<Longrightarrow> no_new_content s s' \<Longrightarrow> sealed s'"
  unfolding sealed_iff no_new_content_def by blast

lemma content_votes [content_rules]:
  "no_new_content s (snd (create_vote f now v r t d os c cl es s))"
  "no_new_content s (snd (cast_ballot f g now v a n i s))"
  "no_new_content s (snd (close_vote f v s))"
  "no_new_content s (snd (save_task f task s))"
  by (auto intro!: no_new_same simp: create_vote_def cast_ballot_def close_vote_def save_task_def Let_def
      split: if_splits option.splits)

lemma content_keys [content_rules]:
  "no_new_content s (snd (create_invite f h r k single s))"
  "no_new_content s (snd (revoke_invite f h s))"
  by (auto intro!: no_new_same simp: create_invite_def revoke_invite_def Let_def split: if_splits option.splits)

lemma backfill_frame [frame_simps]:
  "db_messages (backfill fault uid k now sub r pos s) = db_messages s
   \<and> db_rooms (backfill fault uid k now sub r pos s) = db_rooms s"
proof (induction fault uid k now sub r pos s rule: backfill.induct)
  case (1 fault uid k now sub r pos s)
  show ?case
  proof (cases "get_history_filtered (fault k) r 1000 None None (Some pos) s")
    case (Inr page)
    with 1 [OF Inr] show ?thesis by (subst (1 2) backfill.simps) (simp add: Let_def frame_simps)
  qed (subst (1 2) backfill.simps, simp)
qed

lemma content_hooks [content_rules]:
  "no_new_content s (snd (create_subscription f now sid r k u sec ks o1 n ex sq s))"
  "no_new_content s (snd (delete_subscription f sid k s))"
  "no_new_content s (snd (set_subscription_status f sid st cnt s))"
  "no_new_content s (enqueue_backlog fault uid j now sub ms s)"
  "no_new_content s (backfill fault uid j now sub r pos s)"
  by (auto intro!: no_new_same simp: create_subscription_def delete_subscription_def Let_def
      set_subscription_status_def sub_update_def delete_subscriptions_where_def frame_simps
      split: if_splits)

lemma forget_replies_content [simp]:
  "mr_content (forget_replies dead m) = mr_content m"
  by (simp add: forget_replies_def split: option.split)

lemma content_artifacts [content_rules]:
  "no_new_content s (snd (delete_room_artifacts f r s))"
  by (auto simp: no_new_content_def contents_def flags_def delete_room_artifacts_def
      delete_room_artifacts_in_transaction_def purge_room_grants_from_cache_def delete_defs Let_def image_iff)

lemma content_destroy [content_rules]:
  "no_new_content s (snd (destroy_room_authorized f r a k na s))"
proof -
  have d: "rr_encrypted (detach r x) = rr_encrypted x" for x by (simp add: detach_def)
  have "no_new_content s (purge_room_grants_from_cache r (without_room r s))"
    by (auto simp: no_new_content_def contents_def flags_def purge_room_grants_from_cache_def without_room_def d image_iff)
  then show ?thesis
    using destroy_room_store(1) destroy_room_refused
    by (cases "destroy_room_authorized f r a k na s"; cases "fst (destroy_room_authorized f r a k na s)") fastforce+
qed

lemma content_rename [content_rules]:
  "no_new_content s (snd (rename_room_authorized f r a k na name s))"
proof -
  have "(\<lambda>r. (rr_room_id r, rr_encrypted r)) ` set (row_update rr_room_id rid (\<lambda>r. r\<lparr>rr_name := nm\<rparr>) rows)
     \<subseteq> (\<lambda>r. (rr_room_id r, rr_encrypted r)) ` set rows" for rid nm and rows :: "room_row list"
    by (force simp: row_update_def)
  then show ?thesis
    by (simp add: rename_room_authorized_def no_new_content_def contents_def flags_def Let_def
        split: sum.split option.split)
qed

lemma content_deadline:
  "no_new_content s (snd (snd (vote_deadline u f v vm b s)))"
  by (simp add: vote_deadline_def close_and_broadcast_vote_def content_rules split: option.split)

lemma content_cast: "no_new_content s (snd (snd (snd (mgr_cast_vote u f vid a n i vm b s))))"
  using content_deadline by (simp add: mgr_cast_vote_def Let_def split: option.split)

lemma store_after_save:
  "snd (snd (case save_task f t s of (Inl e, s) \<Rightarrow> (Inl e, m, s) | (Inr u, s) \<Rightarrow> (g, m', s))) = snd (save_task f t s)"
  by (cases "save_task f t s"; cases "fst (save_task f t s)") simp_all

lemma content_tasks:
  "no_new_content s (snd (snd (create_task f now tid r t d a by m s)))"
  "no_new_content s (snd (snd (update_task f now tid st asg n m s)))"
proof -
  show "no_new_content s (snd (snd (create_task f now tid r t d a by m s)))"
    by (simp add: create_task_def Let_def store_after_save content_votes)
  show "no_new_content s (snd (snd (update_task f now tid st asg n m s)))"
    by (cases "map_of m tid") (simp_all add: update_task_def Let_def store_after_save content_votes)
qed

lemma sealed_op: "no_new_content s (snd X) \<Longrightarrow> X = (res, s') \<Longrightarrow> sealed s \<Longrightarrow> sealed s'"
  using sealed_no_new by auto

lemma sealed_op3: "no_new_content s (snd (snd X)) \<Longrightarrow> X = (res, m, s') \<Longrightarrow> sealed s \<Longrightarrow> sealed s'"
  using sealed_no_new by auto

lemma sealed_op4: "no_new_content s (snd (snd (snd X))) \<Longrightarrow> X = (res, vm, b, s') \<Longrightarrow> sealed s \<Longrightarrow> sealed s'"
  using sealed_no_new by auto

lemmas sealed_ops = content_votes [THEN sealed_op] content_keys [THEN sealed_op] content_hooks(1-3) [THEN sealed_op]
  content_destroy [THEN sealed_op] content_rename [THEN sealed_op] content_tasks [THEN sealed_op3]
  content_cast [THEN sealed_op4]

lemma sealed_rests [intro]:
  "sealed s \<Longrightarrow> sealed (snd (delete_room_artifacts f r s))"
  "sealed s \<Longrightarrow> sealed (snd (delete_subscription f sid k s))"
  "sealed s \<Longrightarrow> sealed (enqueue_backlog fault uid j now sub ms s)"
  "sealed s \<Longrightarrow> sealed (backfill fault uid j now sub r pos s)"
  by (erule sealed_no_new, rule content_rules)+

subsection \<open>Handlers\<close>

named_theorems seal_rules \<open>handlers keep the contents of encrypted rooms sealed\<close>

lemma seal_rooms [seal_rules]:
  assumes "sealed (sv_store sv)"
  shows "sealed (sv_store (snd (handle_rename_room cfg ev c req q sv)))"
    "sealed (sv_store (snd (handle_join_room cfg ev c req r sv)))"
    "sealed (sv_store (snd (handle_leave_room ev c req r sv)))"
    "sealed (sv_store (snd (handle_destroy_room cfg ev c req r sv)))"
proof -
  have v: "sv_store (broadcast_visible_room_event t na rm e sv) = sv_store sv" for t na rm e sv
    by (simp add: broadcast_visible_room_event_def Let_def split: prod.split)
  show "sealed (sv_store (snd (handle_rename_room cfg ev c req q sv)))"
    using assms by (auto simp: handle_rename_room_def v Let_def intro: sealed_ops
      split: option.split sum.split prod.split bool.split)
  show "sealed (sv_store (snd (handle_join_room cfg ev c req r sv)))"
    using assms by (auto simp: handle_join_room_def Let_def split: option.split sum.split prod.split)
  show "sealed (sv_store (snd (handle_leave_room ev c req r sv)))"
    using assms by (auto simp: handle_leave_room_def Let_def split: option.split prod.split)
  show "sealed (sv_store (snd (handle_destroy_room cfg ev c req r sv)))"
    using assms by (auto simp: handle_destroy_room_def Let_def intro: sealed_ops split: option.split sum.split prod.split)
qed

lemma seal_presence [seal_rules]:
  assumes "sealed (sv_store sv)"
  shows "sealed (sv_store (snd (handle_set_typing ev c req ty sv)))"
    "sealed (sv_store (snd (handle_set_presence ev c req pp sv)))"
  using assms by (auto simp: handle_set_typing_def handle_set_presence_def Let_def split: option.split)

lemma seal_votes [seal_rules]:
  assumes "sealed (sv_store sv)"
  shows "sealed (sv_store (snd (handle_cast_vote ev c req bp sv)))"
    "sealed (sv_store (snd (handle_elect_leader ev c req r sv)))"
    "sealed (sv_store (snd (handle_decline_election ev c req r sv)))"
  subgoal using assms by (auto simp: handle_cast_vote_def Let_def intro: sealed_ops split: option.split sum.split prod.split)
  subgoal using assms by (auto simp: handle_elect_leader_def open_election_def publish_election_def Let_def
      split: option.split sum.split prod.split bool.split)
  subgoal using assms by (auto simp: handle_decline_election_def split: option.split sum.split prod.split)
  done

lemma seal_create_vote [seal_rules]:
  assumes "sealed (sv_store sv)"
  shows "sealed (sv_store (snd (handle_create_vote ev c req p sv)))"
proof -
  have "sealed (sv_store sv1)" if "open_vote ev c req p sv = (res, sv1)" for res sv1
    using that assms by (auto simp: open_vote_def Let_def intro: sealed_ops
      split: option.splits sum.splits prod.splits if_splits)
  moreover have "sealed (sv_store sv1) \<Longrightarrow> sealed (sv_store (snd (publish_vote ev req v n sv1)))" for v n sv1
    by (auto simp: publish_vote_def Let_def split: prod.split bool.split)
  ultimately show ?thesis by (auto simp: handle_create_vote_def split: prod.split sum.split)
qed

lemma seal_hooks [seal_rules]:
  assumes "sealed (sv_store sv)"
  shows "sealed (sv_store (snd (handle_assign_task ev c req ap sv)))"
    "sealed (sv_store (snd (handle_update_task ev c req up sv)))"
    "sealed (sv_store (snd (handle_unsubscribe ev c req r sv)))"
    "sealed (sv_store (snd (handle_enable_subscription ev c req r sv)))"
    "sealed (sv_store (snd (handle_revoke_invite cfg ev c req r sv)))"
  subgoal using assms by (auto simp: handle_assign_task_def Let_def intro: sealed_ops split: option.split sum.split prod.split)
  subgoal using assms by (auto simp: handle_update_task_def Let_def intro: sealed_ops split: option.split sum.split prod.split)
  subgoal using assms by (auto simp: handle_unsubscribe_def intro: sealed_ops split: option.split sum.split prod.split bool.split)
  subgoal using assms by (auto simp: handle_enable_subscription_def Let_def intro: sealed_ops
      split: option.split sum.split prod.split)
  subgoal using assms by (auto simp: handle_revoke_invite_def Let_def intro: sealed_ops
      split: option.split sum.split prod.split bool.split)
  done

lemma seal_split [seal_rules]:
  assumes "sealed (sv_store sv)"
  shows "sealed (sv_store (snd (handle_subscribe cfg ev c req sbp sv)))"
    "sealed (sv_store (snd (handle_create_invite cfg ev c req cip sv)))"
proof -
  have 1: "sealed (sv_store sv1)" if "open_subscription cfg ev c req sbp sv = (res, sv1)" for res sv1
    using that assms by (auto simp: open_subscription_def Let_def intro: sealed_ops
      split: option.splits sum.splits prod.splits if_splits)
  have 2: "sealed (sv_store sv1)" if "open_invite cfg ev c req cip sv = (res, sv1)" for res sv1
    using that assms by (auto simp: open_invite_def Let_def intro: sealed_ops
      split: option.splits sum.splits prod.splits)
  show "sealed (sv_store (snd (handle_subscribe cfg ev c req sbp sv)))"
    using 1 by (auto simp: handle_subscribe_def finish_subscription_def split: prod.split sum.split bool.split)
  show "sealed (sv_store (snd (handle_create_invite cfg ev c req cip sv)))"
    using 2 by (auto simp: handle_create_invite_def finish_invite_def split: prod.split sum.split bool.split)
qed

lemma sealed_create_room:
  assumes "sealed s" "store_wf s"
  shows "sealed (snd (create_room_with_visibility fi fs now rid name d p cb v ok enc s))"
proof (cases rule: create_room_cases [of name fi fs now rid d p cb v ok enc s])
  case (made n row s' res)
  note I = insert_room_row_Inr [OF made(3)]
  have "False" if "m \<in> set (db_messages s)" "rr_room_id row = mr_room_id m" for m
    using that assms(2) I by (auto simp: store_wf_defs refs_wf_def)
  then show ?thesis using I assms(1) by (auto simp: made(5) sealed_def)
qed (simp_all add: assms)

lemma sealed_insert_message:
  assumes "sealed s" "store_wf s" "\<not> plaintext_in_encrypted_room False c rid s"
    and "insert_message f now mid rid a n c rp md s = (res, s')"
  shows "sealed s'"
proof (cases res)
  case (Inl e)
  with assms(4) have "s' = s" by (cases rule: insert_message_cases [of f now mid rid a n c rp md s]) auto
  then show ?thesis using assms(1) by simp
next
  case (Inr m)
  from insert_message_stored [of f now mid rid a n c rp md s m] assms(4) Inr obtain row where
    row: "db_messages s' = db_messages s @ [row]" "mr_room_id row = rid" "mr_content row = c" by auto
  have rooms: "db_rooms s' = db_rooms s" using insert_message_rooms [of f now mid rid a n c rp md s] assms(4) by simp
  have "is_ciphertext c" if "r \<in> set (db_rooms s)" "rr_room_id r = rid" "rr_encrypted r" for r
  proof -
    have "room_find rid s = Some r"
      using that assms(2) unfolding room_find_def by (simp add: row_find_unique store_wf_defs)
    then show ?thesis using assms(3) that(3)
      by (simp add: plaintext_in_encrypted_room_def room_is_encrypted_def get_room_def query_room_by_id_def)
  qed
  then show ?thesis using assms(1) row rooms by (auto simp: sealed_def)
qed

lemma seal_create_room:
  assumes "sealed (sv_store sv)" "store_wf (sv_store sv)"
  shows "sealed (sv_store (snd (handle_create_room cfg ev c req p sv)))"
proof -
  have v: "sv_store (broadcast_visible_room_event t na rm e sv) = sv_store sv" for t na rm e sv
    by (simp add: broadcast_visible_room_event_def Let_def split: prod.split)
  have g: "sealed (sv_store (snd (create_room_guarded cfg ev c req x name sv1)))"
    if "sealed (sv_store sv1)" "store_wf (sv_store sv1)" for x name sv1
  proof -
    obtain res s' where cr: "create_room_with_visibility (ev_fault ev 3) (ev_fault ev 4) (ev_utc ev 0) (ev_uid ev 1) name
        (cr_description x) (cr_parent_id x) (Some (ca_agent_id c)) (if cr_public x then ''public'' else ''private'')
        (if ca_api_key c = [] then None else Some (ca_api_key c)) (cr_encrypted x) (sv_store sv1) = (res, s')" by force
    have "sealed s'" using sealed_create_room [OF that] cr by (metis snd_conv)
    note sl = that(1) this
    show ?thesis
    proof (cases res)
      case (Inl e)
      then show ?thesis using sl unfolding create_room_guarded_def cr
        by (cases e) (simp_all split: option.split sum.split bool.split)
    next
      case (Inr room)
      then show ?thesis using sl unfolding create_room_guarded_def cr
        by (simp add: v Let_def split: option.split sum.split bool.split)
    qed
  qed
  show ?thesis
  proof (cases p)
    case (Some x)
    obtain over sv1 where o: "over_room_limit cfg ev c sv = (over, sv1)" by force
    from over_room_limit_frame [OF o] assms show ?thesis
      by (simp add: handle_create_room_def Some o g split: sum.split bool.split)
  qed (simp add: handle_create_room_def assms)
qed

lemma seal_messages:
  assumes "sealed (sv_store sv)" "store_wf (sv_store sv)" "\<not> ev_fault ev 0"
  shows "sealed (sv_store (snd (handle_send_message cfg ev c req sp sv)))"
    "sealed (sv_store (snd (handle_thinking cfg ev c req tp sv)))"
    "sealed (sv_store (snd (handle_decision ev c req dp sv)))"
proof -
  have lim: "message_limits cfg ev c x sv = (code, sv1) \<Longrightarrow> sv_store sv1 = sv_store sv" for x code sv1
    using message_limits_frame by fastforce
  show "sealed (sv_store (snd (handle_send_message cfg ev c req sp sv)))"
    using assms lim by (auto simp: handle_send_message_def Let_def intro: sealed_insert_message
      split: option.split sum.split prod.split)
  show "sealed (sv_store (snd (handle_thinking cfg ev c req tp sv)))"
    using assms lim by (auto simp: handle_thinking_def Let_def intro: sealed_insert_message
      split: option.split sum.split prod.split)
  show "sealed (sv_store (snd (handle_decision ev c req dp sv)))"
    using assms by (auto simp: handle_decision_def Let_def intro: sealed_insert_message
      split: option.split sum.split prod.split)
qed

text \<open>C17. Encrypted rooms stay sealed: as long as the lookup of the room does not fail, no command of any
  client makes the server store content without the ciphertext prefix in an encrypted room.\<close>

theorem encrypted_rooms_stay_sealed:
  assumes "sealed (sv_store sv)" "store_wf (sv_store sv)" "\<not> ev_fault ev 0"
  shows "sealed (sv_store (snd (handle_frame cfg de ev c f sv)))"
  by (cases "f_type f")
     (simp_all add: handle_frame_def Let_def assms seal_create_room seal_messages seal_rules)


subsection \<open>An encrypted room\<close>

definition sealed_room :: room_row where
  "sealed_room = demo_room\<lparr>rr_encrypted := True\<rparr>"

definition demo_sealed :: server where
  "demo_sealed = (sy_server demo_start)\<lparr>sv_store := store_empty\<lparr>db_rooms := [sealed_room]\<rparr>,
     sv_broker := broker_new\<lparr>room_members := [(''r1'', [''u.''])], turn_holders := [(''r1'', ''u.'')]\<rparr>\<rparr>"

definition demo_message :: send_message_payload where
  "demo_message = \<lparr>sm_room_id = ''r1'', sm_content = ''hi'', sm_reply_to = None, sm_metadata = JObj [], sm_mentions = []\<rparr>"

lemma demo_sealed_store: "sealed (sv_store demo_sealed)" "store_wf (sv_store demo_sealed)"
proof -
  show "sealed (sv_store demo_sealed)" by (simp add: demo_sealed_def sealed_def)
  have "store_wf (store_empty\<lparr>db_rooms := [sealed_room]\<rparr>)"
    by (intro wf_set_rooms store_empty_wf) (simp_all add: sealed_room_def)
  then show "store_wf (sv_store demo_sealed)" by (simp add: demo_sealed_def)
qed

theorem encrypted_rooms_stay_sealed_witness:
  "sealed (sv_store (snd (handle_frame demo_cfg (demo_decoder\<lparr>de_send_message := \<lambda>_. Some demo_message\<rparr>) (demo_env ''v'')
     (caller_of demo_session) \<lparr>f_id = None, f_reply_to = None, f_type = SendMessage, f_payload = JNull\<rparr> demo_sealed)))"
  by (rule encrypted_rooms_stay_sealed [OF demo_sealed_store]) (simp add: demo_env_def)


end
