(* ===== verification/Web_Safety.thy ===== *)
theory Web_Safety
  imports Scenario
begin

text \<open>
  What the HTTP endpoints give away: a redeemed invite opens one room, and the read endpoints show
  private rooms only to a caller whose key may access them.
\<close>

lemma allowed_row:
  assumes "store_wf s" "row \<in> set (db_rooms s)"
  shows "allowed False s k (rr_room_id row) \<longleftrightarrow> rr_visibility row = ''public''
     \<or> (case rr_owner_key row of None \<Rightarrow> False | Some x \<Rightarrow> x \<noteq> LEGACY_UNOWNED_OWNER_KEY \<and> x = k)
     \<or> key_has_grant k (rr_room_id row) s"
proof -
  have "room_find (rr_room_id row) s = Some row"
    using assms unfolding room_find_def by (simp add: row_find_unique store_wf_defs)
  then show ?thesis by (simp add: allowed_def can_access_room_row)
qed

lemma redeem_frame:
  assumes "redeem_invite f h s = (Inr (Some rid), s')" "store_wf s"
  shows "db_rooms s' = db_rooms s" "grants_cache s' = grants_cache s"
    "\<exists>i. invite_of s h = Some i \<and> \<not> ir_revoked i \<and> ir_room_id i = rid"
proof -
  have d: "distinct (map ir_token_hash (db_invites s))" using assms(2) by (simp add: store_wf_defs)
  from assms(1) have f: "\<not> f" by (auto simp: redeem_invite_def)
  show "db_rooms s' = db_rooms s" "grants_cache s' = grants_cache s"
    using assms(1) by (auto simp: redeem_invite_def Let_def split: if_splits option.splits)
  show "\<exists>i. invite_of s h = Some i \<and> \<not> ir_revoked i \<and> ir_room_id i = rid"
  proof (cases "invite_of s h")
    case (Some i)
    then show ?thesis using redeem_invite_eq [OF d Some] assms(1) f by (auto split: if_splits)
  next
    case None
    then have "filter (\<lambda>i. ir_token_hash i = h \<and> \<not> ir_revoked i) (db_invites s) = []"
      by (auto simp: filter_empty_conv row_find_None)
    then show ?thesis using assms(1) f by (auto simp: redeem_invite_def Let_def split: if_splits option.splits)
  qed
qed

text \<open>C35. A redeemed invite opens one room: when redemption succeeds the token named a live invite, and the
  new key may access exactly the room of the invite beside the public rooms.\<close>

theorem redeemed_invite_opens_one_room:
  assumes "store_wf (sv_store sv)" "he_key he \<noteq> []" "cached_grants (sv_store sv) (he_key he) = {}"
    and "\<forall>row \<in> set (db_rooms (sv_store sv)). rr_owner_key row \<noteq> Some (he_key he)"
    and "web_redeem_invite he wc r sv = ((S_Created, body), sv')"
  shows "\<exists>token invite. json_str ''token'' (hr_body r) = Some token
    \<and> invite_of (sv_store sv) (he_hash he token) = Some invite \<and> \<not> ir_revoked invite
    \<and> json_get ''api_key'' body = Some (JStr (he_key he)) \<and> sv_broker sv' = sv_broker sv
    \<and> (\<forall>row \<in> set (db_rooms (sv_store sv')). allowed False (sv_store sv') (he_key he) (rr_room_id row) \<longleftrightarrow>
         rr_room_id row = ir_room_id invite \<or> rr_visibility row = ''public'')"
proof -
  let ?h = "he_hash he" and ?k = "he_key he"
  from assms(5) obtain token rid s1 lbl s2 s3 where t: "json_str ''token'' (hr_body r) = Some token"
    "redeem_invite (he_fault he 0) (?h token) (sv_store sv) = (Inr (Some rid), s1)"
    "create_api_key (he_fault he 2) (he_utc he) ?k lbl s1 = (Inr (), s2)"
    "add_room_grant (he_fault he 3) ?k rid s2 = (Inr (), s3)"
    "sv_store sv' = s3" "sv_broker sv' = sv_broker sv" "json_get ''api_key'' body = Some (JStr ?k)"
    by (auto simp: web_redeem_invite_def web_error_def Let_def split: if_splits prod.splits option.splits sum.splits)
  note r = redeem_frame [OF t(2) assms(1)]
  from r(3) obtain i where i: "invite_of (sv_store sv) (?h token) = Some i" "\<not> ir_revoked i" "ir_room_id i = rid" by blast
  have wf: "store_wf s3"
    using wf_add_room_grant wf_create_api_key wf_redeem_invite assms(1) t(2-4) by (metis snd_conv)
  have s2: "db_rooms s2 = db_rooms s1" "grants_cache s2 = grants_cache s1"
    using t(3) by (auto simp: create_api_key_def split: if_splits)
  have s3: "db_rooms s3 = db_rooms (sv_store sv)" "cached_grants s3 ?k = {rid}"
    using t(4) s2 r assms(3) by (auto simp: add_room_grant_def cached_grants_def split: if_splits)
  have "allowed False s3 ?k (rr_room_id row) \<longleftrightarrow> rr_room_id row = rid \<or> rr_visibility row = ''public''"
    if "row \<in> set (db_rooms s3)" for row
  proof -
    from that assms(4) s3(1) have "rr_owner_key row \<noteq> Some ?k" by auto
    then show ?thesis using allowed_row [OF wf that, of ?k] s3(2) assms(2)
      by (auto simp: key_has_grant_def split: option.splits)
  qed
  then show ?thesis using t i by blast
qed

text \<open>C36. Reading over HTTP is authorised: the history endpoint answers with messages only for a public
  room, and the room list contains a private room only for a presented, known key that may access it.\<close>

theorem http_reads_authorized:
  assumes "store_wf (sv_store sv)"
  shows "(fst (api_room_history he room_id sv) = S_OK \<longrightarrow>
      (\<exists>row \<in> set (db_rooms (sv_store sv)). rr_room_id row = room_id \<and> rr_visibility row = ''public''))
    \<and> (\<exists>rooms. api_list_rooms he wc r sv = (S_OK, JObj [(''rooms'', JArr (map room_to_json rooms))])
        \<and> (\<forall>room \<in> set rooms. rm_visibility room = ''public''
            \<or> (\<exists>key. hr_header r ''x-cowchat-key'' = Some key \<and> known_key he 0 wc key (sv_store sv)
                \<and> (key \<noteq> [] \<and> key \<noteq> LEGACY_UNOWNED_OWNER_KEY \<longrightarrow> can_access_room room key False (sv_store sv)))))"
proof
  show "fst (api_room_history he room_id sv) = S_OK \<longrightarrow>
      (\<exists>row \<in> set (db_rooms (sv_store sv)). rr_room_id row = room_id \<and> rr_visibility row = ''public'')"
    by (auto simp: api_room_history_def web_error_def get_room_def query_room_by_id_def
        dest!: room_find_SomeD split: sum.splits option.splits if_splits)
  let ?s = "sv_store sv"
  let ?key = "case hr_header r ''x-cowchat-key'' of
     Some key \<Rightarrow> if known_key he 0 wc key ?s then Some key else None | None \<Rightarrow> None"
  let ?rooms = "case list_rooms_for_key (he_fault he 1) ?key None ?s of Inr rooms \<Rightarrow> rooms | Inl _ \<Rightarrow> []"
  have "rm_visibility room = ''public'' \<or> (\<exists>key. hr_header r ''x-cowchat-key'' = Some key \<and> known_key he 0 wc key ?s
      \<and> (key \<noteq> [] \<and> key \<noteq> LEGACY_UNOWNED_OWNER_KEY \<longrightarrow> can_access_room room key False ?s))" if "room \<in> set ?rooms" for room
    using that store_wfD(25) [OF assms]
    by (auto simp: list_rooms_for_key_def can_access_room_row key_has_grant_def split: if_splits option.splits)
  then show "\<exists>rooms. api_list_rooms he wc r sv = (S_OK, JObj [(''rooms'', JArr (map room_to_json rooms))])
      \<and> (\<forall>room \<in> set rooms. rm_visibility room = ''public''
            \<or> (\<exists>key. hr_header r ''x-cowchat-key'' = Some key \<and> known_key he 0 wc key ?s
                \<and> (key \<noteq> [] \<and> key \<noteq> LEGACY_UNOWNED_OWNER_KEY \<longrightarrow> can_access_room room key False ?s)))"
    by (intro exI [of _ ?rooms]) (simp add: api_list_rooms_def Let_def)
qed

subsection \<open>Requests\<close>

definition demo_http :: http_env where
  "demo_http = \<lparr>he_instant = 0, he_utc = 0, he_fault = (\<lambda>_. False), he_key = ''k2'', he_hash = (\<lambda>_. ''h''),
     he_parse_ip = (\<lambda>_. None), he_show_ip = (\<lambda>_. ''ip'')\<rparr>"

definition demo_web :: web_config where
  "demo_web = \<lparr>wc_no_auth = False, wc_api_key = ''k1'', wc_signup_enabled = False, wc_admin_secret = None,
     wc_allowed_origins = [], wc_trusted_proxies = []\<rparr>"

definition demo_request :: http_request where
  "demo_request = \<lparr>hr_peer = V4 10 0 0 1, hr_header = (\<lambda>_. None), hr_body = Some (JObj [(''token'', JStr ''t'')])\<rparr>"

definition demo_invited :: server where
  "demo_invited = (sy_server demo_start)\<lparr>sv_store := snd (create_invite False ''h'' ''r1'' ''k1'' True demo_store)\<rparr>"

lemma demo_invite: "snd (create_invite False ''h'' ''r1'' ''k1'' True demo_store) = demo_store\<lparr>db_invites :=
    [\<lparr>ir_token_hash = ''h'', ir_room_id = ''r1'', ir_created_by_key = ''k1'', ir_single_use = True, ir_redeemed_count = 0,
     ir_revoked = False\<rparr>]\<rparr>"
  by (simp add: create_invite_def demo_store_def)

theorem redeemed_invite_opens_one_room_witness:
  "\<exists>body sv'. web_redeem_invite demo_http demo_web demo_request demo_invited = ((S_Created, body), sv')
     \<and> allowed False (sv_store sv') ''k2'' ''r1''"
proof -
  have wf: "store_wf (sv_store demo_invited)" by (simp add: demo_invited_def wf_create_invite)
  have "\<exists>body sv'. web_redeem_invite demo_http demo_web demo_request demo_invited = ((S_Created, body), sv')
      \<and> db_rooms (sv_store sv') = [demo_room]"
    unfolding demo_invited_def demo_invite
    by (simp add: demo_start_def server_new_def rate_limiter_new_def demo_http_def
        demo_web_def demo_request_def web_redeem_invite_def try_register_signup_def json_str_def redeem_invite_def redeem_row_def
        get_room_def query_room_by_id_def room_find_def create_api_key_def add_room_grant_def
        signup_bucket_def SIGNUP_MAX_PER_WINDOW_def u64_inc_def Let_def demo_store_def)
  then obtain body sv' where r: "web_redeem_invite demo_http demo_web demo_request demo_invited = ((S_Created, body), sv')"
    "db_rooms (sv_store sv') = [demo_room]" by blast
  from redeemed_invite_opens_one_room [OF wf _ _ _ r(1)] r show ?thesis
    by (force simp: demo_invited_def demo_invite demo_http_def cached_grants_def)
qed

theorem http_reads_authorized_witness:
  "fst (api_room_history demo_http ''r1'' (sy_server demo_start)) \<noteq> S_OK"
  using http_reads_authorized [of "sy_server demo_start" demo_http "''r1''"]
  by (auto simp: demo_start_def server_new_def)

end
