(* ===== verification/Session_Safety.thy ===== *)
theory Session_Safety
  imports System_Safety
begin

text \<open>
  The steps of a connection keep the invariant: registration with reclaim and takeover, the report of
  the writer, frames and replies, the cleanup.
\<close>

subsection \<open>Filters\<close>

lemma retain_indexed_mem: "x \<in> set (retain_indexed P xs) \<Longrightarrow> \<exists>j. P j x \<and> x \<in> set xs"
  by (auto simp: retain_indexed_def in_set_enumerate_eq)

lemma accessible_frame_allowed:
  "f \<in> set (accessible_frames fault k na s fs) \<Longrightarrow> frame_room_id f = Some r \<Longrightarrow> allowed na s k r"
  using accessible_allowed by (auto simp: accessible_frames_def dest!: retain_indexed_mem)

subsection \<open>Leaving rooms\<close>

lemma leave_rooms_frame [simp]:
  "agents (snd (leave_rooms now a rs b)) = agents b"
  "get_room_members q (snd (leave_rooms now a rs b))
     = (if q \<in> set rs then filter (\<lambda>m. m \<noteq> a) (get_room_members q b) else get_room_members q b)"
  by (induction rs arbitrary: b) (auto simp: Let_def split_beta members_leave filter_filter)

lemma members_set_agents [simp]: "get_room_members q (b\<lparr>agents := x\<rparr>) = get_room_members q b"
  by (simp add: get_room_members_in)

lemma wf_leave_rooms [wf_intros]: "broker_wf b \<Longrightarrow> broker_wf (snd (leave_rooms now a rs b))"
  by (induction rs arbitrary: b) (simp_all add: Let_def split_beta wf_leave_room)

lemma rooms_for_agent_iff:
  "broker_wf b \<Longrightarrow> r \<in> set (rooms_for_agent a b) \<longleftrightarrow> a \<in> set (get_room_members r b)"
proof -
  assume wf: "broker_wf b"
  have "r \<in> set (rooms_for_agent a b) \<longleftrightarrow> (\<exists>ms. map_of (room_members b) r = Some ms \<and> a \<in> set ms)"
    using dm_entry_lookup [OF broker_wfD(2) [OF wf]]
    by (force simp: rooms_for_agent_def list_ex_iff)
  then show ?thesis by (auto simp: get_room_members_def split: option.splits)
qed

text \<open>Removing the entry of an agent that is in no room.\<close>

lemma sound_remove:
  assumes "sound na sv" "\<And>r. a \<notin> set (get_room_members r (sv_broker sv))"
  shows "sound na (sv\<lparr>sv_broker := (sv_broker sv)\<lparr>agents := dm_remove a (agents (sv_broker sv))\<rparr>\<rparr>)"
proof -
  let ?b' = "(sv_broker sv)\<lparr>agents := dm_remove a (agents (sv_broker sv))\<rparr>"
  have m: "get_room_members r ?b' = get_room_members r (sv_broker sv)" for r by (simp add: get_room_members_in)
  have k: "x \<noteq> a \<Longrightarrow> key_of ?b' x = key_of (sv_broker sv) x" for x by (simp add: key_of_def)
  have "authorized na (sv\<lparr>sv_broker := ?b'\<rparr>)"
    unfolding authorized_def using soundD(3) [OF assms(1)] assms(2) k by (simp add: m) metis
  moreover have "broker_wf ?b'" using soundD(2) [OF assms(1)] by (auto intro!: wf_set_agents dest: broker_wfD(1))
  ultimately show ?thesis using soundD(1) [OF assms(1)] by (simp add: sound_def)
qed

lemma removed_entry:
  assumes "agents b' = dm_remove a (agents b)"
  shows "key_of b' x = (if x = a then None else key_of b x)" "session_of b' x = (if x = a then None else session_of b x)"
    "outbox b' x = (if x = a then [] else outbox b x)"
  using assms by (auto simp: key_of_def session_of_def outbox_def)

text \<open>The entry goes first and the memberships after it.\<close>

lemma sound_failed:
  assumes "sound na sv"
  shows "sound na (sv\<lparr>sv_broker := snd (leave_rooms now a (rooms_for_agent a (sv_broker sv))
    ((sv_broker sv)\<lparr>agents := dm_remove a (agents (sv_broker sv))\<rparr>))\<rparr>)"
proof -
  let ?b = "(sv_broker sv)\<lparr>agents := dm_remove a (agents (sv_broker sv))\<rparr>"
  let ?b' = "snd (leave_rooms now a (rooms_for_agent a (sv_broker sv)) ?b)"
  have ag: "agents ?b' = dm_remove a (agents (sv_broker sv))" by simp
  have "authorized na (sv\<lparr>sv_broker := ?b'\<rparr>)"
    unfolding authorized_def
  proof (intro allI ballI)
    fix q x assume "x \<in> set (get_room_members q (sv_broker (sv\<lparr>sv_broker := ?b'\<rparr>)))"
    then have x: "x \<noteq> a" "x \<in> set (get_room_members q (sv_broker sv))"
      using rooms_for_agent_iff [OF soundD(2) [OF assms], of q a] by (auto split: if_splits)
    from soundD(3) [OF assms x(2)] x(1) removed_entry(1) [OF ag, of x]
    show "\<exists>k. key_of (sv_broker (sv\<lparr>sv_broker := ?b'\<rparr>)) x = Some k
        \<and> allowed na (sv_store (sv\<lparr>sv_broker := ?b'\<rparr>)) k q" by simp
  qed
  moreover have "broker_wf ?b'"
    using soundD(2) [OF assms] by (intro wf_leave_rooms wf_set_agents) (auto dest: broker_wfD(1))
  ultimately show ?thesis using soundD(1) [OF assms] by (simp add: sound_def)
qed

lemma safe_failed:
  assumes "guarded na sv"
  shows "safe_step na sv (registration_failed ev se lease sv)"
proof -
  let ?a = "se_agent_id se" and ?b = "sv_broker sv"
  let ?b' = "sv_broker (registration_failed ev se lease sv)"
  note s = guarded_sound [OF assms]
  have rm: "stashes_kept (sv_reconnect sv) (sv_reconnect (registration_failed ev se lease sv))"
    by (auto simp: registration_failed_def Let_def stashes_kept_def stash_key_def lease_drop_def split: option.split)
  have st: "sv_store (registration_failed ev se lease sv)
      = snd (record_session_end (ev_fault ev 0) (ev_utc ev 0) (se_session_id se) (sv_store sv))"
    by (simp add: registration_failed_def Let_def)
  have wf: "store_wf (sv_store (registration_failed ev se lease sv))"
    unfolding st using soundD(1) [OF s] by (rule wf_intros)
  have view: "access_view (sv_store (registration_failed ev se lease sv)) = access_view (sv_store sv)"
    unfolding st by simp
  note al = allowed_view [OF view]
  have own: "owners_kept (sv_store sv) (sv_store (registration_failed ev se lease sv))"
    using view by (intro owners_kept_same) (simp add: access_view_def)
  show ?thesis
  proof (cases "owns_entry se ?b")
    case False
    then have "sv_broker (registration_failed ev se lease sv) = ?b" by (simp add: registration_failed_def Let_def)
    then show ?thesis using rm wf own al by (intro safe_store [OF assms]) simp_all
  next
    case True
    have b': "?b' = snd (leave_rooms (ev_instant ev 0) ?a (rooms_for_agent ?a ?b)
        (?b\<lparr>agents := dm_remove ?a (agents ?b)\<rparr>))"
      using True by (simp add: registration_failed_def Let_def)
    have s': "sound na (sv\<lparr>sv_broker := ?b'\<rparr>)" unfolding b' by (rule sound_failed [OF s])
    have "sound na (registration_failed ev se lease sv)"
      by (rule sound_store [OF s']) (use wf al soundD(2) [OF s'] in simp_all)
    moreover have ag: "agents ?b' = dm_remove ?a (agents ?b)" by (simp add: b')
    ultimately have "guarded na (registration_failed ev se lease sv)"
      using rm own by (intro guarded_mono [OF assms]) (auto simp: removed_entry split: if_splits)
    moreover have "arrived ?b ?b' x = []" for x
      by (simp add: arrived_def removed_entry [OF ag])
    ultimately show ?thesis
      by (auto simp: safe_step_def shown_def entries_kept_def removed_entry [OF ag])
  qed
qed

subsection \<open>Frames to the own connection\<close>

lemma queue_frame_keys [simp]:
  "key_of (queue_frame se f b) x = key_of b x" "session_of (queue_frame se f b) x = session_of b x"
  "room_members (queue_frame se f b) = room_members b"
  by (auto simp: queue_frame_def key_of_def session_of_def split: option.splits)

lemma queue_frame_outbox:
  "outbox (queue_frame se f b) x = outbox b x @ (if x = se_agent_id se \<and> owns_entry se b
     \<and> (\<exists>c. map_of (agents b) x = Some c \<and> \<not> ac_closed c) then [f] else [])"
  by (auto simp: queue_frame_def outbox_def owns_entry_def split: option.splits)

lemma wf_queue_frame [wf_intros]: "broker_wf b \<Longrightarrow> broker_wf (queue_frame se f b)"
  by (auto simp: queue_frame_def intro!: wf_set_agents dest: broker_wfD(1) split: option.splits)

lemma owns_entry_queue [simp]: "owns_entry se (queue_frame se' f b) = owns_entry se b"
  by (auto simp: owns_entry_def queue_frame_def split: option.splits)

lemma queue_frames:
  assumes "broker_wf b"
  shows "broker_wf (fold (queue_frame se) fs b)" "room_members (fold (queue_frame se) fs b) = room_members b"
    "delivers (\<lambda>a f. a = se_agent_id se \<and> owns_entry se b \<and> f \<in> set fs) b (fold (queue_frame se) fs b)"
proof -
  show "broker_wf (fold (queue_frame se) fs b)" "room_members (fold (queue_frame se) fs b) = room_members b"
    using assms by (induction fs arbitrary: b) (simp_all add: wf_queue_frame)
  show "delivers (\<lambda>a f. a = se_agent_id se \<and> owns_entry se b \<and> f \<in> set fs) b (fold (queue_frame se) fs b)"
  proof (induction fs arbitrary: b)
    case (Cons f fs)
    have 1: "delivers (\<lambda>a g. a = se_agent_id se \<and> owns_entry se b \<and> g \<in> set (f # fs)) b (queue_frame se f b)"
      by (simp add: delivers_def queue_frame_outbox)
    have 2: "delivers (\<lambda>a g. a = se_agent_id se \<and> owns_entry se b \<and> g \<in> set (f # fs)) (queue_frame se f b)
        (fold (queue_frame se) fs (queue_frame se f b))"
      using Cons.IH [of "queue_frame se f b"] by (rule delivers_mono) simp
    show ?case using delivers_trans [OF 1 2] by simp
  qed simp
qed

lemma sound_queue:
  assumes "sound na sv" "broker_wf b" "room_members b = room_members (sv_broker sv)"
    and "\<And>a. key_of b a = key_of (sv_broker sv) a"
  shows "sound na (sv\<lparr>sv_broker := b\<rparr>)" "sound na (sv\<lparr>sv_reconnect := rm, sv_broker := b\<rparr>)"
proof -
  note m = members_cong [OF assms(3)]
  have "authorized na (sv\<lparr>sv_broker := b\<rparr>)"
    by (rule authorized_subset [OF assms(1)]) (simp_all add: m assms(4))
  then show "sound na (sv\<lparr>sv_broker := b\<rparr>)" using soundD(1) [OF assms(1)] assms(2) by (simp add: sound_def)
  have "authorized na (sv\<lparr>sv_reconnect := rm, sv_broker := b\<rparr>)"
    by (rule authorized_subset [OF assms(1)]) (simp_all add: m assms(4))
  then show "sound na (sv\<lparr>sv_reconnect := rm, sv_broker := b\<rparr>)"
    using soundD(1) [OF assms(1)] assms(2) by (simp add: sound_def)
qed

lemma guarded_reply:
  assumes "guarded na sv"
  shows "guarded na (sv\<lparr>sv_broker := queue_frame se f (sv_broker sv)\<rparr>)"
  using guarded_sound [OF assms] soundD(2) [OF guarded_sound [OF assms]]
  by (intro guarded_mono [OF assms] sound_queue) (simp_all add: wf_queue_frame)

text \<open>The session's key is that of its entry.\<close>

definition entry_key :: "session \<Rightarrow> broker \<Rightarrow> bool" where
  "entry_key se b \<longleftrightarrow> (session_of b (se_agent_id se) = Some (se_session_id se) \<longrightarrow>
     key_of b (se_agent_id se) = Some (se_api_key se))"

lemma owns_entry_key: "owns_entry se b \<Longrightarrow> entry_key se b \<Longrightarrow> key_of b (se_agent_id se) = Some (se_api_key se)"
  by (auto simp: owns_entry_def entry_key_def session_of_def split: option.splits)

lemma safe_written:
  assumes "guarded (cf_no_auth cfg) sv" "entry_key se (sv_broker sv)"
  shows "safe_step (cf_no_auth cfg) sv (registration_written cfg fault se fs lease sv)"
proof -
  let ?na = "cf_no_auth cfg"
  note s = guarded_sound [OF assms(1)]
  have 0: "safe_step ?na sv sv2" if "sv_store sv2 = sv_store sv" "sv_broker sv2 = sv_broker sv"
    "stashes_kept (sv_reconnect sv) (sv_reconnect sv2)" for sv2
    using that soundD(1) [OF s] by (intro safe_store [OF assms(1)]) simp_all
  show ?thesis
  proof (cases lease)
    case None
    then show ?thesis using 0 by (simp add: registration_written_def)
  next
    case (Some l)
    obtain st rm where c: "lease_commit l (sv_reconnect sv) = (st, rm)" by force
    have rm: "stashes_kept (sv_reconnect sv) rm"
      using c by (auto simp: lease_commit_def stashes_kept_def stash_key_def split: option.splits if_splits)
    show ?thesis
    proof (cases st)
      case None
      then show ?thesis using 0 rm Some c by (simp add: registration_written_def)
    next
      case (Some stash)
      let ?rest = "accessible_frames fault (se_api_key se) ?na (sv_store sv)
        (filter (\<lambda>f. case f_id f of Some i \<Rightarrow> i \<notin> set (List.map_filter f_id fs) | None \<Rightarrow> True)
          (sa_missed_messages stash))"
      let ?b' = "fold (queue_frame se) ?rest (sv_broker sv)"
      let ?sv' = "sv\<lparr>sv_reconnect := rm, sv_broker := ?b'\<rparr>"
      note q = queue_frames [OF soundD(2) [OF s], of se ?rest]
      have sv': "registration_written cfg fault se fs lease sv = ?sv'"
        using \<open>lease = Some l\<close> Some c by (simp add: registration_written_def Let_def)
      have "sound ?na ?sv'" using q delivers_keys [OF q(3)] by (intro sound_queue [OF s]) simp_all
      then have g: "guarded ?na ?sv'"
        using rm delivers_keys [OF q(3)] by (intro guarded_mono [OF assms(1)]) simp_all
      have "shown ?na sv ?sv'"
        unfolding shown_def
      proof (intro allI impI)
        fix a f r assume f: "f \<in> set (arrived (sv_broker sv) (sv_broker ?sv') a)" "frame_room_id f = Some r"
        from arrived_delivers [OF q(3)] f(1) have a: "a = se_agent_id se" "owns_entry se (sv_broker sv)" "f \<in> set ?rest"
          by auto
        have "allowed ?na (sv_store sv) (se_api_key se) r" using accessible_frame_allowed [OF a(3) f(2)] .
        then show "\<exists>k. key_of (sv_broker ?sv') a = Some k \<and>
            (allowed ?na (sv_store sv) k r \<or> allowed ?na (sv_store ?sv') k r)"
          using owns_entry_key [OF a(2) assms(2)] delivers_keys [OF q(3)] a(1) by auto
      qed
      then show ?thesis using g delivers_entries [OF q(3)] unfolding sv' by (simp add: safe_step_def)
    qed
  qed
qed

subsection \<open>The cleanup\<close>

lemma stash_key_buffer [simp]:
  "stash_key (buffer_message now a f rm) = stash_key rm"
  "distinct (dm_keys (stashed rm)) \<Longrightarrow> distinct (dm_keys (stashed (buffer_message now a f rm)))"
  by (auto simp: buffer_message_def stash_key_def Let_def fun_eq_iff split: option.split)

lemma buffer_fold:
  "stash_key (fold (\<lambda>sid rm. if sid \<noteq> a then buffer_message now sid f rm else rm) xs rm) = stash_key rm"
  "distinct (dm_keys (stashed rm)) \<Longrightarrow>
   distinct (dm_keys (stashed (fold (\<lambda>sid rm. if sid \<noteq> a then buffer_message now sid f rm else rm) xs rm)))"
  by (induction xs arbitrary: rm) simp_all

lemma good_leave_on_disconnect:
  assumes "sound na sv"
  shows "good_step na sv (leave_on_disconnect ev a j_room sv)"
    "sv_store (leave_on_disconnect ev a j_room sv) = sv_store sv"
proof -
  obtain j r where jr: "j_room = (j, r)" by force
  obtain out b1 where l: "leave_room (ev_instant ev (Suc j)) a r (sv_broker sv) = (out, b1)" by force
  let ?sv1 = "sv\<lparr>sv_broker := b1\<rparr>" and ?sv2 = "leave_on_disconnect ev a j_room sv"
  show st: "sv_store ?sv2 = sv_store sv" by (simp add: leave_on_disconnect_def jr l Let_def)
  have 1: "good_step na sv ?sv1" using good_leave [OF assms, of "ev_instant ev (Suc j)" a r] l by simp
  then have s1: "sound na ?sv1" by (simp add: good_step_def)
  have "posts b1 (sv_broker ?sv2)" "broker_wf (sv_broker ?sv2)"
    using soundD(2) [OF s1] by (auto simp: leave_on_disconnect_def jr l Let_def agent_left_event_def posts_intros wf_intros)
  moreover have "calm ?sv1 ?sv2"
    by (simp add: calm_def leave_on_disconnect_def jr l Let_def buffer_fold)
  ultimately have "good_step na ?sv1 ?sv2"
    using soundD(1) [OF s1] st by (intro good_posts [OF s1]) simp_all
  then show "good_step na sv ?sv2" by (rule good_trans [OF 1]) (simp add: st)
qed

lemma good_leaves:
  assumes "sound na sv"
  shows "good_step na sv (fold (leave_on_disconnect ev a) xs sv)
    \<and> sv_store (fold (leave_on_disconnect ev a) xs sv) = sv_store sv"
  using assms
proof (induction xs arbitrary: sv)
  case (Cons x xs)
  note 1 = good_leave_on_disconnect [OF Cons.prems, of ev a x]
  then have "sound na (leave_on_disconnect ev a x sv)" by (simp add: good_step_def)
  note 2 = Cons.IH [OF this]
  show ?case using good_trans [OF 1(1) conjunct1 [OF 2]] 1(2) 2 by simp
qed simp

lemma members_leaves:
  "q \<in> snd ` set xs \<Longrightarrow> x \<in> set (get_room_members q (sv_broker (fold (leave_on_disconnect ev a) xs sv))) \<Longrightarrow> x \<noteq> a"
  "x \<in> set (get_room_members q (sv_broker (fold (leave_on_disconnect ev a) xs sv))) \<Longrightarrow>
     x \<in> set (get_room_members q (sv_broker sv))"
proof -
  have 0: "get_room_members q (sv_broker (leave_on_disconnect ev a y sv))
      = (if q = snd y then filter (\<lambda>m. m \<noteq> a) (get_room_members q (sv_broker sv))
         else get_room_members q (sv_broker sv))" for q y sv
  proof -
    obtain j r where y: "y = (j, r)" by force
    obtain out b1 where l: "leave_room (ev_instant ev (Suc j)) a r (sv_broker sv) = (out, b1)" by force
    have "room_members (sv_broker (leave_on_disconnect ev a y sv)) = room_members b1"
      by (simp add: leave_on_disconnect_def y l Let_def broadcast_turn_changed_def)
    then have "get_room_members q (sv_broker (leave_on_disconnect ev a y sv)) = get_room_members q b1"
      by (rule members_cong)
    moreover have "get_room_members q b1 = (if q = r then filter (\<lambda>m. m \<noteq> a) (get_room_members r (sv_broker sv))
         else get_room_members q (sv_broker sv))"
      using members_leave [of q "ev_instant ev (Suc j)" a r "sv_broker sv"] l by simp
    ultimately show ?thesis by (simp add: y)
  qed
  show 2: "x \<in> set (get_room_members q (sv_broker sv))"
    if "x \<in> set (get_room_members q (sv_broker (fold (leave_on_disconnect ev a) xs sv)))" for xs sv
    using that
  proof (induction xs arbitrary: sv)
    case (Cons y ys)
    from Cons.IH [of "leave_on_disconnect ev a y sv"] Cons.prems show ?case by (auto simp: 0 split: if_splits)
  qed simp
  show "x \<noteq> a" if "q \<in> snd ` set xs"
    "x \<in> set (get_room_members q (sv_broker (fold (leave_on_disconnect ev a) xs sv)))"
    using that
  proof (induction xs arbitrary: sv)
    case (Cons y ys)
    show ?case
    proof (cases "q \<in> snd ` set ys")
      case True
      with Cons show ?thesis by simp
    next
      case False
      with Cons.prems have "q = snd y" by auto
      with 2 [of ys "leave_on_disconnect ev a y sv"] Cons.prems(2) show ?thesis by (simp add: 0)
    qed
  qed simp
qed

lemma clear_leader_frame:
  assumes "clear_leader_if_agent u a vm b = (vm', b')"
  shows "posts b b'" "broker_wf b \<Longrightarrow> broker_wf b'"
proof -
  have "posts b (snd (fold (\<lambda>r (vm, b). clear_leader u r vm b) rs (vm, b)))
      \<and> (broker_wf b \<longrightarrow> broker_wf (snd (fold (\<lambda>r (vm, b). clear_leader u r vm b) rs (vm, b))))" for rs
  proof (induction rs arbitrary: vm b)
    case (Cons r rs)
    obtain vm1 b1 where c: "clear_leader u r vm b = (vm1, b1)" by force
    have "posts b b1" "broker_wf b \<Longrightarrow> broker_wf b1"
      using c by (auto simp: clear_leader_def leader_cleared_def posts_intros wf_intros split: option.splits)
    with Cons [where vm = vm1 and b = b1] c posts_trans show ?case by auto
  qed simp
  then show "posts b b'" "broker_wf b \<Longrightarrow> broker_wf b'"
    using assms unfolding clear_leader_if_agent_def by (metis snd_conv)+
qed

lemma guarded_stash:
  assumes "guarded na sv" "key_of (sv_broker sv) a = Some k"
  shows "guarded na (sv\<lparr>sv_limits := rl, sv_reconnect := stash now a name k rooms (sv_reconnect sv)\<rparr>)"
proof -
  let ?rm = "sv_reconnect sv" and ?sv' = "sv\<lparr>sv_limits := rl, sv_reconnect := stash now a name k rooms (sv_reconnect sv)\<rparr>"
  have sk: "stash_key (stash now a name k rooms ?rm) x = (if x = a then Some k else stash_key ?rm x)" for x
    by (simp add: stash_def stash_key_def Let_def)
  have "keyed ?sv'" if "keyed sv"
    using that assms(2) by (simp add: keyed_def sk)
  moreover have "sound na ?sv'" using guarded_sound [OF assms(1)] by (simp add: sound_def authorized_def)
  ultimately show ?thesis using assms(1) by (auto simp: guarded_def stash_def Let_def)
qed

text \<open>After a good step, removing the entry of an agent without rooms and ending its session record.\<close>

lemma safe_remove:
  assumes "guarded na sv1" "good_step na sv1 sv2" "sv_store sv2 = sv_store sv1"
    and "\<And>r. a \<notin> set (get_room_members r (sv_broker sv2))"
    and "sv_broker sv3 = (sv_broker sv2)\<lparr>agents := dm_remove a (agents (sv_broker sv2))\<rparr>"
    and "sv_store sv3 = snd (record_session_end f t sid (sv_store sv2))" "sv_reconnect sv3 = sv_reconnect sv2"
  shows "guarded na sv3" "shown na sv1 sv3" "entries_kept (sv_broker sv1) (sv_broker sv3)"
proof -
  have g: "sound na sv2" "calm sv1 sv2" and d: "delivers (visible na sv1 sv2) (sv_broker sv1) (sv_broker sv2)"
    using assms(2) by (auto simp: good_step_def)
  have ag: "agents (sv_broker sv3) = dm_remove a (agents (sv_broker sv2))" by (simp add: assms(5))
  note e = removed_entry [OF ag]
  have s': "sound na (sv2\<lparr>sv_broker := sv_broker sv3\<rparr>)" unfolding assms(5) by (rule sound_remove [OF g(1) assms(4)])
  have view: "access_view (sv_store sv3) = access_view (sv_store sv1)" by (simp add: assms(3,6))
  note al = allowed_view [OF view]
  have "store_wf (sv_store sv3)" unfolding assms(6) using soundD(1) [OF g(1)] by (rule wf_intros)
  then have "sound na sv3" using soundD(2) [OF s'] al by (intro sound_store [OF s']) (simp_all add: assms(3))
  moreover have "owners_kept (sv_store sv1) (sv_store sv3)"
    using view by (intro owners_kept_same) (simp add: access_view_def)
  ultimately show "guarded na sv3"
    using g(2) by (intro guarded_mono [OF assms(1)])
      (auto simp: e delivers_keys [OF d] calm_def stashes_kept_def assms(7) split: if_splits)
  have old: "session_of (sv_broker sv2) x = session_of (sv_broker sv1) x"
    "key_of (sv_broker sv2) x = key_of (sv_broker sv1) x" for x
    using d by (simp_all add: delivers_def)
  show "entries_kept (sv_broker sv1) (sv_broker sv3)" by (simp add: entries_kept_def e old)
  show "shown na sv1 sv3"
    unfolding shown_def
  proof (intro allI impI)
    fix x f r assume f: "f \<in> set (arrived (sv_broker sv1) (sv_broker sv3) x)" "frame_room_id f = Some r"
    then have x: "x \<noteq> a" by (auto simp: arrived_def e split: if_splits)
    then have "f \<in> set (arrived (sv_broker sv1) (sv_broker sv2) x)" using f(1) by (simp add: arrived_def e split: if_splits)
    from arrived_delivers [OF d this] f(2) obtain k where
      "key_of (sv_broker sv1) x = Some k" "allowed na (sv_store sv1) k r \<or> allowed na (sv_store sv2) k r"
      unfolding visible_def by blast
    then show "\<exists>k. key_of (sv_broker sv3) x = Some k \<and> (allowed na (sv_store sv1) k r \<or> allowed na (sv_store sv3) k r)"
      using x by (simp add: e old assms(3) al)
  qed
qed

lemma guarded_limits: "guarded na (sv\<lparr>sv_limits := rl\<rparr>) = guarded na sv"
  by (simp add: guarded_def sound_def authorized_def keyed_def)

lemma safe_disconnect:
  assumes "guarded na sv" "entry_key se (sv_broker sv)"
  shows "safe_step na sv (disconnect ev se sv)"
proof -
  let ?a = "se_agent_id se" and ?b = "sv_broker sv"
  let ?rl = "if se_api_key se \<noteq> [] then remove_agent (se_api_key se) (sv_limits sv) else sv_limits sv"
  note s = guarded_sound [OF assms(1)]
  show ?thesis
  proof (cases "owns_entry se ?b")
    case False
    have "store_wf (snd (record_session_end f t sid (sv_store sv)))" for f t sid
      using soundD(1) [OF s] by (rule wf_intros)
    moreover have view: "access_view (snd (record_session_end f t sid (sv_store sv))) = access_view (sv_store sv)" for f t sid
      by simp
    moreover have "db_identities (snd (record_session_end f t sid (sv_store sv))) = db_identities (sv_store sv)" for f t sid
      by (simp add: record_session_end_def)
    ultimately show ?thesis using False allowed_view [OF view]
      by (intro safe_store [OF assms(1)]) (simp_all add: disconnect_def Let_def owners_kept_same)
  next
    case True
    let ?rooms = "rooms_for_agent ?a ?b"
    define sv1 where "sv1 = (if ?rooms = [] then sv\<lparr>sv_limits := ?rl\<rparr>
      else sv\<lparr>sv_limits := ?rl, sv_reconnect := stash (ev_instant ev 0) ?a (se_name se) (se_api_key se) ?rooms (sv_reconnect sv)\<rparr>)"
    define sv2 where "sv2 = fold (leave_on_disconnect ev ?a) (enumerate 0 ?rooms) sv1"
    obtain vm b where cl: "clear_leader_if_agent (ev_uid ev (2 * length ?rooms)) ?a (sv_votes sv2) (sv_broker sv2) = (vm, b)"
      by force
    let ?sv2' = "sv2\<lparr>sv_votes := vm, sv_broker := b\<rparr>"
    have sv1: "sv_store sv1 = sv_store sv" "sv_broker sv1 = ?b" by (simp_all add: sv1_def)
    have key: "key_of ?b ?a = Some (se_api_key se)" by (rule owns_entry_key [OF True assms(2)])
    have g1: "guarded na sv1"
      using guarded_stash [OF assms(1) key] assms(1) by (simp add: sv1_def guarded_limits)
    note s1 = guarded_sound [OF g1]
    have g2: "good_step na sv1 sv2" "sv_store sv2 = sv_store sv1"
      using good_leaves [OF s1] by (simp_all add: sv2_def)
    note c = clear_leader_frame [OF cl]
    have s2: "sound na sv2" using g2(1) by (simp add: good_step_def)
    have "good_step na sv2 ?sv2'"
      using c soundD(1,2) [OF s2] by (intro good_quiet [OF s2]) simp_all
    then have g3: "good_step na sv1 ?sv2'" by (rule good_trans [OF g2(1)]) simp
    have gone: "?a \<notin> set (get_room_members q (sv_broker ?sv2'))" for q
    proof
      assume "?a \<in> set (get_room_members q (sv_broker ?sv2'))"
      moreover have "room_members b = room_members (sv_broker sv2)" using c(1) by (simp add: posts_def)
      note members_cong [OF this, of q]
      ultimately have m: "?a \<in> set (get_room_members q (sv_broker sv2))" by simp
      from members_leaves(2) [OF m [unfolded sv2_def]] have "q \<in> set ?rooms"
        using rooms_for_agent_iff [OF soundD(2) [OF s]] sv1(2) by simp
      then have "q \<in> snd ` set (enumerate 0 ?rooms)" by (simp flip: set_map)
      from members_leaves(1) [OF this m [unfolded sv2_def]] show False by simp
    qed
    have own: "owns_entry se b"
      using c(1) g2(1) True unfolding posts_def good_step_def delivers_def sv1(2)
      by (auto simp: owns_entry_def session_of_def split: option.splits) (metis map_option_eq_Some)+
    have d: "disconnect ev se sv = ?sv2'\<lparr>sv_broker := b\<lparr>agents := dm_remove ?a (agents b)\<rparr>,
        sv_store := snd (record_session_end (ev_fault ev 0) (ev_utc ev 0) (se_session_id se) (sv_store sv2))\<rparr>"
      using True own cl unfolding sv2_def sv1_def disconnect_def Let_def by (simp cong: if_cong)
    have "guarded na (disconnect ev se sv)" "shown na sv1 (disconnect ev se sv)"
      "entries_kept (sv_broker sv1) (sv_broker (disconnect ev se sv))"
      using safe_remove [OF g1 g3 _ gone, of "disconnect ev se sv"] g2(2) by (simp_all add: d)
    then show ?thesis by (simp add: safe_step_def shown_def sv1)
  qed
qed

subsection \<open>Registration\<close>

lemma claim_identity_frame:
  assumes "claim_agent_identity f a k s = (res, s')" "store_wf s"
  shows "store_wf s'" "db_rooms s' = db_rooms s" "grants_cache s' = grants_cache s" "owners_kept s s'"
    "res = Inr True \<Longrightarrow> identity_owner s' a = Some k"
proof -
  show "store_wf s'" using wf_claim_agent_identity [OF assms(2)] assms(1) by (metis snd_conv)
  show "db_rooms s' = db_rooms s" "grants_cache s' = grants_cache s"
    using assms(1) by (auto simp: claim_agent_identity_def Let_def split: if_splits option.splits)
  show "owners_kept s s'" "res = Inr True \<Longrightarrow> identity_owner s' a = Some k"
    using assms(1)
    by (auto simp: claim_agent_identity_def owners_kept_def identity_owner_def row_find_append Let_def
        split: if_splits option.splits)
qed

lemma allowed_rooms:
  "db_rooms s' = db_rooms s \<Longrightarrow> grants_cache s' = grants_cache s \<Longrightarrow> allowed na s' k r = allowed na s k r"
  by (simp add: allowed_def room_find_def can_access_room_def key_has_grant_def cached_grants_def split: option.split)

lemma register_checks_frame:
  assumes "register_checks cfg allow skey ev payload sv = (res, sv1)" "store_wf (sv_store sv)"
  shows "sv_broker sv1 = sv_broker sv" "sv_reconnect sv1 = sv_reconnect sv" "store_wf (sv_store sv1)"
    "db_rooms (sv_store sv1) = db_rooms (sv_store sv)" "grants_cache (sv_store sv1) = grants_cache (sv_store sv)"
    "owners_kept (sv_store sv) (sv_store sv1)"
    "res = Inr (p, a) \<Longrightarrow> payload = Some p \<and> (cf_no_auth cfg \<or> allow \<or> rp_key p \<noteq> [])
       \<and> (case rp_agent_id p of None \<Rightarrow> a = ev_uid ev 1
          | Some x \<Rightarrow> a = x \<and> (cf_no_auth cfg \<or> rp_key p = [] \<or> identity_owner (sv_store sv1) a = Some (rp_key p)))"
proof -
  show "sv_broker sv1 = sv_broker sv" "sv_reconnect sv1 = sv_reconnect sv"
    using assms(1)
    by (auto simp: register_checks_def Let_def split: option.splits if_splits prod.splits sum.splits bool.splits)
  have "\<exists>f a k. sv_store sv1 = sv_store sv \<or> sv_store sv1 = snd (claim_agent_identity f a k (sv_store sv))"
    using assms(1)
    by (auto simp: register_checks_def Let_def split: option.splits if_splits prod.splits sum.splits bool.splits;
        metis snd_conv)
  then obtain f a k where "sv_store sv1 = sv_store sv \<or> sv_store sv1 = snd (claim_agent_identity f a k (sv_store sv))"
    by blast
  then show "store_wf (sv_store sv1)" "db_rooms (sv_store sv1) = db_rooms (sv_store sv)"
    "grants_cache (sv_store sv1) = grants_cache (sv_store sv)" "owners_kept (sv_store sv) (sv_store sv1)"
    using claim_identity_frame [OF _ assms(2), of f a k] assms(2) by (metis kept_refl(1) prod.collapse)+
  show "res = Inr (p, a) \<Longrightarrow> payload = Some p \<and> (cf_no_auth cfg \<or> allow \<or> rp_key p \<noteq> [])
       \<and> (case rp_agent_id p of None \<Rightarrow> a = ev_uid ev 1
          | Some x \<Rightarrow> a = x \<and> (cf_no_auth cfg \<or> rp_key p = [] \<or> identity_owner (sv_store sv1) a = Some (rp_key p)))"
    for p a
    using assms claim_identity_frame(5)
    by (auto simp: register_checks_def authenticated_def Let_def
        split: option.splits if_splits prod.splits sum.splits bool.splits)
qed

lemma begin_reclaim_frame:
  assumes "begin_reclaim now tok a k na rm = (res, rm')"
  shows "stashes_kept rm rm'"
    "res = Inr (Some l) \<Longrightarrow> \<exists>k'. stash_key rm a = Some k' \<and> (na \<or> k' = k)"
  using assms
  by (auto simp: begin_reclaim_def stashes_kept_def stash_key_def split: option.splits if_splits)

text \<open>A claim is granted to a new agent, or under the key of the live connection or of the stash.\<close>

lemma register_claim_frame:
  assumes "register_claim cfg ev af p a sv = (res, sv')"
  shows "sv_broker sv' = sv_broker sv" "sv_store sv' = sv_store sv"
    "stashes_kept (sv_reconnect sv) (sv_reconnect sv')"
    "res = Inr cl \<Longrightarrow> map_of (agents (sv_broker sv)) a = None
       \<or> (\<exists>k. key_of (sv_broker sv) a = Some k \<and> (cf_no_auth cfg \<or> k = rp_key p))
       \<or> (\<exists>k. stash_key (sv_reconnect sv) a = Some k \<and> (cf_no_auth cfg \<or> k = rp_key p))"
proof -
  obtain rec rm where r: "(if rp_reconnect p
      then begin_reclaim (ev_instant ev 1) (ev_uid ev 2) a (rp_key p) (cf_no_auth cfg) (sv_reconnect sv)
      else (Inr None, sv_reconnect sv)) = (rec, rm)" by force
  have rm: "stashes_kept (sv_reconnect sv) rm"
    using r begin_reclaim_frame(1) by (auto split: if_splits)
  have l: "rec = Inr (Some l) \<Longrightarrow> \<exists>k'. stash_key (sv_reconnect sv) a = Some k' \<and> (cf_no_auth cfg \<or> k' = rp_key p)" for l
    using r begin_reclaim_frame(2) by (auto split: if_splits)
  have res: "register_claim cfg ev af p a sv = (res, sv')" by fact
  note d = res [unfolded register_claim_def Let_def r prod.case]
  show "sv_broker sv' = sv_broker sv" "sv_store sv' = sv_store sv"
    "stashes_kept (sv_reconnect sv) (sv_reconnect sv')"
    using d rm by (auto split: sum.splits option.splits if_splits)
  show "map_of (agents (sv_broker sv)) a = None
       \<or> (\<exists>k. key_of (sv_broker sv) a = Some k \<and> (cf_no_auth cfg \<or> k = rp_key p))
       \<or> (\<exists>k. stash_key (sv_reconnect sv) a = Some k \<and> (cf_no_auth cfg \<or> k = rp_key p))" if "res = Inr cl" for cl
    using d l that by (auto simp: key_of_def split: sum.splits option.splits if_splits)
qed

lemma sound_insert:
  assumes "sound na sv" "na \<or> (\<forall>k. key_of (sv_broker sv) a = Some k \<longrightarrow> k = ac_api_key c)"
  shows "sound na (sv\<lparr>sv_broker := (sv_broker sv)\<lparr>agents := dm_insert a c (agents (sv_broker sv))\<rparr>\<rparr>)"
proof -
  let ?b' = "(sv_broker sv)\<lparr>agents := dm_insert a c (agents (sv_broker sv))\<rparr>"
  have k: "key_of ?b' x = (if x = a then Some (ac_api_key c) else key_of (sv_broker sv) x)" for x
    by (simp add: key_of_def)
  have "authorized na (sv\<lparr>sv_broker := ?b'\<rparr>)"
    unfolding authorized_def
  proof (intro allI ballI)
    fix r x assume "x \<in> set (get_room_members r (sv_broker (sv\<lparr>sv_broker := ?b'\<rparr>)))"
    then have "x \<in> set (get_room_members r (sv_broker sv))" by simp
    from soundD(3) [OF assms(1) this] obtain k' where
      k': "key_of (sv_broker sv) x = Some k'" "allowed na (sv_store sv) k' r" by blast
    then have "x = a \<Longrightarrow> allowed na (sv_store sv) (ac_api_key c) r"
      using assms(2) by (cases na) (auto simp: allowed_no_auth)
    then show "\<exists>k. key_of (sv_broker (sv\<lparr>sv_broker := ?b'\<rparr>)) x = Some k
        \<and> allowed na (sv_store (sv\<lparr>sv_broker := ?b'\<rparr>)) k r"
      using k' by (simp add: k)
  qed
  then show ?thesis
    using soundD(1,2) [OF assms(1)] by (auto simp: sound_def intro!: wf_set_agents dest: broker_wfD(1))
qed

lemma good_rejoin:
  assumes "sound na sv" "key_of (sv_broker sv) a = Some k"
  shows "good_step na sv (sv\<lparr>sv_broker := snd (rejoin ev fault a k na (sv_store sv) jr (sv_broker sv))\<rparr>)"
    "key_of (snd (rejoin ev fault a k na (sv_store sv) jr (sv_broker sv))) a = Some k"
  using assms accessible_allowed
  by (cases jr; force simp: rejoin_def key_of_def intro!: good_join [OF assms])+

lemma good_rejoins:
  assumes "sound na sv" "key_of (sv_broker sv) a = Some k"
  shows "good_step na sv (sv\<lparr>sv_broker := fold (\<lambda>jr b. snd (rejoin ev fault a k na (sv_store sv) jr b)) jrs (sv_broker sv)\<rparr>)
    \<and> key_of (fold (\<lambda>jr b. snd (rejoin ev fault a k na (sv_store sv) jr b)) jrs (sv_broker sv)) a = Some k"
  using assms
proof (induction jrs arbitrary: sv)
  case (Cons jr jrs)
  let ?sv1 = "sv\<lparr>sv_broker := snd (rejoin ev fault a k na (sv_store sv) jr (sv_broker sv))\<rparr>"
  note 1 = good_rejoin [OF Cons.prems, of ev fault jr]
  have "sound na ?sv1" using 1(1) by (simp add: good_step_def)
  from Cons.IH [OF this] 1(2) have
    2: "good_step na ?sv1 (?sv1\<lparr>sv_broker := fold (\<lambda>jr b. snd (rejoin ev fault a k na (sv_store sv) jr b)) jrs (sv_broker ?sv1)\<rparr>)
      \<and> key_of (fold (\<lambda>jr b. snd (rejoin ev fault a k na (sv_store sv) jr b)) jrs (sv_broker ?sv1)) a = Some k" by simp
  from good_trans [OF 1(1) conjunct1 [OF 2]] 2 show ?case by simp
qed simp

lemma good_restore:
  assumes "sound na sv" "key_of (sv_broker sv) a = Some k"
    and "restore_rooms ev fault a name k na (sv_store sv) jrs (sv_broker sv) = (rs, b)"
  shows "good_step na sv (sv\<lparr>sv_broker := b\<rparr>)"
  using assms
proof (induction jrs arbitrary: sv rs)
  case (Cons jr jrs)
  obtain j r where jr: "jr = (j, r)" by force
  obtain out b1 where rj: "rejoin ev fault a k na (sv_store sv) (j, r) (sv_broker sv) = (out, b1)" by force
  note 1 = good_rejoin [OF Cons.prems(1,2), of ev fault "(j, r)", unfolded rj snd_conv]
  have s1: "sound na (sv\<lparr>sv_broker := b1\<rparr>)" using 1(1) by (simp add: good_step_def)
  show ?case
  proof (cases out)
    case None
    with Cons.prems(3) have "restore_rooms ev fault a name k na (sv_store sv) jrs b1 = (rs, b)"
      by (simp add: jr rj)
    with Cons.IH [OF s1] 1(2) have "good_step na (sv\<lparr>sv_broker := b1\<rparr>) (sv\<lparr>sv_broker := b\<rparr>)" by simp
    then show ?thesis by (rule good_trans [OF 1(1)]) simp
  next
    case (Some x)
    let ?b2 = "broadcast_to_room r a (rejoined_event (ev_uid ev (4 + j)) r a name) b1"
    obtain rs' where rs': "restore_rooms ev fault a name k na (sv_store sv) jrs ?b2 = (rs', b)"
      using Cons.prems(3) Some by (auto simp: jr rj Let_def split: prod.splits)
    have p: "posts b1 ?b2" by (simp add: rejoined_event_def posts_intros)
    have 2: "good_step na sv (sv\<lparr>sv_broker := ?b2\<rparr>)"
      using p soundD(2) [OF s1] by (intro good_then_posts [OF 1(1)]) (simp_all add: wf_intros)
    then have s2: "sound na (sv\<lparr>sv_broker := ?b2\<rparr>)" by (simp add: good_step_def)
    have "key_of ?b2 a = Some k"
      using p 1(2) by (simp add: posts_def delivers_keys)
    with Cons.IH [OF s2] rs' have "good_step na (sv\<lparr>sv_broker := ?b2\<rparr>) (sv\<lparr>sv_broker := b\<rparr>)" by simp
    then show ?thesis by (rule good_trans [OF 2]) simp
  qed
next
  case Nil
  then have "sv\<lparr>sv_broker := b\<rparr> = sv" by (cases sv) simp
  then show ?case using Nil(1) by (simp only: good_refl)
qed

lemma good_install:
  assumes "sound (cf_no_auth cfg) sv"
    and "cf_no_auth cfg \<or> (\<forall>k. key_of (sv_broker sv) a = Some k \<longrightarrow> k = rp_key p)"
    and "install cfg ev af p a sid cl sv = (rs, sv')"
  shows "good_step (cf_no_auth cfg) (sv\<lparr>sv_broker := (sv_broker sv)\<lparr>agents :=
      dm_insert a (new_connection ev p a sid) (agents (sv_broker sv))\<rparr>\<rparr>) sv'
    \<and> sv_store sv' = sv_store sv \<and> sv_reconnect sv' = sv_reconnect sv"
proof -
  let ?na = "cf_no_auth cfg"
  let ?b1 = "(sv_broker sv)\<lparr>agents := dm_insert a (new_connection ev p a sid) (agents (sv_broker sv))\<rparr>"
  let ?sv1 = "sv\<lparr>sv_broker := ?b1\<rparr>"
  have key: "ac_api_key (new_connection ev p a sid) = rp_key p" by (simp add: new_connection_def)
  have s1: "sound ?na ?sv1" using assms(2) by (intro sound_insert [OF assms(1)]) (simp add: key)
  have k1: "key_of (sv_broker ?sv1) a = Some (rp_key p)" by (simp add: key_of_def key)
  let ?b2 = "case cl_takeover cl of None \<Rightarrow> ?b1
    | Some rooms \<Rightarrow> fold (\<lambda>jr b. snd (rejoin ev (af 2) a (rp_key p) ?na (sv_store sv) jr b)) (enumerate 0 rooms) ?b1"
  have 2: "good_step ?na ?sv1 (sv\<lparr>sv_broker := ?b2\<rparr>) \<and> key_of ?b2 a = Some (rp_key p)"
    using s1 k1 good_rejoins [OF s1 k1, of ev "af 2"] by (simp split: option.split)
  then have s2: "sound ?na (sv\<lparr>sv_broker := ?b2\<rparr>)" by (simp add: good_step_def)
  show ?thesis
  proof (cases "cl_rooms cl")
    case None
    with assms(3) have "sv' = sv\<lparr>sv_broker := ?b2\<rparr>" by (simp add: install_def Let_def)
    then show ?thesis using 2 by simp
  next
    case (Some rooms)
    obtain rs' b3 where r: "restore_rooms ev (af 3) a (rp_name p) (rp_key p) ?na (sv_store sv) (enumerate 0 rooms) ?b2
        = (rs', b3)" by force
    with assms(3) Some have sv': "sv' = sv\<lparr>sv_broker := b3\<rparr>" by (simp add: install_def Let_def)
    have "good_step ?na (sv\<lparr>sv_broker := ?b2\<rparr>) (sv\<lparr>sv_broker := b3\<rparr>)"
      using good_restore [OF s2, of a "rp_key p" ev "af 3" "rp_name p" "enumerate 0 rooms" rs' b3] 2 r by simp
    from good_trans [OF conjunct1 [OF 2] this] sv' show ?thesis by simp
  qed
qed

text \<open>The whole registration, when all connections follow the same rule.\<close>

lemma guarded_register:
  assumes g: "guarded (cf_no_auth cfg) sv"
    and r: "register cfg allow skey ev af req payload sv = (res, sv')"
    and uniform: "allow \<longrightarrow> cf_no_auth cfg"
    and fresh: "case payload of Some p \<Rightarrow> rp_agent_id p \<noteq> None \<or> (map_of (agents (sv_broker sv)) (ev_uid ev 1) = None
         \<and> map_of (stashed (sv_reconnect sv)) (ev_uid ev 1) = None) | None \<Rightarrow> True"
  shows "case res of Inl _ \<Rightarrow> safe_step (cf_no_auth cfg) sv sv'
    | Inr (se, fs, lease) \<Rightarrow> guarded (cf_no_auth cfg) sv' \<and> shown (cf_no_auth cfg) sv sv'
        \<and> se_session_id se = ev_uid ev 3 \<and> session_of (sv_broker sv') (se_agent_id se) = Some (se_session_id se)
        \<and> key_of (sv_broker sv') (se_agent_id se) = Some (se_api_key se)
        \<and> (\<forall>x. x \<noteq> se_agent_id se \<longrightarrow> session_of (sv_broker sv') x = session_of (sv_broker sv) x
             \<and> key_of (sv_broker sv') x = key_of (sv_broker sv) x)
        \<and> (\<forall>f r. f \<in> set (tl fs) \<longrightarrow> frame_room_id f = Some r \<longrightarrow> allowed (cf_no_auth cfg) (sv_store sv') (se_api_key se) r)
        \<and> (cf_no_auth cfg \<or> (\<forall>k. key_of (sv_broker sv) (se_agent_id se) = Some k \<longrightarrow> k = se_api_key se))"
proof -
  let ?na = "cf_no_auth cfg"
  note s = guarded_sound [OF g]
  obtain c1 sv1 where c: "register_checks cfg allow skey ev payload sv = (c1, sv1)" by force
  note f1 = register_checks_frame [OF c soundD(1) [OF s]]
  have al1: "allowed ?na (sv_store sv1) k q = allowed ?na (sv_store sv) k q" for k q
    using f1(4,5) by (rule allowed_rooms)
  have 1: "safe_step ?na sv sv1" using f1 al1 by (intro safe_store [OF g]) simp_all
  show ?thesis
  proof (cases c1)
    case (Inl e)
    then show ?thesis using r 1 by (auto simp: register_def c)
  next
    case (Inr pa)
    obtain p a where pa: "pa = (p, a)" by force
    note chk = f1(7) [OF Inr [unfolded pa]]
    obtain c2 sv2 where c2: "register_claim cfg ev af p a sv1 = (c2, sv2)" by force
    note f2 = register_claim_frame [OF c2]
    have own2: "owners_kept (sv_store sv) (sv_store sv2)" using f1(6) by (simp add: f2(2))
    have st2: "stashes_kept (sv_reconnect sv) (sv_reconnect sv2)" using f2(3) by (simp add: f1(2))
    have 2: "safe_step ?na sv sv2" using f1 f2 al1 own2 st2 by (intro safe_store [OF g]) simp_all
    show ?thesis
    proof (cases c2)
      case (Inl e)
      then show ?thesis using r 2 \<open>c1 = Inr pa\<close> by (auto simp: register_def c pa c2)
    next
      case (Inr cl)
      have chk: "payload = Some p" "?na \<or> rp_key p \<noteq> []" "rp_agent_id p = None \<Longrightarrow> a = ev_uid ev 1"
        "rp_agent_id p \<noteq> None \<Longrightarrow> ?na \<or> identity_owner (sv_store sv1) a = Some (rp_key p)"
        using chk uniform by (auto split: option.splits)
      have new: "key_of (sv_broker sv) a = None \<and> stash_key (sv_reconnect sv) a = None" if "rp_agent_id p = None"
        using that fresh chk by (simp add: key_of_def stash_key_def)
      have key: "?na \<or> (\<forall>k. key_of (sv_broker sv) a = Some k \<longrightarrow> k = rp_key p)"
      proof (cases ?na)
        case False
        with g have kd: "keyed sv" by (simp add: guarded_def)
        have "k = rp_key p" if k: "key_of (sv_broker sv) a = Some k" for k
        proof (cases "stash_key (sv_reconnect sv) a = Some (rp_key p)")
          case True
          with kd k have "rp_key p = k \<or> identity_owner (sv_store sv) a = Some k" by (simp add: keyed_def)
          moreover have "identity_owner (sv_store sv1) a = Some (rp_key p)" using chk(4) False new k by fastforce
          ultimately show ?thesis using f1(6) by (auto simp: owners_kept_def)
        next
          case not_stashed: False
          with f2(4) [OF Inr] False k show ?thesis by (auto simp: f1(1,2) key_of_def)
        qed
        then show ?thesis by blast
      qed simp
      let ?sv3 = "sv2\<lparr>sv_limits := (if rp_key p \<noteq> [] then add_agent (ev_instant ev 2) (rp_key p) (sv_limits sv2) else sv_limits sv2),
        sv_store := snd (record_session_start (ev_fault ev 3) (ev_utc ev 0) (ev_uid ev 3) a (rp_name p) (rp_capabilities p) (sv_store sv2))\<rparr>"
      obtain rs sv4 where i: "install cfg ev af p a (ev_uid ev 3) cl ?sv3 = (rs, sv4)" by force
      have st3: "store_wf (sv_store ?sv3)" "access_view (sv_store ?sv3) = access_view (sv_store sv2)"
        using f1(3) by (simp_all add: wf_record_session_start f2(2))
      have alw: "allowed ?na (sv_store ?sv3) k q = allowed ?na (sv_store sv) k q" for k q
        using allowed_view [OF st3(2)] al1 by (simp add: f2(2))
      have s3: "sound ?na ?sv3"
        using st3(1) soundD(2) [OF s] alw by (intro sound_store [OF s]) (simp_all add: f1(1) f2(1))
      let ?b3 = "(sv_broker sv)\<lparr>agents := dm_insert a (new_connection ev p a (ev_uid ev 3)) (agents (sv_broker sv))\<rparr>"
      let ?sv3i = "?sv3\<lparr>sv_broker := ?b3\<rparr>"
      have gi: "good_step ?na ?sv3i sv4" "sv_store sv4 = sv_store ?sv3" "sv_reconnect sv4 = sv_reconnect sv2"
        using good_install [OF s3 _ i] key by (simp_all add: f1(1) f2(1))
      then have s4: "sound ?na sv4" and d: "delivers (visible ?na ?sv3i sv4) ?b3 (sv_broker sv4)"
        by (simp_all add: good_step_def)
      have k4: "key_of (sv_broker sv4) x = (if x = a then Some (rp_key p) else key_of (sv_broker sv) x)"
        "session_of (sv_broker sv4) x = (if x = a then Some (ev_uid ev 3) else session_of (sv_broker sv) x)" for x
        using d by (simp_all add: delivers_def) (simp_all add: key_of_def session_of_def new_connection_def)
      have ids: "identity_owner (sv_store sv4) x = identity_owner (sv_store sv1) x" for x
        using st3(2) by (simp add: gi(2) identity_owner_def access_view_def f2(2))
      have "keyed sv4" if "\<not> ?na"
      proof -
        from that g have kd: "keyed sv" by (simp add: guarded_def)
        have sk: "stash_key (sv_reconnect sv4) x = Some k \<Longrightarrow> stash_key (sv_reconnect sv) x = Some k" for x k
          using st2 by (simp add: gi(3) stashes_kept_def)
        have at_a: "stash_key (sv_reconnect sv4) a \<noteq> None \<Longrightarrow> identity_owner (sv_store sv1) a = Some (rp_key p)"
          using sk new chk(4) that by (cases "rp_agent_id p") fastforce+
        show ?thesis
          unfolding keyed_def k4 ids
          using kd chk(2) that sk at_a f1(6) unfolding keyed_def owners_kept_def by (auto split: if_splits) blast+
      qed
      then have g4: "guarded ?na sv4" using s4 g st2 by (auto simp: guarded_def gi(3) stashes_kept_def)
      have sh: "shown ?na sv sv4"
        unfolding shown_def
      proof (intro allI impI)
        fix x f q assume f: "f \<in> set (arrived (sv_broker sv) (sv_broker sv4) x)" "frame_room_id f = Some q"
        have "f \<in> set (arrived ?b3 (sv_broker sv4) x)"
        proof (cases "x = a")
          case True
          have "outbox ?b3 a = []" by (simp add: outbox_def new_connection_def)
          with f(1) True show ?thesis by (auto simp: arrived_def split: if_splits dest: in_set_dropD)
        next
          case False
          then have "outbox ?b3 x = outbox (sv_broker sv) x" "session_of ?b3 x = session_of (sv_broker sv) x"
            by (simp_all add: outbox_def session_of_def)
          then show ?thesis using f(1) by (simp add: arrived_def split: if_splits)
        qed
        from arrived_delivers [OF d this] f(2) obtain k where
          "key_of ?b3 x = Some k" "allowed ?na (sv_store sv4) k q" unfolding visible_def gi(2) by auto
        then show "\<exists>k. key_of (sv_broker sv4) x = Some k \<and> (allowed ?na (sv_store sv) k q \<or> allowed ?na (sv_store sv4) k q)"
          using delivers_keys [OF d] by auto
      qed
      obtain reply mf where res: "res = Inr (\<lparr>se_agent_id = a, se_name = rp_name p, se_session_id = ev_uid ev 3,
            se_api_key = rp_key p\<rparr>, reply # accessible_frames (af 4) (rp_key p) ?na (sv_store sv4) mf, cl_lease cl)"
          and sv': "sv' = sv4"
        using r unfolding register_def c pa c2 \<open>c1 = Inr pa\<close> Inr Let_def prod.case sum.case i prod.inject by blast
      show ?thesis
        unfolding res sv' using g4 sh k4 key accessible_frame_allowed [where fault = "af 4" and k = "rp_key p" and na = ?na
            and s = "sv_store sv4" and fs = mf] by simp
    qed
  qed
qed

subsection \<open>Every step of the system\<close>

definition matching :: "system \<Rightarrow> bool" where
  "matching sy \<longleftrightarrow> distinct (dm_keys (sy_sessions sy)) \<and>
     (\<forall>sid se ph. map_of (sy_sessions sy) sid = Some (se, ph) \<longrightarrow>
        se_session_id se = sid \<and> entry_key se (sv_broker (sy_server sy)))"

definition secure :: "config \<Rightarrow> system \<Rightarrow> bool" where
  "secure cfg sy \<longleftrightarrow> guarded (cf_no_auth cfg) (sy_server sy) \<and> matching sy"

text \<open>The reply that the connection's own task is about to queue.\<close>

definition own_reply :: "system \<Rightarrow> string \<Rightarrow> frame \<Rightarrow> bool" where
  "own_reply sy a f \<longleftrightarrow> (\<exists>sid se. map_of (sy_sessions sy) sid = Some (se, Replying f) \<and> se_agent_id se = a)"

definition confined :: "config \<Rightarrow> system \<Rightarrow> system \<Rightarrow> bool" where
  "confined cfg sy sy' \<longleftrightarrow>
     (\<forall>a f r. f \<in> set (arrived (sv_broker (sy_server sy)) (sv_broker (sy_server sy')) a) \<longrightarrow>
        frame_room_id f = Some r \<longrightarrow> own_reply sy a f \<or>
        (\<exists>k. key_of (sv_broker (sy_server sy')) a = Some k
          \<and> (allowed (cf_no_auth cfg) (sv_store (sy_server sy)) k r
             \<or> allowed (cf_no_auth cfg) (sv_store (sy_server sy')) k r)))"

lemma matching_kept:
  assumes "matching sy" "entries_kept (sv_broker (sy_server sy)) (sv_broker sv)"
  shows "matching (sy\<lparr>sy_server := sv\<rparr>)"
  using assms unfolding matching_def entry_key_def entries_kept_def by simp

lemma matchingD:
  "matching sy \<Longrightarrow> map_of (sy_sessions sy) sid = Some (se, ph) \<Longrightarrow> se_session_id se = sid"
  "matching sy \<Longrightarrow> map_of (sy_sessions sy) sid = Some (se, ph) \<Longrightarrow> entry_key se (sv_broker (sy_server sy))"
  unfolding matching_def by blast+

lemma matchingI:
  "distinct (dm_keys (sy_sessions sy)) \<Longrightarrow> (\<And>sid se ph. map_of (sy_sessions sy) sid = Some (se, ph) \<Longrightarrow>
     se_session_id se = sid \<and> entry_key se (sv_broker (sy_server sy))) \<Longrightarrow> matching sy"
  unfolding matching_def by blast

lemma matching_distinct: "matching sy \<Longrightarrow> distinct (dm_keys (sy_sessions sy))"
  by (simp add: matching_def)

lemma matching_phase:
  assumes "matching sy" "in_phase se ph sy"
  shows "matching (set_phase se ph' sy)"
proof (rule matchingI)
  show "distinct (dm_keys (sy_sessions (set_phase se ph' sy)))"
    using matching_distinct [OF assms(1)] by (simp add: set_phase_def)
  fix sid se' ph'' assume s: "map_of (sy_sessions (set_phase se ph' sy)) sid = Some (se', ph'')"
  show "se_session_id se' = sid \<and> entry_key se' (sv_broker (sy_server (set_phase se ph' sy)))"
  proof (cases "sid = se_session_id se")
    case True
    with s have "se' = se" by (simp add: set_phase_def)
    then show ?thesis using True matchingD(2) [OF assms] by (simp add: set_phase_def)
  next
    case False
    with s have "map_of (sy_sessions sy) sid = Some (se', ph'')" by (simp add: set_phase_def)
    then show ?thesis using matchingD [OF assms(1)] by (simp add: set_phase_def)
  qed
qed

lemma matching_end:
  assumes "matching sy"
  shows "matching (end_session se sy)"
proof (rule matchingI)
  show "distinct (dm_keys (sy_sessions (end_session se sy)))"
    using matching_distinct [OF assms] by (simp add: end_session_def)
  fix sid se' ph' assume "map_of (sy_sessions (end_session se sy)) sid = Some (se', ph')"
  then have "map_of (sy_sessions sy) sid = Some (se', ph')" by (simp add: end_session_def split: if_splits)
  then show "se_session_id se' = sid \<and> entry_key se' (sv_broker (sy_server (end_session se sy)))"
    using matchingD [OF assms] by (simp add: end_session_def)
qed

lemma session_frame [simp]:
  "sy_server (set_phase se ph sy) = sy_server sy" "sy_server (end_session se sy) = sy_server sy"
  "sy_sessions (sy\<lparr>sy_server := sv\<rparr>) = sy_sessions sy"
  by (simp_all add: set_phase_def end_session_def)

lemma secure_safe:
  assumes "secure cfg sy" "safe_step (cf_no_auth cfg) (sy_server sy) sv"
  shows "secure cfg (sy\<lparr>sy_server := sv\<rparr>)" "confined cfg sy (sy\<lparr>sy_server := sv\<rparr>)"
proof -
  show "secure cfg (sy\<lparr>sy_server := sv\<rparr>)"
    using assms matching_kept by (simp add: secure_def safe_step_def)
  show "confined cfg sy (sy\<lparr>sy_server := sv\<rparr>)"
    using assms(2) unfolding confined_def safe_step_def shown_def by simp
qed

lemma confined_frame [simp]:
  "confined cfg sy (set_phase se ph sy') = confined cfg sy sy'"
  "confined cfg sy (end_session se sy') = confined cfg sy sy'"
  by (simp_all add: confined_def)

lemma secure_frame:
  "secure cfg sy \<Longrightarrow> in_phase se ph sy \<Longrightarrow> secure cfg (set_phase se ph' sy)"
  "secure cfg sy \<Longrightarrow> secure cfg (end_session se sy)"
  by (simp_all add: secure_def matching_phase matching_end)

lemma secure_entry: "secure cfg sy \<Longrightarrow> in_phase se ph sy \<Longrightarrow> entry_key se (sv_broker (sy_server sy))"
  unfolding secure_def using matchingD(2) by blast

lemma secure_register:
  assumes "secure cfg sy" "fresh_ids ev payload sy" "allow \<longrightarrow> cf_no_auth cfg"
    and r: "register cfg allow skey ev af req payload (sy_server sy) = (Inr (se, fs, lease), sv)"
  shows "secure cfg (set_phase se (Greeting fs lease) (sy\<lparr>sy_server := sv\<rparr>))"
    "confined cfg sy (set_phase se (Greeting fs lease) (sy\<lparr>sy_server := sv\<rparr>))"
proof -
  have g: "guarded (cf_no_auth cfg) (sy_server sy)" and m: "matching sy" using assms(1) by (simp_all add: secure_def)
  have "case payload of Some p \<Rightarrow> rp_agent_id p \<noteq> None \<or> (map_of (agents (sv_broker (sy_server sy))) (ev_uid ev 1) = None
         \<and> map_of (stashed (sv_reconnect (sy_server sy))) (ev_uid ev 1) = None) | None \<Rightarrow> True"
    using assms(2) by (simp add: fresh_ids_def)
  note gr = guarded_register [OF g r assms(3) this, simplified sum.case prod.case]
  have new: "se_session_id se \<notin> set (dm_keys (sy_sessions sy))"
    using gr assms(2) by (simp add: fresh_ids_def)
  have "entry_key se' (sv_broker sv)" if "map_of (sy_sessions sy) sid = Some (se', ph)" for sid se' ph
  proof (cases "se_agent_id se' = se_agent_id se")
    case True
    have "se_session_id se' \<noteq> se_session_id se"
    proof
      assume "se_session_id se' = se_session_id se"
      with matchingD(1) [OF m that] that have "map_of (sy_sessions sy) (se_session_id se) \<noteq> None" by simp
      with new show False by (simp add: map_of_eq_None_iff)
    qed
    with True gr show ?thesis by (simp add: entry_key_def)
  next
    case False
    with gr have "entry_key se' (sv_broker sv) = entry_key se' (sv_broker (sy_server sy))" by (simp add: entry_key_def)
    then show ?thesis using matchingD(2) [OF m that] by simp
  qed
  then have "matching (set_phase se (Greeting fs lease) (sy\<lparr>sy_server := sv\<rparr>))"
    using matching_distinct [OF m] matchingD(1) [OF m] gr
    by (intro matchingI) (auto simp: set_phase_def entry_key_def split: if_splits)
  then show "secure cfg (set_phase se (Greeting fs lease) (sy\<lparr>sy_server := sv\<rparr>))"
    using gr by (simp add: secure_def)
  show "confined cfg sy (set_phase se (Greeting fs lease) (sy\<lparr>sy_server := sv\<rparr>))"
    using gr unfolding confined_frame confined_def shown_def by simp
qed

end
