(* ===== verification/Isolation.thy ===== *)
theory Isolation
  imports Session_Safety Scenario
begin

text \<open>
  Rooms are isolated: what the reachable states of the server promise about who is in a room and who
  receives frames about it, and where mixing keyless and keyed connections breaks the promise.
\<close>

definition uniform :: "config \<Rightarrow> bool \<Rightarrow> bool" where
  "uniform cfg keyless \<longleftrightarrow> cf_no_auth cfg \<or> \<not> keyless"

subsection \<open>All steps\<close>

lemma secure_refuse:
  assumes "secure cfg sy" "uniform cfg keyless" "allow \<longrightarrow> keyless" "fresh_ids ev payload sy"
    and "register cfg allow skey ev af req payload (sy_server sy) = (Inl r, sv)"
  shows "safe_step (cf_no_auth cfg) (sy_server sy) sv"
proof -
  have "case payload of Some p \<Rightarrow> rp_agent_id p \<noteq> None \<or> (map_of (agents (sv_broker (sy_server sy))) (ev_uid ev 1) = None
         \<and> map_of (stashed (sv_reconnect (sy_server sy))) (ev_uid ev 1) = None) | None \<Rightarrow> True"
    using assms(4) by (simp add: fresh_ids_def)
  from guarded_register [OF _ assms(5) _ this] assms(1-3) show ?thesis
    by (auto simp: secure_def uniform_def)
qed

lemma session_live:
  assumes "secure cfg sy" "in_phase se ph sy" "owns_entry se (sv_broker (sy_server sy))"
  shows "live cfg (caller_of se) (sy_server sy)"
  using owns_entry_key [OF assms(3) secure_entry [OF assms(1,2)]] by (simp add: live_def caller_of_def)

lemma safe_handle_frame:
  assumes "secure cfg sy" "in_phase se ph sy" "owns_entry se (sv_broker (sy_server sy))"
    and "handle_frame cfg de ev (caller_of se) f (sy_server sy) = (res, sv)"
  shows "safe_step (cf_no_auth cfg) (sy_server sy) sv"
proof -
  have g: "guarded (cf_no_auth cfg) (sy_server sy)" using assms(1) by (simp add: secure_def)
  from good_handle_frame [OF guarded_sound [OF g] session_live [OF assms(1-3)], of de ev f] assms(4)
  show ?thesis by (intro good_safe [OF g]) simp
qed

lemma secure_queue:
  assumes "secure cfg sy" "frame_room_id f \<noteq> None \<longrightarrow> own_reply sy (se_agent_id se) f"
  shows "secure cfg (sy\<lparr>sy_server := (sy_server sy)\<lparr>sv_broker := queue_frame se f (sv_broker (sy_server sy))\<rparr>\<rparr>)"
    "confined cfg sy (sy\<lparr>sy_server := (sy_server sy)\<lparr>sv_broker := queue_frame se f (sv_broker (sy_server sy))\<rparr>\<rparr>)"
proof -
  have "matching (sy\<lparr>sy_server := (sy_server sy)\<lparr>sv_broker := queue_frame se f (sv_broker (sy_server sy))\<rparr>\<rparr>)"
    using assms(1) by (intro matching_kept) (simp_all add: secure_def entries_kept_def)
  then show "secure cfg (sy\<lparr>sy_server := (sy_server sy)\<lparr>sv_broker := queue_frame se f (sv_broker (sy_server sy))\<rparr>\<rparr>)"
    using assms(1) guarded_reply by (simp add: secure_def)
  show "confined cfg sy (sy\<lparr>sy_server := (sy_server sy)\<lparr>sv_broker := queue_frame se f (sv_broker (sy_server sy))\<rparr>\<rparr>)"
    using assms(2) by (auto simp: confined_def arrived_def queue_frame_outbox)
qed

lemma secure_heartbeat:
  assumes "secure cfg sy"
  shows "secure cfg (sy\<lparr>sy_server := (sy_server sy)\<lparr>sv_broker := heartbeat uid se (sv_broker (sy_server sy))\<rparr>\<rparr>)
    \<and> confined cfg sy (sy\<lparr>sy_server := (sy_server sy)\<lparr>sv_broker := heartbeat uid se (sv_broker (sy_server sy))\<rparr>\<rparr>)"
proof -
  let ?ping = "frame_event uid Ping (JObj [(''heartbeat'', JBool True)])" and ?b = "sv_broker (sy_server sy)"
  have "frame_room_id ?ping = None" by (simp add: frame_room_id_def)
  with secure_queue [OF assms, of ?ping se]
  have q: "secure cfg (sy\<lparr>sy_server := (sy_server sy)\<lparr>sv_broker := queue_frame se ?ping ?b\<rparr>\<rparr>)
    \<and> confined cfg sy (sy\<lparr>sy_server := (sy_server sy)\<lparr>sv_broker := queue_frame se ?ping ?b\<rparr>\<rparr>)" by simp
  have "sy\<lparr>sy_server := (sy_server sy)\<lparr>sv_broker := ?b\<rparr>\<rparr> = sy" by (cases sy; cases "sy_server sy") simp
  then have "secure cfg (sy\<lparr>sy_server := (sy_server sy)\<lparr>sv_broker := ?b\<rparr>\<rparr>)
    \<and> confined cfg sy (sy\<lparr>sy_server := (sy_server sy)\<lparr>sv_broker := ?b\<rparr>\<rparr>)"
    using assms by (simp add: confined_def arrived_def)
  with q show ?thesis by (simp add: heartbeat_def split: option.split)
qed

theorem secure_step:
  assumes "system_step cfg keyless sy sy'" "secure cfg sy" "uniform cfg keyless"
  shows "secure cfg sy' \<and> confined cfg sy sy'"
  using assms(1)
proof cases
  case (step_refuse allow skey ev af req payload r sv)
  then show ?thesis using secure_safe [OF assms(2) secure_refuse [OF assms(2,3)]] by blast
next
  case (step_register allow skey ev af req payload se fs lease sv)
  have "allow \<longrightarrow> cf_no_auth cfg" using assms(3) step_register(3) by (auto simp: uniform_def)
  from secure_register [OF assms(2) step_register(4) this step_register(2)] show ?thesis
    by (simp add: step_register(1))
next
  case (step_unwritten se fs lease ev)
  have "guarded (cf_no_auth cfg) (sy_server sy)" using assms(2) by (simp add: secure_def)
  note s = secure_safe [OF assms(2) safe_failed [OF this]]
  show ?thesis using secure_frame(2) [OF s(1)] s(2) by (simp add: step_unwritten)
next
  case (step_written se fs lease fault)
  have "guarded (cf_no_auth cfg) (sy_server sy)" using assms(2) by (simp add: secure_def)
  note s = secure_safe [OF assms(2) safe_written [OF this secure_entry [OF assms(2) step_written(2)]]]
  show ?thesis using secure_frame(1) [OF s(1)] s(2) step_written by simp
next
  case (step_frame se f de ev reply sv)
  note s = secure_safe [OF assms(2) safe_handle_frame [OF assms(2) step_frame(2,3,5)]]
  show ?thesis using secure_frame(1) [OF s(1)] s(2) step_frame by simp
next
  case (step_panic se de ev f sv)
  note s = secure_safe [OF assms(2) safe_handle_frame [OF assms(2) step_panic(2-4)]]
  show ?thesis using secure_frame(2) [OF s(1)] s(2) step_panic by simp
next
  case (step_reply se reply sv)
  then have "own_reply sy (se_agent_id se) reply" by (auto simp: own_reply_def)
  then have "frame_room_id reply \<noteq> None \<longrightarrow> own_reply sy (se_agent_id se) reply" ..
  note s = secure_queue [OF assms(2) this]
  show ?thesis using secure_frame(1) [OF s(1)] s(2) step_reply by simp
next
  case (step_disconnect se ph ev)
  have "guarded (cf_no_auth cfg) (sy_server sy)" using assms(2) by (simp add: secure_def)
  note s = secure_safe [OF assms(2) safe_disconnect [OF this secure_entry [OF assms(2) step_disconnect(2)]]]
  show ?thesis using secure_frame(2) [OF s(1)] s(2) step_disconnect by simp
next
  case (step_heartbeat se ph sv uid)
  then show ?thesis using secure_heartbeat [OF assms(2), of uid se] by simp
next
  case (step_writer sv b a)
  have "guarded (cf_no_auth cfg) (sy_server sy)" using assms(2) by (simp add: secure_def)
  then show ?thesis using secure_safe [OF assms(2) safe_writer] step_writer by simp
next
  case (step_enqueue sv xs msg ys fault now uid)
  have g: "guarded (cf_no_auth cfg) (sy_server sy)" using assms(2) by (simp add: secure_def)
  have "safe_step (cf_no_auth cfg) (sy_server sy) ((sy_server sy)\<lparr>sv_spawned := xs @ ys,
      sv_store := enqueue_for_message fault now uid msg (sv_store (sy_server sy))\<rparr>)"
    using soundD(1) [OF guarded_sound [OF g]] by (intro safe_view(2) [OF g]) (simp_all add: wf_enqueue_for_message)
  then show ?thesis using secure_safe [OF assms(2)] step_enqueue by simp
next
  case (step_deliver sv net fault_load fault2 now now' uid sent s)
  have g: "guarded (cf_no_auth cfg) (sy_server sy)" using assms(2) by (simp add: secure_def)
  have "store_wf s" "access_view s = access_view (sv_store (sy_server sy))"
    using wf_worker_round [OF soundD(1) [OF guarded_sound [OF g]]] view_worker_round step_deliver by (metis snd_conv)+
  from secure_safe [OF assms(2) safe_view(1) [OF g this]] step_deliver show ?thesis by simp
next
  case (step_deadline sv vote_id u f1 vm b s)
  have g: "guarded (cf_no_auth cfg) (sy_server sy)" using assms(2) by (simp add: secure_def)
  from secure_safe [OF assms(2) good_safe [OF g good_deadline [OF guarded_sound [OF g]]]] step_deadline
  show ?thesis by simp
next
  case (step_election sv u t t' draw room_id vm b)
  have g: "guarded (cf_no_auth cfg) (sy_server sy)" using assms(2) by (simp add: secure_def)
  from secure_safe [OF assms(2) good_safe [OF g good_election [OF guarded_sound [OF g]]]] step_election
  show ?thesis by simp
next
  case (step_purge sv f1 now tier age)
  have g: "guarded (cf_no_auth cfg) (sy_server sy)" using assms(2) by (simp add: secure_def)
  have "safe_step (cf_no_auth cfg) (sy_server sy)
      ((sy_server sy)\<lparr>sv_store := snd (purge_messages_by_tier f1 now tier age (sv_store (sy_server sy)))\<rparr>)"
    using soundD(1) [OF guarded_sound [OF g]] by (intro safe_view(1) [OF g]) (simp_all add: wf_purge)
  then show ?thesis using secure_safe [OF assms(2)] step_purge by simp
next
  case (step_tick sv t)
  have g: "guarded (cf_no_auth cfg) (sy_server sy)" using assms(2) by (simp add: secure_def)
  from secure_safe [OF assms(2) safe_tick [OF g]] step_tick show ?thesis by simp
next
  case (step_signup he wc r resp sv)
  have g: "guarded (cf_no_auth cfg) (sy_server sy)" using assms(2) by (simp add: secure_def)
  from secure_safe [OF assms(2) safe_signup [OF g]] step_signup show ?thesis by simp
next
  case (step_redeem he wc r resp sv)
  have g: "guarded (cf_no_auth cfg) (sy_server sy)" using assms(2) by (simp add: secure_def)
  from secure_safe [OF assms(2) safe_redeem [OF g]] step_redeem show ?thesis by simp
qed

lemma secure_start:
  assumes "store_wf s"
  shows "secure cfg \<lparr>sy_server = server_new fault fb fe s, sy_sessions = []\<rparr>"
proof -
  have "get_room_members r broker_new = []" for r by (simp add: broker_new_def get_room_members_def)
  moreover have "key_of broker_new a = None" "stash_key reconnect_new a = None" for a
    by (simp_all add: broker_new_def reconnect_new_def key_of_def stash_key_def)
  ultimately show ?thesis
    using assms by (simp add: secure_def guarded_def sound_def authorized_def keyed_def matching_def server_new_def
        reconnect_new_def)
qed

lemma reachable_secure:
  assumes "reachable cfg keyless sy" "uniform cfg keyless"
  shows "secure cfg sy"
  using assms
proof (induction rule: reachable.induct)
  case (reachable_start s fault fb fe)
  then show ?case by (simp add: secure_start)
next
  case (reachable_step sy sy')
  with secure_step show ?case by blast
qed

subsection \<open>What holds in every reachable state\<close>

lemma reachable_sound:
  assumes "reachable cfg keyless sy" "uniform cfg keyless"
  shows "sound (cf_no_auth cfg) (sy_server sy)"
  using reachable_secure [OF assms] guarded_sound by (auto simp: secure_def)


lemma demo_uniform: "uniform demo_cfg False"
  by (simp add: uniform_def)





subsection \<open>Mixed connections\<close>

lemma join_keeps:
  "agents (snd (join_room now a r ex b)) = agents b"
  "x \<in> set (get_room_members q b) \<Longrightarrow> x \<in> set (get_room_members q (snd (join_room now a r ex b)))"
  by (auto simp: join_room_def Let_def get_room_members_def split: option.splits)

lemma restore_keeps:
  assumes "restore_rooms ev fault a name key na s xs b = (rs, b')"
  shows "key_of b' y = key_of b y \<and> (x \<in> set (get_room_members q b) \<longrightarrow> x \<in> set (get_room_members q b'))"
  using assms
proof (induction xs arbitrary: b rs b')
  case (Cons jr xs)
  obtain j r where jr: "jr = (j, r)" by force
  obtain out b1 where j: "rejoin ev fault a key na s (j, r) b = (out, b1)" by force
  then have "b1 = snd (join_room (ev_instant ev (2 + j)) a r (accessible_room (fault j) r key na s \<noteq> None) b)"
    by (simp add: rejoin_def)
  then have b1: "agents b1 = agents b" "x \<in> set (get_room_members q b) \<Longrightarrow> x \<in> set (get_room_members q b1)"
    by (simp_all add: join_keeps)
  then have k1: "key_of b1 y = key_of b y" by (simp add: key_of_def)
  show ?case
  proof (cases out)
    case None
    with Cons.prems have "restore_rooms ev fault a name key na s xs b1 = (rs, b')" by (simp add: jr j)
    from Cons.IH [OF this] b1 k1 show ?thesis by simp
  next
    case (Some h)
    let ?f = "rejoined_event (ev_uid ev (4 + j)) r a name"
    let ?b2 = "broadcast_to_room r a ?f b1"
    obtain rs2 where rs2: "restore_rooms ev fault a name key na s xs ?b2 = (rs2, b')"
      using Cons.prems Some by (auto simp: jr j Let_def split: prod.splits)
    have "posts b1 ?b2" by (rule posts_broadcast(1)) (simp_all add: rejoined_event_def)
    then have "key_of ?b2 y = key_of b1 y" by (simp add: posts_def delivers_def)
    moreover have "get_room_members q ?b2 = get_room_members q b1" by (rule members_cong) simp
    ultimately show ?thesis using Cons.IH [OF rs2] b1 k1 by simp
  qed
qed simp

text \<open>C40. The uniformity is needed: with keyless connections beside keyed ones, a keyless client that
  left a stash under an identifier reclaims it while that identifier is connected under a key. It gets
  the entry, and with it the memberships of the keyed agent in rooms that it may not access.\<close>

theorem keyless_reclaim_inherits_rooms:
  assumes "\<not> cf_no_auth cfg" "rp_key p = []" "rp_agent_id p = Some a" "rp_reconnect p"
    and "rp_protocol_version p = Some PROTOCOL_VERSION"
    and "map_of (stashed (sv_reconnect sv)) a = Some st" "sa_api_key st = []" "sa_reclaim_token st = None"
      "ev_instant ev 1 - sa_disconnected_at st < RECONNECT_WINDOW"
    and "key_of (sv_broker sv) a = Some k" "a \<in> set (get_room_members r (sv_broker sv))"
    and "\<not> allowed False (sv_store sv) [] r"
  shows "\<exists>se fs lease sv'. register cfg True server_key ev af req (Some p) sv = (Inr (se, fs, lease), sv')
    \<and> se_agent_id se = a \<and> key_of (sv_broker sv') a = Some [] \<and> a \<in> set (get_room_members r (sv_broker sv'))
    \<and> \<not> allowed False (sv_store sv') [] r"
proof -
  have chk: "register_checks cfg True server_key ev (Some p) sv = (Inr (p, a), sv\<lparr>sv_limits := sv_limits sv\<rparr>)"
    using assms(1-5) by (simp add: register_checks_def Let_def authenticated_def PROTOCOL_VERSION_def MIN_SUPPORTED_PROTOCOL_def)
  let ?l = "\<lparr>rl_agent_id = a, rl_token = ev_uid ev 2\<rparr>"
  let ?rm = "(sv_reconnect sv)\<lparr>stashed := dm_insert a (st\<lparr>sa_reclaim_token := Some (ev_uid ev 2)\<rparr>) (stashed (sv_reconnect sv))\<rparr>"
  have "begin_reclaim (ev_instant ev 1) (ev_uid ev 2) a [] False (sv_reconnect sv) = (Inr (Some ?l), ?rm)"
    using assms(6-9) by (simp add: begin_reclaim_def)
  moreover have "lease_snapshot ?l ?rm = Some (st\<lparr>sa_reclaim_token := Some (ev_uid ev 2)\<rparr>)"
    by (simp add: lease_snapshot_def)
  ultimately obtain rooms where cl: "register_claim cfg ev af p a (sv\<lparr>sv_limits := sv_limits sv\<rparr>)
      = (Inr \<lparr>cl_rooms = Some rooms, cl_takeover = None, cl_lease = Some ?l\<rparr>, sv\<lparr>sv_reconnect := ?rm\<rparr>)"
    using assms(1,2,4) by (simp add: register_claim_def)
  let ?s = "snd (record_session_start (ev_fault ev 3) (ev_utc ev 0) (ev_uid ev 3) a (rp_name p) (rp_capabilities p) (sv_store sv))"
  let ?b = "(sv_broker sv)\<lparr>agents := dm_insert a (new_connection ev p a (ev_uid ev 3)) (agents (sv_broker sv))\<rparr>"
  obtain rs b' where r: "restore_rooms ev (af 3) a (rp_name p) [] False ?s (enumerate 0 rooms) ?b = (rs, b')" by force
  have "\<exists>se fs lease sv'. register cfg True server_key ev af req (Some p) sv = (Inr (se, fs, lease), sv')
    \<and> se_agent_id se = a \<and> sv_broker sv' = b' \<and> sv_store sv' = ?s"
    by (unfold register_def chk cl prod.case sum.case Let_def install_def) (simp add: assms(1,2) r)
  moreover have "access_view ?s = access_view (sv_store sv)" by simp
  then have "\<not> allowed False ?s [] r" using assms(12) allowed_view by blast
  moreover have "key_of b' a = Some []" "a \<in> set (get_room_members r b')"
    using restore_keeps [OF r, of a a r] assms(2,11) by (auto simp: key_of_def new_connection_def get_room_members_def)
  ultimately show ?thesis by metis
qed

definition demo_stash :: stashed_agent where
  "demo_stash = \<lparr>sa_agent_id = ''x'', sa_name = ''Eve'', sa_api_key = [],
       sa_rooms = [''lobby''], sa_missed_messages = [], sa_disconnected_at = 0, sa_reclaim_token = None\<rparr>"

definition demo_mixed :: server where
  "demo_mixed = (sy_server demo_start)\<lparr>
     sv_broker := broker_new\<lparr>agents := [(''x'', new_connection (demo_env ''u'') demo_payload ''x'' ''s1'')],
       room_members := [(''r1'', [''x''])], turn_holders := [(''r1'', ''x'')]\<rparr>,
     sv_reconnect := reconnect_new\<lparr>stashed := [(''x'', demo_stash)]\<rparr>\<rparr>"

theorem keyless_reclaim_inherits_rooms_witness:
  "\<exists>se fs lease sv'. register demo_cfg True ''k1'' (demo_env ''w'') (\<lambda>_ _. False) None
      (Some (demo_payload\<lparr>rp_key := [], rp_agent_id := Some ''x'', rp_reconnect := True\<rparr>)) demo_mixed
      = (Inr (se, fs, lease), sv') \<and> se_agent_id se = ''x'' \<and> key_of (sv_broker sv') ''x'' = Some []
    \<and> ''x'' \<in> set (get_room_members ''r1'' (sv_broker sv')) \<and> \<not> allowed False (sv_store sv') [] ''r1''"
  by (rule keyless_reclaim_inherits_rooms [where k = "''k1''" and st = demo_stash])
    (simp_all add: demo_cfg_def demo_payload_def demo_mixed_def demo_env_def demo_stash_def reconnect_new_def RECONNECT_WINDOW_def
      key_of_def new_connection_def get_room_members_def demo_start_def server_new_def allowed_def can_access_room_def
      can_access_room_parts_def matches_room_owner_def key_has_grant_def)


end
