(* ===== verification/Framing.thy ===== *)
theory Framing
  imports Crypto
begin

text \<open>
  Lines on the wire: \<open>read_frame_line\<close>, which \<open>server.rs\<close> and the client's \<open>connection.rs\<close> hold in the same
  words. A stream is the list of the bytes that are still to come before the end of file; the reader
  returns a line with its newline, nothing at the end of file, or an error, and the rest of the
  stream. An error of the transport is the argument \<open>fault\<close>.
\<close>

definition MAX_FRAME_BYTES :: nat where
  "MAX_FRAME_BYTES = 1024 * 1024"

datatype io_error = TransportFailed | InvalidData

definition newline :: char where
  "newline = CHR 0x0A"

text \<open>\<open>AsyncBufReadExt::read_until\<close>: up to and with the first newline, or all there is.\<close>

fun read_until :: "char \<Rightarrow> string \<Rightarrow> string" where
  "read_until d [] = []"
| "read_until d (c # cs) = (if c = d then [c] else c # read_until d cs)"

definition read_frame_line :: "bool \<Rightarrow> string \<Rightarrow> (io_error + string option) \<times> string" where
  "read_frame_line fault stream =
     (if fault then (Inl TransportFailed, stream)
      else
        let bytes = read_until newline (take (MAX_FRAME_BYTES + 1) stream);
            rest = drop (length bytes) stream
        in if bytes = [] then (Inr None, rest)
           else if MAX_FRAME_BYTES < length bytes then (Inl InvalidData, rest)
           else if utf8_valid bytes then (Inr (Some bytes), rest)
           else (Inl InvalidData, rest))"

definition client_read_frame_line :: "bool \<Rightarrow> string \<Rightarrow> (io_error + string option) \<times> string" where
  "client_read_frame_line fault stream = read_frame_line fault stream"

lemma read_until_prefix: "read_until d s = take (length (read_until d s)) s"
  by (induction s) auto

lemma length_read_until: "length (read_until d s) \<le> length s"
  by (induction s) auto

lemma read_until_empty [simp]: "read_until d s = [] \<longleftrightarrow> s = []"
  by (cases s) auto

lemma read_until_line: "d \<notin> set l \<Longrightarrow> read_until d (l @ d # s) = l @ [d]"
  by (induction l) auto

lemma read_until_no_delim: "d \<notin> set l \<Longrightarrow> read_until d l = l"
  by (induction l) auto

lemma read_frame_line_shorter:
  "read_frame_line fault stream = (Inr (Some line), rest) \<Longrightarrow> length rest < length stream"
  by (cases stream) (auto simp: read_frame_line_def Let_def split: if_splits)

text \<open>The lines a reading task takes from a stream until the end of file or an error, in order; the flag
  tells a clean end.\<close>

function read_lines :: "string \<Rightarrow> string list \<times> bool" where
  "read_lines stream =
     (case read_frame_line False stream of
        (Inl _, _) \<Rightarrow> ([], False)
      | (Inr None, _) \<Rightarrow> ([], True)
      | (Inr (Some line), rest) \<Rightarrow> (let (ls, clean) = read_lines rest in (line # ls, clean)))"
  by pat_completeness auto
termination
  by (relation "measure length") (auto dest: read_frame_line_shorter [OF sym])

declare read_lines.simps [simp del]

text \<open>A line that fits: its last byte and only its last byte is a newline.\<close>

definition line_ok :: "string \<Rightarrow> bool" where
  "line_ok l \<longleftrightarrow> (\<exists>b. l = b @ [newline] \<and> newline \<notin> set b) \<and> length l \<le> MAX_FRAME_BYTES \<and> utf8_valid l"

lemma read_frame_line_ok:
  assumes "line_ok l"
  shows "read_frame_line False (l @ stream) = (Inr (Some l), stream)"
proof -
  from assms obtain b where b: "l = b @ [newline]" "newline \<notin> set b"
    and l: "length l \<le> MAX_FRAME_BYTES" "utf8_valid l" by (auto simp: line_ok_def)
  let ?n = "MAX_FRAME_BYTES + 1 - length l"
  have "take (MAX_FRAME_BYTES + 1) (l @ stream) = b @ newline # take ?n stream"
    using b(1) l(1) by (simp add: Suc_diff_le)
  then have "read_until newline (take (MAX_FRAME_BYTES + 1) (l @ stream)) = l"
    using read_until_line [OF b(2)] b(1) by metis
  with b(1) l show ?thesis by (simp add: read_frame_line_def)
qed

lemma read_lines_ok: "list_all line_ok ls \<Longrightarrow> read_lines (concat ls @ stream) = apfst ((@) ls) (read_lines stream)"
proof (induction ls)
  case (Cons l ls)
  then have "read_frame_line False (concat (l # ls) @ stream) = (Inr (Some l), concat ls @ stream)"
    by (simp add: read_frame_line_ok)
  with Cons show ?case
    by (subst read_lines.simps) (simp add: case_prod_unfold apfst_def map_prod_def)
qed (simp add: apfst_def map_prod_def)

lemma read_lines_end [simp]: "read_lines [] = ([], True)"
  by (subst read_lines.simps) (simp add: read_frame_line_def)

lemma read_frame_line_oversized:
  assumes "newline \<notin> set (take MAX_FRAME_BYTES stream)" "MAX_FRAME_BYTES < length stream"
  shows "fst (read_frame_line False stream) = Inl InvalidData"
proof -
  let ?h = "take MAX_FRAME_BYTES stream"
  have "take (MAX_FRAME_BYTES + 1) stream = ?h @ [stream ! MAX_FRAME_BYTES]"
    using assms(2) by (simp add: take_Suc_conv_app_nth)
  moreover have "read_until newline (?h @ [c]) = ?h @ [c]" for c
  proof (cases "c = newline")
    case True
    then show ?thesis using read_until_line [OF assms(1), of "[]"] by simp
  qed (simp add: read_until_no_delim assms(1))
  ultimately have "read_until newline (take (MAX_FRAME_BYTES + 1) stream) = ?h @ [stream ! MAX_FRAME_BYTES]"
    by simp
  with assms(2) show ?thesis by (simp add: read_frame_line_def)
qed

text \<open>A line over the cap ends the reading, whatever follows it.\<close>

lemma read_lines_oversized:
  assumes "newline \<notin> set (take MAX_FRAME_BYTES stream)" "MAX_FRAME_BYTES < length stream"
  shows "read_lines stream = ([], False)"
proof -
  obtain rest where "read_frame_line False stream = (Inl InvalidData, rest)"
    using read_frame_line_oversized [OF assms] by (metis prod.collapse)
  then show ?thesis by (subst read_lines.simps) simp
qed

text \<open>Framing is faithful: lines that fit in the cap are read back one by one exactly as they were
  written, and the first line over the cap ends the reading with an error, so that nothing behind it is
  ever taken for a frame.\<close>

lemma lines_roundtrip:
  assumes "list_all line_ok ls"
  shows "read_lines (concat ls) = (ls, True)
    \<and> (newline \<notin> set (take MAX_FRAME_BYTES over) \<and> MAX_FRAME_BYTES < length over \<longrightarrow>
        read_lines (concat ls @ over) = (ls, False))"
  using read_lines_ok [OF assms, of "[]"] read_lines_ok [OF assms, of over] read_lines_oversized [of over]
  by (auto simp: apfst_def map_prod_def)

lemma lines_roundtrip_witness:
  "read_lines (concat [''a'' @ [newline], [newline]]) = ([''a'' @ [newline], [newline]], True)"
proof -
  have "line_ok (''a'' @ [newline])" "line_ok [newline]"
    by (auto simp: line_ok_def newline_def MAX_FRAME_BYTES_def byte_def intro!: utf8_valid_ascii simp del: utf8_valid.simps)
  then show ?thesis using lines_roundtrip [of "[''a'' @ [newline], [newline]]" "[]"] by simp
qed

end
