(* ===== verification/Client.thy ===== *)
theory Client
  imports Framing Core_Models
begin

text \<open>
  The client library (\<open>connection.rs\<close> of \<open>cowchat-client\<close>): the reader task that answers heartbeats, hands
  responses to the pending requests and everything else to the event subscribers; requests; message
  encryption; and waiting for a message. The writer task is a channel of frames; the transports
  (sockets, TLS, WebSocket) and the clock are not modelled. A frame is taken as decoded: an undecodable
  line is skipped by the reader.
\<close>

subsection \<open>Connections\<close>

datatype client_error =
    ClientIo | ClientJson | ServerError error_code | ConnectionClosed | TimedOut | ChannelError | WsError

text \<open>The reader reads; then it has dropped the event sender; then it has emptied the map of pending
  requests.\<close>

datatype reader_phase = Reading | EventsClosed | ReaderDone

record client =
  cl_phase :: reader_phase
  cl_writer_open :: bool
  cl_pending :: "string list"
  cl_answers :: "(string, frame) dashmap"
  cl_sent :: "frame list"
  cl_events :: "frame list"

definition client_new :: client where
  "client_new = \<lparr>cl_phase = Reading, cl_writer_open = True, cl_pending = [], cl_answers = [], cl_sent = [], cl_events = []\<rparr>"

text \<open>One frame in the reader task. \<open>uid\<close> is the identifier of a pong.\<close>

definition reader_frame :: "string \<Rightarrow> frame \<Rightarrow> client \<Rightarrow> client" where
  "reader_frame uid f cl =
     (if f_type f = Ping
      then (if cl_writer_open cl then cl\<lparr>cl_sent := cl_sent cl @ [frame_pong uid (f_id f)]\<rparr> else cl)
      else case f_reply_to f of
        Some reply_to \<Rightarrow>
          if reply_to \<in> set (cl_pending cl)
          then cl\<lparr>cl_pending := removeAll reply_to (cl_pending cl), cl_answers := dm_insert reply_to f (cl_answers cl)\<rparr>
          else cl\<lparr>cl_events := cl_events cl @ [f]\<rparr>
      | None \<Rightarrow> cl\<lparr>cl_events := cl_events cl @ [f]\<rparr>)"

definition close_events :: "client \<Rightarrow> client" where
  "close_events cl = cl\<lparr>cl_phase := EventsClosed\<rparr>"

definition clear_pending :: "client \<Rightarrow> client" where
  "clear_pending cl = cl\<lparr>cl_phase := ReaderDone, cl_pending := []\<rparr>"

text \<open>\<open>request\<close>, in its steps: registration under the pending lock, which fails when the event sender is
  gone; the frame into the writer's channel; giving up; and the look at the oneshot channel, which is
  answered, still pending, or dropped by the reader.\<close>

definition request_begin :: "string \<Rightarrow> client \<Rightarrow> client_error + client" where
  "request_begin req_id cl =
     (if cl_phase cl \<noteq> Reading then Inl ConnectionClosed
      else Inr (cl\<lparr>cl_pending := req_id # removeAll req_id (cl_pending cl)\<rparr>))"

definition request_give_up :: "string \<Rightarrow> client \<Rightarrow> client" where
  "request_give_up req_id cl = cl\<lparr>cl_pending := removeAll req_id (cl_pending cl)\<rparr>"

definition request_send :: "frame \<Rightarrow> string \<Rightarrow> client \<Rightarrow> client_error option \<times> client" where
  "request_send f req_id cl =
     (if cl_writer_open cl then (None, cl\<lparr>cl_sent := cl_sent cl @ [f]\<rparr>)
      else (Some ChannelError, request_give_up req_id cl))"

definition error_code_of_str :: "string \<Rightarrow> error_code option" where
  "error_code_of_str s = find (\<lambda>c. error_code_str c = s)
     [NotRegistered, RoomNotFound, NotInRoom, AlreadyInRoom, InvalidPayload, AgentIdTaken, InternalError,
      RoomNameTaken, Unauthorized, VoteNotFound, VoteClosed, AlreadyVoted, InvalidOption, NotLeader,
      ElectionInProgress, NoElectionActive, RateLimitAgents, RateLimitMessages, RateLimitRooms, MessageTooLarge,
      UnsupportedProtocol, AccessDenied, TaskNotFound, InviteNotFound, PlaintextInEncryptedRoom]"

definition finish_response :: "frame \<Rightarrow> client_error + frame" where
  "finish_response f =
     (if f_type f = Error
      then Inl (ServerError (case Option.bind (json_get_str ''code'' (f_payload f)) error_code_of_str of
                  Some code \<Rightarrow> code | None \<Rightarrow> InternalError))
      else Inr f)"

definition request_poll :: "string \<Rightarrow> client \<Rightarrow> (client_error + frame) option" where
  "request_poll req_id cl =
     (case map_of (cl_answers cl) req_id of
        Some f \<Rightarrow> Some (finish_response f)
      | None \<Rightarrow> if req_id \<in> set (cl_pending cl) then None else Some (Inl ConnectionClosed))"

text \<open>\<open>finish_register\<close>: the register frame, and what the response makes of the identity.\<close>

record client_id =
  ci_agent_id :: string
  ci_agent_name :: string
  ci_stable :: bool
  ci_room_secret :: "string option"

definition register_frame :: "string \<Rightarrow> string \<Rightarrow> string \<Rightarrow> string option \<Rightarrow> string list \<Rightarrow> frame" where
  "register_frame uid key name agent_id capabilities =
     \<lparr>f_id = Some uid, f_reply_to = None, f_type = Register,
      f_payload = JObj [(''key'', JStr key), (''agent_id'', json_opt JStr agent_id), (''name'', JStr name),
        (''capabilities'', json_strs capabilities), (''reconnect'', JBool (agent_id \<noteq> None)),
        (''protocol_version'', JInt (int PROTOCOL_VERSION))]\<rparr>"

definition finish_register :: "string \<Rightarrow> string option \<Rightarrow> frame \<Rightarrow> client_error + client_id" where
  "finish_register name agent_id response =
     (case finish_response response of
        Inl e \<Rightarrow> Inl e
      | Inr f \<Rightarrow> Inr \<lparr>ci_agent_id = (case json_get_str ''agent_id'' (f_payload f) of Some a \<Rightarrow> a | None \<Rightarrow> ''unknown''),
                     ci_agent_name = name, ci_stable = (agent_id \<noteq> None), ci_room_secret = None\<rparr>)"

definition set_room_secret :: "string \<Rightarrow> client_id \<Rightarrow> client_id" where
  "set_room_secret secret me = me\<lparr>ci_room_secret := Some secret\<rparr>"

subsection \<open>Contents\<close>

definition encrypt_content :: "aead_lib \<Rightarrow> string \<Rightarrow> client_id \<Rightarrow> string \<Rightarrow> string \<Rightarrow> string" where
  "encrypt_content lib nonce me room_id content =
     (case ci_room_secret me of Some secret \<Rightarrow> encrypt lib nonce secret room_id content | None \<Rightarrow> content)"

definition decrypt_message :: "aead_lib \<Rightarrow> client_id \<Rightarrow> chat_message \<Rightarrow> chat_message" where
  "decrypt_message lib me m =
     (case ci_room_secret me of
        None \<Rightarrow> m
      | Some secret \<Rightarrow>
          if is_ciphertext (cm_content m)
          then (case decrypt lib secret (cm_room_id m) (cm_content m) of Inr plain \<Rightarrow> m\<lparr>cm_content := plain\<rparr> | Inl _ \<Rightarrow> m)
          else m)"

definition is_self_message :: "client_id \<Rightarrow> chat_message \<Rightarrow> bool" where
  "is_self_message me m \<longleftrightarrow>
     cm_agent_id m = ci_agent_id me \<or> (\<not> ci_stable me \<and> cm_agent_name m = ci_agent_name me)"

abbreviation meta_type :: "chat_message \<Rightarrow> string option" where
  "meta_type m \<equiv> json_get_str ''type'' (cm_metadata m)"

subsection \<open>Waiting\<close>

text \<open>What a subscriber's channel yields. The channel keeps the last 256 events: a receiver that is
  further behind is told how many it lost and goes on at the oldest that is kept.\<close>

datatype received = Deadline | Pushed frame | Lagged nat | RecvClosed

definition EVENT_CAPACITY :: nat where
  "EVENT_CAPACITY = 256"

definition recv_event :: "nat \<Rightarrow> client \<Rightarrow> (received \<times> nat) option" where
  "recv_event pos cl =
     (let n = length (cl_events cl) in
      if EVENT_CAPACITY < n - pos then Some (Lagged (n - EVENT_CAPACITY - pos), n - EVENT_CAPACITY)
      else if pos < n then Some (Pushed (cl_events cl ! pos), pos + 1)
      else if cl_phase cl = Reading then None
      else Some (RecvClosed, pos))"

text \<open>One page of backlog: the cursor, whether it moved, and the message that ends the wait.\<close>

fun scan_page :: "client_id \<Rightarrow> int \<Rightarrow> int \<Rightarrow> bool \<Rightarrow> chat_message list \<Rightarrow> int \<times> bool \<times> chat_message option" where
  "scan_page me tip scanned advanced [] = (scanned, advanced, None)"
| "scan_page me tip scanned advanced (m # ms) =
     (if tip < cm_seq m then (scanned, advanced, None)
      else if cm_seq m \<le> scanned then scan_page me tip scanned advanced ms
      else if meta_type m \<noteq> Some ''thinking'' \<and> meta_type m \<noteq> Some ''system'' \<and> \<not> is_self_message me m
      then (cm_seq m, True, Some m)
      else scan_page me tip (cm_seq m) True ms)"

lemma scan_page_mono: "scanned \<le> fst (scan_page me tip scanned advanced ms)"
proof (induction ms arbitrary: scanned advanced)
  case (Cons m ms)
  show ?case
  proof (cases "cm_seq m \<le> scanned")
    case False
    then have "scanned \<le> fst (scan_page me tip (cm_seq m) True ms)"
      using Cons.IH [of "cm_seq m" True] by linarith
    with False show ?thesis by simp
  qed (simp add: Cons.IH)
qed simp

lemma scan_page_advanced:
  "scan_page me tip scanned False ms = (scanned', True, r) \<Longrightarrow> scanned < scanned'"
proof (induction ms)
  case (Cons m ms)
  show ?case
  proof (cases "cm_seq m \<le> scanned")
    case False
    then show ?thesis
      using Cons.prems scan_page_mono [of "cm_seq m" me tip True ms] by (auto split: if_splits)
  qed (use Cons in \<open>auto split: if_splits\<close>)
qed simp

text \<open>The backlog: \<open>page k c\<close> is what the \<open>k\<close>-th history request, with cursor \<open>c\<close> and limit 32, comes back
  with. Nothing is assumed of it.\<close>

function wait_backlog ::
    "client_id \<Rightarrow> (nat \<Rightarrow> int \<Rightarrow> client_error + chat_message list) \<Rightarrow> int \<Rightarrow> nat \<Rightarrow> int
     \<Rightarrow> client_error + chat_message option" where
  "wait_backlog me page tip k scanned =
     (if scanned < tip then
        case page k scanned of
          Inl e \<Rightarrow> Inl e
        | Inr backlog \<Rightarrow>
            (case scan_page me tip scanned False backlog of
               (_, _, Some m) \<Rightarrow> Inr (Some m)
             | (scanned', advanced, None) \<Rightarrow>
                 if advanced then wait_backlog me page tip (k + 1) scanned' else Inr None)
      else Inr None)"
  by pat_completeness auto
termination
  by (relation "measure (\<lambda>(me, page, tip, k, scanned). nat (tip - scanned))")
     (auto dest!: scan_page_advanced [OF sym])

declare wait_backlog.simps [simp del]

text \<open>The live part: what the \<open>select!\<close> of the deadline and the event channel yields, in order. No result
  means that the wait still blocks. \<open>decode\<close> is \<open>serde_json::from_value\<close>.\<close>

fun wait_live ::
    "aead_lib \<Rightarrow> (json \<Rightarrow> chat_message option) \<Rightarrow> client_id \<Rightarrow> string \<Rightarrow> received list
     \<Rightarrow> (client_error + chat_message option) option" where
  "wait_live lib decode me room_id [] = None"
| "wait_live lib decode me room_id (Deadline # es) = Some (Inr None)"
| "wait_live lib decode me room_id (RecvClosed # es) = Some (Inl ConnectionClosed)"
| "wait_live lib decode me room_id (Lagged n # es) = wait_live lib decode me room_id es"
| "wait_live lib decode me room_id (Pushed f # es) =
     (if f_type f = MessageReceived \<and> json_get_str ''room_id'' (f_payload f) = Some room_id then
        case decode (f_payload f) of
          None \<Rightarrow> Some (Inl ClientJson)
        | Some m \<Rightarrow>
            if meta_type m = Some ''system'' \<or> is_self_message me m then wait_live lib decode me room_id es
            else Some (Inr (Some (decrypt_message lib me m)))
      else wait_live lib decode me room_id es)"

definition wait_for_message ::
    "aead_lib \<Rightarrow> (json \<Rightarrow> chat_message option) \<Rightarrow> client_id \<Rightarrow> string \<Rightarrow> int option
     \<Rightarrow> client_error + int \<Rightarrow> (nat \<Rightarrow> int \<Rightarrow> client_error + chat_message list) \<Rightarrow> received list
     \<Rightarrow> (client_error + chat_message option) option" where
  "wait_for_message lib decode me room_id since_seq tip page events =
     (case since_seq of
        None \<Rightarrow> wait_live lib decode me room_id events
      | Some seq \<Rightarrow>
          (case tip of
             Inl e \<Rightarrow> Some (Inl e)
           | Inr backlog_tip \<Rightarrow>
               (case wait_backlog me page backlog_tip 0 seq of
                  Inl e \<Rightarrow> Some (Inl e)
                | Inr (Some m) \<Rightarrow> Some (Inr (Some m))
                | Inr None \<Rightarrow> wait_live lib decode me room_id events)))"

text \<open>\<open>wait_for_message_loop\<close>: the answers of the rounds, each with its own responses and events.\<close>

record wait_round =
  wr_tip :: "client_error + int"
  wr_page :: "nat \<Rightarrow> int \<Rightarrow> client_error + chat_message list"
  wr_events :: "received list"

fun wait_for_message_loop ::
    "aead_lib \<Rightarrow> (json \<Rightarrow> chat_message option) \<Rightarrow> client_id \<Rightarrow> string \<Rightarrow> int option \<Rightarrow> wait_round list
     \<Rightarrow> (client_error + chat_message) option" where
  "wait_for_message_loop lib decode me room_id since_seq [] = None"
| "wait_for_message_loop lib decode me room_id since_seq (w # ws) =
     (case wait_for_message lib decode me room_id since_seq (wr_tip w) (wr_page w) (wr_events w) of
        None \<Rightarrow> None
      | Some (Inl e) \<Rightarrow> Some (Inl e)
      | Some (Inr (Some m)) \<Rightarrow> Some (Inr m)
      | Some (Inr None) \<Rightarrow> wait_for_message_loop lib decode me room_id since_seq ws)"

end
