(* ===== verification/Serde.thy ===== *)
theory Serde
  imports Core_Models "HOL-Library.Monad_Syntax"
begin

text \<open>
  What serde's derived \<open>Deserialize\<close> makes of the fields of a JSON object: a missing or null \<open>Option\<close> is
  \<open>None\<close>, a missing field with a default is the default, a wrong type or a number out of the field's range
  is an error (no result), other fields are ignored. The array form of a struct, which serde accepts as
  well, is not modelled.
\<close>

definition I64_MIN :: int where
  "I64_MIN = - 9223372036854775808"

definition I64_MAX :: int where
  "I64_MAX = 9223372036854775807"

definition in_i64 :: "int \<Rightarrow> int option" where
  "in_i64 i = (if I64_MIN \<le> i \<and> i \<le> I64_MAX then Some i else None)"

fun json_i64 :: "json \<Rightarrow> int option" where
  "json_i64 (JInt i) = in_i64 i"
| "json_i64 _ = None"

text \<open>An unsigned number of \<open>w\<close> bits.\<close>

fun json_uint :: "nat \<Rightarrow> json \<Rightarrow> nat option" where
  "json_uint w (JInt i) = (if 0 \<le> i \<and> i < 2 ^ w then Some (nat i) else None)"
| "json_uint w _ = None"

fun json_bool :: "json \<Rightarrow> bool option" where
  "json_bool (JBool b) = Some b"
| "json_bool _ = None"

fun all_some :: "'a option list \<Rightarrow> 'a list option" where
  "all_some [] = Some []"
| "all_some (None # xs) = None"
| "all_some (Some x # xs) = map_option (Cons x) (all_some xs)"

fun json_list :: "(json \<Rightarrow> 'a option) \<Rightarrow> json \<Rightarrow> 'a list option" where
  "json_list dec (JArr xs) = all_some (map dec xs)"
| "json_list dec _ = None"

fun json_instant :: "(string \<Rightarrow> int option) \<Rightarrow> json \<Rightarrow> int option" where
  "json_instant rfc3339 (JTime t) = Some t"
| "json_instant rfc3339 (JStr s) = rfc3339 s"
| "json_instant rfc3339 _ = None"

definition field :: "(json \<Rightarrow> 'a option) \<Rightarrow> string \<Rightarrow> json \<Rightarrow> 'a option" where
  "field dec k v = Option.bind (json_get k v) dec"

definition field_or :: "'a \<Rightarrow> (json \<Rightarrow> 'a option) \<Rightarrow> string \<Rightarrow> json \<Rightarrow> 'a option" where
  "field_or dflt dec k v = (case json_get k v of None \<Rightarrow> Some dflt | Some x \<Rightarrow> dec x)"

definition opt_of :: "(json \<Rightarrow> 'a option) \<Rightarrow> string \<Rightarrow> json \<Rightarrow> 'a option option" where
  "opt_of dec k v =
     (case json_get k v of
        None \<Rightarrow> Some None
      | Some x \<Rightarrow> if x = JNull then Some None else map_option Some (dec x))"

lemma all_some_map: "(\<And>x. x \<in> set xs \<Longrightarrow> f x = Some (g x)) \<Longrightarrow> all_some (map f xs) = Some (map g xs)"
  by (induction xs) auto

lemma all_some_strs [simp]: "all_some (map (json_str \<circ> JStr) xs) = Some xs"
  by (simp add: all_some_map [where g = "\<lambda>x. x"])

end
