(* ===== verification/Payloads.thy ===== *)
theory Payloads
  imports Serde
begin

text \<open>
  The JSON of the command payloads (\<open>models.rs\<close>): what the derived \<open>Serialize\<close> writes and the derived
  \<open>Deserialize\<close> reads, and that reading gives back what was written. A number of a Rust type is in that
  type's range; \<open>rfc3339\<close> is chrono's reading of an instant.
\<close>

definition in_range_seq :: "int option \<Rightarrow> bool" where
  "in_range_seq s \<longleftrightarrow> (case s of None \<Rightarrow> True | Some i \<Rightarrow> I64_MIN \<le> i \<and> i \<le> I64_MAX)"

definition fits :: "nat \<Rightarrow> nat option \<Rightarrow> bool" where
  "fits w x \<longleftrightarrow> (case x of Some n \<Rightarrow> n < 2 ^ w | None \<Rightarrow> True)"

text \<open>A payload with one string, under its name; \<open>list_rooms\<close>, \<open>list_agents\<close> and \<open>list_subscriptions\<close> have one
  optional string.\<close>

definition single_to_json :: "string \<Rightarrow> string \<Rightarrow> json" where
  "single_to_json k s = JObj [(k, JStr s)]"

definition single_of_json :: "string \<Rightarrow> json \<Rightarrow> string option" where
  "single_of_json k v = field json_str k v"

definition maybe_to_json :: "string \<Rightarrow> string option \<Rightarrow> json" where
  "maybe_to_json k s = JObj (opt_field k JStr s)"

definition maybe_of_json :: "string \<Rightarrow> json \<Rightarrow> string option option" where
  "maybe_of_json k v = opt_of json_str k v"

lemmas serde_defs = field_def field_or_def opt_of_def opt_field_def in_range_seq_def in_i64_def fits_def

lemma single_roundtrip [simp]: "single_of_json k (single_to_json k s) = Some s"
  by (simp add: single_of_json_def single_to_json_def serde_defs)

lemma maybe_roundtrip [simp]: "maybe_of_json k (maybe_to_json k s) = Some s"
  by (cases s) (simp_all add: maybe_of_json_def maybe_to_json_def serde_defs)

lemma maybe_null_roundtrip [simp]: "maybe_of_json k (JObj [(k, json_opt JStr s)]) = Some s"
  by (cases s) (simp_all add: maybe_of_json_def json_opt_def serde_defs)

subsection \<open>\<open>CreateRoomPayload\<close>\<close>

definition create_room_to_json :: "create_room_payload \<Rightarrow> json" where
  "create_room_to_json p = JObj
     ([(''name'', JStr (cr_name p))]
      @ opt_field ''description'' JStr (cr_description p)
      @ opt_field ''parent_id'' JStr (cr_parent_id p)
      @ [(''public'', JBool (cr_public p)), (''encrypted'', JBool (cr_encrypted p))])"

definition create_room_of_json :: "json \<Rightarrow> create_room_payload option" where
  "create_room_of_json v = do {
     x_name \<leftarrow> field json_str ''name'' v;
     x_description \<leftarrow> opt_of json_str ''description'' v;
     x_parent_id \<leftarrow> opt_of json_str ''parent_id'' v;
     x_public \<leftarrow> field_or False json_bool ''public'' v;
     x_encrypted \<leftarrow> field_or False json_bool ''encrypted'' v;
     Some \<lparr>cr_name = x_name, cr_description = x_description, cr_parent_id = x_parent_id, cr_public = x_public, cr_encrypted = x_encrypted\<rparr> }"

lemma create_room_roundtrip [simp]:
  "create_room_of_json (create_room_to_json p) = Some p"
  by (cases "cr_description p"; cases "cr_parent_id p")
     (simp_all add: create_room_of_json_def create_room_to_json_def serde_defs)

subsection \<open>\<open>RenameRoomPayload\<close>\<close>

definition rename_room_to_json :: "rename_room_payload \<Rightarrow> json" where
  "rename_room_to_json p = JObj
     ([(''room_id'', JStr (rn_room_id p)), (''name'', JStr (rn_name p))])"

definition rename_room_of_json :: "json \<Rightarrow> rename_room_payload option" where
  "rename_room_of_json v = do {
     x_room_id \<leftarrow> field json_str ''room_id'' v;
     x_name \<leftarrow> field json_str ''name'' v;
     Some \<lparr>rn_room_id = x_room_id, rn_name = x_name\<rparr> }"

lemma rename_room_roundtrip [simp]:
  "rename_room_of_json (rename_room_to_json p) = Some p"
  by (simp add: rename_room_of_json_def rename_room_to_json_def serde_defs)

subsection \<open>\<open>SendMessagePayload\<close>\<close>

definition send_message_to_json :: "send_message_payload \<Rightarrow> json" where
  "send_message_to_json p = JObj
     ([(''room_id'', JStr (sm_room_id p)), (''content'', JStr (sm_content p))]
      @ opt_field ''reply_to'' JStr (sm_reply_to p)
      @ [(''metadata'', sm_metadata p), (''mentions'', json_strs (sm_mentions p))])"

definition send_message_of_json :: "json \<Rightarrow> send_message_payload option" where
  "send_message_of_json v = do {
     x_room_id \<leftarrow> field json_str ''room_id'' v;
     x_content \<leftarrow> field json_str ''content'' v;
     x_reply_to \<leftarrow> opt_of json_str ''reply_to'' v;
     x_metadata \<leftarrow> field_or JNull Some ''metadata'' v;
     x_mentions \<leftarrow> field_or [] (json_list json_str) ''mentions'' v;
     Some \<lparr>sm_room_id = x_room_id, sm_content = x_content, sm_reply_to = x_reply_to, sm_metadata = x_metadata, sm_mentions = x_mentions\<rparr> }"

lemma send_message_roundtrip [simp]:
  "send_message_of_json (send_message_to_json p) = Some p"
  by (cases "sm_reply_to p")
     (simp_all add: send_message_of_json_def send_message_to_json_def serde_defs)

subsection \<open>\<open>GetHistoryPayload\<close>\<close>

definition get_history_to_json :: "get_history_payload \<Rightarrow> json" where
  "get_history_to_json p = JObj
     ([(''room_id'', JStr (gh_room_id p)), (''limit'', JInt (int (gh_limit p)))]
      @ opt_field ''before'' JTime (gh_before p)
      @ opt_field ''since'' JStr (gh_since p)
      @ opt_field ''since_seq'' JInt (gh_since_seq p))"

definition get_history_of_json :: "(string \<Rightarrow> int option) \<Rightarrow> json \<Rightarrow> get_history_payload option" where
  "get_history_of_json rfc3339 v = do {
     x_room_id \<leftarrow> field json_str ''room_id'' v;
     x_limit \<leftarrow> field_or 50 (json_uint 32) ''limit'' v;
     x_before \<leftarrow> opt_of (json_instant rfc3339) ''before'' v;
     x_since \<leftarrow> opt_of json_str ''since'' v;
     x_since_seq \<leftarrow> opt_of json_i64 ''since_seq'' v;
     Some \<lparr>gh_room_id = x_room_id, gh_limit = x_limit, gh_before = x_before, gh_since = x_since, gh_since_seq = x_since_seq\<rparr> }"

lemma get_history_roundtrip [simp]:
  assumes "gh_limit p < 2 ^ 32" "in_range_seq (gh_since_seq p)"
  shows "get_history_of_json rfc3339 (get_history_to_json p) = Some p"
  using assms
  by (cases "gh_before p"; cases "gh_since p"; cases "gh_since_seq p")
     (simp_all add: get_history_of_json_def get_history_to_json_def serde_defs)

subsection \<open>\<open>CreateVotePayload\<close>\<close>

definition create_vote_to_json :: "create_vote_payload \<Rightarrow> json" where
  "create_vote_to_json p = JObj
     ([(''room_id'', JStr (cv_room_id p)), (''title'', JStr (cv_title p))]
      @ opt_field ''description'' JStr (cv_description p)
      @ [(''options'', json_strs (cv_options p))]
      @ opt_field ''duration_secs'' (\<lambda>n. JInt (int n)) (cv_duration_secs p))"

definition create_vote_of_json :: "json \<Rightarrow> create_vote_payload option" where
  "create_vote_of_json v = do {
     x_room_id \<leftarrow> field json_str ''room_id'' v;
     x_title \<leftarrow> field json_str ''title'' v;
     x_description \<leftarrow> opt_of json_str ''description'' v;
     x_options \<leftarrow> field (json_list json_str) ''options'' v;
     x_duration_secs \<leftarrow> opt_of (json_uint 64) ''duration_secs'' v;
     Some \<lparr>cv_room_id = x_room_id, cv_title = x_title, cv_description = x_description, cv_options = x_options, cv_duration_secs = x_duration_secs\<rparr> }"

lemma create_vote_roundtrip [simp]:
  assumes "fits 64 (cv_duration_secs p)"
  shows "create_vote_of_json (create_vote_to_json p) = Some p"
  using assms
  by (cases "cv_description p"; cases "cv_duration_secs p")
     (simp_all add: create_vote_of_json_def create_vote_to_json_def serde_defs)

subsection \<open>\<open>CastVotePayload\<close>\<close>

definition cast_vote_to_json :: "cast_vote_payload \<Rightarrow> json" where
  "cast_vote_to_json p = JObj
     ([(''vote_id'', JStr (bv_vote_id p)), (''option_index'', JInt (int (bv_option_index p)))])"

definition cast_vote_of_json :: "json \<Rightarrow> cast_vote_payload option" where
  "cast_vote_of_json v = do {
     x_vote_id \<leftarrow> field json_str ''vote_id'' v;
     x_option_index \<leftarrow> field (json_uint 64) ''option_index'' v;
     Some \<lparr>bv_vote_id = x_vote_id, bv_option_index = x_option_index\<rparr> }"

lemma cast_vote_roundtrip [simp]:
  assumes "bv_option_index p < 2 ^ 64"
  shows "cast_vote_of_json (cast_vote_to_json p) = Some p"
  using assms
  by (simp add: cast_vote_of_json_def cast_vote_to_json_def serde_defs)

subsection \<open>\<open>ListVotesPayload\<close>\<close>

definition list_votes_to_json :: "list_votes_payload \<Rightarrow> json" where
  "list_votes_to_json p = JObj
     ([(''room_id'', JStr (lv_room_id p)), (''limit'', JInt (int (lv_limit p)))])"

definition list_votes_of_json :: "json \<Rightarrow> list_votes_payload option" where
  "list_votes_of_json v = do {
     x_room_id \<leftarrow> field json_str ''room_id'' v;
     x_limit \<leftarrow> field_or 20 (json_uint 32) ''limit'' v;
     Some \<lparr>lv_room_id = x_room_id, lv_limit = x_limit\<rparr> }"

lemma list_votes_roundtrip [simp]:
  assumes "lv_limit p < 2 ^ 32"
  shows "list_votes_of_json (list_votes_to_json p) = Some p"
  using assms
  by (simp add: list_votes_of_json_def list_votes_to_json_def serde_defs)

subsection \<open>\<open>AssignTaskPayload\<close>\<close>

definition assign_task_to_json :: "assign_task_payload \<Rightarrow> json" where
  "assign_task_to_json p = JObj
     ([(''room_id'', JStr (at_room_id p)), (''title'', JStr (at_title p))]
      @ opt_field ''description'' JStr (at_description p)
      @ opt_field ''assignee'' JStr (at_assignee p))"

definition assign_task_of_json :: "json \<Rightarrow> assign_task_payload option" where
  "assign_task_of_json v = do {
     x_room_id \<leftarrow> field json_str ''room_id'' v;
     x_title \<leftarrow> field json_str ''title'' v;
     x_description \<leftarrow> opt_of json_str ''description'' v;
     x_assignee \<leftarrow> opt_of json_str ''assignee'' v;
     Some \<lparr>at_room_id = x_room_id, at_title = x_title, at_description = x_description, at_assignee = x_assignee\<rparr> }"

lemma assign_task_roundtrip [simp]:
  "assign_task_of_json (assign_task_to_json p) = Some p"
  by (cases "at_description p"; cases "at_assignee p")
     (simp_all add: assign_task_of_json_def assign_task_to_json_def serde_defs)

subsection \<open>\<open>UpdateTaskPayload\<close>\<close>

definition update_task_to_json :: "update_task_payload \<Rightarrow> json" where
  "update_task_to_json p = JObj
     ([(''task_id'', JStr (ut_task_id p))]
      @ opt_field ''status'' JStr (ut_status p)
      @ opt_field ''assignee'' JStr (ut_assignee p)
      @ opt_field ''note'' JStr (ut_note p))"

definition update_task_of_json :: "json \<Rightarrow> update_task_payload option" where
  "update_task_of_json v = do {
     x_task_id \<leftarrow> field json_str ''task_id'' v;
     x_status \<leftarrow> opt_of json_str ''status'' v;
     x_assignee \<leftarrow> opt_of json_str ''assignee'' v;
     x_note \<leftarrow> opt_of json_str ''note'' v;
     Some \<lparr>ut_task_id = x_task_id, ut_status = x_status, ut_assignee = x_assignee, ut_note = x_note\<rparr> }"

lemma update_task_roundtrip [simp]:
  "update_task_of_json (update_task_to_json p) = Some p"
  by (cases "ut_status p"; cases "ut_assignee p"; cases "ut_note p")
     (simp_all add: update_task_of_json_def update_task_to_json_def serde_defs)

subsection \<open>\<open>ListTasksPayload\<close>\<close>

definition list_tasks_to_json :: "list_tasks_payload \<Rightarrow> json" where
  "list_tasks_to_json p = JObj
     ([(''room_id'', JStr (lt_room_id p))]
      @ opt_field ''status'' JStr (lt_status p))"

definition list_tasks_of_json :: "json \<Rightarrow> list_tasks_payload option" where
  "list_tasks_of_json v = do {
     x_room_id \<leftarrow> field json_str ''room_id'' v;
     x_status \<leftarrow> opt_of json_str ''status'' v;
     Some \<lparr>lt_room_id = x_room_id, lt_status = x_status\<rparr> }"

lemma list_tasks_roundtrip [simp]:
  "list_tasks_of_json (list_tasks_to_json p) = Some p"
  by (cases "lt_status p")
     (simp_all add: list_tasks_of_json_def list_tasks_to_json_def serde_defs)

subsection \<open>\<open>SetTypingPayload\<close>\<close>

definition set_typing_to_json :: "set_typing_payload \<Rightarrow> json" where
  "set_typing_to_json p = JObj
     ([(''room_id'', JStr (ty_room_id p)), (''typing'', JBool (ty_typing p))])"

definition set_typing_of_json :: "json \<Rightarrow> set_typing_payload option" where
  "set_typing_of_json v = do {
     x_room_id \<leftarrow> field json_str ''room_id'' v;
     x_typing \<leftarrow> field_or True json_bool ''typing'' v;
     Some \<lparr>ty_room_id = x_room_id, ty_typing = x_typing\<rparr> }"

lemma set_typing_roundtrip [simp]:
  "set_typing_of_json (set_typing_to_json p) = Some p"
  by (simp add: set_typing_of_json_def set_typing_to_json_def serde_defs)

subsection \<open>\<open>SetPresencePayload\<close>\<close>

definition set_presence_to_json :: "set_presence_payload \<Rightarrow> json" where
  "set_presence_to_json p = JObj
     ([(''status'', JStr (sp_status p))]
      @ opt_field ''status_detail'' JStr (sp_status_detail p)
      @ opt_field ''progress'' (\<lambda>n. JInt (int n)) (sp_progress p))"

definition set_presence_of_json :: "json \<Rightarrow> set_presence_payload option" where
  "set_presence_of_json v = do {
     x_status \<leftarrow> field json_str ''status'' v;
     x_status_detail \<leftarrow> opt_of json_str ''status_detail'' v;
     x_progress \<leftarrow> opt_of (json_uint 8) ''progress'' v;
     Some \<lparr>sp_status = x_status, sp_status_detail = x_status_detail, sp_progress = x_progress\<rparr> }"

lemma set_presence_roundtrip [simp]:
  assumes "fits 8 (sp_progress p)"
  shows "set_presence_of_json (set_presence_to_json p) = Some p"
  using assms
  by (cases "sp_status_detail p"; cases "sp_progress p")
     (simp_all add: set_presence_of_json_def set_presence_to_json_def serde_defs)

subsection \<open>\<open>DecisionPayload\<close>\<close>

definition decision_to_json :: "decision_payload \<Rightarrow> json" where
  "decision_to_json p = JObj
     ([(''room_id'', JStr (dp_room_id p)), (''content'', JStr (dp_content p)), (''metadata'', dp_metadata p)])"

definition decision_of_json :: "json \<Rightarrow> decision_payload option" where
  "decision_of_json v = do {
     x_room_id \<leftarrow> field json_str ''room_id'' v;
     x_content \<leftarrow> field json_str ''content'' v;
     x_metadata \<leftarrow> field_or JNull Some ''metadata'' v;
     Some \<lparr>dp_room_id = x_room_id, dp_content = x_content, dp_metadata = x_metadata\<rparr> }"

lemma decision_roundtrip [simp]:
  "decision_of_json (decision_to_json p) = Some p"
  by (simp add: decision_of_json_def decision_to_json_def serde_defs)

subsection \<open>\<open>SubscribePayload\<close>\<close>

definition subscribe_to_json :: "subscribe_payload \<Rightarrow> json" where
  "subscribe_to_json p = JObj
     ([(''room_id'', JStr (su_room_id p)), (''webhook_url'', JStr (su_webhook_url p)), (''secret'', JStr (su_secret p))]
      @ (if su_kinds p = [] then [] else [(''kinds'', json_strs (su_kinds p))])
      @ opt_field ''only_from'' JStr (su_only_from p)
      @ opt_field ''not_from'' JStr (su_not_from p)
      @ [(''exclude_thinking'', JBool (su_exclude_thinking p))]
      @ opt_field ''since_seq'' JInt (su_since_seq p))"

definition subscribe_of_json :: "json \<Rightarrow> subscribe_payload option" where
  "subscribe_of_json v = do {
     x_room_id \<leftarrow> field json_str ''room_id'' v;
     x_webhook_url \<leftarrow> field json_str ''webhook_url'' v;
     x_secret \<leftarrow> field json_str ''secret'' v;
     x_kinds \<leftarrow> field_or [] (json_list json_str) ''kinds'' v;
     x_only_from \<leftarrow> opt_of json_str ''only_from'' v;
     x_not_from \<leftarrow> opt_of json_str ''not_from'' v;
     x_exclude_thinking \<leftarrow> field_or False json_bool ''exclude_thinking'' v;
     x_since_seq \<leftarrow> opt_of json_i64 ''since_seq'' v;
     Some \<lparr>su_room_id = x_room_id, su_webhook_url = x_webhook_url, su_secret = x_secret, su_kinds = x_kinds, su_only_from = x_only_from, su_not_from = x_not_from, su_exclude_thinking = x_exclude_thinking, su_since_seq = x_since_seq\<rparr> }"

lemma subscribe_roundtrip [simp]:
  assumes "in_range_seq (su_since_seq p)"
  shows "subscribe_of_json (subscribe_to_json p) = Some p"
  using assms
  by (cases "su_only_from p"; cases "su_not_from p"; cases "su_since_seq p")
     (simp_all add: subscribe_of_json_def subscribe_to_json_def serde_defs)

subsection \<open>\<open>CreateInvitePayload\<close>\<close>

definition create_invite_to_json :: "create_invite_payload \<Rightarrow> json" where
  "create_invite_to_json p = JObj
     ([(''room_id'', JStr (ci_room_id p)), (''single_use'', JBool (ci_single_use p))])"

definition create_invite_of_json :: "json \<Rightarrow> create_invite_payload option" where
  "create_invite_of_json v = do {
     x_room_id \<leftarrow> field json_str ''room_id'' v;
     x_single_use \<leftarrow> field_or True json_bool ''single_use'' v;
     Some \<lparr>ci_room_id = x_room_id, ci_single_use = x_single_use\<rparr> }"

lemma create_invite_roundtrip [simp]:
  "create_invite_of_json (create_invite_to_json p) = Some p"
  by (simp add: create_invite_of_json_def create_invite_to_json_def serde_defs)

subsection \<open>\<open>ThinkingPayload\<close>\<close>

definition thinking_to_json :: "thinking_payload \<Rightarrow> json" where
  "thinking_to_json p = JObj
     ([(''room_id'', JStr (th_room_id p)), (''content'', JStr (th_content p))])"

definition thinking_of_json :: "json \<Rightarrow> thinking_payload option" where
  "thinking_of_json v = do {
     x_room_id \<leftarrow> field json_str ''room_id'' v;
     x_content \<leftarrow> field json_str ''content'' v;
     Some \<lparr>th_room_id = x_room_id, th_content = x_content\<rparr> }"

lemma thinking_roundtrip [simp]:
  "thinking_of_json (thinking_to_json p) = Some p"
  by (simp add: thinking_of_json_def thinking_to_json_def serde_defs)

end
