(* ===== verification/Client_Api.thy ===== *)
theory Client_Api
  imports Client Payloads Dispatch
begin

text \<open>
  The request methods of the client library (\<open>connection.rs\<close> of \<open>cowchat-client\<close>), each as the type and the
  payload of its frame, and the answers they read; and the server's decoding of payloads as an instance
  of the \<open>decoder\<close> of \<open>handle_frame\<close>. A request of the client is served with the arguments it was
  made with. A payload that serde cannot write, or a response it cannot read where the code unwraps, is not modelled.
\<close>

subsection \<open>Requests\<close>

definition request_frame :: "string \<Rightarrow> frame_type \<times> json \<Rightarrow> frame" where
  "request_frame uid req = \<lparr>f_id = Some uid, f_reply_to = None, f_type = fst req, f_payload = snd req\<rparr>"

definition api_ping :: "frame_type \<times> json" where
  "api_ping = (Ping, JObj [])"

definition api_create_room_with_options :: "string \<Rightarrow> string option \<Rightarrow> string option \<Rightarrow> bool \<Rightarrow> bool \<Rightarrow> frame_type \<times> json" where
  "api_create_room_with_options name description parent_id public encrypted = (CreateRoom, create_room_to_json 
       \<lparr>cr_name = name, cr_description = description, cr_parent_id = parent_id, cr_public = public, cr_encrypted = encrypted\<rparr>)"

definition api_create_room :: "string \<Rightarrow> string option \<Rightarrow> string option \<Rightarrow> frame_type \<times> json" where
  "api_create_room name description parent_id = api_create_room_with_options name description parent_id False False"

definition api_join_room :: "string \<Rightarrow> frame_type \<times> json" where
  "api_join_room room_id = (JoinRoom, single_to_json ''room_id'' room_id)"

definition api_leave_room :: "string \<Rightarrow> frame_type \<times> json" where
  "api_leave_room room_id = (LeaveRoom, single_to_json ''room_id'' room_id)"

definition api_rename_room :: "string \<Rightarrow> string \<Rightarrow> frame_type \<times> json" where
  "api_rename_room room_id name = (RenameRoom, rename_room_to_json 
       \<lparr>rn_room_id = room_id, rn_name = name\<rparr>)"

definition api_destroy_room :: "string \<Rightarrow> frame_type \<times> json" where
  "api_destroy_room room_id = (DestroyRoom, single_to_json ''room_id'' room_id)"

definition api_send_message_with_metadata :: "aead_lib \<Rightarrow> string \<Rightarrow> client_id \<Rightarrow> string \<Rightarrow> string \<Rightarrow> string option \<Rightarrow> string list \<Rightarrow> json \<Rightarrow> frame_type \<times> json" where
  "api_send_message_with_metadata lib nonce me room_id content reply_to mentions metadata = (SendMessage, send_message_to_json 
       \<lparr>sm_room_id = room_id, sm_content = encrypt_content lib nonce me room_id content, sm_reply_to = reply_to, sm_metadata = metadata, sm_mentions = mentions\<rparr>)"

definition api_send_message ::
    "aead_lib \<Rightarrow> string \<Rightarrow> client_id \<Rightarrow> string \<Rightarrow> string \<Rightarrow> string option \<Rightarrow> string list \<Rightarrow> frame_type \<times> json" where
  "api_send_message lib nonce me room_id content reply_to mentions =
     api_send_message_with_metadata lib nonce me room_id content reply_to mentions (JObj [])"

definition api_thinking :: "aead_lib \<Rightarrow> string \<Rightarrow> client_id \<Rightarrow> string \<Rightarrow> string \<Rightarrow> frame_type \<times> json" where
  "api_thinking lib nonce me room_id content = (Thinking, thinking_to_json 
       \<lparr>th_room_id = room_id, th_content = encrypt_content lib nonce me room_id content\<rparr>)"

definition api_get_history_filtered :: "string \<Rightarrow> nat \<Rightarrow> int option \<Rightarrow> string option \<Rightarrow> int option \<Rightarrow> frame_type \<times> json" where
  "api_get_history_filtered room_id limit before since since_seq = (GetHistory, get_history_to_json 
       \<lparr>gh_room_id = room_id, gh_limit = limit, gh_before = before, gh_since = since, gh_since_seq = since_seq\<rparr>)"

definition api_get_history :: "string \<Rightarrow> nat \<Rightarrow> int option \<Rightarrow> frame_type \<times> json" where
  "api_get_history room_id limit before = api_get_history_filtered room_id limit before None None"

definition api_get_history_since :: "string \<Rightarrow> nat \<Rightarrow> int option \<Rightarrow> string option \<Rightarrow> frame_type \<times> json" where
  "api_get_history_since room_id limit before since = api_get_history_filtered room_id limit before since None"

text \<open>A list that cannot be read counts as empty; \<open>decode\<close> is serde's reading of the messages.\<close>

definition history_answer :: "aead_lib \<Rightarrow> client_id \<Rightarrow> (json \<Rightarrow> chat_message list option) \<Rightarrow> json \<Rightarrow> chat_message list" where
  "history_answer lib me decode payload =
     map (decrypt_message lib me)
       (case Option.bind (json_get ''messages'' payload) decode of Some ms \<Rightarrow> ms | None \<Rightarrow> [])"

definition api_room_tip :: "string \<Rightarrow> frame_type \<times> json" where
  "api_room_tip room_id = (RoomTip, single_to_json ''room_id'' room_id)"

definition room_tip_answer :: "json \<Rightarrow> int" where
  "room_tip_answer payload = (case Option.bind (json_get ''seq'' payload) json_i64 of Some n \<Rightarrow> n | None \<Rightarrow> 0)"

definition api_list_rooms :: "string option \<Rightarrow> frame_type \<times> json" where
  "api_list_rooms parent_id = (ListRooms, JObj [(''parent_id'', json_opt JStr parent_id)])"

definition api_list_agents :: "string option \<Rightarrow> frame_type \<times> json" where
  "api_list_agents room_id = (ListAgents, JObj [(''room_id'', json_opt JStr room_id)])"

definition api_room_info :: "string \<Rightarrow> frame_type \<times> json" where
  "api_room_info room_id = (RoomInfo, single_to_json ''room_id'' room_id)"

definition current_turn_holder_answer :: "json \<Rightarrow> string option" where
  "current_turn_holder_answer payload = json_get_str ''current_turn_holder'' payload"

definition api_create_vote :: "string \<Rightarrow> string \<Rightarrow> string option \<Rightarrow> string list \<Rightarrow> nat option \<Rightarrow> frame_type \<times> json" where
  "api_create_vote room_id title description options duration_secs = (CreateVote, create_vote_to_json 
       \<lparr>cv_room_id = room_id, cv_title = title, cv_description = description, cv_options = options, cv_duration_secs = duration_secs\<rparr>)"

definition api_cast_vote :: "string \<Rightarrow> nat \<Rightarrow> frame_type \<times> json" where
  "api_cast_vote vote_id option_index = (CastVote, cast_vote_to_json 
       \<lparr>bv_vote_id = vote_id, bv_option_index = option_index\<rparr>)"

definition api_get_vote_status :: "string \<Rightarrow> frame_type \<times> json" where
  "api_get_vote_status vote_id = (GetVoteStatus, single_to_json ''vote_id'' vote_id)"

definition api_list_votes :: "string \<Rightarrow> nat \<Rightarrow> frame_type \<times> json" where
  "api_list_votes room_id limit = (ListVotes, list_votes_to_json 
       \<lparr>lv_room_id = room_id, lv_limit = limit\<rparr>)"

definition api_elect_leader :: "string \<Rightarrow> frame_type \<times> json" where
  "api_elect_leader room_id = (ElectLeader, single_to_json ''room_id'' room_id)"

definition api_decline_election :: "string \<Rightarrow> frame_type \<times> json" where
  "api_decline_election room_id = (DeclineElection, single_to_json ''room_id'' room_id)"

definition api_send_decision :: "aead_lib \<Rightarrow> string \<Rightarrow> client_id \<Rightarrow> string \<Rightarrow> string \<Rightarrow> json \<Rightarrow> frame_type \<times> json" where
  "api_send_decision lib nonce me room_id content metadata = (Decision, decision_to_json 
       \<lparr>dp_room_id = room_id, dp_content = encrypt_content lib nonce me room_id content, dp_metadata = metadata\<rparr>)"

definition api_set_typing :: "string \<Rightarrow> bool \<Rightarrow> frame_type \<times> json" where
  "api_set_typing room_id typing = (SetTyping, set_typing_to_json 
       \<lparr>ty_room_id = room_id, ty_typing = typing\<rparr>)"

definition api_set_presence :: "string \<Rightarrow> string option \<Rightarrow> nat option \<Rightarrow> frame_type \<times> json" where
  "api_set_presence status detail progress = (SetPresence, JObj [(''status'', JStr status), (''status_detail'', json_opt JStr detail),
       (''progress'', json_opt (\<lambda>n. JInt (int n)) progress)])"

definition api_create_subscription :: "subscribe_payload \<Rightarrow> frame_type \<times> json" where
  "api_create_subscription p = (Subscribe, subscribe_to_json p)"

definition api_unsubscribe :: "string \<Rightarrow> frame_type \<times> json" where
  "api_unsubscribe subscription_id = (Unsubscribe, single_to_json ''subscription_id'' subscription_id)"

definition api_list_subscriptions :: "string option \<Rightarrow> frame_type \<times> json" where
  "api_list_subscriptions room_id = (ListSubscriptions, maybe_to_json ''room_id'' room_id)"

definition api_enable_subscription :: "string \<Rightarrow> frame_type \<times> json" where
  "api_enable_subscription subscription_id = (EnableSubscription, single_to_json ''subscription_id'' subscription_id)"

definition api_create_invite :: "string \<Rightarrow> bool \<Rightarrow> frame_type \<times> json" where
  "api_create_invite room_id single_use = (CreateInvite, create_invite_to_json 
       \<lparr>ci_room_id = room_id, ci_single_use = single_use\<rparr>)"

definition api_revoke_invite :: "string \<Rightarrow> frame_type \<times> json" where
  "api_revoke_invite token = (RevokeInvite, single_to_json ''token'' token)"

subsection \<open>Calls\<close>

text \<open>A call of a method, the request it makes, and the range of its numbers.\<close>

datatype client_call =
    CallPing
  | CallCreateRoomWithOptions string "string option" "string option" bool bool
  | CallJoinRoom string
  | CallLeaveRoom string
  | CallRenameRoom string string
  | CallDestroyRoom string
  | CallSendMessageWithMetadata string string "string option" "string list" json
  | CallThinking string string
  | CallGetHistoryFiltered string nat "int option" "string option" "int option"
  | CallRoomTip string
  | CallListRooms "string option"
  | CallListAgents "string option"
  | CallRoomInfo string
  | CallCreateVote string string "string option" "string list" "nat option"
  | CallCastVote string nat
  | CallGetVoteStatus string
  | CallListVotes string nat
  | CallElectLeader string
  | CallDeclineElection string
  | CallSendDecision string string json
  | CallSetTyping string bool
  | CallSetPresence string "string option" "nat option"
  | CallCreateSubscription subscribe_payload
  | CallUnsubscribe string
  | CallListSubscriptions "string option"
  | CallEnableSubscription string
  | CallCreateInvite string bool
  | CallRevokeInvite string

definition call_request :: "aead_lib \<Rightarrow> string \<Rightarrow> client_id \<Rightarrow> client_call \<Rightarrow> frame_type \<times> json" where
  "call_request lib nonce me call =
     (case call of
        CallPing \<Rightarrow> api_ping
      | CallCreateRoomWithOptions name description parent_id public encrypted \<Rightarrow> api_create_room_with_options name description parent_id public encrypted
      | CallJoinRoom room_id \<Rightarrow> api_join_room room_id
      | CallLeaveRoom room_id \<Rightarrow> api_leave_room room_id
      | CallRenameRoom room_id name \<Rightarrow> api_rename_room room_id name
      | CallDestroyRoom room_id \<Rightarrow> api_destroy_room room_id
      | CallSendMessageWithMetadata room_id content reply_to mentions metadata \<Rightarrow> api_send_message_with_metadata lib nonce me room_id content reply_to mentions metadata
      | CallThinking room_id content \<Rightarrow> api_thinking lib nonce me room_id content
      | CallGetHistoryFiltered room_id limit before since since_seq \<Rightarrow> api_get_history_filtered room_id limit before since since_seq
      | CallRoomTip room_id \<Rightarrow> api_room_tip room_id
      | CallListRooms parent_id \<Rightarrow> api_list_rooms parent_id
      | CallListAgents room_id \<Rightarrow> api_list_agents room_id
      | CallRoomInfo room_id \<Rightarrow> api_room_info room_id
      | CallCreateVote room_id title description options duration_secs \<Rightarrow> api_create_vote room_id title description options duration_secs
      | CallCastVote vote_id option_index \<Rightarrow> api_cast_vote vote_id option_index
      | CallGetVoteStatus vote_id \<Rightarrow> api_get_vote_status vote_id
      | CallListVotes room_id limit \<Rightarrow> api_list_votes room_id limit
      | CallElectLeader room_id \<Rightarrow> api_elect_leader room_id
      | CallDeclineElection room_id \<Rightarrow> api_decline_election room_id
      | CallSendDecision room_id content metadata \<Rightarrow> api_send_decision lib nonce me room_id content metadata
      | CallSetTyping room_id typing \<Rightarrow> api_set_typing room_id typing
      | CallSetPresence status detail progress \<Rightarrow> api_set_presence status detail progress
      | CallCreateSubscription p \<Rightarrow> api_create_subscription p
      | CallUnsubscribe subscription_id \<Rightarrow> api_unsubscribe subscription_id
      | CallListSubscriptions room_id \<Rightarrow> api_list_subscriptions room_id
      | CallEnableSubscription subscription_id \<Rightarrow> api_enable_subscription subscription_id
      | CallCreateInvite room_id single_use \<Rightarrow> api_create_invite room_id single_use
      | CallRevokeInvite token \<Rightarrow> api_revoke_invite token)"

definition call_in_range :: "client_call \<Rightarrow> bool" where
  "call_in_range call \<longleftrightarrow>
     (case call of
        CallGetHistoryFiltered room_id limit before since since_seq \<Rightarrow> limit < 2 ^ 32 \<and> in_range_seq since_seq
      | CallCreateVote room_id title description options duration_secs \<Rightarrow> fits 64 duration_secs
      | CallCastVote vote_id option_index \<Rightarrow> option_index < 2 ^ 64
      | CallListVotes room_id limit \<Rightarrow> limit < 2 ^ 32
      | CallSetPresence status detail progress \<Rightarrow> fits 8 progress
      | CallCreateSubscription p \<Rightarrow> in_range_seq (su_since_seq p)
      | _ \<Rightarrow> True)"

subsection \<open>The server's decoding\<close>

definition serde_decoder :: "(string \<Rightarrow> int option) \<Rightarrow> decoder" where
  "serde_decoder rfc3339 =
     \<lparr>de_create_room = create_room_of_json, de_join_room = single_of_json ''room_id'',
      de_leave_room = single_of_json ''room_id'', de_rename_room = rename_room_of_json,
      de_destroy_room = single_of_json ''room_id'', de_send_message = send_message_of_json,
      de_get_history = get_history_of_json rfc3339, de_list_rooms = maybe_of_json ''parent_id'',
      de_list_agents = maybe_of_json ''room_id'', de_room_info = single_of_json ''room_id'',
      de_room_tip = single_of_json ''room_id'', de_create_vote = create_vote_of_json,
      de_cast_vote = cast_vote_of_json, de_get_vote_status = single_of_json ''vote_id'',
      de_list_votes = list_votes_of_json, de_elect_leader = single_of_json ''room_id'',
      de_decline_election = single_of_json ''room_id'', de_decision = decision_of_json,
      de_set_typing = set_typing_of_json, de_set_presence = set_presence_of_json,
      de_thinking = thinking_of_json, de_subscribe = subscribe_of_json,
      de_unsubscribe = single_of_json ''subscription_id'', de_list_subscriptions = maybe_of_json ''room_id'',
      de_enable_subscription = single_of_json ''subscription_id'', de_create_invite = create_invite_of_json,
      de_revoke_invite = single_of_json ''token'', de_assign_task = assign_task_of_json,
      de_update_task = update_task_of_json, de_list_tasks = list_tasks_of_json\<rparr>"

text \<open>What the server should do for a call: the handler of the command with the call's arguments, its content
  encrypted.\<close>

definition serve_call ::
    "config \<Rightarrow> aead_lib \<Rightarrow> string \<Rightarrow> client_id \<Rightarrow> env \<Rightarrow> caller \<Rightarrow> string option \<Rightarrow> client_call \<Rightarrow> server
     \<Rightarrow> frame option \<times> server" where
  "serve_call cfg lib nonce me ev c req call sv =
     (case call of
        CallPing \<Rightarrow> (Some (frame_pong (ev_uid ev 0) req), sv)
      | CallCreateRoomWithOptions name description parent_id public encrypted \<Rightarrow> apfst Some (handle_create_room cfg ev c req (Some \<lparr>cr_name = name, cr_description = description, cr_parent_id = parent_id, cr_public = public, cr_encrypted = encrypted\<rparr>) sv)
      | CallJoinRoom room_id \<Rightarrow> apfst Some (handle_join_room cfg ev c req (Some room_id) sv)
      | CallLeaveRoom room_id \<Rightarrow> apfst Some (handle_leave_room ev c req (Some room_id) sv)
      | CallRenameRoom room_id name \<Rightarrow> apfst Some (handle_rename_room cfg ev c req (Some \<lparr>rn_room_id = room_id, rn_name = name\<rparr>) sv)
      | CallDestroyRoom room_id \<Rightarrow> apfst Some (handle_destroy_room cfg ev c req (Some room_id) sv)
      | CallSendMessageWithMetadata room_id content reply_to mentions metadata \<Rightarrow> apfst Some (handle_send_message cfg ev c req (Some \<lparr>sm_room_id = room_id, sm_content = encrypt_content lib nonce me room_id content, sm_reply_to = reply_to, sm_metadata = metadata, sm_mentions = mentions\<rparr>) sv)
      | CallThinking room_id content \<Rightarrow> apfst Some (handle_thinking cfg ev c req (Some \<lparr>th_room_id = room_id, th_content = encrypt_content lib nonce me room_id content\<rparr>) sv)
      | CallGetHistoryFiltered room_id limit before since since_seq \<Rightarrow> apfst Some (handle_get_history cfg ev c req (Some \<lparr>gh_room_id = room_id, gh_limit = limit, gh_before = before, gh_since = since, gh_since_seq = since_seq\<rparr>) sv)
      | CallRoomTip room_id \<Rightarrow> apfst Some (handle_room_tip cfg ev c req (Some room_id) sv)
      | CallListRooms parent_id \<Rightarrow> apfst Some (handle_list_rooms cfg ev c req (Some parent_id) sv)
      | CallListAgents room_id \<Rightarrow> apfst Some (handle_list_agents cfg ev c req (Some room_id) sv)
      | CallRoomInfo room_id \<Rightarrow> apfst Some (handle_room_info cfg ev c req (Some room_id) sv)
      | CallCreateVote room_id title description options duration_secs \<Rightarrow> handle_create_vote ev c req (Some \<lparr>cv_room_id = room_id, cv_title = title, cv_description = description, cv_options = options, cv_duration_secs = duration_secs\<rparr>) sv
      | CallCastVote vote_id option_index \<Rightarrow> apfst Some (handle_cast_vote ev c req (Some \<lparr>bv_vote_id = vote_id, bv_option_index = option_index\<rparr>) sv)
      | CallGetVoteStatus vote_id \<Rightarrow> apfst Some (handle_get_vote_status cfg ev c req (Some vote_id) sv)
      | CallListVotes room_id limit \<Rightarrow> apfst Some (handle_list_votes cfg ev c req (Some \<lparr>lv_room_id = room_id, lv_limit = limit\<rparr>) sv)
      | CallElectLeader room_id \<Rightarrow> apfst Some (handle_elect_leader ev c req (Some room_id) sv)
      | CallDeclineElection room_id \<Rightarrow> apfst Some (handle_decline_election ev c req (Some room_id) sv)
      | CallSendDecision room_id content metadata \<Rightarrow> apfst Some (handle_decision ev c req (Some \<lparr>dp_room_id = room_id, dp_content = encrypt_content lib nonce me room_id content, dp_metadata = metadata\<rparr>) sv)
      | CallSetTyping room_id typing \<Rightarrow> apfst Some (handle_set_typing ev c req (Some \<lparr>ty_room_id = room_id, ty_typing = typing\<rparr>) sv)
      | CallSetPresence status detail progress \<Rightarrow> apfst Some (handle_set_presence ev c req (Some \<lparr>sp_status = status, sp_status_detail = detail, sp_progress = progress\<rparr>) sv)
      | CallCreateSubscription p \<Rightarrow> apfst Some (handle_subscribe cfg ev c req (Some p) sv)
      | CallUnsubscribe subscription_id \<Rightarrow> apfst Some (handle_unsubscribe ev c req (Some subscription_id) sv)
      | CallListSubscriptions room_id \<Rightarrow> apfst Some (handle_list_subscriptions ev c req (Some room_id) sv)
      | CallEnableSubscription subscription_id \<Rightarrow> apfst Some (handle_enable_subscription ev c req (Some subscription_id) sv)
      | CallCreateInvite room_id single_use \<Rightarrow> apfst Some (handle_create_invite cfg ev c req (Some \<lparr>ci_room_id = room_id, ci_single_use = single_use\<rparr>) sv)
      | CallRevokeInvite token \<Rightarrow> apfst Some (handle_revoke_invite cfg ev c req (Some token) sv))"

lemma set_presence_json [simp]:
  "set_presence_of_json (JObj [(''status'', JStr status), (''status_detail'', json_opt JStr detail),
      (''progress'', json_opt (\<lambda>n. JInt (int n)) progress)])
   = (if fits 8 progress
      then Some \<lparr>sp_status = status, sp_status_detail = detail, sp_progress = progress\<rparr> else None)"
  by (cases detail; cases progress) (simp_all add: set_presence_of_json_def json_opt_def serde_defs)

text \<open>C14. A request is served as it was made: for every method of the client, whatever its arguments, as long as
  its numbers are in the ranges of their types, what the server does with the frame that the client
  sends is what the handler of that command does with those arguments.\<close>

theorem client_request_served:
  assumes "call_in_range call"
  shows "handle_frame cfg (serde_decoder rfc3339) ev c (request_frame uid (call_request lib nonce me call)) sv
       = serve_call cfg lib nonce me ev c (Some uid) call sv"
  using assms
  by (cases call)
     (simp_all add: handle_frame_def request_frame_def call_request_def serve_call_def serde_decoder_def call_in_range_def
       api_ping_def api_create_room_with_options_def api_join_room_def api_leave_room_def api_rename_room_def api_destroy_room_def api_send_message_with_metadata_def api_thinking_def api_get_history_filtered_def api_room_tip_def api_list_rooms_def api_list_agents_def api_room_info_def api_create_vote_def api_cast_vote_def api_get_vote_status_def api_list_votes_def api_elect_leader_def api_decline_election_def api_send_decision_def api_set_typing_def api_set_presence_def api_create_subscription_def api_unsubscribe_def api_list_subscriptions_def api_enable_subscription_def api_create_invite_def api_revoke_invite_def)

theorem client_request_served_witness:
  "\<forall>cfg ev c lib me sv. handle_frame cfg (serde_decoder (\<lambda>_. None)) ev c
       (request_frame ''q'' (call_request lib ''n'' me (CallListVotes ''r1'' 20))) sv
     = apfst Some (handle_list_votes cfg ev c (Some ''q'') (Some \<lparr>lv_room_id = ''r1'', lv_limit = 20\<rparr>) sv)"
proof (intro allI)
  fix cfg ev c lib me sv
  have "call_in_range (CallListVotes ''r1'' 20)" by (simp add: call_in_range_def)
  from client_request_served [OF this, of cfg "\<lambda>_. None" ev c "''q''" lib "''n''" me sv]
  show "handle_frame cfg (serde_decoder (\<lambda>_. None)) ev c
       (request_frame ''q'' (call_request lib ''n'' me (CallListVotes ''r1'' 20))) sv
     = apfst Some (handle_list_votes cfg ev c (Some ''q'') (Some \<lparr>lv_room_id = ''r1'', lv_limit = 20\<rparr>) sv)"
    by (simp add: serve_call_def)
qed

end
