(* ===== verification/Client_Safety.thy ===== *)
theory Client_Safety
  imports Client Server
begin

text \<open>
  The client library is right: no request outlives the connection, responses reach the request they
  answer, waiting ends and returns the oldest unread message, and an encrypted message comes back as it
  was written.
\<close>

subsection \<open>Requests\<close>

text \<open>The reader task and the callers of one registered connection, interleaved at their lock
  operations. The identifier of a request is a fresh UUID.\<close>

inductive client_step :: "client \<Rightarrow> client \<Rightarrow> bool" where
  frame_arrives: "cl_phase cl = Reading \<Longrightarrow> client_step cl (reader_frame uid f cl)"
| stream_ends: "cl_phase cl = Reading \<Longrightarrow> client_step cl (close_events cl)"
| reader_cleans: "cl_phase cl = EventsClosed \<Longrightarrow> client_step cl (clear_pending cl)"
| request_starts: "request_begin i cl = Inr cl' \<Longrightarrow> map_of (cl_answers cl) i = None \<Longrightarrow> client_step cl cl'"
| request_goes_out: "client_step cl (snd (request_send f i cl))"
| request_times_out: "client_step cl (request_give_up i cl)"
| writer_ends: "client_step cl (cl\<lparr>cl_writer_open := False\<rparr>)"

definition client_ok :: "client \<Rightarrow> bool" where
  "client_ok cl \<longleftrightarrow>
     (cl_phase cl = ReaderDone \<longrightarrow> cl_pending cl = [])
     \<and> (\<forall>i f. map_of (cl_answers cl) i = Some f \<longrightarrow> f_reply_to f = Some i \<and> i \<notin> set (cl_pending cl))
     \<and> (\<forall>f \<in> set (cl_events cl). f_type f \<noteq> Ping)"

lemma client_ok_new: "client_ok client_new"
  by (simp add: client_ok_def client_new_def)

lemma client_ok_step: "client_step cl cl' \<Longrightarrow> client_ok cl \<Longrightarrow> client_ok cl'"
proof (induction rule: client_step.induct)
  case (frame_arrives cl uid f)
  then show ?case
    by (cases "f_reply_to f") (auto simp: client_ok_def reader_frame_def)
next
  case (request_starts i cl cl')
  then show ?case
    by (auto simp: client_ok_def request_begin_def split: if_splits)
qed (auto simp: client_ok_def close_events_def clear_pending_def request_send_def request_give_up_def)

lemma client_steps_ok: "client_step\<^sup>*\<^sup>* client_new cl \<Longrightarrow> client_ok cl"
  by (induction rule: rtranclp_induct) (auto intro: client_ok_new client_ok_step)

text \<open>C15. No request is stranded: once the reader has ended, every request is answered or fails at once,
  and a new one is refused as soon as the event channel is closed; what a request gets is a frame that
  answers it, and a frame of the server other than a heartbeat is never lost between the two channels.\<close>

theorem requests_settled:
  assumes "client_step\<^sup>*\<^sup>* client_new cl"
  shows "(cl_phase cl = ReaderDone \<longrightarrow> request_poll i cl \<noteq> None)
    \<and> (cl_phase cl \<noteq> Reading \<longrightarrow> request_begin i cl = Inl ConnectionClosed)
    \<and> (map_of (cl_answers cl) i = Some f \<longrightarrow> f_reply_to f = Some i)
    \<and> (f_type f \<noteq> Ping \<longrightarrow> f \<in> set (cl_events (reader_frame uid f cl))
         \<or> (\<exists>j. map_of (cl_answers (reader_frame uid f cl)) j = Some f \<and> f_reply_to f = Some j))"
  using client_steps_ok [OF assms]
  by (auto simp: client_ok_def request_poll_def request_begin_def reader_frame_def split: option.splits)

theorem requests_settled_witness:
  "\<exists>cl. cl_phase cl = ReaderDone \<and> request_poll ''q'' cl = Some (Inl ConnectionClosed)"
proof -
  let ?c1 = "client_new\<lparr>cl_pending := [''q'']\<rparr>"
  let ?c3 = "clear_pending (close_events ?c1)"
  have "client_step client_new ?c1"
    by (rule request_starts [where i = "''q''"]) (simp_all add: request_begin_def client_new_def)
  moreover have "client_step ?c1 (close_events ?c1)" by (rule stream_ends) (simp add: client_new_def)
  moreover have "client_step (close_events ?c1) ?c3" by (rule reader_cleans) (simp add: close_events_def)
  ultimately have "client_step\<^sup>*\<^sup>* client_new ?c3" 
    by (blast intro: rtranclp.rtrancl_into_rtrancl)
  from requests_settled [OF this, of "''q''"] have "request_poll ''q'' ?c3 \<noteq> None"
    by (simp add: clear_pending_def)
  then show ?thesis
    by (intro exI [of _ ?c3]) (simp add: clear_pending_def close_events_def client_new_def request_poll_def)
qed

subsection \<open>Waiting\<close>

text \<open>C33. Waiting on the backlog ends whatever the server answers: it sends at most as many history requests
  as there are sequence numbers between the caller's bookmark and the tip, since what later requests
  would return does not matter.\<close>

theorem wait_backlog_bounded:
  assumes "\<And>j c. j < k + nat (tip - scanned) \<Longrightarrow> page' j c = page j c"
  shows "wait_backlog me page' tip k scanned = wait_backlog me page tip k scanned"
  using assms
proof (induction me page tip k scanned rule: wait_backlog.induct)
  case (1 me page tip k scanned)
  show ?case
  proof (cases "scanned < tip")
    case True
    then have here: "page' k scanned = page k scanned" by (intro "1.prems") simp
    show ?thesis
    proof (cases "page k scanned")
      case (Inr backlog)
      obtain s1 adv r where sp: "scan_page me tip scanned False backlog = (s1, adv, r)" by (metis prod_cases3)
      have "wait_backlog me page' tip (k + 1) s1 = wait_backlog me page tip (k + 1) s1" if "r = None" "adv"
      proof (rule "1.IH" [OF True Inr sp [symmetric] refl that])
        fix j c assume "j < k + 1 + nat (tip - s1)"
        moreover have "scanned < s1" using sp that by (auto dest: scan_page_advanced)
        ultimately show "page' j c = page j c" using True by (intro "1.prems") linarith
      qed
      with True here Inr sp show ?thesis
        by (simp add: wait_backlog.simps [of _ page'] wait_backlog.simps [of _ page] split: option.split)
    qed (use True here in \<open>simp add: wait_backlog.simps [of _ page'] wait_backlog.simps [of _ page]\<close>)
  qed (simp add: wait_backlog.simps)
qed

definition demo_me :: client_id where
  "demo_me = \<lparr>ci_agent_id = ''a2'', ci_agent_name = ''Bob'', ci_stable = True, ci_room_secret = None\<rparr>"

theorem wait_backlog_bounded_witness:
  "\<exists>page. wait_backlog demo_me page 3 0 1 = wait_backlog demo_me (\<lambda>_ _. Inl ConnectionClosed) 3 0 1 \<and> page 9 0 = Inr []"
proof -
  let ?page = "\<lambda>k c. if k < 2 then Inl ConnectionClosed else Inr []"
  have "wait_backlog demo_me ?page 3 0 1 = wait_backlog demo_me (\<lambda>_ _. Inl ConnectionClosed) 3 0 1"
    by (rule wait_backlog_bounded) simp
  then show ?thesis by (intro exI [of _ ?page]) simp
qed

text \<open>The backlog of a well-formed store: \<open>peer me\<close> are the messages that end a wait.\<close>

definition peer :: "client_id \<Rightarrow> chat_message \<Rightarrow> bool" where
  "peer me m \<longleftrightarrow> meta_type m \<noteq> Some ''thinking'' \<and> meta_type m \<noteq> Some ''system'' \<and> \<not> is_self_message me m"

lemma decrypt_message_sel [simp]:
  "cm_seq (decrypt_message lib me m) = cm_seq m" "cm_metadata (decrypt_message lib me m) = cm_metadata m"
  "cm_agent_id (decrypt_message lib me m) = cm_agent_id m" "cm_agent_name (decrypt_message lib me m) = cm_agent_name m"
  "cm_room_id (decrypt_message lib me m) = cm_room_id m"
  by (auto simp: decrypt_message_def split: option.splits sum.splits)

lemma peer_decrypt [simp]: "peer me' (decrypt_message lib me m) = peer me' m"
  by (simp add: peer_def is_self_message_def)

lemma scan_page_ascending:
  assumes "sorted_wrt (\<lambda>m m'. cm_seq m < cm_seq m') ms" "\<forall>m \<in> set ms. scanned < cm_seq m \<and> cm_seq m \<le> tip"
  shows "scan_page me tip scanned advanced ms
       = (case find (peer me) ms of
            Some m \<Rightarrow> (cm_seq m, True, Some m)
          | None \<Rightarrow> (room_seq.next_cursor scanned ms, advanced \<or> ms \<noteq> [], None))"
  using assms
proof (induction ms arbitrary: scanned advanced)
  case (Cons m ms)
  from Cons.prems have "\<forall>x \<in> set ms. cm_seq m < cm_seq x \<and> cm_seq x \<le> tip" by auto
  with Cons.IH [of "cm_seq m" True] Cons.prems(1)
  have "scan_page me tip (cm_seq m) True ms
      = (case find (peer me) ms of Some x \<Rightarrow> (cm_seq x, True, Some x)
         | None \<Rightarrow> (room_seq.next_cursor (cm_seq m) ms, True, None))" by (simp split: option.split)
  moreover have "scanned < cm_seq m" "cm_seq m \<le> tip" using Cons.prems(2) by auto
  ultimately show ?case
    by (auto simp: room_seq.next_cursor_def peer_def [of me m] split: option.splits)
qed (simp add: room_seq.next_cursor_def)

lemma find_append: "find P (xs @ ys) = (case find P xs of Some x \<Rightarrow> Some x | None \<Rightarrow> find P ys)"
  by (induction xs) auto

lemma find_map_peer: "find (peer me) (map (decrypt_message lib me') ms)
    = map_option (decrypt_message lib me') (find (peer me) ms)"
  by (induction ms) auto

abbreviation behind :: "store \<Rightarrow> string \<Rightarrow> int \<Rightarrow> chat_message list" where
  "behind s r c \<equiv> filter (\<lambda>m. c < cm_seq m) (room_log s r)"

abbreviation read_page :: "aead_lib \<Rightarrow> client_id \<Rightarrow> store \<Rightarrow> string \<Rightarrow> nat \<Rightarrow> int \<Rightarrow> client_error + chat_message list" where
  "read_page lib me s r \<equiv> (\<lambda>k c. Inr (map (decrypt_message lib me) (history_page s r c 32)))"

lemma next_cursor_map [simp]:
  "room_seq.next_cursor c (map (decrypt_message lib me) ms) = room_seq.next_cursor c ms"
  by (simp add: room_seq.next_cursor_def last_map)

lemma wait_backlog_store:
  assumes wf: "store_wf s"
  shows "wait_backlog me (read_page lib me s r) (high_water s r) k c
       = Inr (map_option (decrypt_message lib me) (find (peer me) (behind s r c)))"
proof (induction "length (behind s r c)" arbitrary: c k rule: less_induct)
  case less
  let ?L = "behind s r c" and ?p = "history_page s r c 32"
  have page: "?p = take 32 ?L" by (rule room_seq.page_eq [OF wf])
  have le: "cm_seq m \<le> high_water s r" if "m \<in> set ?L" for m
    using that room_log_bound [OF wf] by auto
  show ?case
  proof (cases "c < high_water s r")
    case False
    then have "?L = []" using room_log_bound [OF wf] by (fastforce simp: filter_empty_conv)
    with False show ?thesis by (simp add: wait_backlog.simps)
  next
    case True
    let ?q = "map (decrypt_message lib me) ?p"
    have "sorted_wrt (\<lambda>m m'. cm_seq m < cm_seq m') ?L"
      by (rule sorted_wrt_filter [OF room_seq.log_sorted [OF wf]])
    then have sorted: "sorted_wrt (\<lambda>m m'. cm_seq m < cm_seq m') ?q"
      by (simp add: page sorted_wrt_map sorted_wrt_take)
    have "\<forall>m \<in> set ?q. c < cm_seq m \<and> cm_seq m \<le> high_water s r"
      using le by (auto simp: page dest!: in_set_takeD)
    note sp = scan_page_ascending [OF sorted this, of me False]
    show ?thesis
    proof (cases "find (peer me) ?p")
      case (Some m)
      then have "find (peer me) ?L = Some m"
        using find_append [of "peer me" ?p "drop 32 ?L"] by (simp add: page)
      with True Some sp show ?thesis by (simp add: wait_backlog.simps find_map_peer)
    next
      case None
      show ?thesis
      proof (cases "?p = []")
        case True
        then have "?L = []" using page by simp
        with True \<open>c < high_water s r\<close> sp show ?thesis by (simp add: wait_backlog.simps)
      next
        case False
        note next_behind = room_seq.filter_next_cursor [OF wf False]
        have "?L \<noteq> []" using False page by auto
        then have "length (drop 32 ?L) < length ?L" by simp
        then have "wait_backlog me (read_page lib me s r) (high_water s r) (k + 1) (room_seq.next_cursor c ?p)
            = Inr (map_option (decrypt_message lib me) (find (peer me) (drop 32 ?L)))"
          using less [of "room_seq.next_cursor c ?p" "k + 1"] unfolding next_behind by blast
        moreover have "find (peer me) ?L = find (peer me) (drop 32 ?L)"
          using None find_append [of "peer me" ?p "drop 32 ?L"] by (simp add: page)
        ultimately show ?thesis
          using True None False sp by (subst wait_backlog.simps) (simp add: find_map_peer)
      qed
    qed
  qed
qed

text \<open>C11. Waiting from a bookmark misses nothing: when the server answers from a well-formed store, the wait
  returns the oldest message behind the bookmark that a peer wrote, decrypted, however many pages of
  own, thinking and system messages lie before it; it goes on to the live events only if there is none.\<close>

theorem wait_returns_oldest_unread:
  assumes "store_wf s"
  shows "wait_for_message lib decode me r (Some c) (Inr (high_water s r)) (read_page lib me s r) es
       = (case find (peer me) (behind s r c) of
            Some m \<Rightarrow> Some (Inr (Some (decrypt_message lib me m)))
          | None \<Rightarrow> wait_live lib decode me r es)"
  using wait_backlog_store [OF assms, of me lib r 0 c]
  by (simp add: wait_for_message_def split: option.split)

theorem wait_returns_oldest_unread_witness:
  "\<exists>s m. wait_for_message demo_lib (\<lambda>_. None) demo_me ''r1'' (Some 0) (Inr (high_water s ''r1''))
       (read_page demo_lib demo_me s ''r1'') [] = Some (Inr (Some m)) \<and> cm_content m = ''hi''"
proof -
  let ?s = "snd (insert_message False 7 ''m1'' ''r1'' ''a1'' ''Ann'' ''hi'' None (JObj []) demo_store)"
  have "store_wf ?s" by (rule wf_insert_message [OF demo_store_wf])
  from wait_returns_oldest_unread [OF this, of demo_lib "\<lambda>_. None" demo_me "''r1''" 0 "[]"]
  show ?thesis
    by (intro exI [of _ ?s])
       (simp add: demo_insert room_log_def map_message_row_def peer_def is_self_message_def demo_me_def decrypt_message_def)
qed

subsection \<open>Encryption, end to end\<close>

text \<open>C16. Encrypted messages come back: what a client with a room secret sends is never refused as plaintext,
  the server stores only the ciphertext, and a client with the same secret reads from the room's log
  exactly the text that was written.\<close>

theorem sealed_message_roundtrip:
  assumes "aead_laws lib" "length nonce = NONCE_LEN" "utf8_valid text"
    and "ci_room_secret me = Some secret" "ci_room_secret you = Some secret"
    and "insert_message False now mid r aid an (encrypt_content lib nonce me r text) rp md s = (Inr m, s')"
  shows "\<not> plaintext_in_encrypted_room f (encrypt_content lib nonce me r text) r s
    \<and> room_log s' r = room_log s r @ [m] \<and> is_ciphertext (cm_content m)
    \<and> cm_content (decrypt_message lib you m) = text"
proof -
  let ?c = "encrypt lib nonce secret r text"
  have c: "encrypt_content lib nonce me r text = ?c" by (simp add: encrypt_content_def assms(4))
  have m: "cm_content m = ?c" "cm_room_id m = r"
    using insert_message_stored(2,4) [of False now mid r aid an ?c rp md s m] assms(6) by (simp_all add: c)
  moreover have "room_log s' r = room_log s r @ [m]"
    using room_log_insert [of False now mid r aid an ?c rp md s m r] assms(6) by (simp add: c)
  ultimately show ?thesis
    using decrypt_encrypt [OF assms(1-3), of secret r]
    by (simp add: c plaintext_in_encrypted_room_def decrypt_message_def assms(5))
qed

theorem sealed_message_roundtrip_witness:
  "\<exists>m s'. insert_message False 7 ''m1'' ''r1'' ''a1'' ''Ann''
       (encrypt_content demo_lib (replicate 12 CHR ''n'') (set_room_secret ''k'' demo_me) ''r1'' ''hi'') None (JObj []) demo_store = (Inr m, s')
     \<and> cm_content (decrypt_message demo_lib (set_room_secret ''k'' demo_me) m) = ''hi''"
proof -
  let ?me = "set_room_secret ''k'' demo_me" and ?n = "replicate 12 CHR ''n''"
  let ?ins = "insert_message False 7 ''m1'' ''r1'' ''a1'' ''Ann'' (encrypt_content demo_lib ?n ?me ''r1'' ''hi'') None (JObj []) demo_store"
  have "\<exists>m s'. ?ins = (Inr m, s')"
    by (simp add: insert_message_def ensure_sequence_def insert_message_row_def room_exists_def high_water_def
        demo_store_def Let_def)
  then obtain m s' where ins: "?ins = (Inr m, s')" by blast
  have u: "utf8_valid ''hi''" by (simp add: utf8_len_def byte_def)
  have n: "length ?n = NONCE_LEN" by (simp add: NONCE_LEN_def)
  have k: "ci_room_secret ?me = Some ''k''" by (simp add: set_room_secret_def)
  from sealed_message_roundtrip [OF demo_lib_laws n u k k ins, of False] ins show ?thesis by blast
qed

end
