(* ===== verification/Cli.thy ===== *)
theory Cli
  imports Client_Safety Web Serde
begin

text \<open>
  The command-line client (\<open>main.rs\<close> of \<open>cowchat-cli\<close>): its settings, decimal numbers and the cursor file,
  room references, the rendering of messages, events and exports, and the interactive shell. Argument
  parsing, connecting and printing are not modelled: a command is what \<open>clap\<close> makes of the arguments,
  an answer of the server is an argument, and what is printed is a value. \<open>clock\<close> is chrono's formatting of a
  timestamp, \<open>print_json\<close> is \<open>serde_json::to_string\<close>, \<open>debug\<close> the \<open>Debug\<close> formatting of a value.
\<close>

subsection \<open>Decimal numbers\<close>

text \<open>\<open>i64::to_string\<close> and \<open>str::parse::<i64>\<close>.\<close>

definition digit_char :: "nat \<Rightarrow> char" where
  "digit_char d = char_of (48 + d)"

definition digit_value :: "char \<Rightarrow> nat option" where
  "digit_value c = (if 48 \<le> byte c \<and> byte c \<le> 57 then Some (byte c - 48) else None)"

fun show_nat :: "nat \<Rightarrow> string" where
  "show_nat n = (if n < 10 then [digit_char n] else show_nat (n div 10) @ [digit_char (n mod 10)])"

declare show_nat.simps [simp del]

definition show_int :: "int \<Rightarrow> string" where
  "show_int i = (if i < 0 then CHR ''-'' # show_nat (nat (- i)) else show_nat (nat i))"

fun parse_digits :: "nat \<Rightarrow> string \<Rightarrow> nat option" where
  "parse_digits n [] = Some n"
| "parse_digits n (c # cs) = (case digit_value c of None \<Rightarrow> None | Some d \<Rightarrow> parse_digits (10 * n + d) cs)"

definition parse_i64 :: "string \<Rightarrow> int option" where
  "parse_i64 s =
     (case s of
        [] \<Rightarrow> None
      | c # cs \<Rightarrow>
          if c = CHR ''-'' \<or> c = CHR ''+''
          then (if cs = [] then None
                else Option.bind (parse_digits 0 cs) (\<lambda>n. in_i64 (if c = CHR ''-'' then - int n else int n)))
          else Option.bind (parse_digits 0 s) (\<lambda>n. in_i64 (int n)))"

lemma byte_char_of: "n < 256 \<Longrightarrow> byte (char_of n) = n"
  by (simp add: byte_def)

lemma digit_value_char [simp]: "d < 10 \<Longrightarrow> digit_value (digit_char d) = Some d"
  by (simp add: digit_value_def digit_char_def byte_char_of)

lemma parse_digits_append:
  "parse_digits n (xs @ ys) = Option.bind (parse_digits n xs) (\<lambda>k. parse_digits k ys)"
  by (induction xs arbitrary: n) (auto split: option.split)

lemma show_nat_nonempty [simp]: "show_nat n \<noteq> []"
  by (subst show_nat.simps) simp

lemma parse_show_nat: "parse_digits 0 (show_nat n) = Some n"
proof (induction n rule: show_nat.induct)
  case (1 n)
  then show ?case by (subst show_nat.simps) (simp add: parse_digits_append)
qed

lemma show_nat_digits: "list_all (\<lambda>c. \<exists>d < 10. c = digit_char d) (show_nat n)"
proof (induction n rule: show_nat.induct)
  case (1 n)
  have "\<exists>d < 10. digit_char (n mod 10) = digit_char d" by (intro exI [of _ "n mod 10"]) simp
  with 1 show ?case by (subst show_nat.simps) (auto simp: list_all_iff)
qed

lemma byte_digit: "d < 10 \<Longrightarrow> byte (digit_char d) = 48 + d"
  by (simp add: digit_char_def byte_char_of)

lemma byte_sign: "byte (CHR ''-'') = 45" "byte (CHR ''+'') = 43"
  by (simp_all add: byte_def)

definition printable :: "char \<Rightarrow> bool" where
  "printable c \<longleftrightarrow> 33 \<le> byte c \<and> byte c < 127"

lemma show_int_plain: "list_all printable (show_int i)"
  using show_nat_digits [of "nat (- i)"] show_nat_digits [of "nat i"]
  by (auto simp: show_int_def list_all_iff printable_def byte_digit byte_sign)

lemma chars_plain: "list_all printable s \<Longrightarrow> chars s = map (\<lambda>c. [c]) s"
proof (induction s)
  case (Cons c s)
  have "takeWhile is_cont s = [] \<and> dropWhile is_cont s = s"
    using Cons.prems by (cases s) (auto simp: printable_def is_cont_def)
  with Cons show ?case by simp
qed simp

lemma trim_plain: "list_all printable s \<Longrightarrow> trim s = s"
proof -
  assume p: "list_all printable s"
  have ws: "\<not> is_whitespace [c]" if "c \<in> set s" for c
    using that p by (auto simp: list_all_iff printable_def is_whitespace_def)
  have "trim_seqs (chars s) = chars s"
  proof (rule trim_seqs_id, cases "s = []")
    case False
    then show "chars s = [] \<or> \<not> is_whitespace (hd (chars s)) \<and> \<not> is_whitespace (last (chars s))"
      using ws by (simp add: chars_plain [OF p] hd_map last_map)
  qed simp
  then show ?thesis by (simp add: trim_def)
qed

lemma parse_show_int:
  assumes "I64_MIN \<le> i" "i \<le> I64_MAX"
  shows "parse_i64 (show_int i) = Some i"
proof (cases "i < 0")
  case True
  with assms show ?thesis by (simp add: show_int_def parse_i64_def parse_show_nat in_i64_def)
next
  case False
  obtain c cs where c: "show_nat (nat i) = c # cs" by (meson neq_Nil_conv show_nat_nonempty)
  with show_nat_digits [of "nat i"] obtain d where "d < 10" "c = digit_char d" by auto
  then have "c \<noteq> CHR ''-'' \<and> c \<noteq> CHR ''+''" using byte_digit byte_sign by fastforce
  with False assms c parse_show_nat [of "nat i"] show ?thesis
    by (simp add: show_int_def parse_i64_def in_i64_def)
qed

subsection \<open>The cursor file\<close>

text \<open>\<open>write_cursor_atomic\<close> writes a temporary file and renames it over the old one: the file holds the old or the
  new cursor, and no failure changes it. \<open>advance_cursor\<close> moves the cursor in memory only after that.\<close>

definition read_cursor :: "string option \<Rightarrow> int option" where
  "read_cursor contents = Option.bind contents (\<lambda>s. parse_i64 (trim s))"

definition write_cursor_atomic :: "bool \<Rightarrow> int \<Rightarrow> string option \<Rightarrow> (unit + unit) \<times> string option" where
  "write_cursor_atomic fault n contents =
     (if fault then (Inl (), contents) else (Inr (), Some (show_int n)))"

lemma read_write_cursor:
  "I64_MIN \<le> n \<Longrightarrow> n \<le> I64_MAX \<Longrightarrow> read_cursor (snd (write_cursor_atomic False n contents)) = Some n"
  by (simp add: read_cursor_def write_cursor_atomic_def trim_plain [OF show_int_plain] parse_show_int)

record bookmark =
  bm_cursor :: "int option"
  bm_file :: "string option"

definition advance_cursor :: "bool \<Rightarrow> bool \<Rightarrow> int \<Rightarrow> bookmark \<Rightarrow> (client_error + unit) \<times> bookmark" where
  "advance_cursor cursor_file fault n b =
     (if cursor_file then
        case write_cursor_atomic fault n (bm_file b) of
          (Inl _, f) \<Rightarrow> (Inl ClientIo, b\<lparr>bm_file := f\<rparr>)
        | (Inr _, f) \<Rightarrow> (Inr (), b\<lparr>bm_file := f, bm_cursor := Some n\<rparr>)
      else (Inr (), b\<lparr>bm_cursor := Some n\<rparr>))"

definition is_retryable_wait_error :: "client_error \<Rightarrow> bool" where
  "is_retryable_wait_error e \<longleftrightarrow> e \<in> {ClientIo, ConnectionClosed, TimedOut, ChannelError, WsError}"

subsection \<open>Settings\<close>

text \<open>The environment is a map; an unset flag is \<open>None\<close>. \<open>clap\<close>'s default of \<open>--name\<close> is \<open>cli\<close>.\<close>

datatype cli_command =
    CSend | CThinking | CRooms | CAgents | CHistory | CWait | CMonitor | CShell | CStatus | CKeygen
  | CSkill | CSub | CInvites | CExport | CVote | CElection | CPresence | CLantern

record cli =
  cli_name :: string
  cli_agent_id :: "string option"
  cli_room_key :: "string option"
  cli_command :: cli_command

definition non_empty :: "string option \<Rightarrow> string option" where
  "non_empty v = (if v = Some [] then None else v)"

definition env_non_empty :: "(string \<Rightarrow> string option) \<Rightarrow> string \<Rightarrow> string option" where
  "env_non_empty env key = non_empty (env key)"

definition or_else :: "'a option \<Rightarrow> 'a option \<Rightarrow> 'a option" where
  "or_else a b = (case a of Some _ \<Rightarrow> a | None \<Rightarrow> b)"

definition resolve_agent_id :: "(string \<Rightarrow> string option) \<Rightarrow> cli \<Rightarrow> string option" where
  "resolve_agent_id env c = or_else (non_empty (cli_agent_id c)) (env_non_empty env ''COWCHAT_AGENT_ID'')"

definition command_represents_agent_session :: "cli_command \<Rightarrow> bool" where
  "command_represents_agent_session cmd \<longleftrightarrow> cmd \<in> {CSend, CThinking, CWait, CShell, CPresence}"

definition require_stable_named_agent :: "(string \<Rightarrow> string option) \<Rightarrow> cli \<Rightarrow> bool" where
  "require_stable_named_agent env c \<longleftrightarrow>
     \<not> (cli_name c \<noteq> ''cli'' \<and> command_represents_agent_session (cli_command c) \<and> resolve_agent_id env c = None)"

definition resolve_room_key :: "(string \<Rightarrow> string option) \<Rightarrow> string option \<Rightarrow> string option" where
  "resolve_room_key env flag = or_else (non_empty flag) (env_non_empty env ''COWCHAT_ROOM_KEY'')"

definition decrypt_field :: "aead_lib \<Rightarrow> string option \<Rightarrow> string \<Rightarrow> string \<Rightarrow> string" where
  "decrypt_field lib secret room_id content =
     (case secret of
        Some s \<Rightarrow>
          if is_ciphertext content
          then (case decrypt lib s room_id content of Inr plain \<Rightarrow> plain | Inl _ \<Rightarrow> content)
          else content
      | None \<Rightarrow> content)"

text \<open>What a room reference stands for: an identifier, or a name that one listed room has.\<close>

datatype cli_error = CliClient client_error | RoomNotKnown | RoomAmbiguous | BadSinceSeq | OutputFailed

definition resolve_room_id :: "client_error + room \<Rightarrow> client_error + room list \<Rightarrow> string \<Rightarrow> cli_error + string" where
  "resolve_room_id info rooms r =
     (case info of
        Inr _ \<Rightarrow> Inr r
      | Inl e \<Rightarrow>
          if e \<noteq> ServerError RoomNotFound then Inl (CliClient e)
          else
            (case rooms of
               Inl e \<Rightarrow> Inl (CliClient e)
             | Inr rs \<Rightarrow>
                 (case filter (\<lambda>x. rm_name x = r) rs of
                    [single] \<Rightarrow> Inr (rm_room_id single)
                  | [] \<Rightarrow> Inl RoomNotKnown
                  | _ \<Rightarrow> Inl RoomAmbiguous)))"

function trim_end_matches :: "string \<Rightarrow> string \<Rightarrow> string" where
  "trim_end_matches pat s =
     (if pat \<noteq> [] \<and> length pat \<le> length s \<and> drop (length s - length pat) s = pat
      then trim_end_matches pat (take (length s - length pat) s) else s)"
  by pat_completeness auto
termination
  by (relation "measure (\<lambda>(_, s). length s)") (auto simp flip: length_greater_0_conv)

declare trim_end_matches.simps [simp del]

definition invite_http_base :: "string option \<Rightarrow> string" where
  "invite_http_base ws_url =
     (case ws_url of
        None \<Rightarrow> ''https://<host>''
      | Some url \<Rightarrow>
          let base = (case strip_prefix ''wss://'' url of
                        Some rest \<Rightarrow> ''https://'' @ rest
                      | None \<Rightarrow> (case strip_prefix ''ws://'' url of
                                   Some rest \<Rightarrow> ''http://'' @ rest | None \<Rightarrow> url))
          in trim_end_matches ''/'' (trim_end_matches ''/ws'' (trim_end_matches ''/'' base)))"

end
