(* ===== verification/Follow.thy ===== *)
theory Follow
  imports Cli
begin

text \<open>
  Waiting on the command line (\<open>run_wait_follow\<close> and the \<open>Wait\<close> command of \<open>main.rs\<close>). A following wait is a
  state machine: connect, resolve the room, find a first cursor, join; then read the history behind the
  cursor, or wait for one message where there is none, and handle the batch message by message. An
  error of a phase leads back to connecting after a pause. What the server, the clock and the files
  answer in one turn is a \<open>follow_env\<close>. The watchers that print to the error stream and the heartbeat only
  print and are not modelled.
\<close>

definition KIND_CONVERSATION_END :: string where
  "KIND_CONVERSATION_END = ''conversation_end''"

abbreviation meta_kind :: "chat_message \<Rightarrow> string option" where
  "meta_kind m \<equiv> json_get_str ''kind'' (cm_metadata m)"

record wait_options =
  wo_since_seq :: "string option"
  wo_only_from :: "string option"
  wo_not_from :: "string option"
  wo_only_kind :: "string option"
  wo_show_thinking :: bool
  wo_cursor_file :: bool

text \<open>The filters, the closure \<open>matches\<close> of the \<open>Wait\<close> command and the condition in \<open>run_wait_follow\<close>.\<close>

definition matches :: "wait_options \<Rightarrow> chat_message \<Rightarrow> bool" where
  "matches wo m \<longleftrightarrow>
     (case wo_only_from wo of Some want \<Rightarrow> cm_agent_name m = want | None \<Rightarrow> True)
     \<and> (case wo_not_from wo of Some skip \<Rightarrow> cm_agent_name m \<noteq> skip | None \<Rightarrow> True)
     \<and> (case wo_only_kind wo of Some want \<Rightarrow> meta_kind m = Some want | None \<Rightarrow> True)"

subsection \<open>A batch\<close>

text \<open>The output is the list of the messages written, each as its line; \<open>fl_thoughts\<close> is what goes to the error
  stream. \<open>out_fault\<close> and \<open>cur_fault\<close> tell which of the writes fail.\<close>

record follow_state =
  fl_mark :: bookmark
  fl_printed :: "chat_message list"
  fl_thoughts :: "chat_message list"

datatype outcome = Goes | Fails client_error | Exits nat

definition behind_cursor :: "int option \<Rightarrow> chat_message \<Rightarrow> bool" where
  "behind_cursor bookm m \<longleftrightarrow> (case bookm of Some c \<Rightarrow> c < cm_seq m | None \<Rightarrow> True)"

definition advance_to :: "wait_options \<Rightarrow> bool \<Rightarrow> chat_message \<Rightarrow> outcome \<Rightarrow> follow_state \<Rightarrow> outcome \<times> follow_state" where
  "advance_to wo fault m next_outcome st =
     (case advance_cursor (wo_cursor_file wo) fault (cm_seq m) (fl_mark st) of
        (Inl e, b) \<Rightarrow> (Fails e, st\<lparr>fl_mark := b\<rparr>)
      | (Inr _, b) \<Rightarrow> (next_outcome, st\<lparr>fl_mark := b\<rparr>))"

definition follow_message ::
    "wait_options \<Rightarrow> client_id \<Rightarrow> (int \<Rightarrow> bool) \<Rightarrow> (int \<Rightarrow> bool) \<Rightarrow> chat_message \<Rightarrow> follow_state \<Rightarrow> outcome \<times> follow_state" where
  "follow_message wo me out_fault cur_fault m st =
     (let cur = cur_fault (cm_seq m) in
      if \<not> behind_cursor (bm_cursor (fl_mark st)) m then (Goes, st)
      else if meta_type m = Some ''thinking'' then
        advance_to wo cur m Goes
          (if wo_show_thinking wo \<and> \<not> is_self_message me m then st\<lparr>fl_thoughts := fl_thoughts st @ [m]\<rparr> else st)
      else if meta_type m = Some ''system'' \<or> is_self_message me m then advance_to wo cur m Goes st
      else if \<not> matches wo m then advance_to wo cur m Goes st
      else if out_fault (cm_seq m) then (Fails ClientIo, st)
      else advance_to wo cur m (if meta_kind m = Some KIND_CONVERSATION_END then Exits 3 else Goes)
             (st\<lparr>fl_printed := fl_printed st @ [m]\<rparr>))"

fun follow_batch ::
    "wait_options \<Rightarrow> client_id \<Rightarrow> (int \<Rightarrow> bool) \<Rightarrow> (int \<Rightarrow> bool) \<Rightarrow> chat_message list \<Rightarrow> follow_state \<Rightarrow> outcome \<times> follow_state" where
  "follow_batch wo me out_fault cur_fault [] st = (Goes, st)"
| "follow_batch wo me out_fault cur_fault (m # ms) st =
     (case follow_message wo me out_fault cur_fault m st of
        (Goes, st') \<Rightarrow> follow_batch wo me out_fault cur_fault ms st'
      | stop \<Rightarrow> stop)"

subsection \<open>The loop\<close>

record follow_env =
  fe_connect :: "client_error + unit"
  fe_room :: "cli_error + string"
  fe_tip :: "client_error + int"
  fe_join :: "client_error + unit"
  fe_history :: "int option \<Rightarrow> client_error + chat_message list"
  fe_wait :: "int option \<Rightarrow> client_error + chat_message option"
  fe_out_fault :: "int \<Rightarrow> bool"
  fe_cur_fault :: "int \<Rightarrow> bool"

datatype follow_phase = Connecting | Polling string | Refused cli_error | Finished nat

record follower =
  fw_phase :: follow_phase
  fw_state :: follow_state
  fw_backoff :: nat

definition follow_start :: "wait_options \<Rightarrow> string option \<Rightarrow> follower" where
  "follow_start wo contents =
     \<lparr>fw_phase = Connecting,
      fw_state = \<lparr>fl_mark = \<lparr>bm_cursor = (if wo_cursor_file wo then read_cursor contents else None), bm_file = contents\<rparr>,
                  fl_printed = [], fl_thoughts = []\<rparr>,
      fw_backoff = 1\<rparr>"

definition retry_later :: "follower \<Rightarrow> follower" where
  "retry_later fw = fw\<lparr>fw_phase := Connecting, fw_backoff := min (fw_backoff fw * 2) 30\<rparr>"

text \<open>The first cursor: an error of the tip is retried, a cursor that is no number ends the command.\<close>

definition first_cursor :: "wait_options \<Rightarrow> client_error + int \<Rightarrow> int option \<Rightarrow> (cli_error + int) option" where
  "first_cursor wo tip bookm =
     (let of_tip = (case tip of Inl _ \<Rightarrow> None | Inr t \<Rightarrow> Some (Inr t)) in
      case bookm of
        Some c \<Rightarrow> Some (Inr c)
      | None \<Rightarrow>
          (case wo_since_seq wo of
             None \<Rightarrow> of_tip
           | Some s \<Rightarrow>
               if eq_ignore_ascii_case s ''tip'' \<or> eq_ignore_ascii_case s ''auto'' then of_tip
               else case parse_i64 s of Some c \<Rightarrow> Some (Inr c) | None \<Rightarrow> Some (Inl BadSinceSeq)))"

definition set_cursor :: "int \<Rightarrow> follower \<Rightarrow> follower" where
  "set_cursor c fw = fw\<lparr>fw_state := (fw_state fw)\<lparr>fl_mark := (fl_mark (fw_state fw))\<lparr>bm_cursor := Some c\<rparr>\<rparr>\<rparr>"

abbreviation fw_cursor :: "follower \<Rightarrow> int option" where
  "fw_cursor fw \<equiv> bm_cursor (fl_mark (fw_state fw))"

definition follow_connect :: "wait_options \<Rightarrow> follow_env \<Rightarrow> follower \<Rightarrow> follower" where
  "follow_connect wo env fw =
     (case fe_connect env of Inl _ \<Rightarrow> retry_later fw
      | Inr _ \<Rightarrow>
     (case fe_room env of Inl _ \<Rightarrow> retry_later fw
      | Inr room_id \<Rightarrow>
     (case first_cursor wo (fe_tip env) (fw_cursor fw) of
        None \<Rightarrow> retry_later fw
      | Some (Inl e) \<Rightarrow> fw\<lparr>fw_phase := Refused e\<rparr>
      | Some (Inr c) \<Rightarrow>
          let fw = set_cursor c fw in
          case fe_join env of Inl _ \<Rightarrow> retry_later fw
          | Inr _ \<Rightarrow> fw\<lparr>fw_phase := Polling room_id, fw_backoff := 1\<rparr>)))"

definition follow_poll :: "wait_options \<Rightarrow> client_id \<Rightarrow> follow_env \<Rightarrow> follow_state \<Rightarrow> outcome \<times> follow_state" where
  "follow_poll wo me env st =
     (let bookm = bm_cursor (fl_mark st);
          handle = (\<lambda>batch. follow_batch wo me (fe_out_fault env) (fe_cur_fault env) batch st)
      in case fe_history env bookm of
           Inl e \<Rightarrow> (Fails e, st)
         | Inr ms \<Rightarrow>
             let batch = sort_key cm_seq ms in
             if batch \<noteq> [] then handle batch
             else case fe_wait env bookm of
               Inl e \<Rightarrow> (Fails e, st)
             | Inr None \<Rightarrow> handle []
             | Inr (Some m) \<Rightarrow> handle [m])"

definition follow_step :: "wait_options \<Rightarrow> client_id \<Rightarrow> follow_env \<Rightarrow> follower \<Rightarrow> follower" where
  "follow_step wo me env fw =
     (case fw_phase fw of
        Connecting \<Rightarrow> follow_connect wo env fw
      | Polling _ \<Rightarrow>
          (case follow_poll wo me env (fw_state fw) of
             (Goes, st) \<Rightarrow> fw\<lparr>fw_state := st\<rparr>
           | (Fails _, st) \<Rightarrow> retry_later (fw\<lparr>fw_state := st\<rparr>)
           | (Exits n, st) \<Rightarrow> fw\<lparr>fw_state := st, fw_phase := Finished n\<rparr>)
      | _ \<Rightarrow> fw)"

definition follow_run :: "wait_options \<Rightarrow> client_id \<Rightarrow> follow_env list \<Rightarrow> follower \<Rightarrow> follower" where
  "follow_run wo me envs fw = fold (follow_step wo me) envs fw"

subsection \<open>One-shot and looping waits\<close>

text \<open>The cursor of the \<open>Wait\<close> command.\<close>

definition resolved_since_seq :: "wait_options \<Rightarrow> string option \<Rightarrow> client_error + int \<Rightarrow> cli_error + int option" where
  "resolved_since_seq wo contents tip =
     (case (if wo_cursor_file wo then read_cursor contents else None) of
        Some seq \<Rightarrow> Inr (Some seq)
      | None \<Rightarrow>
          (case wo_since_seq wo of
             None \<Rightarrow> Inr None
           | Some s \<Rightarrow>
               if eq_ignore_ascii_case s ''tip'' \<or> eq_ignore_ascii_case s ''auto''
               then (case tip of Inl e \<Rightarrow> Inl (CliClient e) | Inr t \<Rightarrow> Inr (Some t))
               else case parse_i64 s of Some c \<Rightarrow> Inr (Some c) | None \<Rightarrow> Inl BadSinceSeq))"

text \<open>\<open>wait_loop\<close>: the answers to its calls of \<open>wait_for_message\<close>, in order, up to the one that ends it; no result means
  that it still waits. A retryable error is followed by reconnecting, which keeps the cursor. The first
  component is the bookmark that \<open>latest_seq\<close> mirrors.\<close>

fun wait_loop ::
    "wait_options \<Rightarrow> bool \<Rightarrow> int option \<Rightarrow> (int option \<Rightarrow> client_error + chat_message option) list
     \<Rightarrow> int option \<times> (client_error + chat_message option) option" where
  "wait_loop wo looping bookm [] = (bookm, None)"
| "wait_loop wo looping bookm (ask # asks) =
     (case ask bookm of
        Inr (Some m) \<Rightarrow>
          if matches wo m then (bookm, Some (Inr (Some m)))
          else if \<not> looping then (bookm, Some (Inr None))
          else wait_loop wo looping (Some (cm_seq m)) asks
      | Inr None \<Rightarrow> if looping then wait_loop wo looping bookm asks else (bookm, Some (Inr None))
      | Inl e \<Rightarrow> if looping \<and> is_retryable_wait_error e then wait_loop wo looping bookm asks else (bookm, Some (Inl e)))"

text \<open>What a wake prints: with \<open>--drain\<close> the unread rows and the wake message, without repetition.\<close>

fun dedup_by_seq :: "chat_message list \<Rightarrow> chat_message list" where
  "dedup_by_seq (m # m' # ms) =
     (if cm_seq m = cm_seq m' then dedup_by_seq (m # ms) else m # dedup_by_seq (m' # ms))"
| "dedup_by_seq ms = ms"

definition drained :: "client_id \<Rightarrow> client_error + chat_message list \<Rightarrow> chat_message \<Rightarrow> chat_message list" where
  "drained me history msg =
     (let rows = (case history of Inr ms \<Rightarrow> ms | Inl _ \<Rightarrow> []);
          kept = filter (\<lambda>m. meta_type m \<noteq> Some ''thinking'' \<and> meta_type m \<noteq> Some ''system'' \<and> \<not> is_self_message me m) rows;
          with_wake = (if list_ex (\<lambda>m. cm_seq m = cm_seq msg) kept then kept else kept @ [msg])
      in dedup_by_seq (sort_key cm_seq with_wake))"

text \<open>The end of the command: the messages written, the cursor file, the error if there is one and the exit
  code. The output is written before the cursor moves, and a cursor that cannot be written is only warned
  about.\<close>

definition wait_finish ::
    "wait_options \<Rightarrow> bool \<Rightarrow> client_id \<Rightarrow> client_error + chat_message list \<Rightarrow> bool \<Rightarrow> bool \<Rightarrow> string option
     \<Rightarrow> client_error + chat_message option \<Rightarrow> chat_message list \<times> string option \<times> cli_error option \<times> nat" where
  "wait_finish wo drain me history out_fault cur_fault contents matched =
     (case matched of
        Inl e \<Rightarrow> ([], contents, Some (CliClient e), 1)
      | Inr None \<Rightarrow> ([], contents, None, 1)
      | Inr (Some msg) \<Rightarrow>
          let batch = (if drain then drained me history msg else [msg]) in
          if out_fault then ([], contents, Some OutputFailed, 1)
          else
            let tip_seq = (if batch = [] then cm_seq msg else cm_seq (last batch));
                file = (if wo_cursor_file wo then snd (write_cursor_atomic cur_fault tip_seq contents) else contents)
            in (batch, file, None, if list_ex (\<lambda>m. meta_kind m = Some KIND_CONVERSATION_END) batch then 3 else 0))"

subsection \<open>What a wake shows\<close>

lemma dedup_by_seq_set: "cm_seq ` set (dedup_by_seq ms) = cm_seq ` set ms" "set (dedup_by_seq ms) \<subseteq> set ms"
  by (induction ms rule: dedup_by_seq.induct) auto

lemma dedup_by_seq_ascending:
  "sorted (map cm_seq ms) \<Longrightarrow> sorted_wrt (<) (map cm_seq (dedup_by_seq ms))"
proof (induction ms rule: dedup_by_seq.induct)
  case (1 m m' ms)
  show ?case
  proof (cases "cm_seq m = cm_seq m'")
    case False
    with 1 have "sorted_wrt (<) (map cm_seq (dedup_by_seq (m' # ms)))" by simp
    moreover have "\<forall>s \<in> cm_seq ` set (m' # ms). cm_seq m < s"
      using 1(3) False by fastforce
    ultimately show ?thesis
      using False dedup_by_seq_set(1) [of "m' # ms"] by auto
  qed (use 1 in auto)
qed simp_all

text \<open>A drained wake is in strictly ascending order, its messages are the wake message or of the history and
  of a peer, and it holds every such message of the history and the wake message, by their numbers.\<close>

lemma drained_spec:
  shows "sorted_wrt (<) (map cm_seq (drained me (Inr ms) msg))"
    and "set (drained me (Inr ms) msg) \<subseteq> insert msg {m \<in> set ms. peer me m}"
    and "cm_seq ` set (drained me (Inr ms) msg) = cm_seq ` (insert msg {m \<in> set ms. peer me m})"
proof -
  let ?kept = "filter (peer me) ms"
  let ?all = "if list_ex (\<lambda>m. cm_seq m = cm_seq msg) ?kept then ?kept else ?kept @ [msg]"
  have d: "drained me (Inr ms) msg = dedup_by_seq (sort_key cm_seq ?all)"
    by (simp add: drained_def peer_def [abs_def] Let_def)
  show "sorted_wrt (<) (map cm_seq (drained me (Inr ms) msg))"
    unfolding d by (rule dedup_by_seq_ascending) simp
  show "set (drained me (Inr ms) msg) \<subseteq> insert msg {m \<in> set ms. peer me m}"
    using dedup_by_seq_set(2) [of "sort_key cm_seq ?all"] unfolding d by (auto split: if_splits)
  show "cm_seq ` set (drained me (Inr ms) msg) = cm_seq ` (insert msg {m \<in> set ms. peer me m})"
    unfolding d dedup_by_seq_set(1) by (simp add: list_ex_iff insert_absorb) (metis (mono_tags, lifting) imageI insert_absorb mem_Collect_eq)
qed

text \<open>An unread row that is neither in the 500 rows of the history nor the wake message is not shown, and the
  cursor goes past it.\<close>

lemma drain_skips_unread:
  assumes "wo_cursor_file wo" "m \<notin> insert msg (set ms)" "cm_seq m < cm_seq msg"
    and "wait_finish wo True me (Inr ms) False False contents (Inr (Some msg)) = (shown, file, err, code)"
  shows "m \<notin> set shown \<and> (\<exists>n. file = Some (show_int n) \<and> cm_seq m < n)"
proof -
  let ?b = "drained me (Inr ms) msg"
  have shown: "shown = ?b" and cur: "?b \<noteq> [] \<Longrightarrow> file = Some (show_int (cm_seq (last ?b)))"
    using assms(1,4) by (auto simp: wait_finish_def write_cursor_atomic_def Let_def split: if_splits)
  have "cm_seq msg \<in> cm_seq ` set ?b" using drained_spec(3) [of me ms msg] by auto
  then obtain x where x: "x \<in> set ?b" "cm_seq x = cm_seq msg" by auto
  then have ne: "?b \<noteq> []" by auto
  then have "cm_seq x \<le> cm_seq (last ?b)"
    using x(1) drained_spec(1) [of me ms msg] by (cases ?b rule: rev_cases) (auto simp: sorted_wrt_append)
  with x(2) assms(2,3) cur [OF ne] drained_spec(2) [of me ms msg] shown show ?thesis by auto
qed

text \<open>The messages a looping wait has passed over are those its filters reject: the result matches, and it
  asks on from the last rejected one.\<close>

lemma wait_loop_matches:
  "wait_loop wo looping c asks = (c', Some (Inr (Some m))) \<Longrightarrow> matches wo m"
  by (induction asks arbitrary: c) (auto split: sum.splits option.splits if_splits)

lemma wait_loop_retries:
  "(\<forall>ask \<in> set asks. \<exists>e. ask c = Inl e \<and> is_retryable_wait_error e) \<Longrightarrow> wait_loop wo True c asks = (c, None)"
  by (induction asks) (auto split: sum.split)

end
