(* ===== verification/Follow_Safety.thy ===== *)
theory Follow_Safety
  imports Follow
begin

text \<open>
  What a following wait prints: the messages of the room's log that it wants, in order, once, up to its
  cursor, whatever connections and requests fail, as long as the cursor can be written and no event
  overtakes another; and all of them once the server answers. A live event that overtakes is shown to
  make it skip a message.
\<close>

definition wanted :: "wait_options \<Rightarrow> client_id \<Rightarrow> chat_message \<Rightarrow> bool" where
  "wanted wo me m \<longleftrightarrow> peer me m \<and> matches wo m"

abbreviation at_cursor :: "int \<Rightarrow> follow_state \<Rightarrow> bool" where
  "at_cursor c st \<equiv> bm_cursor (fl_mark st) = Some c"

abbreviation between :: "int \<Rightarrow> int \<Rightarrow> chat_message list \<Rightarrow> chat_message list" where
  "between c c' L \<equiv> filter (\<lambda>m. c < cm_seq m \<and> cm_seq m \<le> c') L"

abbreviation ascending :: "chat_message list \<Rightarrow> bool" where
  "ascending L \<equiv> sorted_wrt (\<lambda>m m'. cm_seq m < cm_seq m') L"

text \<open>One step of a follower at \<open>c\<close>, and what a run of steps comes to.\<close>

definition caught_up :: "wait_options \<Rightarrow> client_id \<Rightarrow> chat_message list \<Rightarrow> int \<Rightarrow> follow_state \<Rightarrow> int \<Rightarrow> follow_state \<Rightarrow> bool" where
  "caught_up wo me L c st c' st' \<longleftrightarrow>
     at_cursor c' st' \<and> c \<le> c'
     \<and> fl_printed st' = fl_printed st @ filter (wanted wo me) (between c c' L)
     \<and> (wo_cursor_file wo \<and> bm_file (fl_mark st) = Some (show_int c) \<longrightarrow> bm_file (fl_mark st') = Some (show_int c'))"

lemma caught_up_refl: "at_cursor c st \<Longrightarrow> caught_up wo me L c st c st"
proof -
  have none: "between c c L = []" by (auto simp: filter_empty_conv)
  assume "at_cursor c st"
  then show ?thesis unfolding caught_up_def none by simp
qed

lemma between_join:
  "ascending L \<Longrightarrow> c \<le> c' \<Longrightarrow> c' \<le> c'' \<Longrightarrow> between c c' L @ between c' c'' L = between c c'' L"
proof (induction L)
  case (Cons m L)
  show ?case
  proof (cases "cm_seq m \<le> c'")
    case True
    with Cons show ?thesis by auto
  next
    case False
    with Cons.prems have "between c c' L = []" by (auto simp: filter_empty_conv)
    with False Cons show ?thesis by auto
  qed
qed simp

lemma caught_up_trans:
  assumes "ascending L" "caught_up wo me L c st c' st'" "caught_up wo me L c' st' c'' st''"
  shows "caught_up wo me L c st c'' st''"
  using assms between_join [OF assms(1), of c c' c'']
  by (auto simp: caught_up_def simp del: filter_filter simp flip: filter_append)

text \<open>A message that is not behind anything unread.\<close>

lemma follow_message_step:
  assumes "at_cursor c st" "c < cm_seq m" "\<not> cur_fault (cm_seq m)"
    and "follow_message wo me out_fault cur_fault m st = (out, st')"
  shows "out = Fails ClientIo \<and> st' = st \<and> out_fault (cm_seq m) \<and> wanted wo me m
       \<or> at_cursor (cm_seq m) st' \<and> fl_printed st' = fl_printed st @ (if wanted wo me m then [m] else [])
         \<and> (wo_cursor_file wo \<longrightarrow> bm_file (fl_mark st') = Some (show_int (cm_seq m)))
         \<and> (out = Goes \<or> out = Exits 3 \<and> wanted wo me m \<and> meta_kind m = Some KIND_CONVERSATION_END)"
  using assms
  by (auto simp: follow_message_def advance_to_def advance_cursor_def write_cursor_atomic_def Let_def
      behind_cursor_def wanted_def peer_def split: if_splits)

lemma behind_mid: "filter (\<lambda>x. c < cm_seq x) L = xs @ m # rest \<Longrightarrow> c < cm_seq m"
proof -
  assume "filter (\<lambda>x. c < cm_seq x) L = xs @ m # rest"
  then have "m \<in> set (filter (\<lambda>x. c < cm_seq x) L)" by simp
  then show ?thesis by simp
qed

lemma between_first:
  assumes "ascending L" "filter (\<lambda>x. c < cm_seq x) L = xs @ m # rest"
  shows "between c (cm_seq m) L = xs @ [m]" "filter (\<lambda>x. cm_seq m < cm_seq x) L = rest"
proof -
  let ?B = "filter (\<lambda>x. c < cm_seq x) L"
  have asc: "ascending ?B" by (rule sorted_wrt_filter [OF assms(1)])
  have lt: "\<forall>x \<in> set xs. cm_seq x < cm_seq m" "\<forall>x \<in> set rest. cm_seq m < cm_seq x"
    using asc unfolding assms(2) by (auto simp: sorted_wrt_append)
  have "c < cm_seq m" by (rule behind_mid [OF assms(2)])
  have "between c (cm_seq m) L = filter (\<lambda>x. cm_seq x \<le> cm_seq m) ?B"
    by (simp add: conj_commute)
  also have "... = xs @ [m]" unfolding assms(2) using lt by (auto simp: filter_empty_conv not_le intro!: filter_True)
  finally show "between c (cm_seq m) L = xs @ [m]" .
  have "filter (\<lambda>x. cm_seq m < cm_seq x) L = filter (\<lambda>x. cm_seq m < cm_seq x) ?B"
    using \<open>c < cm_seq m\<close> by (auto intro: filter_cong)
  also have "... = rest" unfolding assms(2) using lt by (fastforce simp: filter_empty_conv intro!: filter_True)
  finally show "filter (\<lambda>x. cm_seq m < cm_seq x) L = rest" .
qed

text \<open>A message that is the next one to print.\<close>

lemma follow_next_message:
  assumes L: "ascending L" "filter (\<lambda>x. c < cm_seq x) L = xs @ m # rest"
    and xs: "\<forall>x \<in> set xs. \<not> wanted wo me x"
    and c: "at_cursor c st" and cur: "\<not> cur_fault (cm_seq m)"
    and run: "follow_message wo me out_fault cur_fault m st = (out, st')"
  shows "out = Fails ClientIo \<and> st' = st \<and> out_fault (cm_seq m)
       \<or> caught_up wo me L c st (cm_seq m) st' \<and>
         (out = Goes \<or> out = Exits 3 \<and> wanted wo me m \<and> meta_kind m = Some KIND_CONVERSATION_END)"
proof -
  have lt: "c < cm_seq m" by (rule behind_mid [OF L(2)])
  have "filter (wanted wo me) (between c (cm_seq m) L) = (if wanted wo me m then [m] else [])"
    unfolding between_first(1) [OF L] using xs by (simp add: filter_False)
  with follow_message_step [OF c lt cur run] lt show ?thesis
    by (auto simp: caught_up_def simp del: filter_filter)
qed

text \<open>A batch that is the first part of what lies behind the cursor.\<close>

lemma follow_batch_page:
  assumes "ascending L" "filter (\<lambda>x. c < cm_seq x) L = ms @ rest" "at_cursor c st"
    and "\<forall>n. \<not> cur_fault n" "follow_batch wo me out_fault cur_fault ms st = (out, st')"
  shows "\<exists>c'. caught_up wo me L c st c' st'
       \<and> (out = Goes \<and> filter (\<lambda>x. c' < cm_seq x) L = rest
          \<or> (\<exists>n. out_fault n) \<or> (\<exists>m \<in> set ms. wanted wo me m \<and> meta_kind m = Some KIND_CONVERSATION_END))"
  using assms(2,3,5)
proof (induction ms arbitrary: c st)
  case Nil
  then show ?case using caught_up_refl [of st c wo me L] by auto
next
  case (Cons m ms)
  obtain o1 st1 where one: "follow_message wo me out_fault cur_fault m st = (o1, st1)" by fastforce
  have first: "filter (\<lambda>x. c < cm_seq x) L = [] @ m # (ms @ rest)" using Cons.prems(1) by simp
  from assms(4) have nc: "\<not> cur_fault (cm_seq m)" by simp
  note behind = between_first(2) [OF assms(1) first]
  from follow_next_message [OF assms(1) first _ Cons.prems(2) nc one]
  consider (fault) "o1 = Fails ClientIo" "st1 = st" "out_fault (cm_seq m)"
    | (goes) "caught_up wo me L c st (cm_seq m) st1" "o1 = Goes"
    | (stop) "caught_up wo me L c st (cm_seq m) st1" "o1 = Exits 3" "wanted wo me m" "meta_kind m = Some KIND_CONVERSATION_END"
    by auto
  then show ?case
  proof cases
    case fault
    with Cons.prems(3) one have "out = o1 \<and> st' = st" by simp
    with fault caught_up_refl [OF Cons.prems(2), of wo me L] show ?thesis by auto
  next
    case goes
    then have c1: "at_cursor (cm_seq m) st1" by (simp add: caught_up_def)
    from Cons.prems(3) goes(2) one have "follow_batch wo me out_fault cur_fault ms st1 = (out, st')" by simp
    from Cons.IH [OF behind c1 this] caught_up_trans [OF assms(1) goes(1)] show ?thesis by (metis list.set_intros(2))
  next
    case stop
    with Cons.prems(3) one have "out = o1 \<and> st' = st1" by simp
    with stop show ?thesis by (intro exI [of _ "cm_seq m"]) auto
  qed
qed

text \<open>What a turn's answers are taken from: the history of the room at some time, pages of 500, and a
  message of the log with none of a peer before it behind the cursor.\<close>

definition answers_from :: "aead_lib \<Rightarrow> client_id \<Rightarrow> store \<Rightarrow> string \<Rightarrow> follow_env \<Rightarrow> bool" where
  "answers_from lib me s r env \<longleftrightarrow>
     (\<exists>old. store_wf old \<and> (\<exists>new. room_log s r = room_log old r @ new)
        \<and> (\<forall>c. fe_history env (Some c) = Inr (map (decrypt_message lib me) (history_page old r c 500))
               \<or> (\<exists>e. fe_history env (Some c) = Inl e)))
     \<and> (\<forall>c m. fe_wait env (Some c) = Inr (Some m) \<longrightarrow>
          (\<exists>xs y ys. behind s r c = xs @ y # ys \<and> m = decrypt_message lib me y \<and> (\<forall>x \<in> set xs. \<not> peer me x)))"

abbreviation seen_log :: "aead_lib \<Rightarrow> client_id \<Rightarrow> store \<Rightarrow> string \<Rightarrow> chat_message list" where
  "seen_log lib me s r \<equiv> map (decrypt_message lib me) (room_log s r)"

lemma wanted_decrypt [simp]: "wanted wo me (decrypt_message lib me' m) = wanted wo me m"
  by (simp add: wanted_def matches_def split: option.split)

lemma seen_log_behind:
  "filter (\<lambda>x. c < cm_seq x) (seen_log lib me s r) = map (decrypt_message lib me) (behind s r c)"
  by (simp add: filter_map comp_def)

lemma seen_log_ascending: "store_wf s \<Longrightarrow> ascending (seen_log lib me s r)"
  using room_seq.log_sorted [of s r] by (simp add: sorted_wrt_map)

lemma history_prefix:
  assumes "store_wf old" "room_log s r = room_log old r @ new"
  shows "\<exists>rest. behind s r c = history_page old r c 500 @ rest"
  using room_seq.page_eq [OF assms(1), of r c 500] assms(2)
  by (metis append.assoc append_take_drop_id filter_append)

lemma follow_poll_ok:
  assumes wf: "store_wf s" and ans: "answers_from lib me s r env" and cur: "\<forall>n. \<not> fe_cur_fault env n"
    and c: "at_cursor c st" and run: "follow_poll wo me env st = (out, st')"
  shows "\<exists>c'. caught_up wo me (seen_log lib me s r) c st c' st'"
proof -
  let ?L = "seen_log lib me s r" and ?d = "decrypt_message lib me"
  note asc = seen_log_ascending [OF wf, of lib me r]
  from ans obtain old new where old: "store_wf old" "room_log s r = room_log old r @ new"
    and hist: "\<forall>c. fe_history env (Some c) = Inr (map ?d (history_page old r c 500)) \<or> (\<exists>e. fe_history env (Some c) = Inl e)"
    unfolding answers_from_def by blast
  have skip: ?thesis if "st' = st" using that caught_up_refl [OF c] by auto
  show ?thesis
  proof (cases "fe_history env (Some c)")
    case (Inl e)
    with run c show ?thesis by (intro skip) (auto simp: follow_poll_def Let_def)
  next
    case (Inr ms)
    with hist have ms: "ms = map ?d (history_page old r c 500)" by (metis Inl_Inr_False sum.inject(2))
    obtain rest where rest: "behind s r c = history_page old r c 500 @ rest"
      using history_prefix [OF old] by blast
    then have pre: "filter (\<lambda>x. c < cm_seq x) ?L = ms @ map ?d rest" by (simp add: seen_log_behind ms)
    have "ascending (ms @ map ?d rest)"
      unfolding pre [symmetric] by (rule sorted_wrt_filter [OF asc])
    then have sorted: "sort_key cm_seq ms = ms" by (intro sort_key_sorted_wrt) (simp add: sorted_wrt_append)
    show ?thesis
    proof (cases "ms = []")
      case False
      with run c Inr sorted have "follow_batch wo me (fe_out_fault env) (fe_cur_fault env) ms st = (out, st')"
        by (simp add: follow_poll_def Let_def)
      from follow_batch_page [OF asc pre c cur this] show ?thesis by blast
    next
      case True
      show ?thesis
      proof (cases "\<exists>m. fe_wait env (Some c) = Inr (Some m)")
        case False
        with run c Inr True show ?thesis
          by (intro skip) (auto simp: follow_poll_def Let_def split: sum.splits option.splits)
      next
        case w: True
        then obtain m where m: "fe_wait env (Some c) = Inr (Some m)" by blast
        with ans obtain xs y ys where y: "behind s r c = xs @ y # ys" "m = ?d y" "\<forall>x \<in> set xs. \<not> peer me x"
          unfolding answers_from_def by blast
        then have next_one: "filter (\<lambda>x. c < cm_seq x) ?L = map ?d xs @ m # map ?d ys" by (simp add: seen_log_behind)
        have none: "\<forall>x \<in> set (map ?d xs). \<not> wanted wo me x" using y(3) by (auto simp: wanted_def)
        from run c Inr True m obtain o1 where
          "follow_message wo me (fe_out_fault env) (fe_cur_fault env) m st = (o1, st')"
          by (auto simp: follow_poll_def Let_def split: prod.splits outcome.splits)
        from follow_next_message [OF asc next_one none c _ this] cur skip show ?thesis by blast
      qed
    qed
  qed
qed

lemma follow_step_ok:
  assumes "store_wf s" "answers_from lib me s r env" "\<forall>n. \<not> fe_cur_fault env n" "fw_cursor fw = Some c"
  shows "\<exists>c'. caught_up wo me (seen_log lib me s r) c (fw_state fw) c' (fw_state (follow_step wo me env fw))"
proof -
  have stay: "\<exists>c'. caught_up wo me (seen_log lib me s r) c (fw_state fw) c' st" if "st = fw_state fw" for st
    using that caught_up_refl [OF assms(4)] by blast
  have same: "fw_state (set_cursor c fw) = fw_state fw"
    using assms(4) by (simp add: set_cursor_def)
  show ?thesis
  proof (cases "fw_phase fw")
    case Connecting
    with assms(4) same have "fw_state (follow_step wo me env fw) = fw_state fw"
      by (auto simp: follow_step_def follow_connect_def first_cursor_def retry_later_def Let_def split: sum.split)
    then show ?thesis by (rule stay)
  next
    case (Polling room)
    obtain out st where run: "follow_poll wo me env (fw_state fw) = (out, st)" by fastforce
    with Polling have "fw_state (follow_step wo me env fw) = st"
      by (auto simp: follow_step_def retry_later_def split: outcome.split)
    with follow_poll_ok [OF assms run] show ?thesis by simp
  qed (auto simp: follow_step_def intro: stay)
qed

lemma follow_run_ok:
  assumes "store_wf s" "\<forall>env \<in> set envs. answers_from lib me s r env \<and> (\<forall>n. \<not> fe_cur_fault env n)"
    and "fw_cursor fw = Some c"
  shows "\<exists>c'. caught_up wo me (seen_log lib me s r) c (fw_state fw) c' (fw_state (follow_run wo me envs fw))"
  using assms(2,3)
proof (induction envs arbitrary: fw c)
  case Nil
  then show ?case by (auto simp: follow_run_def intro: caught_up_refl)
next
  case (Cons env envs)
  then obtain c1 where one: "caught_up wo me (seen_log lib me s r) c (fw_state fw) c1 (fw_state (follow_step wo me env fw))"
    using follow_step_ok [OF assms(1), of lib me r env fw c wo] by auto
  then have "fw_cursor (follow_step wo me env fw) = Some c1" by (simp add: caught_up_def)
  with Cons obtain c2 where "caught_up wo me (seen_log lib me s r) c1 (fw_state (follow_step wo me env fw)) c2
      (fw_state (follow_run wo me (env # envs) fw))"
    by (fastforce simp: follow_run_def)
  from caught_up_trans [OF seen_log_ascending [OF assms(1)] one this] show ?case by blast
qed

text \<open>A turn in which the server answers and every write succeeds handles a page of 500.\<close>

definition answers_all :: "aead_lib \<Rightarrow> client_id \<Rightarrow> store \<Rightarrow> string \<Rightarrow> follow_env \<Rightarrow> bool" where
  "answers_all lib me s r env \<longleftrightarrow>
     (\<forall>c. fe_history env (Some c) = Inr (map (decrypt_message lib me) (history_page s r c 500)) \<and> fe_wait env (Some c) = Inr None)
     \<and> (\<forall>n. \<not> fe_cur_fault env n \<and> \<not> fe_out_fault env n)"

definition no_end :: "wait_options \<Rightarrow> client_id \<Rightarrow> chat_message list \<Rightarrow> bool" where
  "no_end wo me ms \<longleftrightarrow> (\<forall>m \<in> set ms. wanted wo me m \<longrightarrow> meta_kind m \<noteq> Some KIND_CONVERSATION_END)"

lemma follow_step_page:
  assumes wf: "store_wf s" and ans: "answers_all lib me s r env"
    and fw: "fw_phase fw = Polling room" "fw_cursor fw = Some c" and fin: "no_end wo me (behind s r c)"
  shows "\<exists>c'. caught_up wo me (seen_log lib me s r) c (fw_state fw) c' (fw_state (follow_step wo me env fw))
      \<and> fw_phase (follow_step wo me env fw) = Polling room
      \<and> filter (\<lambda>x. c' < cm_seq x) (seen_log lib me s r) = drop 500 (filter (\<lambda>x. c < cm_seq x) (seen_log lib me s r))"
proof -
  let ?L = "seen_log lib me s r" and ?d = "decrypt_message lib me" and ?st = "fw_state fw"
  let ?p = "history_page s r c 500"
  note asc = seen_log_ascending [OF wf, of lib me r]
  have page: "?p = take 500 (behind s r c)" by (rule room_seq.page_eq [OF wf])
  then have pre: "filter (\<lambda>x. c < cm_seq x) ?L = map ?d ?p @ map ?d (drop 500 (behind s r c))"
    by (simp add: seen_log_behind flip: map_append)
  have "ascending (filter (\<lambda>x. c < cm_seq x) ?L)" by (rule sorted_wrt_filter [OF asc])
  then have sorted: "sort_key cm_seq (map ?d ?p) = map ?d ?p"
    unfolding pre by (intro sort_key_sorted_wrt) (simp add: sorted_wrt_append)
  obtain out st' where run: "follow_batch wo me (fe_out_fault env) (fe_cur_fault env) (map ?d ?p) ?st = (out, st')"
    by fastforce
  have none: "\<forall>n. \<not> fe_cur_fault env n" "\<not> (\<exists>n. fe_out_fault env n)" using ans by (auto simp: answers_all_def)
  have "\<not> (\<exists>m \<in> set (map ?d ?p). wanted wo me m \<and> meta_kind m = Some KIND_CONVERSATION_END)"
    using fin by (auto simp: no_end_def page dest!: in_set_takeD)
  with follow_batch_page [OF asc pre fw(2) none(1) run] none(2) obtain c' where
    c': "caught_up wo me ?L c ?st c' st'" "out = Goes" "filter (\<lambda>x. c' < cm_seq x) ?L = map ?d (drop 500 (behind s r c))"
    by blast
  have "follow_poll wo me env ?st = (out, st')"
    using ans fw(2) run sorted by (cases "?p = []") (simp_all add: follow_poll_def answers_all_def Let_def)
  with fw(1) c'(2) have step: "follow_step wo me env fw = fw\<lparr>fw_state := st'\<rparr>" by (simp add: follow_step_def)
  with c'(1,3) fw(1) show ?thesis unfolding seen_log_behind by (intro exI [of _ c']) (simp add: drop_map)
qed

lemma follow_run_pages:
  assumes wf: "store_wf s" and ans: "\<forall>env \<in> set envs. answers_all lib me s r env"
    and "fw_phase fw = Polling room" "fw_cursor fw = Some c" "no_end wo me (behind s r c)"
    and "length (behind s r c) \<le> 500 * length envs"
  shows "\<exists>c'. caught_up wo me (seen_log lib me s r) c (fw_state fw) c' (fw_state (follow_run wo me envs fw))
      \<and> behind s r c' = []"
  using assms(2-6)
proof (induction envs arbitrary: fw c)
  case Nil
  then show ?case by (intro exI [of _ c]) (simp add: follow_run_def caught_up_refl)
next
  case (Cons env envs)
  let ?fw = "follow_step wo me env fw" and ?L = "seen_log lib me s r"
  have "answers_all lib me s r env" using Cons.prems(1) by simp
  from follow_step_page [OF wf this Cons.prems(2,3,4)] obtain c1 where
    c1: "caught_up wo me ?L c (fw_state fw) c1 (fw_state ?fw)" "fw_phase ?fw = Polling room"
      "filter (\<lambda>x. c1 < cm_seq x) ?L = drop 500 (filter (\<lambda>x. c < cm_seq x) ?L)" by blast
  have at1: "fw_cursor ?fw = Some c1" and "c \<le> c1" using c1(1) by (auto simp: caught_up_def)
  then have "no_end wo me (behind s r c1)" using Cons.prems(4) by (auto simp: no_end_def)
  moreover have "length (behind s r c1) \<le> 500 * length envs"
    using arg_cong [OF c1(3), of length] Cons.prems(5) unfolding seen_log_behind by simp
  ultimately obtain c2 where "caught_up wo me ?L c1 (fw_state ?fw) c2 (fw_state (follow_run wo me envs ?fw))"
      "behind s r c2 = []"
    using Cons.IH [of ?fw c1] Cons.prems(1) c1(2) at1 by auto
  with caught_up_trans [OF seen_log_ascending [OF wf] c1(1)] show ?case by (auto simp: follow_run_def)
qed

subsection \<open>The properties\<close>


lemma answers_all_from: "store_wf s \<Longrightarrow> answers_all lib me s r env \<Longrightarrow> answers_from lib me s r env"
  by (auto simp: answers_all_def answers_from_def)

definition demo_wait :: wait_options where
  "demo_wait = \<lparr>wo_since_seq = None, wo_only_from = None, wo_not_from = None, wo_only_kind = None,
     wo_show_thinking = False, wo_cursor_file = True\<rparr>"

definition demo_turn :: "store \<Rightarrow> follow_env" where
  "demo_turn s = \<lparr>fe_connect = Inr (), fe_room = Inr ''r1'', fe_tip = Inr 0, fe_join = Inr (),
     fe_history = (\<lambda>c. case c of Some c \<Rightarrow> Inr (map (decrypt_message demo_lib demo_me) (history_page s ''r1'' c 500)) | None \<Rightarrow> Inr []),
     fe_wait = (\<lambda>_. Inr None), fe_out_fault = (\<lambda>_. False), fe_cur_fault = (\<lambda>_. False)\<rparr>"

definition demo_follower :: follower where
  "demo_follower = \<lparr>fw_phase = Polling ''r1'',
     fw_state = \<lparr>fl_mark = \<lparr>bm_cursor = Some 0, bm_file = Some ''0''\<rparr>, fl_printed = [], fl_thoughts = []\<rparr>, fw_backoff = 1\<rparr>"

definition demo_inserted :: store where
  "demo_inserted = snd (insert_message False 7 ''m1'' ''r1'' ''a1'' ''Ann'' ''hi'' None (JObj []) demo_store)"

lemma demo_inserted_facts:
  "store_wf demo_inserted" "answers_all demo_lib demo_me demo_inserted ''r1'' (demo_turn demo_inserted)"
  "fw_phase demo_follower = Polling ''r1''" "fw_cursor demo_follower = Some 0"
  unfolding demo_inserted_def
  by (rule wf_insert_message [OF demo_store_wf], simp_all add: answers_all_def demo_turn_def demo_follower_def)

lemma demo_inserted_log:
  "room_log demo_inserted ''r1'' = [\<lparr>cm_message_id = ''m1'', cm_room_id = ''r1'', cm_agent_id = ''a1'', cm_agent_name = ''Ann'',
          cm_content = ''hi'', cm_reply_to_message = None, cm_metadata = JObj [], cm_timestamp = 7, cm_seq = 1\<rparr>]"
  by (simp add: demo_inserted_def demo_insert room_log_def map_message_row_def)


text \<open>C13. A following wait catches up: when the server answers and nothing fails, as many turns as there are
  pages of 500 behind the cursor print every message of the room that was asked for, unless one of them
  ends the conversation.\<close>

theorem follow_catches_up:
  assumes "store_wf s" "fw_phase fw = Polling room" "fw_cursor fw = Some c"
    and "\<forall>env \<in> set envs. answers_all lib me s r env"
    and "no_end wo me (behind s r c)" "length (behind s r c) \<le> 500 * length envs"
  shows "fl_printed (fw_state (follow_run wo me envs fw))
       = fl_printed (fw_state fw) @ map (decrypt_message lib me) (filter (wanted wo me) (behind s r c))"
proof -
  let ?L = "seen_log lib me s r"
  from follow_run_pages [OF assms(1,4,2,3,5,6)] obtain c' where
    c': "caught_up wo me ?L c (fw_state fw) c' (fw_state (follow_run wo me envs fw))" "behind s r c' = []" by blast
  then have "between c c' ?L = filter (\<lambda>x. c < cm_seq x) ?L"
    by (auto simp: filter_empty_conv not_less intro!: filter_cong)
  also have "... = map (decrypt_message lib me) (behind s r c)" by (rule seen_log_behind)
  finally have "filter (wanted wo me) (between c c' ?L) = map (decrypt_message lib me) (filter (wanted wo me) (behind s r c))"
    by (simp add: filter_map comp_def del: filter_filter)
  with c'(1) show ?thesis by (simp add: caught_up_def del: filter_filter)
qed

theorem follow_catches_up_witness:
  "map cm_content (fl_printed (fw_state (follow_run demo_wait demo_me [demo_turn demo_inserted] demo_follower))) = [''hi'']"
proof -
  have "no_end demo_wait demo_me (behind demo_inserted ''r1'' 0)"
       "length (behind demo_inserted ''r1'' 0) \<le> 500 * length [demo_turn demo_inserted]"
       "\<forall>env \<in> set [demo_turn demo_inserted]. answers_all demo_lib demo_me demo_inserted ''r1'' env"
    using demo_inserted_facts(2) by (simp_all add: demo_inserted_log no_end_def KIND_CONVERSATION_END_def)
  from follow_catches_up [OF demo_inserted_facts(1,3,4) this(3,1,2)]
  show ?thesis
    by (simp add: demo_inserted_log demo_follower_def wanted_def peer_def is_self_message_def demo_me_def matches_def
        demo_wait_def decrypt_message_def)
qed

subsection \<open>A live message that overtakes another\<close>

text \<open>Whatever the answers, nothing at or behind the cursor is printed any more.\<close>

definition goes_on :: "int \<Rightarrow> follow_state \<Rightarrow> follow_state \<Rightarrow> bool" where
  "goes_on c st st' \<longleftrightarrow> (\<exists>c' \<ge> c. at_cursor c' st')
     \<and> (\<forall>m \<in> set (fl_printed st'). m \<in> set (fl_printed st) \<or> c < cm_seq m)"

lemma goes_on_refl: "at_cursor c st \<Longrightarrow> goes_on c st st"
  by (auto simp: goes_on_def)

lemma goes_on_trans: "goes_on c st st' \<Longrightarrow> at_cursor c' st' \<Longrightarrow> goes_on c' st' st'' \<Longrightarrow> goes_on c st st''"
  by (fastforce simp: goes_on_def)

lemma follow_message_goes_on:
  assumes "at_cursor c st" "follow_message wo me out_fault cur_fault m st = (out, st')"
  shows "goes_on c st st'"
  using assms
  by (auto simp: follow_message_def advance_to_def advance_cursor_def write_cursor_atomic_def Let_def
      behind_cursor_def goes_on_def split: if_splits)

lemma follow_batch_goes_on:
  "at_cursor c st \<Longrightarrow> follow_batch wo me out_fault cur_fault ms st = (out, st') \<Longrightarrow> goes_on c st st'"
proof (induction ms arbitrary: c st)
  case (Cons m ms)
  obtain o1 st1 where one: "follow_message wo me out_fault cur_fault m st = (o1, st1)" by fastforce
  note g = follow_message_goes_on [OF Cons.prems(1) this]
  show ?case
  proof (cases "o1 = Goes")
    case True
    from g obtain c1 where c1: "at_cursor c1 st1" by (auto simp: goes_on_def)
    from Cons.prems(2) True one have "follow_batch wo me out_fault cur_fault ms st1 = (out, st')" by simp
    from Cons.IH [OF c1 this] goes_on_trans [OF g c1] show ?thesis by blast
  next
    case False
    with Cons.prems(2) one have "st' = st1" by (cases o1) auto
    with g show ?thesis by simp
  qed
qed (auto intro: goes_on_refl)

lemma follow_step_goes_on:
  assumes "fw_cursor fw = Some c"
  shows "goes_on c (fw_state fw) (fw_state (follow_step wo me env fw))"
proof (cases "fw_phase fw")
  case Connecting
  with assms show ?thesis
    by (auto simp: follow_step_def follow_connect_def first_cursor_def retry_later_def set_cursor_def Let_def goes_on_def
        split: sum.split)
next
  case (Polling room)
  obtain out st where run: "follow_poll wo me env (fw_state fw) = (out, st)" by fastforce
  then have "st = fw_state fw \<or> (\<exists>ms o1. follow_batch wo me (fe_out_fault env) (fe_cur_fault env) ms (fw_state fw) = (o1, st))"
    by (auto simp: follow_poll_def Let_def simp del: follow_batch.simps split: sum.splits option.splits if_splits)
  with assms follow_batch_goes_on goes_on_refl have "goes_on c (fw_state fw) st" by metis
  moreover from run Polling have "fw_state (follow_step wo me env fw) = st"
    by (auto simp: follow_step_def retry_later_def split: outcome.split)
  ultimately show ?thesis by simp
qed (use assms in \<open>auto simp: follow_step_def goes_on_def\<close>)

lemma follow_run_goes_on:
  "fw_cursor fw = Some c \<Longrightarrow> goes_on c (fw_state fw) (fw_state (follow_run wo me envs fw))"
proof (induction envs arbitrary: fw c)
  case (Cons env envs)
  note g = follow_step_goes_on [OF Cons.prems, of wo me env]
  then obtain c1 where c1: "fw_cursor (follow_step wo me env fw) = Some c1" by (auto simp: goes_on_def)
  from Cons.IH [OF c1] goes_on_trans [OF g c1] show ?case by (auto simp: follow_run_def)
qed (auto simp: follow_run_def intro: goes_on_refl)

text \<open>When the event of a later message reaches the client before the event of an earlier one, which two
  connections of the server may cause, a following wait takes the later one and never prints the earlier.\<close>

theorem overtaking_event_skips:
  assumes "fw_phase fw = Polling r" "fw_cursor fw = Some c" "fe_history env (Some c) = Inr []"
    and "f_type f = MessageReceived" "json_get_str ''room_id'' (f_payload f) = Some r"
    and "decode (f_payload f) = Some m" "peer me m"
    and "wait_for_message lib decode me r (Some c) (Inr c) page (Pushed f # es) = Some (fe_wait env (Some c))"
    and "c < n" "n < cm_seq m" "\<not> fe_cur_fault env (cm_seq m)" "\<not> fe_out_fault env (cm_seq m)"
    and "x \<in> set (fl_printed (fw_state (follow_run wo me (env # envs) fw)))" "cm_seq x = n"
  shows "x \<in> set (fl_printed (fw_state fw))"
proof -
  let ?d = "decrypt_message lib me m"
  have wait: "fe_wait env (Some c) = Inr (Some ?d)"
    using assms(4-8) by (simp add: wait_for_message_def wait_backlog.simps peer_def)
  obtain o1 st1 where one: "follow_message wo me (fe_out_fault env) (fe_cur_fault env) ?d (fw_state fw) = (o1, st1)" by fastforce
  have "c < cm_seq ?d" "\<not> fe_cur_fault env (cm_seq ?d)" using assms(9-11) by auto
  from follow_message_step [OF assms(2) this one] assms(12) have
    st1: "at_cursor (cm_seq m) st1" "fl_printed st1 = fl_printed (fw_state fw) @ (if wanted wo me m then [?d] else [])"
    by auto
  have "follow_poll wo me env (fw_state fw) = (o1, st1)"
    using assms(2,3) wait one by (simp add: follow_poll_def Let_def split: outcome.split)
  with assms(1) have "fw_state (follow_step wo me env fw) = st1"
    by (auto simp: follow_step_def retry_later_def split: outcome.split)
  with follow_run_goes_on [of "follow_step wo me env fw" "cm_seq m" wo me envs] st1 assms(10,13,14)
  show ?thesis by (auto simp: goes_on_def follow_run_def split: if_splits)
qed

end
