(* ===== verification/Shell.thy ===== *)
theory Shell
  imports Cli
begin

text \<open>
  What the command line shows and the interactive shell (\<open>format_message\<close>, \<open>render_export\<close>, \<open>print_event\<close> and
  \<open>run_shell\<close> of \<open>main.rs\<close>). The parts that chrono and serde format are arguments; the prompt, the help and the
  tables are not modelled. Of the shell the active room, the requests it makes and its end are.
\<close>

subsection \<open>Messages\<close>

definition line_feed :: string where
  "line_feed = [CHR 0x0A]"

definition format_message :: "(int \<Rightarrow> string) \<Rightarrow> chat_message \<Rightarrow> string" where
  "format_message clock m =
     (if meta_type m = Some ''system''
      then ''['' @ clock (cm_timestamp m) @ ''] #'' @ show_int (cm_seq m) @ '' * '' @ cm_agent_name m @ '' '' @ cm_content m @ '' *''
      else ''['' @ clock (cm_timestamp m) @ ''] #'' @ show_int (cm_seq m) @ '' '' @ cm_agent_name m @ '': '' @ cm_content m)"

datatype export_format = Md | Json | Txt

record renderer =
  rd_clock :: "int \<Rightarrow> string"
  rd_date :: "int \<Rightarrow> string"
  rd_json :: "json \<Rightarrow> string"

definition exported :: "bool \<Rightarrow> chat_message \<Rightarrow> bool" where
  "exported include_thinking m \<longleftrightarrow>
     (if meta_type m = Some ''system'' then False
      else if \<not> include_thinking \<and> meta_type m = Some ''thinking'' then False
      else True)"

text \<open>The middle dot, the arrow and the thought balloon are the bytes of their UTF-8 encodings.\<close>

definition middle_dot :: string where
  "middle_dot = [CHR '' '', CHR 0xC2, CHR 0xB7, CHR '' '']"

definition arrow :: string where
  "arrow = [CHR '' '', CHR 0xE2, CHR 0x86, CHR 0x92, CHR '' '']"

definition balloon :: string where
  "balloon = [CHR 0xF0, CHR 0x9F, CHR 0x92, CHR 0xAD, CHR '' '']"

definition export_md :: "renderer \<Rightarrow> chat_message \<Rightarrow> string" where
  "export_md rd m =
     ''### '' @ (if meta_type m = Some ''thinking'' then balloon else []) @ cm_agent_name m @ middle_dot
       @ ''seq '' @ show_int (cm_seq m) @ middle_dot @ rd_clock rd (cm_timestamp m)
     @ line_feed @ line_feed @ cm_content m
     @ (if cm_content m \<noteq> [] \<and> last (cm_content m) = CHR 0x0A then [] else line_feed)
     @ line_feed"

definition export_txt :: "renderer \<Rightarrow> chat_message \<Rightarrow> string" where
  "export_txt rd m =
     ''['' @ rd_clock rd (cm_timestamp m) @ ''] #'' @ show_int (cm_seq m) @ '' ''
     @ (if meta_type m = Some ''thinking'' then ''(thinking) '' else []) @ cm_agent_name m @ '': '' @ cm_content m
     @ line_feed @ line_feed"

definition render_export :: "renderer \<Rightarrow> chat_message list \<Rightarrow> export_format \<Rightarrow> bool \<Rightarrow> string \<Rightarrow> string" where
  "render_export rd messages fmt include_thinking room_label =
     (let filtered = filter (exported include_thinking) messages in
      case fmt of
        Md \<Rightarrow>
          ''# Room: '' @ room_label @ line_feed @ line_feed
          @ (if filtered = [] then []
             else ''_'' @ show_nat (length filtered) @ '' entries from seq '' @ show_int (cm_seq (hd filtered))
                  @ '' to '' @ show_int (cm_seq (last filtered)) @ '' ('' @ rd_date rd (cm_timestamp (hd filtered)) @ arrow
                  @ rd_date rd (cm_timestamp (last filtered)) @ '')_'' @ line_feed @ line_feed)
          @ concat (map (export_md rd) filtered)
      | Json \<Rightarrow> concat (map (\<lambda>m. rd_json rd (chat_message_to_json m) @ line_feed) filtered)
      | Txt \<Rightarrow> concat (map (export_txt rd) filtered))"

text \<open>An export without thoughts does not depend on the system and thinking rows of the history.\<close>

lemma render_export_filtered:
  "filter (exported t) ms = filter (exported t) ms' \<Longrightarrow> render_export rd ms fmt t label = render_export rd ms' fmt t label"
  by (simp add: render_export_def)

subsection \<open>Events\<close>

definition str_or :: "string \<Rightarrow> string \<Rightarrow> json \<Rightarrow> string" where
  "str_or dflt k p = (case json_get_str k p of Some v \<Rightarrow> v | None \<Rightarrow> dflt)"

abbreviation room_of :: "json \<Rightarrow> string" where
  "room_of p \<equiv> str_or ''?'' ''room_id'' p"

fun json_array :: "json \<Rightarrow> json list option" where
  "json_array (JArr xs) = Some xs"
| "json_array _ = None"

definition tally_line :: "json \<Rightarrow> string" where
  "tally_line entry =
     ''  '' @ str_or ''?'' ''option_text'' entry @ '' : ''
     @ show_nat (case Option.bind (json_get ''count'' entry) (json_uint 64) of Some n \<Rightarrow> n | None \<Rightarrow> 0) @ '' votes''"

text \<open>The lines printed for an event. \<open>debug\<close> formats what the code prints with \<open>{:?}\<close>.\<close>

definition print_event :: "aead_lib \<Rightarrow> (frame_type option \<times> json option \<Rightarrow> string) \<Rightarrow> frame \<Rightarrow> string option \<Rightarrow> string list" where
  "print_event lib debug f secret =
     (let p = f_payload f; room = room_of p in
      case f_type f of
        MessageReceived \<Rightarrow>
          [''[message] #'' @ room @ '' '' @ str_or ''?'' ''agent_name'' p @ '': ''
             @ decrypt_field lib secret room (str_or [] ''content'' p)]
      | Mention \<Rightarrow> [''[mention] from #'' @ room @ '': '' @ debug (None, json_get ''message'' p)]
      | AgentJoined \<Rightarrow>
          [''[join] '' @ (case Option.bind (json_get ''agent'' p) (json_get_str ''name'') of Some n \<Rightarrow> n | None \<Rightarrow> ''?'')
             @ '' joined #'' @ room]
      | AgentLeft \<Rightarrow> [''[leave] '' @ str_or ''?'' ''agent_id'' p @ '' left #'' @ room]
      | RoomCreated \<Rightarrow> [''[room+] created #'' @ str_or ''?'' ''name'' p]
      | RoomUpdated \<Rightarrow> [''[room~] renamed #'' @ room @ '' to #'' @ str_or ''?'' ''name'' p]
      | RoomDestroyed \<Rightarrow> [''[room-] destroyed #'' @ room]
      | VoteCreated \<Rightarrow>
          [''[vote] New vote in #'' @ room @ '': '' @ [CHR 0x22] @ str_or ''?'' ''title'' p @ [CHR 0x22] @ '' (''
             @ str_or ''?'' ''vote_id'' p @ '')'']
      | VoteResult \<Rightarrow>
          (''[vote-result] #'' @ room @ '' '' @ [CHR 0x22] @ str_or ''?'' ''title'' p @ [CHR 0x22] @ '':'')
          # (case Option.bind (json_get ''tally'' p) json_array of Some entries \<Rightarrow> map tally_line entries | None \<Rightarrow> [])
      | ElectionStarted \<Rightarrow> [''[election] Election started in #'' @ room @ '' (2s opt-out window)'']
      | LeaderElected \<Rightarrow> [''[leader] '' @ str_or ''?'' ''leader_name'' p @ '' elected leader of #'' @ room]
      | LeaderCleared \<Rightarrow> [''[leader-] Leadership cleared in #'' @ room @ '': '' @ str_or ''?'' ''reason'' p]
      | DecisionMade \<Rightarrow>
          [''[decision] #'' @ room @ '' '' @ str_or ''?'' ''leader_name'' p @ '' decides: ''
             @ decrypt_field lib secret room (str_or [] ''content'' p)]
      | PresenceUpdate \<Rightarrow>
          [''[presence] '' @ str_or ''?'' ''agent_name'' p @ '' is now '' @ str_or ''?'' ''status'' p
             @ (case Option.bind (json_get ''progress'' p) (json_uint 64) of Some n \<Rightarrow> '' ('' @ show_nat n @ ''%)'' | None \<Rightarrow> [])
             @ (case json_get_str ''status_detail'' p of Some d \<Rightarrow> '': '' @ d | None \<Rightarrow> [])]
      | Thinking \<Rightarrow>
          [''[thinking] #'' @ room @ '' '' @ str_or ''?'' ''agent_name'' p @ '': ''
             @ decrypt_field lib secret room (str_or [] ''content'' p)]
      | TurnChanged \<Rightarrow>
          [''[turn] #'' @ room @ '' -> '' @ str_or ''(none)'' ''current_turn_holder'' p @ '' ('' @ str_or ''?'' ''reason'' p @ '')'']
      | t \<Rightarrow> [''['' @ debug (Some t, None) @ ''] '' @ debug (None, Some p)])"

text \<open>Every event shows at least a line, and a message encrypted for the room with the client's secret shows
  its plaintext.\<close>

lemma print_event_nonempty: "print_event lib debug f secret \<noteq> []"
  by (cases "f_type f") (simp_all add: print_event_def Let_def)

subsection \<open>The shell\<close>

datatype shell_input =
    SEmpty | SHelp | SJoin string | SLeave string | SRoom | SRooms | SAgents | SHistory string | SSend string
  | SQuit | SUnknown string | SText string

definition shell_input_of :: "string \<Rightarrow> shell_input" where
  "shell_input_of line =
     (case trim line of
        [] \<Rightarrow> SEmpty
      | c # command_text \<Rightarrow>
          if c \<noteq> CHR ''/'' then SText (c # command_text)
          else
            let before = takeWhile (\<lambda>x. x \<noteq> CHR '' '') command_text;
                cmd = trim before;
                rest = trim (drop (length before + 1) command_text)
            in if cmd = ''help'' then SHelp
               else if cmd = ''join'' then SJoin rest
               else if cmd = ''leave'' then SLeave rest
               else if cmd = ''room'' then SRoom
               else if cmd = ''rooms'' then SRooms
               else if cmd = ''agents'' then SAgents
               else if cmd = ''history'' then SHistory rest
               else if cmd = ''send'' then SSend rest
               else if cmd = ''quit'' \<or> cmd = ''exit'' then SQuit
               else SUnknown cmd)"

datatype shell_request =
    ReqJoin string | ReqLeave string | ReqListRooms | ReqListAgents "string option"
  | ReqHistory string nat | ReqSend string string

text \<open>The answers to a line's requests: how a reference resolves, and whether joining and leaving succeed.\<close>

record shell_env =
  se_resolve :: "string \<Rightarrow> cli_error + string"
  se_join :: "string \<Rightarrow> bool"
  se_leave :: "string \<Rightarrow> bool"

definition parse_u32 :: "string \<Rightarrow> nat option" where
  "parse_u32 s =
     (case s of
        [] \<Rightarrow> None
      | c # cs \<Rightarrow>
          (let digits = (if c = CHR ''+'' then cs else s) in
           if digits = [] then None
           else Option.bind (parse_digits 0 digits) (\<lambda>n. if n < 2 ^ 32 then Some n else None)))"

definition shell_send :: "string option \<Rightarrow> string \<Rightarrow> shell_request list" where
  "shell_send current_room content = (case current_room of Some r \<Rightarrow> [ReqSend r content] | None \<Rightarrow> [])"

text \<open>One line: the requests, the active room afterwards, and whether the shell goes on.\<close>

definition shell_line :: "shell_env \<Rightarrow> shell_input \<Rightarrow> string option \<Rightarrow> shell_request list \<times> string option \<times> bool" where
  "shell_line env inp current_room =
     (case inp of
        SJoin rest \<Rightarrow>
          if rest = [] then ([], current_room, True)
          else (case se_resolve env rest of
                  Inl _ \<Rightarrow> ([], current_room, True)
                | Inr room_id \<Rightarrow> ([ReqJoin room_id], if se_join env room_id then Some room_id else current_room, True))
      | SLeave rest \<Rightarrow>
          (case (if rest = [] then current_room
                 else case se_resolve env rest of Inr r \<Rightarrow> Some r | Inl _ \<Rightarrow> None) of
             None \<Rightarrow> ([], current_room, True)
           | Some room_id \<Rightarrow>
               ([ReqLeave room_id],
                if se_leave env room_id \<and> current_room = Some room_id then None else current_room, True))
      | SRooms \<Rightarrow> ([ReqListRooms], current_room, True)
      | SAgents \<Rightarrow> ([ReqListAgents current_room], current_room, True)
      | SHistory rest \<Rightarrow>
          (case (if rest = [] then Some 20 else parse_u32 rest) of
             None \<Rightarrow> ([], current_room, True)
           | Some n \<Rightarrow> ((case current_room of Some r \<Rightarrow> [ReqHistory r n] | None \<Rightarrow> []), current_room, True))
      | SSend rest \<Rightarrow> (if rest = [] then [] else shell_send current_room rest, current_room, True)
      | SText t \<Rightarrow> (shell_send current_room t, current_room, True)
      | SQuit \<Rightarrow> ([], current_room, False)
      | _ \<Rightarrow> ([], current_room, True))"

text \<open>An event shows unless it is of a room other than the active one.\<close>

definition shell_shows :: "string option \<Rightarrow> frame \<Rightarrow> bool" where
  "shell_shows current_room f \<longleftrightarrow>
     (case (current_room, json_get_str ''room_id'' (f_payload f)) of
        (Some active, Some r) \<Rightarrow> r = active
      | _ \<Rightarrow> True)"

text \<open>A session: its lines, each with the answers. The log pairs every request with its answer (sending,
  listing and reading do not change the active room).\<close>

fun shell_session :: "(shell_env \<times> string) list \<Rightarrow> string option \<Rightarrow> (shell_env \<times> shell_request) list" where
  "shell_session [] current_room = []"
| "shell_session ((env, line) # ls) current_room =
     (case shell_line env (shell_input_of line) current_room of
        (reqs, room', goes_on) \<Rightarrow>
          map (Pair env) reqs @ (if goes_on then shell_session ls room' else []))"

text \<open>The room a log of requests has left joined and active: the last one that was joined, unless it was
  left since.\<close>

fun active_after :: "string option \<Rightarrow> (shell_env \<times> shell_request) list \<Rightarrow> string option" where
  "active_after cur [] = cur"
| "active_after cur ((env, ReqJoin r) # es) = active_after (if se_join env r then Some r else cur) es"
| "active_after cur ((env, ReqLeave r) # es) = active_after (if se_leave env r \<and> cur = Some r then None else cur) es"
| "active_after cur (_ # es) = active_after cur es"

lemma shell_line_active:
  assumes "shell_line env inp cur = (reqs, room', goes_on)"
  shows "active_after cur (map (Pair env) reqs) = room'"
    and "ReqSend r content \<in> set reqs \<Longrightarrow> cur = Some r \<and> reqs = [ReqSend r content]"
  using assms
  by (auto simp: shell_line_def shell_send_def split: shell_input.splits sum.splits option.splits if_splits)

lemma active_after_append: "active_after cur (xs @ ys) = active_after (active_after cur xs) ys"
  by (induction cur xs rule: active_after.induct) auto

text \<open>The shell sends a message only to the room it joined last and has not left since.\<close>

lemma shell_sends_to_active_room:
  "shell_session ls cur = pre @ (env, ReqSend r content) # post \<Longrightarrow> active_after cur pre = Some r"
proof (induction ls cur arbitrary: pre rule: shell_session.induct)
  case (2 env' line ls cur)
  obtain reqs room' goes_on where one: "shell_line env' (shell_input_of line) cur = (reqs, room', goes_on)"
    by (metis prod_cases3)
  let ?tail = "if goes_on then shell_session ls room' else []"
  have eq: "map (Pair env') reqs @ ?tail = pre @ (env, ReqSend r content) # post" using 2(2) one by simp
  note act = shell_line_active [OF one]
  from eq consider (later) us where "pre = map (Pair env') reqs @ us" "?tail = us @ (env, ReqSend r content) # post"
    | (here) us where "map (Pair env') reqs = pre @ (env, ReqSend r content) # us"
    by (auto simp: append_eq_append_conv2 Cons_eq_append_conv append_eq_Cons_conv)
  then show ?case
  proof cases
    case later
    with 2(1) [OF one [symmetric]] act(1) show ?thesis by (auto simp: active_after_append split: if_splits)
  next
    case here
    then have "(env, ReqSend r content) \<in> set (map (Pair env') reqs)" by simp
    then have "ReqSend r content \<in> set reqs" by auto
    from act(2) [OF this] have "cur = Some r" "reqs = [ReqSend r content]" by auto
    with here have "pre = []" by (cases pre) auto
    with \<open>cur = Some r\<close> show ?thesis by simp
  qed
qed simp

end
