(* ===== verification/Lantern.thy ===== *)
theory Lantern
  imports Cli
begin

text \<open>
  The structured-reasoning overlay of the command line (\<open>lantern.rs\<close>, and \<open>lantern_cmd\<close> of \<open>main.rs\<close>): envelopes
  in message contents, their decoding and validation, the threads reconstructed from a room's history,
  and the claims that calibration scores. \<open>read_json\<close> is \<open>serde_json::from_str\<close>; the logarithmic loss of a
  scored claim, a sum of \<open>f64\<close> values, is not modelled.
\<close>

subsection \<open>Envelopes\<close>

definition LANTERN_VERSION :: string where
  "LANTERN_VERSION = ''lantern/0.1.1''"

definition VERBS :: "string list" where
  "VERBS = [''PROBE'', ''ASSERT'', ''CHALLENGE'', ''RESOLVE'', ''FUSE'', ''SYNC'', ''SPARK'', ''HARVEST'', ''BURY'']"

definition SCORABLE_BASIS :: "string list" where
  "SCORABLE_BASIS = [''tool'', ''artifact'', ''human'']"

definition ALL_BASIS :: "string list" where
  "ALL_BASIS = [''tool'', ''artifact'', ''human'', ''consensus'', ''stale'']"

record envelope =
  en_v :: string
  en_verb :: string
  en_thread :: "int option"
  en_reply_to :: "int option"
  en_from :: string
  en_intent :: "string option"
  en_body :: json

definition envelope_new ::
    "string \<Rightarrow> string \<Rightarrow> int option \<Rightarrow> int option \<Rightarrow> string option \<Rightarrow> json \<Rightarrow> envelope" where
  "envelope_new verb sender thread reply_to intent body =
     \<lparr>en_v = LANTERN_VERSION, en_verb = verb, en_thread = thread, en_reply_to = reply_to, en_from = sender,
      en_intent = intent, en_body = body\<rparr>"

definition envelope_to_json :: "envelope \<Rightarrow> json" where
  "envelope_to_json e = JObj
     ([(''v'', JStr (en_v e)), (''type'', JStr (en_verb e))]
      @ opt_field ''thread'' JInt (en_thread e) @ opt_field ''reply_to'' JInt (en_reply_to e)
      @ [(''from'', JStr (en_from e))] @ opt_field ''intent'' JStr (en_intent e)
      @ [(''body'', en_body e)])"

record capability =
  cap_name :: string
  cap_falsifiable_by :: "string option"

record hello =
  he_v :: string
  he_verb :: string
  he_agent_name :: string
  he_provider :: "string option"
  he_model :: "string option"
  he_role :: "string option"
  he_capabilities :: "capability list"
  he_attestation :: json

definition hello_new ::
    "string \<Rightarrow> string option \<Rightarrow> string option \<Rightarrow> string option \<Rightarrow> capability list \<Rightarrow> hello" where
  "hello_new agent_name provider model role capabilities =
     \<lparr>he_v = LANTERN_VERSION, he_verb = ''HELLO'', he_agent_name = agent_name, he_provider = provider,
      he_model = model, he_role = role, he_capabilities = capabilities,
      he_attestation = JObj (map (\<lambda>k. (k, JStr ''self_attested''))
        [''agent_name'', ''provider'', ''model'', ''role'', ''capabilities''])\<rparr>"

definition capability_to_json :: "capability \<Rightarrow> json" where
  "capability_to_json c = JObj ((''name'', JStr (cap_name c)) # opt_field ''falsifiable_by'' JStr (cap_falsifiable_by c))"

definition hello_to_json :: "hello \<Rightarrow> json" where
  "hello_to_json h = JObj
     ([(''v'', JStr (he_v h)), (''type'', JStr (he_verb h)), (''agent_name'', JStr (he_agent_name h))]
      @ opt_field ''provider'' JStr (he_provider h) @ opt_field ''model'' JStr (he_model h)
      @ opt_field ''role'' JStr (he_role h)
      @ [(''capabilities'', JArr (map capability_to_json (he_capabilities h))), (''attestation'', he_attestation h)])"

subsection \<open>Decoding\<close>

definition capability_of_json :: "json \<Rightarrow> capability option" where
  "capability_of_json v =
     Option.bind (json_get_str ''name'' v) (\<lambda>n.
     Option.bind (opt_of Core_Frames.json_str ''falsifiable_by'' v) (\<lambda>f.
       Some \<lparr>cap_name = n, cap_falsifiable_by = f\<rparr>))"

definition capabilities_of_json :: "json \<Rightarrow> capability list option" where
  "capabilities_of_json v =
     (case json_get ''capabilities'' v of
        None \<Rightarrow> Some []
      | Some (JArr xs) \<Rightarrow> all_some (map capability_of_json xs)
      | Some _ \<Rightarrow> None)"

definition hello_of_json :: "json \<Rightarrow> hello option" where
  "hello_of_json v =
     Option.bind (json_get_str ''v'' v) (\<lambda>ver.
     Option.bind (json_get_str ''type'' v) (\<lambda>verb.
     Option.bind (json_get_str ''agent_name'' v) (\<lambda>name.
     Option.bind (opt_of Core_Frames.json_str ''provider'' v) (\<lambda>provider.
     Option.bind (opt_of Core_Frames.json_str ''model'' v) (\<lambda>model.
     Option.bind (opt_of Core_Frames.json_str ''role'' v) (\<lambda>role.
     Option.bind (capabilities_of_json v) (\<lambda>caps.
     Option.bind (json_get ''attestation'' v) (\<lambda>att.
       Some \<lparr>he_v = ver, he_verb = verb, he_agent_name = name, he_provider = provider, he_model = model,
             he_role = role, he_capabilities = caps, he_attestation = att\<rparr>))))))))"

definition envelope_of_json :: "json \<Rightarrow> envelope option" where
  "envelope_of_json v =
     Option.bind (json_get_str ''v'' v) (\<lambda>ver.
     Option.bind (json_get_str ''type'' v) (\<lambda>verb.
     Option.bind (opt_of json_i64 ''thread'' v) (\<lambda>thread.
     Option.bind (opt_of json_i64 ''reply_to'' v) (\<lambda>reply_to.
     Option.bind (json_get_str ''from'' v) (\<lambda>sender.
     Option.bind (opt_of Core_Frames.json_str ''intent'' v) (\<lambda>intent.
       Some \<lparr>en_v = ver, en_verb = verb, en_thread = thread, en_reply_to = reply_to, en_from = sender, en_intent = intent,
             en_body = (case json_get ''body'' v of Some b \<Rightarrow> b | None \<Rightarrow> JNull)\<rparr>))))))"

datatype parsed = ParsedHello hello | ParsedVerb envelope

definition lantern_value :: "json \<Rightarrow> parsed option" where
  "lantern_value v =
     Option.bind (json_get_str ''v'' v) (\<lambda>ver.
       if strip_prefix ''lantern/'' ver = None then None
       else case json_get_str ''type'' v of
         None \<Rightarrow> None
       | Some t \<Rightarrow> if t = ''HELLO'' then map_option ParsedHello (hello_of_json v)
                  else map_option ParsedVerb (envelope_of_json v))"

definition parse :: "(string \<Rightarrow> json option) \<Rightarrow> string \<Rightarrow> parsed option" where
  "parse read_json content = Option.bind (read_json content) lantern_value"

definition seq_in_range :: "int option \<Rightarrow> bool" where
  "seq_in_range s \<longleftrightarrow> (case s of None \<Rightarrow> True | Some i \<Rightarrow> I64_MIN \<le> i \<and> i \<le> I64_MAX)"

text \<open>What a command sends is what the others reconstruct.\<close>

lemma parse_envelope:
  assumes "verb \<noteq> ''HELLO''" "seq_in_range thread" "seq_in_range reply_to"
  shows "lantern_value (envelope_to_json (envelope_new verb sender thread reply_to intent body))
       = Some (ParsedVerb (envelope_new verb sender thread reply_to intent body))"
  using assms
  by (cases thread; cases reply_to; cases intent)
     (simp_all add: lantern_value_def envelope_of_json_def envelope_to_json_def envelope_new_def LANTERN_VERSION_def
       strip_prefix_def opt_field_def opt_of_def seq_in_range_def in_i64_def)

lemma capability_roundtrip [simp]: "capability_of_json (capability_to_json c) = Some c"
  by (cases "cap_falsifiable_by c")
     (simp_all add: capability_of_json_def capability_to_json_def opt_field_def opt_of_def)

lemma parse_hello:
  "lantern_value (hello_to_json (hello_new name provider model role caps)) = Some (ParsedHello (hello_new name provider model role caps))"
  by (cases provider; cases model; cases role)
     (simp_all add: lantern_value_def hello_of_json_def hello_to_json_def hello_new_def LANTERN_VERSION_def
       strip_prefix_def opt_field_def opt_of_def capabilities_of_json_def comp_def all_some_map [where g = "\<lambda>c. c"])

subsection \<open>Validation\<close>

datatype lantern_error =
    BadVersion | NoType | HelloNeedsName | UnknownVerb string | NoFrom | Requires string string
  | BadBasis | ConfidenceRange | ConfidenceMissing

definition nonempty_field :: "json \<Rightarrow> string \<Rightarrow> bool" where
  "nonempty_field b k \<longleftrightarrow> (case json_get_str k b of Some s \<Rightarrow> trim s \<noteq> [] | None \<Rightarrow> False)"

definition i64_field :: "json \<Rightarrow> string \<Rightarrow> int option" where
  "i64_field b k = Option.bind (json_get k b) json_i64"

text \<open>\<open>as_f64\<close> and the test against the unit interval; a float \<open>JFloat m e\<close> is \<open>m \<cdot> 2\<^sup>e\<close>.\<close>

fun in_unit_interval :: "json \<Rightarrow> bool option" where
  "in_unit_interval (JInt i) = Some (0 \<le> i \<and> i \<le> 1)"
| "in_unit_interval (JFloat m e) = Some (0 \<le> m \<and> (if 0 \<le> e then m * 2 ^ nat e \<le> 1 else m \<le> 2 ^ nat (- e)))"
| "in_unit_interval _ = None"

definition check_confidence :: "json \<Rightarrow> bool \<Rightarrow> lantern_error list" where
  "check_confidence body required =
     (case Option.bind (json_get ''confidence'' body) in_unit_interval of
        Some True \<Rightarrow> []
      | Some False \<Rightarrow> [ConfidenceRange]
      | None \<Rightarrow> if required then [ConfidenceMissing] else [])"

definition demand :: "bool \<Rightarrow> lantern_error \<Rightarrow> lantern_error list" where
  "demand ok e = (if ok then [] else [e])"

definition validate_body :: "string \<Rightarrow> json \<Rightarrow> lantern_error list" where
  "validate_body verb body =
     (let text_of = (\<lambda>k. demand (nonempty_field body k) (Requires verb k));
          seq_of = (\<lambda>k. demand (i64_field body k \<noteq> None) (Requires verb k))
      in if verb = ''PROBE'' then text_of ''question''
         else if verb = ''ASSERT''
         then text_of ''claim'' @ text_of ''falsifiable_by'' @ check_confidence body False
         else if verb = ''CHALLENGE''
         then seq_of ''target_seq'' @ text_of ''counter_claim'' @ text_of ''test'' @ check_confidence body True
         else if verb = ''RESOLVE''
         then text_of ''observation''
              @ demand (case json_get_str ''basis'' body of Some b \<Rightarrow> b \<in> set ALL_BASIS | None \<Rightarrow> False) BadBasis
         else if verb = ''FUSE'' then text_of ''synthesis''
         else if verb = ''SPARK'' then text_of ''seed'' @ text_of ''why_now'' @ text_of ''smallest_test''
         else if verb = ''HARVEST'' then seq_of ''spark_seq''
         else if verb = ''BURY'' then seq_of ''spark_seq'' @ text_of ''reason''
         else [])"

definition validate :: "json \<Rightarrow> lantern_error list" where
  "validate v =
     (let v_errs = demand (strip_prefix ''lantern/'' (case json_get_str ''v'' v of Some s \<Rightarrow> s | None \<Rightarrow> []) \<noteq> None) BadVersion in
      case json_get_str ''type'' v of
        None \<Rightarrow> v_errs @ [NoType]
      | Some verb \<Rightarrow>
          if verb = ''HELLO''
          then v_errs @ demand ((case json_get_str ''agent_name'' v of Some s \<Rightarrow> s | None \<Rightarrow> []) \<noteq> []) HelloNeedsName
          else v_errs @ demand (verb \<in> set VERBS) (UnknownVerb verb)
               @ demand ((case json_get_str ''from'' v of Some s \<Rightarrow> s | None \<Rightarrow> []) \<noteq> []) NoFrom
               @ validate_body verb (case json_get ''body'' v of Some b \<Rightarrow> b | None \<Rightarrow> JNull))"

text \<open>The rule of the overlay: a valid assertion says what would falsify it, and a valid challenge names its
  target, a test and a confidence between 0 and 1.\<close>

lemma valid_claims:
  assumes "validate v = []"
  shows "json_get_str ''type'' v = Some ''ASSERT'' \<Longrightarrow>
           \<exists>b. json_get ''body'' v = Some b \<and> nonempty_field b ''claim'' \<and> nonempty_field b ''falsifiable_by''"
    and "json_get_str ''type'' v = Some ''CHALLENGE'' \<Longrightarrow>
           \<exists>b. json_get ''body'' v = Some b \<and> i64_field b ''target_seq'' \<noteq> None \<and> nonempty_field b ''test''
             \<and> Option.bind (json_get ''confidence'' b) in_unit_interval = Some True"
  using assms
  by (auto simp: validate_def validate_body_def demand_def check_confidence_def nonempty_field_def i64_field_def Let_def
      split: if_splits option.splits bool.splits)

subsection \<open>Commands\<close>

text \<open>The envelope that a subcommand of \<open>lantern_cmd\<close> makes of its arguments, and whether it opens a thread. A
  file given to \<open>fuse\<close> or \<open>sync\<close> is its JSON value. A capability is the text before the first equals sign.\<close>

datatype lantern_action =
    AProbe string "string option"
  | AAssert string "json option" string "string option"
  | AChallenge int int string json string
  | AResolve int string string
  | AFuse int string bool "json option" "(string \<times> bool) list"
  | ASync "int option" "string option" "json option"
  | ASpark string string string
  | AHarvest int "string option"
  | ABury int string

definition parse_bool :: "string \<Rightarrow> bool option" where
  "parse_bool s = (if s = ''true'' then Some True else if s = ''false'' then Some False else None)"

definition split_once :: "char \<Rightarrow> string \<Rightarrow> (string \<times> string) option" where
  "split_once c s = (if c \<in> set s then Some (takeWhile (\<lambda>x. x \<noteq> c) s, tl (dropWhile (\<lambda>x. x \<noteq> c) s)) else None)"

text \<open>An \<open>--outcome\<close>: \<open><seq>=<true|false>\<close>.\<close>

definition outcome_of_arg :: "string \<Rightarrow> (string \<times> bool) option" where
  "outcome_of_arg arg = Option.bind (split_once (CHR ''='') arg)
     (\<lambda>(s, verdict). map_option (Pair (trim s)) (parse_bool (trim verdict)))"

definition capability_of_arg :: "string \<Rightarrow> capability" where
  "capability_of_arg c =
     (let (name, fby) = (case split_once (CHR ''='') c of Some p \<Rightarrow> p | None \<Rightarrow> (c, []))
      in \<lparr>cap_name = trim name, cap_falsifiable_by = (if trim fby = [] then None else Some (trim fby))\<rparr>)"

definition lantern_envelope :: "string \<Rightarrow> lantern_action \<Rightarrow> envelope \<times> bool" where
  "lantern_envelope me a =
     (case a of
        AProbe question intent \<Rightarrow>
          (envelope_new ''PROBE'' me None None intent (JObj [(''question'', JStr question)]), True)
      | AAssert claim confidence fby intent \<Rightarrow>
          (envelope_new ''ASSERT'' me None None intent
             (JObj ([(''claim'', JStr claim), (''falsifiable_by'', JStr fby)]
                    @ opt_field ''confidence'' (\<lambda>c. c) confidence)), True)
      | AChallenge thread target counter confidence test \<Rightarrow>
          (envelope_new ''CHALLENGE'' me (Some thread) (Some target) None
             (JObj [(''target_seq'', JInt target), (''counter_claim'', JStr counter), (''confidence'', confidence), (''test'', JStr test)]), False)
      | AResolve thread observation basis \<Rightarrow>
          (envelope_new ''RESOLVE'' me (Some thread) None None
             (JObj [(''observation'', JStr observation), (''basis'', JStr basis)]), False)
      | AFuse thread synthesis divided delta outcomes \<Rightarrow>
          (envelope_new ''FUSE'' me (Some thread) None None
             (JObj ([(''synthesis'', JStr synthesis), (''split'', JBool divided)]
                    @ opt_field ''shared_state_delta'' (\<lambda>d. d) delta
                    @ (if outcomes = [] then [] else [(''outcomes'', JObj (fold (\<lambda>(s, b). dm_insert s (JBool b)) outcomes []))]))), False)
      | ASync thread state_hash diff \<Rightarrow>
          (envelope_new ''SYNC'' me thread None None
             (JObj (opt_field ''state_hash'' JStr state_hash @ opt_field ''diff'' (\<lambda>d. d) diff)), False)
      | ASpark seed why_now smallest_test \<Rightarrow>
          (envelope_new ''SPARK'' me None None None
             (JObj [(''seed'', JStr seed), (''why_now'', JStr why_now), (''smallest_test'', JStr smallest_test)]), False)
      | AHarvest spark becomes \<Rightarrow>
          (envelope_new ''HARVEST'' me None (Some spark) None (JObj [(''spark_seq'', JInt spark), (''becomes'', json_opt JStr becomes)]), False)
      | ABury spark reason \<Rightarrow>
          (envelope_new ''BURY'' me None (Some spark) None (JObj [(''spark_seq'', JInt spark), (''reason'', JStr reason)]), False))"

text \<open>\<open>lantern_send\<close>: a malformed envelope is refused before anything is sent.\<close>

definition lantern_send :: "string \<Rightarrow> lantern_action \<Rightarrow> lantern_error list + json" where
  "lantern_send me a =
     (let v = envelope_to_json (fst (lantern_envelope me a)); errs = validate v in
      if errs \<noteq> [] then Inl errs else Inr v)"

subsection \<open>Threads\<close>

record thread_message =
  tm_seq :: int
  tm_from :: string
  tm_verb :: string
  tm_body :: json
  tm_intent :: "string option"

datatype thread_state = ThreadOpen | ThreadResolved | ThreadFused

record thread =
  th_id :: int
  th_messages :: "thread_message list"
  th_state :: thread_state
  th_resolve_basis :: "string option"

text \<open>Indexing the first message panics on an empty thread (no result).\<close>

definition headline :: "thread \<Rightarrow> string option" where
  "headline t =
     (case th_messages t of
        [] \<Rightarrow> None
      | first # _ \<Rightarrow>
          Some (case or_else (json_get_str ''claim'' (tm_body first))
                       (or_else (json_get_str ''question'' (tm_body first)) (tm_intent first)) of
                  Some h \<Rightarrow> h | None \<Rightarrow> tm_verb first @ '' thread''))"

text \<open>\<open>BTreeMap::entry(k).or_default().push(x)\<close> on the ascending list of the map's entries.\<close>

fun push_entry :: "'k :: linorder \<Rightarrow> 'a \<Rightarrow> ('k \<times> 'a list) list \<Rightarrow> ('k \<times> 'a list) list" where
  "push_entry k x [] = [(k, [x])]"
| "push_entry k x ((j, xs) # es) =
     (if k = j then (j, xs @ [x]) # es
      else if k < j then (k, [x]) # (j, xs) # es
      else (j, xs) # push_entry k x es)"

record reconstructing =
  rg_hellos :: "(int \<times> hello) list"
  rg_threads :: "(int \<times> thread_message list) list"
  rg_shared :: "json list"
  rg_fuses :: nat

definition thread_message_of :: "chat_message \<Rightarrow> envelope \<Rightarrow> thread_message" where
  "thread_message_of m e =
     \<lparr>tm_seq = cm_seq m, tm_from = en_from e, tm_verb = en_verb e, tm_body = en_body e, tm_intent = en_intent e\<rparr>"

definition thread_id :: "chat_message \<Rightarrow> envelope \<Rightarrow> int" where
  "thread_id m e = (case en_thread e of Some t \<Rightarrow> t | None \<Rightarrow> cm_seq m)"

definition collect_message :: "(string \<Rightarrow> json option) \<Rightarrow> chat_message \<Rightarrow> reconstructing \<Rightarrow> reconstructing" where
  "collect_message read_json m rg =
     (case parse read_json (cm_content m) of
        None \<Rightarrow> rg
      | Some (ParsedHello h) \<Rightarrow> rg\<lparr>rg_hellos := rg_hellos rg @ [(cm_seq m, h)]\<rparr>
      | Some (ParsedVerb e) \<Rightarrow>
          let rg = (if en_verb e = ''FUSE''
                    then rg\<lparr>rg_fuses := rg_fuses rg + 1,
                            rg_shared := rg_shared rg
                              @ (case json_get ''shared_state_delta'' (en_body e) of
                                   Some d \<Rightarrow> if d = JNull then [] else [d] | None \<Rightarrow> [])\<rparr>
                    else rg)
          in rg\<lparr>rg_threads := push_entry (thread_id m e) (thread_message_of m e) (rg_threads rg)\<rparr>)"

definition make_thread :: "int \<times> thread_message list \<Rightarrow> thread" where
  "make_thread entry =
     (let msgs = sort_key tm_seq (snd entry) in
      \<lparr>th_id = fst entry, th_messages = msgs,
       th_state = (if list_ex (\<lambda>m. tm_verb m = ''FUSE'') msgs then ThreadFused
                   else if list_ex (\<lambda>m. tm_verb m = ''RESOLVE'') msgs then ThreadResolved
                   else ThreadOpen),
       th_resolve_basis = Option.bind (find (\<lambda>m. tm_verb m = ''RESOLVE'') msgs) (\<lambda>m. json_get_str ''basis'' (tm_body m))\<rparr>)"

record reconstructed =
  rc_hellos :: "(int \<times> hello) list"
  rc_threads :: "thread list"
  rc_shared_state :: "json list"
  rc_fuse_count :: nat

definition reconstruct :: "(string \<Rightarrow> json option) \<Rightarrow> chat_message list \<Rightarrow> reconstructed" where
  "reconstruct read_json history =
     (let rg = fold (collect_message read_json) history \<lparr>rg_hellos = [], rg_threads = [], rg_shared = [], rg_fuses = 0\<rparr>
      in \<lparr>rc_hellos = rg_hellos rg, rc_threads = map make_thread (rg_threads rg),
          rc_shared_state = rg_shared rg, rc_fuse_count = rg_fuses rg\<rparr>)"

text \<open>The claims that calibration scores, in order: the claimant, the stated confidence, and whether the claim
  held. The outcomes of a thread's fuses are read in order, the last of equal numbers counts.\<close>

definition outcomes_of :: "thread \<Rightarrow> (int \<times> bool) list" where
  "outcomes_of t =
     concat (map (\<lambda>m. case json_get ''outcomes'' (tm_body m) of
                          Some (JObj kvs) \<Rightarrow>
                            List.map_filter (\<lambda>(k, v). case (parse_i64 k, json_bool v) of
                              (Some n, Some b) \<Rightarrow> Some (n, b) | _ \<Rightarrow> None) kvs
                        | _ \<Rightarrow> [])
       (filter (\<lambda>m. tm_verb m = ''FUSE'') (th_messages t)))"

definition scored_claims :: "thread \<Rightarrow> (string \<times> json \<times> bool) list" where
  "scored_claims t =
     (if th_state t \<noteq> ThreadFused then []
      else if \<not> (case th_resolve_basis t of Some b \<Rightarrow> b \<in> set SCORABLE_BASIS | None \<Rightarrow> False) then []
      else List.map_filter (\<lambda>m.
             if tm_verb m \<noteq> ''ASSERT'' \<and> tm_verb m \<noteq> ''CHALLENGE'' then None
             else case map_of (rev (outcomes_of t)) (tm_seq m) of
               None \<Rightarrow> None
             | Some held \<Rightarrow>
                 (case json_get ''confidence'' (tm_body m) of
                    Some c \<Rightarrow> if in_unit_interval c = None then None else Some (tm_from m, c, held)
                  | None \<Rightarrow> None)) (th_messages t))"

subsection \<open>Grouping\<close>

lemma push_entry_keys: "set (map fst (push_entry k x es)) = insert k (set (map fst es))"
  by (induction k x es rule: push_entry.induct) auto

lemma push_entry_sorted: "sorted_wrt (<) (map fst es) \<Longrightarrow> sorted_wrt (<) (map fst (push_entry k x es))"
proof (induction k x es rule: push_entry.induct)
  case (2 k x j xs es)
  show ?case
  proof (cases "j < k")
    case True
    moreover have "\<forall>i \<in> set (map fst (push_entry k x es)). j < i"
      using True 2(2) unfolding push_entry_keys by simp
    ultimately show ?thesis using 2 by auto
  qed (use 2 in auto)
qed simp

lemma push_entry_lookup:
  "map_of (push_entry k x es) i = (if i = k then Some ((case map_of es k of Some xs \<Rightarrow> xs | None \<Rightarrow> []) @ [x]) else map_of es i)"
  if "sorted_wrt (<) (map fst es)"
  using that
proof (induction k x es rule: push_entry.induct)
  case (2 k x j xs es)
  have "k < j \<Longrightarrow> map_of es k = None"
    using 2(2) by (fastforce simp: map_of_eq_None_iff)
  with 2 show ?case by (auto split: option.split)
qed simp

text \<open>The verb messages of a history, with their threads.\<close>

definition verb_entry :: "(string \<Rightarrow> json option) \<Rightarrow> chat_message \<Rightarrow> (int \<times> thread_message) option" where
  "verb_entry read_json m =
     (case parse read_json (cm_content m) of
        Some (ParsedVerb e) \<Rightarrow> Some (thread_id m e, thread_message_of m e) | _ \<Rightarrow> None)"

lemma collect_threads:
  "rg_threads (collect_message rj m rg) = (case verb_entry rj m of Some (k, x) \<Rightarrow> push_entry k x (rg_threads rg) | None \<Rightarrow> rg_threads rg)"
  by (simp add: collect_message_def verb_entry_def Let_def split: option.split parsed.split)

lemma collected_threads:
  assumes "sorted_wrt (<) (map fst (rg_threads rg))"
  shows "sorted_wrt (<) (map fst (rg_threads (fold (collect_message rj) ms rg)))
    \<and> (\<forall>k. (case map_of (rg_threads (fold (collect_message rj) ms rg)) k of Some xs \<Rightarrow> xs | None \<Rightarrow> [])
         = (case map_of (rg_threads rg) k of Some xs \<Rightarrow> xs | None \<Rightarrow> [])
           @ map snd (filter (\<lambda>e. fst e = k) (List.map_filter (verb_entry rj) ms)))
    \<and> ((\<forall>k. map_of (rg_threads rg) k \<noteq> Some []) \<longrightarrow> (\<forall>k. map_of (rg_threads (fold (collect_message rj) ms rg)) k \<noteq> Some []))"
  using assms
proof (induction ms arbitrary: rg)
  case Nil
  then show ?case by (simp add: List.map_filter_def)
next
  case (Cons m ms)
  let ?rg = "collect_message rj m rg"
  have "sorted_wrt (<) (map fst (rg_threads ?rg))"
    using push_entry_sorted [OF Cons.prems] Cons.prems by (simp add: collect_threads split: option.split)
  from Cons.IH [OF this] show ?case
    using push_entry_lookup [OF Cons.prems]
    by (simp add: collect_threads List.map_filter_def split: option.split prod.split)
qed

lemma threads_of_history:
  defines "T \<equiv> \<lambda>rj history. rg_threads (fold (collect_message rj) history \<lparr>rg_hellos = [], rg_threads = [], rg_shared = [], rg_fuses = 0\<rparr>)"
  shows "sorted_wrt (<) (map fst (T rj history))"
    and "(k, xs) \<in> set (T rj history) \<Longrightarrow>
           xs = map snd (filter (\<lambda>e. fst e = k) (List.map_filter (verb_entry rj) history)) \<and> xs \<noteq> []"
    and "e \<in> set (List.map_filter (verb_entry rj) history) \<Longrightarrow> \<exists>xs. (fst e, xs) \<in> set (T rj history)"
proof -
  note c = collected_threads [of "\<lparr>rg_hellos = [], rg_threads = [], rg_shared = [], rg_fuses = 0\<rparr>" rj history]
  show s: "sorted_wrt (<) (map fst (T rj history))" using c by (simp add: T_def)
  then have "distinct (map fst (T rj history))" using strict_sorted_iff by blast
  then show "xs = map snd (filter (\<lambda>e. fst e = k) (List.map_filter (verb_entry rj) history)) \<and> xs \<noteq> []"
    if "(k, xs) \<in> set (T rj history)"
    using that c by (simp add: T_def) (metis (no_types, lifting) map_of_is_SomeI option.simps(5))
  show "\<exists>xs. (fst e, xs) \<in> set (T rj history)" if e: "e \<in> set (List.map_filter (verb_entry rj) history)"
  proof (cases "map_of (T rj history) (fst e)")
    case None
    then have "filter (\<lambda>x. fst x = fst e) (List.map_filter (verb_entry rj) history) = []"
      using c by (auto simp: T_def dest!: spec [of _ "fst e"])
    with e show ?thesis by (auto simp: filter_empty_conv)
  qed (auto dest: map_of_SomeD)
qed

lemma verb_entry_iff:
  "verb_entry rj m = Some (k, x) \<longleftrightarrow>
     (\<exists>e. parse rj (cm_content m) = Some (ParsedVerb e) \<and> k = thread_id m e \<and> x = thread_message_of m e)"
  by (auto simp: verb_entry_def split: option.split parsed.split)

lemma verb_entry_seq: "verb_entry rj m = Some (k, x) \<Longrightarrow> tm_seq x = cm_seq m"
  by (auto simp: verb_entry_iff thread_message_of_def)

lemma map_filter_verbs:
  "distinct (map cm_seq ms) \<Longrightarrow> distinct (map (\<lambda>e. tm_seq (snd e)) (List.map_filter (verb_entry rj) ms))
     \<and> (\<forall>e \<in> set (List.map_filter (verb_entry rj) ms). tm_seq (snd e) \<in> cm_seq ` set ms)"
proof (induction ms)
  case (Cons m ms)
  then have "cm_seq m \<notin> cm_seq ` set ms" by simp
  show ?case
  proof (cases "verb_entry rj m")
    case (Some e)
    then have "tm_seq (snd e) = cm_seq m" using verb_entry_seq [of rj m "fst e" "snd e"] by simp
    with Some Cons \<open>cm_seq m \<notin> cm_seq ` set ms\<close> show ?thesis by force
  qed (use Cons in auto)
qed simp

lemma distinct_map_filtered: "distinct (map f xs) \<Longrightarrow> distinct (map f (filter P xs))"
  by (induction xs) auto

text \<open>C34. The threads partition the verb messages: in what is reconstructed from a history whose sequence
  numbers differ the thread numbers ascend, every thread has messages, so that its headline does not
  panic, they stand in the order of their sequence numbers, and a message is in a thread, once, exactly
  if the history has it as an envelope of that thread: of the thread it names, or of its own number.\<close>

theorem reconstruct_partition:
  assumes "distinct (map cm_seq history)"
  shows "sorted_wrt (<) (map th_id (rc_threads (reconstruct rj history)))
    \<and> (\<forall>t \<in> set (rc_threads (reconstruct rj history)).
         headline t \<noteq> None \<and> sorted_wrt (<) (map tm_seq (th_messages t)))
    \<and> (\<forall>k x. (\<exists>t \<in> set (rc_threads (reconstruct rj history)). th_id t = k \<and> x \<in> set (th_messages t))
         \<longleftrightarrow> (\<exists>m e. m \<in> set history \<and> parse rj (cm_content m) = Some (ParsedVerb e)
               \<and> k = thread_id m e \<and> x = thread_message_of m e))"
proof -
  define T where "T = rg_threads (fold (collect_message rj) history \<lparr>rg_hellos = [], rg_threads = [], rg_shared = [], rg_fuses = 0\<rparr>)"
  let ?E = "List.map_filter (verb_entry rj) history"
  note th = threads_of_history [where rj = rj and history = history, folded T_def]
  have rc: "rc_threads (reconstruct rj history) = map make_thread T"
    by (simp add: reconstruct_def T_def Let_def)
  have ids: "th_id (make_thread e) = fst e" and msgs: "th_messages (make_thread e) = sort_key tm_seq (snd e)" for e
    by (simp_all add: make_thread_def Let_def)
  have each: "headline (make_thread e) \<noteq> None \<and> sorted_wrt (<) (map tm_seq (th_messages (make_thread e)))" if "e \<in> set T" for e
  proof -
    obtain k xs where e: "e = (k, xs)" by fastforce
    have xs: "xs = map snd (filter (\<lambda>e. fst e = k) ?E)" "xs \<noteq> []" using th(2) that e by blast+
    have "distinct (map (\<lambda>e. tm_seq (snd e)) (filter (\<lambda>e. fst e = k) ?E))"
      by (rule distinct_map_filtered) (use map_filter_verbs [OF assms] in blast)
    then have "distinct (map tm_seq xs)" by (simp add: xs(1) comp_def)
    then have "distinct (map tm_seq (sort_key tm_seq xs))" by (simp add: distinct_map)
    moreover have "sort_key tm_seq xs \<noteq> []" using xs(2) by (metis length_0_conv length_sort)
    ultimately show ?thesis
      by (simp add: msgs e strict_sorted_iff headline_def split: list.split)
  qed
  have mem: "(\<exists>t \<in> set (map make_thread T). th_id t = k \<and> x \<in> set (th_messages t)) \<longleftrightarrow> (k, x) \<in> set ?E" for k x
  proof -
    have "(\<exists>t \<in> set (map make_thread T). th_id t = k \<and> x \<in> set (th_messages t)) \<longleftrightarrow> (\<exists>xs. (k, xs) \<in> set T \<and> x \<in> set xs)"
      by (force simp: ids msgs)
    also have "... \<longleftrightarrow> (k, x) \<in> set ?E"
    proof
      assume "(k, x) \<in> set ?E"
      with th(3) obtain xs where xs: "(k, xs) \<in> set T" by fastforce
      then have "xs = map snd (filter (\<lambda>e. fst e = k) ?E)" using th(2) by blast
      with xs \<open>(k, x) \<in> set ?E\<close> show "\<exists>xs. (k, xs) \<in> set T \<and> x \<in> set xs" by force
    qed (use th(2) in force)
    finally show ?thesis .
  qed
  have "(k, x) \<in> set ?E \<longleftrightarrow> (\<exists>m \<in> set history. verb_entry rj m = Some (k, x))" for k x
    by (force simp: List.map_filter_def)
  with mem th(1) each show ?thesis
    unfolding rc by (simp add: comp_def ids verb_entry_iff Bex_def)
qed

definition demo_read :: "string \<Rightarrow> json option" where
  "demo_read content = (if content = ''e'' then Some (envelope_to_json (envelope_new ''PROBE'' ''Ann'' None None None JNull)) else None)"

definition demo_chat :: "int \<Rightarrow> string \<Rightarrow> chat_message" where
  "demo_chat n content = \<lparr>cm_message_id = ''m'', cm_room_id = ''r1'', cm_agent_id = ''a1'', cm_agent_name = ''Ann'',
     cm_content = content, cm_reply_to_message = None, cm_metadata = JNull, cm_timestamp = 0, cm_seq = n\<rparr>"

theorem reconstruct_partition_witness:
  "\<exists>t \<in> set (rc_threads (reconstruct demo_read [demo_chat 4 ''e'', demo_chat 5 ''plain''])). th_id t = 4 \<and> headline t \<noteq> None"
proof -
  let ?h = "[demo_chat 4 ''e'', demo_chat 5 ''plain'']"
  let ?e = "envelope_new ''PROBE'' ''Ann'' None None None JNull"
  have d: "distinct (map cm_seq ?h)" by (simp add: demo_chat_def)
  have p: "parse demo_read (cm_content (demo_chat 4 ''e'')) = Some (ParsedVerb ?e)"
    by (simp add: parse_def demo_read_def demo_chat_def parse_envelope seq_in_range_def)
  have "thread_id (demo_chat 4 ''e'') ?e = 4" by (simp add: thread_id_def envelope_new_def demo_chat_def)
  with reconstruct_partition [OF d, of demo_read] p show ?thesis
    by (metis list.set_intros(1))
qed

end
