(* ===== verification/Wake_Store.thy ===== *)
theory Wake_Store
  imports Prelude
begin

text \<open>
  The state of the Codex wake bridge (\<open>store.rs\<close> of \<open>cowchat-codex\<close>): the table of events with their
  delivery, and per target the acknowledged and the read cursor and the wake lease. SQLite's constraints,
  \<open>INSERT OR IGNORE\<close>, upserts and \<open>UPDATE ... WHERE\<close> are written out. The argument \<open>fault\<close> says whether an
  SQL statement fails; a failure inside a transaction rolls back, one between two autocommitted statements
  keeps the first.
\<close>

subsection \<open>Tables\<close>

record wake_event_row =
  we_target :: string
  we_source :: string
  we_event_id :: string
  we_event_json :: string
  we_room_id :: string
  we_wake_hint_rank :: int
  we_room_seq :: "int option"
  we_message_id :: "string option"
  we_created_at :: int

record wake_target_row =
  wt_last_acked_seq :: int
  wt_max_read_seq :: int
  wt_wake_claimed_at :: "int option"

record wake_store =
  ws_events :: "wake_event_row list"
  ws_targets :: "(string, wake_target_row) dashmap"

definition wake_store_empty :: wake_store where
  "wake_store_empty = \<lparr>ws_events = [], ws_targets = []\<rparr>"

abbreviation we_key :: "wake_event_row \<Rightarrow> string \<times> string \<times> string" where
  "we_key r \<equiv> (we_target r, we_source r, we_event_id r)"

definition new_target :: wake_target_row where
  "new_target = \<lparr>wt_last_acked_seq = 0, wt_max_read_seq = 0, wt_wake_claimed_at = None\<rparr>"

record reservation =
  rs_duplicate :: bool
  rs_room_seq :: "int option"

record event_reservation =
  er_target :: string
  er_source :: string
  er_event_id :: string
  er_event_json :: string
  er_room_id :: string
  er_wake_hint_rank :: int
  er_now_unix :: int

record ack_state =
  as_last_acked_seq :: int
  as_max_read_seq :: int
  as_max_pending_seq :: "int option"

datatype wake_store_error = WakeSqlite | IdempotencyConflict | MissingReservation | AckBeyondRead int int

subsection \<open>Operations\<close>

text \<open>\<open>INSERT OR IGNORE INTO wake_target_state(target)\<close>.\<close>

definition ensure_target :: "string \<Rightarrow> wake_store \<Rightarrow> wake_store" where
  "ensure_target target s =
     (if map_of (ws_targets s) target \<noteq> None then s
      else s\<lparr>ws_targets := ws_targets s @ [(target, new_target)]\<rparr>)"

definition update_target :: "string \<Rightarrow> (wake_target_row \<Rightarrow> wake_target_row) \<Rightarrow> wake_store \<Rightarrow> wake_store" where
  "update_target target f s =
     s\<lparr>ws_targets := dm_map (\<lambda>t r. if t = target then f r else r) (ws_targets s)\<rparr>"

definition reserve_event :: "bool \<Rightarrow> event_reservation \<Rightarrow> wake_store \<Rightarrow> (wake_store_error + reservation) \<times> wake_store" where
  "reserve_event fault e s =
     (if fault then (Inl WakeSqlite, s)
      else
        let s1 = ensure_target (er_target e) s;
            k = (er_target e, er_source e, er_event_id e)
        in case row_find we_key k (ws_events s1) of
             None \<Rightarrow>
               (Inr \<lparr>rs_duplicate = False, rs_room_seq = None\<rparr>,
                s1\<lparr>ws_events := ws_events s1 @
                   [\<lparr>we_target = er_target e, we_source = er_source e, we_event_id = er_event_id e,
                     we_event_json = er_event_json e, we_room_id = er_room_id e,
                     we_wake_hint_rank = er_wake_hint_rank e, we_room_seq = None, we_message_id = None,
                     we_created_at = er_now_unix e\<rparr>]\<rparr>)
           | Some existing \<Rightarrow>
               if we_event_json existing \<noteq> er_event_json e \<or> we_room_id existing \<noteq> er_room_id e
                 \<or> we_wake_hint_rank existing \<noteq> er_wake_hint_rank e
               then (Inl IdempotencyConflict, s)
               else (Inr \<lparr>rs_duplicate = True, rs_room_seq = we_room_seq existing\<rparr>, s1))"

definition mark_delivered ::
    "bool \<Rightarrow> string \<Rightarrow> string \<Rightarrow> string \<Rightarrow> int \<Rightarrow> string \<Rightarrow> wake_store \<Rightarrow> (wake_store_error + unit) \<times> wake_store" where
  "mark_delivered fault target source event_id room_seq message_id s =
     (if fault then (Inl WakeSqlite, s)
      else
        let hit = (\<lambda>r. we_key r = (target, source, event_id)
                      \<and> (we_room_seq r = None \<or> we_room_seq r = Some room_seq));
            changed = length (filter hit (ws_events s));
            s1 = s\<lparr>ws_events := map (\<lambda>r. if hit r then r\<lparr>we_room_seq := Some room_seq, we_message_id := Some message_id\<rparr>
                                         else r) (ws_events s)\<rparr>
        in if changed \<noteq> 1 then (Inl MissingReservation, s1) else (Inr (), s1))"

definition claim_wake ::
    "(nat \<Rightarrow> bool) \<Rightarrow> string \<Rightarrow> int \<Rightarrow> int \<Rightarrow> int \<Rightarrow> wake_store \<Rightarrow> (wake_store_error + bool) \<times> wake_store" where
  "claim_wake fault target observed_seq now_unix lease_seconds s =
     (if fault 0 then (Inl WakeSqlite, s)
      else
        let s1 = ensure_target target s in
        if fault 1 then (Inl WakeSqlite, s1)
        else case map_of (ws_targets s1) target of
          Some r \<Rightarrow>
            if wt_last_acked_seq r < observed_seq
               \<and> (case wt_wake_claimed_at r of None \<Rightarrow> True | Some t \<Rightarrow> t \<le> now_unix - lease_seconds)
            then (Inr True, update_target target (\<lambda>r. r\<lparr>wt_wake_claimed_at := Some now_unix\<rparr>) s1)
            else (Inr False, s1)
        | None \<Rightarrow> (Inr False, s1))"

definition release_wake :: "bool \<Rightarrow> string \<Rightarrow> wake_store \<Rightarrow> (wake_store_error + unit) \<times> wake_store" where
  "release_wake fault target s =
     (if fault then (Inl WakeSqlite, s)
      else (Inr (), update_target target (\<lambda>r. r\<lparr>wt_wake_claimed_at := None\<rparr>) s))"

text \<open>\<open>last_acked_seq\<close> and its twin \<open>last_acked_seq_locked\<close>.\<close>

definition acked :: "string \<Rightarrow> wake_store \<Rightarrow> int" where
  "acked target s = (case map_of (ws_targets s) target of Some r \<Rightarrow> wt_last_acked_seq r | None \<Rightarrow> 0)"

definition last_acked_seq :: "bool \<Rightarrow> string \<Rightarrow> wake_store \<Rightarrow> wake_store_error + int" where
  "last_acked_seq fault target s = (if fault then Inl WakeSqlite else Inr (acked target s))"

text \<open>\<open>SELECT MAX(room_seq) ... WHERE room_seq > n\<close>: NULL when there is none.\<close>

definition max_seq_where :: "(wake_event_row \<Rightarrow> bool) \<Rightarrow> int \<Rightarrow> wake_store \<Rightarrow> int option" where
  "max_seq_where P n s =
     (case filter (\<lambda>q. n < q) (List.map_filter we_room_seq (filter P (ws_events s))) of
        [] \<Rightarrow> None | qs \<Rightarrow> Some (Max (set qs)))"

definition load_ack_state :: "string \<Rightarrow> wake_store \<Rightarrow> ack_state" where
  "load_ack_state target s =
     (let (last, mread) = (case map_of (ws_targets s) target of
                            Some r \<Rightarrow> (wt_last_acked_seq r, wt_max_read_seq r) | None \<Rightarrow> (0, 0))
      in \<lparr>as_last_acked_seq = last, as_max_read_seq = mread,
          as_max_pending_seq = max_seq_where (\<lambda>r. we_target r = target) last s\<rparr>)"

definition record_read :: "(nat \<Rightarrow> bool) \<Rightarrow> string \<Rightarrow> int \<Rightarrow> wake_store \<Rightarrow> (wake_store_error + ack_state) \<times> wake_store" where
  "record_read fault target max_seq s =
     (if fault 0 then (Inl WakeSqlite, s)
      else
        let s1 = (if map_of (ws_targets s) target = None
                  then s\<lparr>ws_targets := ws_targets s @ [(target, new_target\<lparr>wt_max_read_seq := max_seq\<rparr>)]\<rparr>
                  else update_target target (\<lambda>r. r\<lparr>wt_max_read_seq := max (wt_max_read_seq r) max_seq\<rparr>) s)
        in if fault 1 then (Inl WakeSqlite, s1) else (Inr (load_ack_state target s1), s1))"

definition acknowledge :: "bool \<Rightarrow> string \<Rightarrow> int \<Rightarrow> wake_store \<Rightarrow> (wake_store_error + ack_state) \<times> wake_store" where
  "acknowledge fault target cursor s =
     (if fault then (Inl WakeSqlite, s)
      else
        let state = load_ack_state target s in
        if as_max_read_seq state < cursor then (Inl (AckBeyondRead cursor (as_max_read_seq state)), s)
        else
          let s1 = update_target target (\<lambda>r. r\<lparr>wt_last_acked_seq := max (wt_last_acked_seq r) cursor,
                                               wt_wake_claimed_at := None\<rparr>) s
          in (Inr (load_ack_state target s1), s1))"

definition max_pending_seq :: "bool \<Rightarrow> string \<Rightarrow> wake_store \<Rightarrow> wake_store_error + int option" where
  "max_pending_seq fault target s =
     (if fault then Inl WakeSqlite else Inr (max_seq_where (\<lambda>r. we_target r = target) (acked target s) s))"

definition max_pending_eligible_seq :: "bool \<Rightarrow> string \<Rightarrow> int \<Rightarrow> wake_store \<Rightarrow> wake_store_error + int option" where
  "max_pending_eligible_seq fault target min_rank s =
     (if fault then Inl WakeSqlite
      else Inr (max_seq_where (\<lambda>r. we_target r = target \<and> min_rank \<le> we_wake_hint_rank r) (acked target s) s))"

definition delivered_event :: "bool \<Rightarrow> string \<Rightarrow> int \<Rightarrow> wake_store \<Rightarrow> wake_store_error + wake_event_row option" where
  "delivered_event fault target room_seq s =
     (if fault then Inl WakeSqlite
      else Inr (find (\<lambda>r. we_target r = target \<and> we_room_seq r = Some room_seq) (ws_events s)))"

subsection \<open>Consistency\<close>

text \<open>The keys are unique, every event's target has a row, and an acknowledged cursor was read.\<close>

definition wake_wf :: "wake_store \<Rightarrow> bool" where
  "wake_wf s \<longleftrightarrow>
     distinct (map we_key (ws_events s)) \<and> distinct (dm_keys (ws_targets s))
     \<and> (\<forall>(t, r) \<in> set (ws_targets s). 0 \<le> wt_last_acked_seq r \<and> wt_last_acked_seq r \<le> wt_max_read_seq r)
     \<and> set (map we_target (ws_events s)) \<subseteq> set (dm_keys (ws_targets s))"

lemma wake_wf_empty: "wake_wf wake_store_empty"
  by (simp add: wake_wf_def wake_store_empty_def)

lemma keys_ensure_target: "set (dm_keys (ws_targets (ensure_target t s))) = insert t (set (dm_keys (ws_targets s)))"
  by (auto simp: ensure_target_def dm_keys_lookup [symmetric] image_iff map_of_eq_None_iff)

lemma events_ensure_target [simp]: "ws_events (ensure_target t s) = ws_events s"
  by (simp add: ensure_target_def)

lemma events_update_target [simp]: "ws_events (update_target t f s) = ws_events s"
  by (simp add: update_target_def)

lemma lookup_update_target [simp]:
  "map_of (ws_targets (update_target t f s)) t' = (if t' = t then map_option f (map_of (ws_targets s) t) else map_of (ws_targets s) t')"
  by (cases "map_of (ws_targets s) t'") (auto simp: update_target_def)

lemma wf_ensure_target [wf_intros]: "wake_wf s \<Longrightarrow> wake_wf (ensure_target t s)"
  by (auto simp: wake_wf_def ensure_target_def new_target_def map_of_eq_None_iff)

lemma wf_update_target:
  assumes "wake_wf s"
    and "\<And>r. map_of (ws_targets s) t = Some r \<Longrightarrow> 0 \<le> wt_last_acked_seq r \<Longrightarrow> wt_last_acked_seq r \<le> wt_max_read_seq r
      \<Longrightarrow> 0 \<le> wt_last_acked_seq (f r) \<and> wt_last_acked_seq (f r) \<le> wt_max_read_seq (f r)"
  shows "wake_wf (update_target t f s)"
proof -
  have "0 \<le> wt_last_acked_seq r \<and> wt_last_acked_seq r \<le> wt_max_read_seq r"
    if "(t', r) \<in> set (ws_targets (update_target t f s))" for t' r
  proof -
    from that obtain r0 where r0: "(t', r0) \<in> set (ws_targets s)" "r = (if t' = t then f r0 else r0)"
      by (auto simp: update_target_def map_ran_def)
    with assms show ?thesis by (auto simp: wake_wf_def)
  qed
  moreover have "dm_keys (ws_targets (update_target t f s)) = dm_keys (ws_targets s)"
    by (simp add: update_target_def)
  ultimately show ?thesis using assms(1) by (auto simp: wake_wf_def)
qed

lemma wf_reserve_event [wf_intros]: "wake_wf s \<Longrightarrow> wake_wf (snd (reserve_event fault e s))"
proof -
  assume wf: "wake_wf s"
  let ?s1 = "ensure_target (er_target e) s"
  have wf1: "wake_wf ?s1" by (rule wf_ensure_target [OF wf])
  have here: "er_target e \<in> set (dm_keys (ws_targets ?s1))" using keys_ensure_target by blast
  show ?thesis
  proof (cases "row_find we_key (er_target e, er_source e, er_event_id e) (ws_events ?s1)")
    case None
    with wf1 here show ?thesis using wf by (auto simp: reserve_event_def Let_def wake_wf_def)
  qed (use wf wf1 in \<open>simp add: reserve_event_def Let_def\<close>)
qed

lemma wf_mark_delivered [wf_intros]: "wake_wf s \<Longrightarrow> wake_wf (snd (mark_delivered fault t src i q mid s))"
proof -
  assume wf: "wake_wf s"
  let ?s' = "snd (mark_delivered fault t src i q mid s)"
  have "map we_key (ws_events ?s') = map we_key (ws_events s)" "ws_targets ?s' = ws_targets s"
    by (auto simp: mark_delivered_def Let_def)
  moreover have "set (map we_target (ws_events ?s')) = set (map we_target (ws_events s))"
    by (rule arg_cong [of _ _ set]) (auto simp: mark_delivered_def Let_def)
  ultimately have "wake_wf ?s' \<longleftrightarrow> wake_wf s" by (simp only: wake_wf_def)
  with wf show ?thesis by simp
qed

lemma wf_claim_wake [wf_intros]: "wake_wf s \<Longrightarrow> wake_wf (snd (claim_wake fault t q now lease s))"
  by (auto simp: claim_wake_def Let_def intro!: wf_update_target wf_ensure_target split: option.splits)

lemma wf_release_wake [wf_intros]: "wake_wf s \<Longrightarrow> wake_wf (snd (release_wake fault t s))"
  by (auto simp: release_wake_def intro!: wf_update_target)

lemma wf_record_read [wf_intros]: "wake_wf s \<Longrightarrow> 0 \<le> q \<Longrightarrow> wake_wf (snd (record_read fault t q s))"
proof -
  assume wf: "wake_wf s" and q: "0 \<le> q"
  have "wake_wf (s\<lparr>ws_targets := ws_targets s @ [(t, new_target\<lparr>wt_max_read_seq := q\<rparr>)]\<rparr>)"
    if "map_of (ws_targets s) t = None"
    using wf q that by (auto simp: wake_wf_def new_target_def map_of_eq_None_iff)
  moreover have "wake_wf (update_target t (\<lambda>r. r\<lparr>wt_max_read_seq := max (wt_max_read_seq r) q\<rparr>) s)"
    by (rule wf_update_target [OF wf]) simp
  ultimately show ?thesis using wf by (simp add: record_read_def Let_def)
qed

lemma wf_acknowledge [wf_intros]: "wake_wf s \<Longrightarrow> wake_wf (snd (acknowledge fault t q s))"
  by (auto simp: acknowledge_def Let_def load_ack_state_def intro!: wf_update_target split: option.splits)

text \<open>Cursors never move backwards.\<close>

definition read_upto :: "string \<Rightarrow> wake_store \<Rightarrow> int" where
  "read_upto t s = (case map_of (ws_targets s) t of Some r \<Rightarrow> wt_max_read_seq r | None \<Rightarrow> 0)"

lemma lookup_ensure_target:
  "map_of (ws_targets (ensure_target t s)) t' = (if t' = t \<and> map_of (ws_targets s) t = None then Some new_target else map_of (ws_targets s) t')"
  by (auto simp: ensure_target_def map_add_def split: option.splits)

lemma cursors_ensure_target [simp]:
  "acked t' (ensure_target t s) = acked t' s" "read_upto t' (ensure_target t s) = read_upto t' s"
  by (auto simp: acked_def read_upto_def lookup_ensure_target new_target_def)

lemma cursors_keep:
  "acked t' (snd (reserve_event f e s)) = acked t' s" "read_upto t' (snd (reserve_event f e s)) = read_upto t' s"
  "acked t' (snd (mark_delivered f t src i q mid s)) = acked t' s"
  "read_upto t' (snd (mark_delivered f t src i q mid s)) = read_upto t' s"
  "acked t' (snd (claim_wake ff t q now lease s)) = acked t' s"
  "read_upto t' (snd (claim_wake ff t q now lease s)) = read_upto t' s"
  "acked t' (snd (release_wake f t s)) = acked t' s" "read_upto t' (snd (release_wake f t s)) = read_upto t' s"
  by (auto simp: reserve_event_def mark_delivered_def claim_wake_def release_wake_def Let_def acked_def read_upto_def
      lookup_ensure_target new_target_def split: option.splits)

lemma acked_record_read [simp]: "acked t' (snd (record_read ff t q s)) = acked t' s"
  by (auto simp: record_read_def Let_def acked_def new_target_def map_add_def split: option.splits)

lemma acked_acknowledge: "acked t' s \<le> acked t' (snd (acknowledge f t q s))"
  by (auto simp: acknowledge_def Let_def acked_def split: option.splits)

lemma acknowledge_within_read:
  "fst (acknowledge f t q s) = Inr st \<Longrightarrow> q \<le> read_upto t s"
  by (auto simp: acknowledge_def Let_def load_ack_state_def read_upto_def split: if_splits option.splits)

subsection \<open>The lease\<close>

text \<open>Whether a wake of the target is under way at an instant: claimed and not yet expired.\<close>

definition leased :: "string \<Rightarrow> int \<Rightarrow> int \<Rightarrow> wake_store \<Rightarrow> bool" where
  "leased t now lease s \<longleftrightarrow>
     (case Option.bind (map_of (ws_targets s) t) wt_wake_claimed_at of Some c \<Rightarrow> now - lease < c | None \<Rightarrow> False)"

lemma claim_wake_exclusive:
  assumes "fst (claim_wake ff t q now lease s) = Inr True"
  shows "\<not> leased t now lease s" "acked t s < q"
    "0 < lease \<Longrightarrow> leased t now lease (snd (claim_wake ff t q now lease s))"
  using assms
  by (auto simp: claim_wake_def Let_def leased_def acked_def lookup_ensure_target new_target_def
      split: if_splits option.splits)

end
