(* ===== verification/Wake_Service.thy ===== *)
theory Wake_Service
  imports Wake_Store Client
begin

text \<open>
  The Codex wake bridge (\<open>service.rs\<close> and \<open>config.rs\<close> of \<open>cowchat-codex\<close>): its configuration, the chat
  backend on a Cowchat client, and the three tools \<open>wake_agent\<close>, \<open>wake_inbox_read\<close> and \<open>wake_inbox_ack\<close>.
  JSON text, RFC 3339 and the Codex app-server are parameters; the calls of the app-server are logged in
  \<open>br_wakes\<close>. An operation that waits for the chat backend returns no value when the backend does not
  return: its paging loops end only if the server's pages move on.
\<close>

subsection \<open>Configuration and events\<close>

datatype wake_hint = HintNone | HintNormal | HintUrgent

fun wake_hint_rank :: "wake_hint \<Rightarrow> int" where
  "wake_hint_rank HintNone = 0"
| "wake_hint_rank HintNormal = 1"
| "wake_hint_rank HintUrgent = 2"

text \<open>The derived order of the enum.\<close>

instantiation wake_hint :: linorder
begin

definition less_eq_wake_hint :: "wake_hint \<Rightarrow> wake_hint \<Rightarrow> bool" where
  "less_eq_wake_hint a b \<longleftrightarrow> wake_hint_rank a \<le> wake_hint_rank b"

definition less_wake_hint :: "wake_hint \<Rightarrow> wake_hint \<Rightarrow> bool" where
  "less_wake_hint a b \<longleftrightarrow> wake_hint_rank a < wake_hint_rank b"

instance
proof
  fix a b c :: wake_hint
  show "a < b \<longleftrightarrow> a \<le> b \<and> \<not> b \<le> a" by (auto simp: less_eq_wake_hint_def less_wake_hint_def)
  show "a \<le> a" by (simp add: less_eq_wake_hint_def)
  show "a \<le> b \<Longrightarrow> b \<le> c \<Longrightarrow> a \<le> c" by (simp add: less_eq_wake_hint_def)
  show "a \<le> b \<Longrightarrow> b \<le> a \<Longrightarrow> a = b" by (cases a; cases b) (simp_all add: less_eq_wake_hint_def)
  show "a \<le> b \<or> b \<le> a" by (auto simp: less_eq_wake_hint_def)
qed

end

fun wake_hint_str :: "wake_hint \<Rightarrow> string" where
  "wake_hint_str HintNone = ''none''"
| "wake_hint_str HintNormal = ''normal''"
| "wake_hint_str HintUrgent = ''urgent''"

record target_config =
  tg_thread_id :: string
  tg_room :: string
  tg_min_wake_hint :: wake_hint

record bridge_config =
  bc_tcp :: "string option"
  bc_socket :: "string option"
  bc_room_key_env :: "string option"
  bc_request_timeout_seconds :: nat
  bc_wake_lease_seconds :: int
  bc_targets :: "(string \<times> target_config) list"

datatype config_error = UnknownTarget | InvalidConfig

definition validate_config :: "bridge_config \<Rightarrow> config_error option" where
  "validate_config cfg =
     (if bc_targets cfg = [] then Some InvalidConfig
      else if (bc_tcp cfg \<noteq> None) = (bc_socket cfg \<noteq> None) then Some InvalidConfig
      else if bc_request_timeout_seconds cfg = 0 \<or> bc_wake_lease_seconds cfg \<le> 0 then Some InvalidConfig
      else if list_ex (\<lambda>(alias, t). trim alias = [] \<or> trim (tg_thread_id t) = [] \<or> trim (tg_room t) = []) (bc_targets cfg)
      then Some InvalidConfig else None)"

definition config_target :: "bridge_config \<Rightarrow> string \<Rightarrow> config_error + target_config" where
  "config_target cfg alias = (case map_of (bc_targets cfg) alias of Some t \<Rightarrow> Inr t | None \<Rightarrow> Inl UnknownTarget)"

record wake_event =
  wk_specversion :: string
  wk_id :: string
  wk_source :: string
  wk_event_type :: string
  wk_subject :: "string option"
  wk_time :: string
  wk_data :: json

record wake_agent_input =
  wi_target :: string
  wi_source :: string
  wi_event_id :: string
  wi_event_type :: string
  wi_subject :: "string option"
  wi_time :: "string option"
  wi_data :: json
  wi_wake_hint :: wake_hint

record codex_outcome =
  co_mode :: string
  co_prior_status :: string
  co_turn_id :: string

record wake_agent_output =
  wo_accepted :: bool
  wo_duplicate :: bool
  wo_target :: string
  wo_room :: string
  wo_seq :: int
  wo_wake :: string
  wo_codex :: "codex_outcome option"

record wake_inbox_read_input =
  wr_target :: string
  wr_after_cursor :: "int option"
  wr_limit :: "nat option"

record wake_inbox_item =
  wx_seq :: int
  wx_message_id :: string
  wx_sender :: string
  wx_event :: wake_event
  wx_wake_hint :: wake_hint

record wake_inbox_read_output =
  wz_target :: string
  wz_room :: string
  wz_after_cursor :: int
  wz_highest_returned_seq :: int
  wz_events :: "wake_inbox_item list"

record wake_inbox_ack_input =
  wn_target :: string
  wn_cursor :: int

record wake_inbox_ack_output =
  wq_target :: string
  wq_last_acked_seq :: int
  wq_max_read_seq :: int
  wq_next_pending_seq :: "int option"
  wq_followup_wake :: "string option"

record wake_reference =
  wf_target :: string
  wf_room :: string
  wf_after_seq :: int
  wf_observed_seq :: int
  wf_source :: string
  wf_event_id :: string
  wf_event_type :: string

datatype app_server_error =
    InvalidEndpoint | UnixConnect | AppWebSocket | MissingToken | InvalidToken | AppConnectionClosed | AppTimeout
  | InvalidJson | Rpc | MissingThreadStatus | ThreadSystemError | ActiveTurnNotSteerable | MissingTurnId

datatype service_error =
    SvcConfig config_error | SvcStore wake_store_error | SvcAppServer app_server_error | SvcCowchat client_error
  | InvalidCowchatTransport | MissingRoomKey | EventTooLarge nat | SvcJson | InvalidIdentifier string | InvalidCursor int
  | InvalidEventTime string | InvalidStoredEvent int

definition wake_metadata :: "string \<Rightarrow> wake_event \<Rightarrow> wake_hint \<Rightarrow> json" where
  "wake_metadata target event hint = JObj
     [(''kind'', JStr ''agent_wake''), (''wake_target'', JStr target), (''wake_source'', JStr (wk_source event)),
      (''wake_event_id'', JStr (wk_id event)), (''wake_event_type'', JStr (wk_event_type event)),
      (''wake_hint'', JStr (wake_hint_str hint))]"

definition metadata_string :: "chat_message \<Rightarrow> string \<Rightarrow> string option" where
  "metadata_string m key = json_get_str key (cm_metadata m)"

definition is_wake_for :: "string \<Rightarrow> chat_message \<Rightarrow> bool" where
  "is_wake_for target m \<longleftrightarrow>
     metadata_string m ''kind'' = Some ''agent_wake'' \<and> metadata_string m ''wake_target'' = Some target"

definition metadata_wake_hint :: "chat_message \<Rightarrow> wake_hint" where
  "metadata_wake_hint m =
     (case Option.bind (metadata_string m ''wake_hint'')
             (\<lambda>s. find (\<lambda>h. wake_hint_str h = s) [HintNone, HintNormal, HintUrgent]) of
        Some h \<Rightarrow> h | None \<Rightarrow> HintNormal)"

definition validate_identifier :: "string \<Rightarrow> string \<Rightarrow> service_error option" where
  "validate_identifier field v =
     (if trim v = [] \<or> 512 < length v \<or> list_ex is_control (chars v) then Some (InvalidIdentifier field) else None)"

subsection \<open>The chat backend\<close>

text \<open>The trait \<open>ChatBackend\<close>.\<close>

record 'c chat_backend =
  cb_send_event :: "string \<Rightarrow> string \<Rightarrow> wake_event \<Rightarrow> wake_hint \<Rightarrow> 'c \<Rightarrow> (service_error + chat_message) \<times> 'c"
  cb_find_event :: "string \<Rightarrow> string \<Rightarrow> string \<Rightarrow> string \<Rightarrow> 'c \<Rightarrow> (service_error + chat_message option) option"
  cb_read_events :: "string \<Rightarrow> string \<Rightarrow> int \<Rightarrow> nat \<Rightarrow> 'c \<Rightarrow> (service_error + chat_message list) option"

text \<open>\<open>CowchatBackend\<close>: the calls it makes of a client are a \<open>link\<close>. A link connects and joins or fails; it
  sends; the \<open>k\<close>-th page of a history is a function of the cursor.\<close>

record 'c chat_link =
  lk_connect :: "'c \<Rightarrow> client_error option"
  lk_join_room :: "string \<Rightarrow> 'c \<Rightarrow> client_error option"
  lk_send_message :: "string \<Rightarrow> string \<Rightarrow> json \<Rightarrow> 'c \<Rightarrow> (client_error + chat_message) \<times> 'c"
  lk_get_history :: "string \<Rightarrow> 'c \<Rightarrow> nat \<Rightarrow> int \<Rightarrow> client_error + chat_message list"

definition backend_connect :: "bridge_config \<Rightarrow> (string \<Rightarrow> string option) \<Rightarrow> 'c chat_link \<Rightarrow> 'c \<Rightarrow> service_error option" where
  "backend_connect cfg var link c =
     (if bc_socket cfg = None \<and> bc_tcp cfg = None then Some InvalidCowchatTransport
      else case lk_connect link c of
        Some e \<Rightarrow> Some (SvcCowchat e)
      | None \<Rightarrow> (case bc_room_key_env cfg of
                   Some name \<Rightarrow> if var name = None then Some MissingRoomKey else None
                 | None \<Rightarrow> None))"

definition joined_client ::
    "bridge_config \<Rightarrow> (string \<Rightarrow> string option) \<Rightarrow> 'c chat_link \<Rightarrow> string \<Rightarrow> 'c \<Rightarrow> service_error option" where
  "joined_client cfg var link room c =
     (case backend_connect cfg var link c of
        Some e \<Rightarrow> Some e
      | None \<Rightarrow> map_option SvcCowchat (lk_join_room link room c))"

definition cowchat_send_event where
  "cowchat_send_event text cfg var link target room event hint c =
     (case joined_client cfg var link room c of
        Some e \<Rightarrow> (Inl e, c)
      | None \<Rightarrow> (case lk_send_message link room (text event) (wake_metadata target event hint) c of
                   (Inl e, c') \<Rightarrow> (Inl (SvcCowchat e), c')
                 | (Inr m, c') \<Rightarrow> (Inr m, c')))"

partial_function (option) find_loop ::
    "(nat \<Rightarrow> int \<Rightarrow> client_error + chat_message list) \<Rightarrow> (chat_message \<Rightarrow> bool) \<Rightarrow> nat \<Rightarrow> int
     \<Rightarrow> (service_error + chat_message option) option" where
  "find_loop hist P k cursor =
     (case hist k cursor of
        Inl e \<Rightarrow> Some (Inl (SvcCowchat e))
      | Inr messages \<Rightarrow>
          if messages = [] then Some (Inr None)
          else case find P messages of
            Some m \<Rightarrow> Some (Inr (Some m))
          | None \<Rightarrow>
              if length messages < 1000 then Some (Inr None)
              else find_loop hist P (k + 1) (cm_seq (last messages)))"

definition is_event :: "string \<Rightarrow> string \<Rightarrow> string \<Rightarrow> chat_message \<Rightarrow> bool" where
  "is_event target source event_id m \<longleftrightarrow>
     is_wake_for target m \<and> metadata_string m ''wake_source'' = Some source
     \<and> metadata_string m ''wake_event_id'' = Some event_id"

definition cowchat_find_event where
  "cowchat_find_event cfg var link target room source event_id c =
     (case joined_client cfg var link room c of
        Some e \<Rightarrow> Some (Inl e)
      | None \<Rightarrow> find_loop (lk_get_history link room c) (is_event target source event_id) 0 0)"

partial_function (option) read_loop ::
    "(nat \<Rightarrow> int \<Rightarrow> client_error + chat_message list) \<Rightarrow> (chat_message \<Rightarrow> bool) \<Rightarrow> nat \<Rightarrow> nat \<Rightarrow> int \<Rightarrow> chat_message list
     \<Rightarrow> (service_error + chat_message list) option" where
  "read_loop hist P limit k cursor result =
     (if length result < limit then
        case hist k cursor of
          Inl e \<Rightarrow> Some (Inl (SvcCowchat e))
        | Inr messages \<Rightarrow>
            if messages = [] then Some (Inr result)
            else let result = result @ take (limit - length result) (filter P messages) in
              if length messages < 1000 then Some (Inr result)
              else read_loop hist P limit (k + 1) (cm_seq (last messages)) result
      else Some (Inr result))"

definition cowchat_read_events where
  "cowchat_read_events cfg var link target room after_seq limit c =
     (case joined_client cfg var link room c of
        Some e \<Rightarrow> Some (Inl e)
      | None \<Rightarrow> read_loop (lk_get_history link room c) (is_wake_for target) limit 0 after_seq [])"

definition cowchat_backend ::
    "(wake_event \<Rightarrow> string) \<Rightarrow> bridge_config \<Rightarrow> (string \<Rightarrow> string option) \<Rightarrow> 'c chat_link \<Rightarrow> 'c chat_backend" where
  "cowchat_backend text cfg var link =
     \<lparr>cb_send_event = cowchat_send_event text cfg var link,
      cb_find_event = cowchat_find_event cfg var link,
      cb_read_events = cowchat_read_events cfg var link\<rparr>"

subsection \<open>The service\<close>

text \<open>What the service asks of the outside: whether its \<open>k\<close>-th store statement fails, the \<open>k\<close>-th reading of
  the clock, RFC 3339, JSON text, and the app-server, which is called with a thread and a reference.\<close>

record wake_env =
  wv_fault :: "nat \<Rightarrow> bool"
  wv_now :: "nat \<Rightarrow> int"
  wv_now_rfc3339 :: string
  wv_valid_time :: "string \<Rightarrow> bool"
  wv_text :: "wake_event \<Rightarrow> string"
  wv_parse :: "string \<Rightarrow> wake_event option"
  wv_wake :: "string \<Rightarrow> wake_reference \<Rightarrow> app_server_error + codex_outcome"

record 'c bridge =
  br_store :: wake_store
  br_chat :: 'c
  br_wakes :: "(string \<times> wake_reference) list"

definition MAX_EVENT_BYTES :: nat where
  "MAX_EVENT_BYTES = 256 * 1024"

definition MAX_READ_LIMIT :: nat where
  "MAX_READ_LIMIT = 500"

definition maybe_wake ::
    "bridge_config \<Rightarrow> wake_env \<Rightarrow> string \<Rightarrow> string \<Rightarrow> string \<Rightarrow> int \<Rightarrow> wake_event \<Rightarrow> 'c bridge
     \<Rightarrow> (service_error + codex_outcome option) \<times> 'c bridge" where
  "maybe_wake cfg env alias thread_id room observed_seq event b =
     (case claim_wake (\<lambda>k. wv_fault env (2 + k)) alias observed_seq (wv_now env 1) (bc_wake_lease_seconds cfg) (br_store b) of
        (Inl e, s) \<Rightarrow> (Inl (SvcStore e), b\<lparr>br_store := s\<rparr>)
      | (Inr False, s) \<Rightarrow> (Inr None, b\<lparr>br_store := s\<rparr>)
      | (Inr True, s) \<Rightarrow>
          (case last_acked_seq (wv_fault env 4) alias s of
             Inl e \<Rightarrow> (Inl (SvcStore e), b\<lparr>br_store := s\<rparr>)
           | Inr after_seq \<Rightarrow>
               let reference = \<lparr>wf_target = alias, wf_room = room, wf_after_seq = after_seq, wf_observed_seq = observed_seq,
                     wf_source = wk_source event, wf_event_id = wk_id event, wf_event_type = wk_event_type event\<rparr>;
                   b1 = b\<lparr>br_store := s, br_wakes := br_wakes b @ [(thread_id, reference)]\<rparr>
               in case wv_wake env thread_id reference of
                    Inr outcome \<Rightarrow> (Inr (Some outcome), b1)
                  | Inl error \<Rightarrow>
                      (case release_wake (wv_fault env 5) alias s of
                         (Inl e, s') \<Rightarrow> (Inl (SvcStore e), b1\<lparr>br_store := s'\<rparr>)
                       | (Inr _, s') \<Rightarrow> (Inl (SvcAppServer error), b1\<lparr>br_store := s'\<rparr>))))"

text \<open>The middle of \<open>wake_agent\<close>: where the event is in the room, found or sent and marked.\<close>

definition mark_seq ::
    "wake_env \<Rightarrow> string \<Rightarrow> wake_event \<Rightarrow> chat_message \<Rightarrow> 'c bridge \<Rightarrow> (service_error + int) \<times> 'c bridge" where
  "mark_seq env target event m b =
     (case mark_delivered (wv_fault env 1) target (wk_source event) (wk_id event) (cm_seq m) (cm_message_id m) (br_store b) of
        (Inl e, s) \<Rightarrow> (Inl (SvcStore e), b\<lparr>br_store := s\<rparr>)
      | (Inr _, s) \<Rightarrow> (Inr (cm_seq m), b\<lparr>br_store := s\<rparr>))"

definition deliver_event ::
    "'c chat_backend \<Rightarrow> wake_env \<Rightarrow> string \<Rightarrow> string \<Rightarrow> wake_event \<Rightarrow> wake_hint \<Rightarrow> reservation \<Rightarrow> 'c bridge
     \<Rightarrow> (service_error + int) option \<times> 'c bridge" where
  "deliver_event bk env target room event hint reserved b =
     (case rs_room_seq reserved of
        Some seq \<Rightarrow> (Some (Inr seq), b)
      | None \<Rightarrow>
          (case cb_find_event bk target room (wk_source event) (wk_id event) (br_chat b) of
             None \<Rightarrow> (None, b)
           | Some (Inl e) \<Rightarrow> (Some (Inl e), b)
           | Some (Inr (Some recovered)) \<Rightarrow> apfst Some (mark_seq env target event recovered b)
           | Some (Inr None) \<Rightarrow>
               (case cb_send_event bk target room event hint (br_chat b) of
                  (Inl e, c) \<Rightarrow> (Some (Inl e), b\<lparr>br_chat := c\<rparr>)
                | (Inr sent, c) \<Rightarrow> apfst Some (mark_seq env target event sent (b\<lparr>br_chat := c\<rparr>)))))"

definition wake_event_of :: "wake_env \<Rightarrow> wake_agent_input \<Rightarrow> wake_event" where
  "wake_event_of env inp =
     \<lparr>wk_specversion = ''1.0'', wk_id = wi_event_id inp, wk_source = wi_source inp, wk_event_type = wi_event_type inp,
      wk_subject = wi_subject inp, wk_time = (case wi_time inp of Some t \<Rightarrow> t | None \<Rightarrow> wv_now_rfc3339 env),
      wk_data = wi_data inp\<rparr>"

text \<open>The checks before anything is stored, in order: the first that fails.\<close>

definition check_input :: "bridge_config \<Rightarrow> wake_env \<Rightarrow> wake_agent_input \<Rightarrow> service_error + target_config" where
  "check_input cfg env inp =
     (case List.map_filter id [validate_identifier ''target'' (wi_target inp), validate_identifier ''source'' (wi_source inp),
             validate_identifier ''event_id'' (wi_event_id inp), validate_identifier ''event_type'' (wi_event_type inp)] of
        e # _ \<Rightarrow> Inl e
      | [] \<Rightarrow>
          (case config_target cfg (wi_target inp) of
             Inl e \<Rightarrow> Inl (SvcConfig e)
           | Inr target \<Rightarrow>
               let event = wake_event_of env inp in
               if \<not> wv_valid_time env (wk_time event) then Inl (InvalidEventTime (wk_time event))
               else if MAX_EVENT_BYTES < length (wv_text env event) then Inl (EventTooLarge (length (wv_text env event)))
               else Inr target))"

definition reservation_of :: "wake_env \<Rightarrow> wake_agent_input \<Rightarrow> target_config \<Rightarrow> event_reservation" where
  "reservation_of env inp target =
     (let event = wake_event_of env inp in
      \<lparr>er_target = wi_target inp, er_source = wk_source event, er_event_id = wk_id event,
       er_event_json = wv_text env event, er_room_id = tg_room target,
       er_wake_hint_rank = wake_hint_rank (wi_wake_hint inp), er_now_unix = wv_now env 0\<rparr>)"

definition wake_agent ::
    "bridge_config \<Rightarrow> 'c chat_backend \<Rightarrow> wake_env \<Rightarrow> wake_agent_input \<Rightarrow> 'c bridge
     \<Rightarrow> (service_error + wake_agent_output) option \<times> 'c bridge" where
  "wake_agent cfg bk env inp b =
     (case check_input cfg env inp of
        Inl e \<Rightarrow> (Some (Inl e), b)
      | Inr target \<Rightarrow>
          let event = wake_event_of env inp in
          (case reserve_event (wv_fault env 0) (reservation_of env inp target) (br_store b) of
             (Inl e, s) \<Rightarrow> (Some (Inl (SvcStore e)), b\<lparr>br_store := s\<rparr>)
           | (Inr reserved, s) \<Rightarrow>
               (case deliver_event bk env (wi_target inp) (tg_room target) event (wi_wake_hint inp) reserved (b\<lparr>br_store := s\<rparr>) of
                  (None, b1) \<Rightarrow> (None, b1)
                | (Some (Inl e), b1) \<Rightarrow> (Some (Inl e), b1)
                | (Some (Inr seq), b1) \<Rightarrow>
                    let out = \<lparr>wo_accepted = True, wo_duplicate = rs_duplicate reserved, wo_target = wi_target inp,
                          wo_room = tg_room target, wo_seq = seq, wo_wake = ''filtered_by_recipient_policy'', wo_codex = None\<rparr>
                    in if wi_wake_hint inp < tg_min_wake_hint target then (Some (Inr out), b1)
                       else (case maybe_wake cfg env (wi_target inp) (tg_thread_id target) (tg_room target) seq event b1 of
                               (Inl e, b2) \<Rightarrow> (Some (Inl e), b2)
                             | (Inr codex, b2) \<Rightarrow>
                                 (Some (Inr (out\<lparr>wo_wake := if codex \<noteq> None then ''triggered'' else ''coalesced'',
                                                  wo_codex := codex\<rparr>)), b2)))))"

text \<open>Messages to items; the first message that holds no event is an error.\<close>

fun inbox_items :: "wake_env \<Rightarrow> chat_message list \<Rightarrow> service_error + wake_inbox_item list" where
  "inbox_items env [] = Inr []"
| "inbox_items env (m # ms) =
     (case wv_parse env (cm_content m) of
        None \<Rightarrow> Inl (InvalidStoredEvent (cm_seq m))
      | Some event \<Rightarrow>
          (case inbox_items env ms of
             Inl e \<Rightarrow> Inl e
           | Inr items \<Rightarrow> Inr (\<lparr>wx_seq = cm_seq m, wx_message_id = cm_message_id m, wx_sender = cm_agent_name m,
                              wx_event = event, wx_wake_hint = metadata_wake_hint m\<rparr> # items)))"

definition read_inbox ::
    "bridge_config \<Rightarrow> 'c chat_backend \<Rightarrow> wake_env \<Rightarrow> wake_inbox_read_input \<Rightarrow> 'c bridge
     \<Rightarrow> (service_error + wake_inbox_read_output) option \<times> 'c bridge" where
  "read_inbox cfg bk env inp b =
     (case config_target cfg (wr_target inp) of
        Inl e \<Rightarrow> (Some (Inl (SvcConfig e)), b)
      | Inr target \<Rightarrow>
          (case last_acked_seq (wv_fault env 0) (wr_target inp) (br_store b) of
             Inl e \<Rightarrow> (Some (Inl (SvcStore e)), b)
           | Inr last_acked \<Rightarrow>
               let after_cursor = (case wr_after_cursor inp of Some c \<Rightarrow> c | None \<Rightarrow> last_acked);
                   limit = max 1 (min MAX_READ_LIMIT (case wr_limit inp of Some n \<Rightarrow> n | None \<Rightarrow> 100))
               in if after_cursor < 0 then (Some (Inl (InvalidCursor after_cursor)), b)
                  else (case cb_read_events bk (wr_target inp) (tg_room target) after_cursor limit (br_chat b) of
                     None \<Rightarrow> (None, b)
                   | Some (Inl e) \<Rightarrow> (Some (Inl e), b)
                   | Some (Inr messages) \<Rightarrow>
                       (case inbox_items env messages of
                          Inl e \<Rightarrow> (Some (Inl e), b)
                        | Inr events \<Rightarrow>
                            let highest = (if events = [] then after_cursor else wx_seq (last events)) in
                            (case record_read (\<lambda>k. wv_fault env (1 + k)) (wr_target inp) highest (br_store b) of
                               (Inl e, s) \<Rightarrow> (Some (Inl (SvcStore e)), b\<lparr>br_store := s\<rparr>)
                             | (Inr _, s) \<Rightarrow>
                                 (Some (Inr \<lparr>wz_target = wr_target inp, wz_room = tg_room target, wz_after_cursor = after_cursor,
                                           wz_highest_returned_seq = highest, wz_events = events\<rparr>), b\<lparr>br_store := s\<rparr>))))))"

text \<open>The wake that may follow an acknowledgement: what it was, or nothing. Its store statements are
  numbered from 6.\<close>

definition followup_wake ::
    "bridge_config \<Rightarrow> wake_env \<Rightarrow> string \<Rightarrow> target_config \<Rightarrow> 'c bridge \<Rightarrow> (service_error + string option) \<times> 'c bridge" where
  "followup_wake cfg env alias target b =
     (case max_pending_eligible_seq (wv_fault env 6) alias (wake_hint_rank (tg_min_wake_hint target)) (br_store b) of
        Inl e \<Rightarrow> (Inl (SvcStore e), b)
      | Inr None \<Rightarrow> (Inr None, b)
      | Inr (Some seq) \<Rightarrow>
          (case delivered_event (wv_fault env 7) alias seq (br_store b) of
             Inl e \<Rightarrow> (Inl (SvcStore e), b)
           | Inr None \<Rightarrow> (Inr None, b)
           | Inr (Some row) \<Rightarrow>
               (case wv_parse env (we_event_json row) of
                  None \<Rightarrow> (Inl SvcJson, b)
                | Some event \<Rightarrow>
                    (case maybe_wake cfg env alias (tg_thread_id target) (tg_room target) seq event b of
                       (Inl e, b1) \<Rightarrow> (Inl e, b1)
                     | (Inr outcome, b1) \<Rightarrow> (Inr (Some (if outcome \<noteq> None then ''triggered'' else ''coalesced'')), b1)))))"

definition wake_acknowledge ::
    "bridge_config \<Rightarrow> wake_env \<Rightarrow> wake_inbox_ack_input \<Rightarrow> 'c bridge
     \<Rightarrow> (service_error + wake_inbox_ack_output) \<times> 'c bridge" where
  "wake_acknowledge cfg env inp b =
     (case config_target cfg (wn_target inp) of
        Inl e \<Rightarrow> (Inl (SvcConfig e), b)
      | Inr target \<Rightarrow>
          (case acknowledge (wv_fault env 0) (wn_target inp) (wn_cursor inp) (br_store b) of
             (Inl e, s) \<Rightarrow> (Inl (SvcStore e), b\<lparr>br_store := s\<rparr>)
           | (Inr state, s) \<Rightarrow>
               (case followup_wake cfg env (wn_target inp) target (b\<lparr>br_store := s\<rparr>) of
                  (Inl e, b1) \<Rightarrow> (Inl e, b1)
                | (Inr followup, b1) \<Rightarrow>
                    (Inr \<lparr>wq_target = wn_target inp, wq_last_acked_seq = as_last_acked_seq state,
                         wq_max_read_seq = as_max_read_seq state, wq_next_pending_seq = as_max_pending_seq state,
                         wq_followup_wake = followup\<rparr>, b1))))"

subsection \<open>Cases\<close>

lemma mark_seq_frame [simp]:
  "br_chat (snd (mark_seq env target event m b)) = br_chat b" "br_wakes (snd (mark_seq env target event m b)) = br_wakes b"
  by (simp_all add: mark_seq_def split: prod.split sum.split)

lemma deliver_event_wakes [simp]: "br_wakes (snd (deliver_event bk env target room event hint reserved b)) = br_wakes b"
  by (auto simp: deliver_event_def split: option.split sum.split prod.split)

lemma deliver_event_cases:
  assumes "deliver_event bk env target room event hint reserved b = (x, b')"
  obtains (kept) "br_chat b' = br_chat b"
  | (sent) y where "rs_room_seq reserved = None"
      "cb_find_event bk target room (wk_source event) (wk_id event) (br_chat b) = Some (Inr None)"
      "cb_send_event bk target room event hint (br_chat b) = (y, br_chat b')"
proof (cases "rs_room_seq reserved")
  case None
  let ?f = "cb_find_event bk target room (wk_source event) (wk_id event) (br_chat b)"
  show ?thesis
  proof (cases "?f = Some (Inr None)")
    case True
    obtain y c where send: "cb_send_event bk target room event hint (br_chat b) = (y, c)" by force
    have "b' = snd (deliver_event bk env target room event hint reserved b)" using assms by simp
    then have "br_chat b' = c" using None True send by (cases y) (simp_all add: deliver_event_def)
    with None True send show ?thesis using sent by blast
  next
    case False
    have "b' = snd (deliver_event bk env target room event hint reserved b)" using assms by simp
    with None False have "br_chat b' = br_chat b"
      by (auto simp: deliver_event_def split: option.split sum.split)
    then show ?thesis by (rule kept)
  qed
qed (use assms kept in \<open>simp add: deliver_event_def\<close>)

lemma maybe_wake_chat [simp]: "br_chat (snd (maybe_wake cfg env alias th room q event b)) = br_chat b"
  by (simp add: maybe_wake_def Let_def split: prod.split sum.split bool.split)

lemma wake_agent_cases:
  obtains (early) e where "wake_agent cfg bk env inp b = (Some (Inl e), b)"
  | (delivered) target reserved s x b1 where "check_input cfg env inp = Inr target"
      "reserve_event (wv_fault env 0) (reservation_of env inp target) (br_store b) = (Inr reserved, s)"
      "deliver_event bk env (wi_target inp) (tg_room target) (wake_event_of env inp) (wi_wake_hint inp) reserved
         (b\<lparr>br_store := s\<rparr>) = (x, b1)"
      "snd (wake_agent cfg bk env inp b) = b1"
      "\<And>out. fst (wake_agent cfg bk env inp b) = Some (Inr out) \<Longrightarrow> wo_room out = tg_room target \<and> x = Some (Inr (wo_seq out))"
  | (woken) target reserved s seq b1 where "check_input cfg env inp = Inr target"
      "reserve_event (wv_fault env 0) (reservation_of env inp target) (br_store b) = (Inr reserved, s)"
      "deliver_event bk env (wi_target inp) (tg_room target) (wake_event_of env inp) (wi_wake_hint inp) reserved
         (b\<lparr>br_store := s\<rparr>) = (Some (Inr seq), b1)"
      "tg_min_wake_hint target \<le> wi_wake_hint inp"
      "snd (wake_agent cfg bk env inp b)
         = snd (maybe_wake cfg env (wi_target inp) (tg_thread_id target) (tg_room target) seq (wake_event_of env inp) b1)"
      "\<And>out. fst (wake_agent cfg bk env inp b) = Some (Inr out) \<Longrightarrow> wo_room out = tg_room target"
proof (cases "check_input cfg env inp")
  case (Inl e)
  then show ?thesis by (intro early [of e]) (simp add: wake_agent_def)
next
  case target: (Inr target)
  obtain r s where r: "reserve_event (wv_fault env 0) (reservation_of env inp target) (br_store b) = (r, s)" by force
  show ?thesis
  proof (cases r)
    case (Inl e)
    with r have "s = br_store b" by (simp add: reserve_event_def Let_def split: if_splits option.splits)
    with Inl target r show ?thesis by (intro early [of "SvcStore e"]) (simp add: wake_agent_def)
  next
    case reserved: (Inr reserved)
    obtain x b1 where d: "deliver_event bk env (wi_target inp) (tg_room target) (wake_event_of env inp) (wi_wake_hint inp)
        reserved (b\<lparr>br_store := s\<rparr>) = (x, b1)" by force
    note eqs = target r [unfolded reserved] d
    show ?thesis
    proof (cases "\<exists>seq. x = Some (Inr seq) \<and> \<not> wi_wake_hint inp < tg_min_wake_hint target")
      case True
      then obtain seq where seq: "x = Some (Inr seq)" "\<not> wi_wake_hint inp < tg_min_wake_hint target" by blast
      then have "snd (wake_agent cfg bk env inp b)
         = snd (maybe_wake cfg env (wi_target inp) (tg_thread_id target) (tg_room target) seq (wake_event_of env inp) b1)"
        using eqs by (simp add: wake_agent_def Let_def split: prod.split sum.split)
      moreover have "wo_room out = tg_room target" if "fst (wake_agent cfg bk env inp b) = Some (Inr out)" for out
        using that eqs seq by (auto simp: wake_agent_def Let_def split: prod.splits sum.splits)
      ultimately show ?thesis using seq eqs by (intro woken) simp_all
    next
      case False
      then have "snd (wake_agent cfg bk env inp b) = b1"
        using eqs by (auto simp: wake_agent_def Let_def split: option.split sum.split)
      moreover have "wo_room out = tg_room target \<and> x = Some (Inr (wo_seq out))"
        if "fst (wake_agent cfg bk env inp b) = Some (Inr out)" for out
        using that eqs False by (auto simp: wake_agent_def Let_def split: option.splits sum.splits if_splits)
      ultimately show ?thesis by (rule delivered [OF eqs])
    qed
  qed
qed

end
