(* ===== verification/Wake_Safety.thy ===== *)
theory Wake_Safety
  imports Wake_Service Client_Safety
begin

text \<open>
  The wake bridge is right. Its reliance on the chat room is the interface \<open>chat_log\<close>, interpreted on the
  Cowchat backend over the server's store; inside it: an event reaches the room at most once however
  often it is retried, and the inbox is read in order without gaps. Then the lease and the recipient's
  policy, and what an acknowledgement may confirm.
\<close>

subsection \<open>The interface\<close>

definition carries :: "string \<Rightarrow> wake_event \<Rightarrow> wake_hint \<Rightarrow> chat_message \<Rightarrow> bool" where
  "carries target event hint m \<longleftrightarrow> cm_metadata m = wake_metadata target event hint"

locale chat_log =
  fixes backend :: "'c chat_backend"
    and valid :: "'c \<Rightarrow> bool"
    and log :: "'c \<Rightarrow> string \<Rightarrow> chat_message list"
  assumes send_appends: "valid c \<Longrightarrow> cb_send_event backend target room event hint c = (x, c') \<Longrightarrow>
      valid c' \<and> ((c' = c \<and> (\<exists>e. x = Inl e))
        \<or> (\<exists>m. log c' room = log c room @ [m] \<and> carries target event hint m \<and> (\<forall>r. r \<noteq> room \<longrightarrow> log c' r = log c r)
             \<and> (\<forall>m'. x = Inr m' \<longrightarrow> cm_seq m' = cm_seq m)))"
    and find_searches: "valid c \<Longrightarrow> cb_find_event backend target room source i c = Some (Inr r) \<Longrightarrow>
      (r = None \<longleftrightarrow> find (is_event target source i) (log c room) = None)"
    and read_pages: "valid c \<Longrightarrow> 0 \<le> q \<Longrightarrow> cb_read_events backend target room q n c = Some (Inr ms) \<Longrightarrow>
      map cm_seq ms = map cm_seq (take n (filter (\<lambda>m. q < cm_seq m \<and> is_wake_for target m) (log c room)))"
    and log_ascending: "valid c \<Longrightarrow> sorted_wrt (\<lambda>m m'. cm_seq m < cm_seq m') (log c room)"

lemma is_event_carries: "carries target event hint m \<Longrightarrow>
    is_event t s i m \<longleftrightarrow> t = target \<and> s = wk_source event \<and> i = wk_id event"
  by (auto simp: carries_def is_event_def is_wake_for_def metadata_string_def wake_metadata_def)

context chat_log
begin

text \<open>How often an event stands in a room.\<close>

definition copies :: "string \<Rightarrow> string \<Rightarrow> string \<Rightarrow> string \<Rightarrow> 'c \<Rightarrow> nat" where
  "copies target source i room c = length (filter (is_event target source i) (log c room))"

lemma deliver_event_copies:
  assumes "valid (br_chat b)" "deliver_event backend env target room event hint reserved b = (x, b')"
  shows "valid (br_chat b') \<and> (copies t s i r (br_chat b') \<le> max 1 (copies t s i r (br_chat b)))"
proof -
  from assms(2) show ?thesis
  proof (cases rule: deliver_event_cases)
    case kept
    with assms(1) show ?thesis by simp
  next
    case sent
    have none: "copies target (wk_source event) (wk_id event) room (br_chat b) = 0"
      using find_searches [OF assms(1) sent(2)] by (simp add: copies_def find_None_iff filter_empty_conv)
    from send_appends [OF assms(1) sent(3)] show ?thesis
    proof (elim conjE disjE exE)
      fix m assume m: "log (br_chat b') room = log (br_chat b) room @ [m]" "carries target event hint m"
        "\<forall>r. r \<noteq> room \<longrightarrow> log (br_chat b') r = log (br_chat b) r" "valid (br_chat b')"
      then have "copies t s i r (br_chat b')
          = copies t s i r (br_chat b) + (if r = room \<and> is_event t s i m then 1 else 0)"
          by (cases "r = room") (simp_all add: copies_def)
      with m(4) none show ?thesis using is_event_carries [OF m(2), of t s i] by auto
    qed simp
  qed
qed

lemma wake_agent_copies:
  assumes "valid (br_chat b)"
  shows "valid (br_chat (snd (wake_agent cfg backend env inp b)))
    \<and> copies t s i r (br_chat (snd (wake_agent cfg backend env inp b))) \<le> max 1 (copies t s i r (br_chat b))"
proof -
  note step = deliver_event_copies [where t = t and s = s and i = i and r = r]
  show ?thesis
  proof (cases rule: wake_agent_cases [of cfg backend env inp b])
    case early
    with assms show ?thesis by simp
  next
    case delivered
    with step [OF _ delivered(3)] assms show ?thesis by simp
  next
    case woken
    with step [OF _ woken(3)] assms show ?thesis by simp
  qed
qed

text \<open>Every event that the bridge's table has as delivered stands in its room.\<close>

definition settled :: "'c bridge \<Rightarrow> bool" where
  "settled b \<longleftrightarrow> (\<forall>e \<in> set (ws_events (br_store b)). we_room_seq e \<noteq> None \<longrightarrow>
     0 < copies (we_target e) (we_source e) (we_event_id e) (we_room_id e) (br_chat b))"

lemma settled_mark:
  assumes "settled b" "0 < copies target (wk_source event) (wk_id event) room (br_chat b)"
    and "\<forall>e \<in> set (ws_events (br_store b)). we_key e = (target, wk_source event, wk_id event) \<longrightarrow> we_room_id e = room"
  shows "settled (snd (mark_seq env target event m b))"
proof -
  have "settled (b\<lparr>br_store := snd (mark_delivered f target (wk_source event) (wk_id event) q mid (br_store b))\<rparr>)" for f q mid
    using assms by (auto simp: settled_def mark_delivered_def Let_def)
  then show ?thesis by (simp add: mark_seq_def split: prod.split sum.split) (metis snd_conv)
qed

lemma settled_reserve:
  assumes "settled b" "reserve_event fault e (br_store b) = (Inr reserved, s)"
  shows "settled (b\<lparr>br_store := s\<rparr>)"
    and "\<forall>x \<in> set (ws_events s). wake_wf (br_store b) \<longrightarrow> we_key x = (er_target e, er_source e, er_event_id e) \<longrightarrow> we_room_id x = er_room_id e"
    and "rs_room_seq reserved \<noteq> None \<Longrightarrow> 0 < copies (er_target e) (er_source e) (er_event_id e) (er_room_id e) (br_chat b)"
proof -
  let ?k = "(er_target e, er_source e, er_event_id e)"
  show "settled (b\<lparr>br_store := s\<rparr>)"
    using assms by (auto simp: settled_def reserve_event_def Let_def split: if_splits option.splits)
  show "rs_room_seq reserved \<noteq> None \<Longrightarrow> 0 < copies (er_target e) (er_source e) (er_event_id e) (er_room_id e) (br_chat b)"
    using assms
    by (auto simp: settled_def reserve_event_def Let_def dest!: row_find_SomeD split: if_splits option.splits)
  show "\<forall>x \<in> set (ws_events s). wake_wf (br_store b) \<longrightarrow> we_key x = ?k \<longrightarrow> we_room_id x = er_room_id e"
  proof (intro ballI impI)
    fix x assume x: "x \<in> set (ws_events s)" "wake_wf (br_store b)" "we_key x = ?k"
    have "wake_wf s" using wf_reserve_event [OF x(2), of fault e] assms(2) by simp
    then have "row_find we_key ?k (ws_events s) = Some x"
      using x row_find_unique [of we_key "ws_events s" ?k x] by (simp add: wake_wf_def)
    then show "we_room_id x = er_room_id e"
      using assms(2) by (auto simp: reserve_event_def Let_def row_find_append split: if_splits option.splits)
  qed
qed

lemma reservation_of_sel [simp]:
  "er_target (reservation_of env inp target) = wi_target inp" "er_source (reservation_of env inp target) = wi_source inp"
  "er_event_id (reservation_of env inp target) = wi_event_id inp" "er_room_id (reservation_of env inp target) = tg_room target"
  "wk_source (wake_event_of env inp) = wi_source inp" "wk_id (wake_event_of env inp) = wi_event_id inp"
  by (simp_all add: reservation_of_def wake_event_of_def Let_def)

lemma copies_grow:
  "valid c \<Longrightarrow> cb_send_event backend target room event hint c = (x, c') \<Longrightarrow> copies t s i r c \<le> copies t s i r c'"
  by (drule (1) send_appends) (cases "r = room"; auto simp: copies_def)

lemma deliver_event_settled:
  assumes "valid (br_chat b)" "settled b"
    and "\<forall>e \<in> set (ws_events (br_store b)). we_key e = (target, wk_source event, wk_id event) \<longrightarrow> we_room_id e = room"
    and "rs_room_seq reserved \<noteq> None \<Longrightarrow> 0 < copies target (wk_source event) (wk_id event) room (br_chat b)"
    and "deliver_event backend env target room event hint reserved b = (x, b')"
  shows "settled b' \<and> (\<forall>seq. x = Some (Inr seq) \<longrightarrow> 0 < copies target (wk_source event) (wk_id event) room (br_chat b'))"
proof (cases "rs_room_seq reserved")
  case (Some seq)
  with assms(2,4,5) show ?thesis by (simp add: deliver_event_def)
next
  case None
  let ?n = "copies target (wk_source event) (wk_id event) room"
  have marked: "settled (snd (mark_seq env target event m c)) \<and> 0 < ?n (br_chat (snd (mark_seq env target event m c)))"
    if "settled c" "0 < ?n (br_chat c)" "br_store c = br_store b" for m c
    using settled_mark [OF that(1,2)] assms(3) that by simp
  show ?thesis
  proof (cases "cb_find_event backend target room (wk_source event) (wk_id event) (br_chat b)")
    case (Some r)
    show ?thesis
    proof (cases r)
      case found: (Inr m)
      show ?thesis
      proof (cases m)
        case (Some recovered)
        have "0 < ?n (br_chat b)"
          using find_searches [OF assms(1), of target room "wk_source event" "wk_id event" m] \<open>_ = Some r\<close> found Some
          by (auto simp: copies_def find_None_iff filter_empty_conv)
        note marked [OF assms(2) this refl, of recovered]
        moreover have "b' = snd (mark_seq env target event recovered b)"
          using assms(5) None \<open>_ = Some r\<close> found Some
          by (auto simp: deliver_event_def apfst_def map_prod_def split: prod.splits)
        ultimately show ?thesis by simp
      next
        case absent: None
        obtain y c where send: "cb_send_event backend target room event hint (br_chat b) = (y, c)" by force
        have grown: "settled (b\<lparr>br_chat := c\<rparr>)"
          unfolding settled_def
        proof (intro ballI impI)
          fix e assume "e \<in> set (ws_events (br_store (b\<lparr>br_chat := c\<rparr>)))" "we_room_seq e \<noteq> None"
          then have "0 < copies (we_target e) (we_source e) (we_event_id e) (we_room_id e) (br_chat b)"
            using assms(2) by (simp add: settled_def)
          with copies_grow [OF assms(1) send] show "0 < copies (we_target e) (we_source e) (we_event_id e) (we_room_id e)
              (br_chat (b\<lparr>br_chat := c\<rparr>))" by (simp add: order_less_le_trans)
        qed
        show ?thesis
        proof (cases y)
          case Inl
          with assms(5) None \<open>_ = Some r\<close> found absent send grown show ?thesis by (auto simp: deliver_event_def)
        next
          case (Inr sent)
          then have "0 < ?n c"
            using send_appends [OF assms(1) send] is_event_carries by (auto simp: copies_def)
          then have "settled (snd (mark_seq env target event sent (b\<lparr>br_chat := c\<rparr>)))
              \<and> 0 < ?n (br_chat (snd (mark_seq env target event sent (b\<lparr>br_chat := c\<rparr>))))"
            by (intro marked [OF grown]) simp_all
          moreover have "b' = snd (mark_seq env target event sent (b\<lparr>br_chat := c\<rparr>))"
            using assms(5) None \<open>_ = Some r\<close> found absent send Inr
            by (auto simp: deliver_event_def apfst_def map_prod_def split: prod.splits)
          ultimately show ?thesis by simp
        qed
      qed
    qed (use assms(2,5) None Some in \<open>auto simp: deliver_event_def\<close>)
  qed (use assms(2,5) None in \<open>auto simp: deliver_event_def\<close>)
qed

lemma maybe_wake_events [simp]: "ws_events (br_store (snd (maybe_wake cfg env alias th room q event b))) = ws_events (br_store b)"
  by (auto simp: maybe_wake_def claim_wake_def release_wake_def Let_def split: prod.split sum.split bool.split option.split)

lemma settled_maybe_wake: "settled b \<Longrightarrow> settled (snd (maybe_wake cfg env alias th room q event b))"
  by (simp add: settled_def)

lemma wake_agent_settled:
  assumes "valid (br_chat b)" "settled b" "wake_wf (br_store b)"
  shows "settled (snd (wake_agent cfg backend env inp b))
    \<and> (\<forall>out. fst (wake_agent cfg backend env inp b) = Some (Inr out) \<longrightarrow>
         0 < copies (wi_target inp) (wi_source inp) (wi_event_id inp) (wo_room out) (br_chat (snd (wake_agent cfg backend env inp b))))"
proof (cases rule: wake_agent_cases [of cfg backend env inp b])
  case (early e)
  with assms(2) show ?thesis by simp
next
  case (delivered target reserved s x b1)
  note r = settled_reserve [OF assms(2) delivered(2)]
  have "settled b1 \<and> (\<forall>seq. x = Some (Inr seq)
      \<longrightarrow> 0 < copies (wi_target inp) (wi_source inp) (wi_event_id inp) (tg_room target) (br_chat b1))"
    using deliver_event_settled [OF _ _ _ _ delivered(3)] assms r by simp
  with delivered show ?thesis by auto
next
  case (woken target reserved s seq b1)
  note r = settled_reserve [OF assms(2) woken(2)]
  have "settled b1 \<and> 0 < copies (wi_target inp) (wi_source inp) (wi_event_id inp) (tg_room target) (br_chat b1)"
    using deliver_event_settled [OF _ _ _ _ woken(3)] assms r by simp
  with woken settled_maybe_wake show ?thesis by simp
qed

end

subsection \<open>The Cowchat backend\<close>

text \<open>The link to a server, as the client sees it: \<open>ready\<close> says whether connecting and joining succeed,
  \<open>drop_reply\<close> whether the reply to a message is lost after the server has stored it, \<open>mid\<close> is the new
  message's identifier. Contents travel through the client's encryption.\<close>

record link_env =
  le_ready :: bool
  le_refused :: bool
  le_drop_reply :: bool
  le_now :: int
  le_mid :: "store \<Rightarrow> string"
  le_me :: client_id
  le_nonce :: string

definition store_link :: "aead_lib \<Rightarrow> link_env \<Rightarrow> store chat_link" where
  "store_link lib le =
     \<lparr>lk_connect = (\<lambda>s. if le_ready le then None else Some ConnectionClosed),
      lk_join_room = (\<lambda>room s. None),
      lk_send_message = (\<lambda>room content metadata s.
        if le_refused le then (Inl (ServerError RateLimitMessages), s)
        else case insert_message False (le_now le) (le_mid le s) room (ci_agent_id (le_me le)) (ci_agent_name (le_me le))
               (encrypt_content lib (le_nonce le) (le_me le) room content) None metadata s of
          (Inl e, s') \<Rightarrow> (Inl (ServerError InternalError), s')
        | (Inr m, s') \<Rightarrow> if le_drop_reply le then (Inl TimedOut, s') else (Inr (decrypt_message lib (le_me le) m), s')),
      lk_get_history = (\<lambda>room s k q. Inr (map (decrypt_message lib (le_me le)) (history_page s room q 1000)))\<rparr>"

lemma insert_message_failed:
  "insert_message fault now mid rid aid an c rp md s = (Inl e, s') \<Longrightarrow> s' = s"
  by (rule insert_message_cases [of fault now mid rid aid an c rp md s]) auto

lemma insert_message_metadata:
  assumes "fst (insert_message fault now mid rid aid an c rp md s) = Inr m"
  shows "cm_metadata m = md"
proof (cases rule: insert_message_cases [of fault now mid rid aid an c rp md s])
  case failed
  with assms show ?thesis by simp
next
  case stored
  with assms show ?thesis by (auto simp: map_message_row_def)
qed

lemma send_store_link:
  "cb_send_event (cowchat_backend fmt cfg var (store_link lib le)) target room event hint s =
     (case joined_client cfg var (store_link lib le) room s of
        Some e \<Rightarrow> (Inl e, s)
      | None \<Rightarrow>
          if le_refused le then (Inl (SvcCowchat (ServerError RateLimitMessages)), s)
          else
            let ins = insert_message False (le_now le) (le_mid le s) room (ci_agent_id (le_me le)) (ci_agent_name (le_me le))
                  (encrypt_content lib (le_nonce le) (le_me le) room (fmt event)) None (wake_metadata target event hint) s
            in case fst ins of
                 Inl e \<Rightarrow> (Inl (SvcCowchat (ServerError InternalError)), snd ins)
               | Inr m \<Rightarrow> (if le_drop_reply le then Inl (SvcCowchat TimedOut) else Inr (decrypt_message lib (le_me le) m), snd ins))"
proof (cases "joined_client cfg var (store_link lib le) room s")
  case None
  let ?ins = "insert_message False (le_now le) (le_mid le s) room (ci_agent_id (le_me le)) (ci_agent_name (le_me le))
      (encrypt_content lib (le_nonce le) (le_me le) room (fmt event)) None (wake_metadata target event hint) s"
  obtain r s' where ins: "?ins = (r, s')" by force
  have "lk_send_message (store_link lib le) room (fmt event) (wake_metadata target event hint) s
      = (if le_refused le then (Inl (ServerError RateLimitMessages), s)
         else case r of
           Inl e \<Rightarrow> (Inl (ServerError InternalError), s')
         | Inr m \<Rightarrow> if le_drop_reply le then (Inl TimedOut, s') else (Inr (decrypt_message lib (le_me le) m), s'))"
    by (simp add: store_link_def ins)
  with None ins show ?thesis
    by (cases r) (simp_all add: cowchat_backend_def cowchat_send_event_def)
qed (simp add: cowchat_backend_def cowchat_send_event_def)

lemma is_event_decrypt [simp]: "is_event t s i (decrypt_message lib me m) = is_event t s i m"
  by (simp add: is_event_def is_wake_for_def metadata_string_def)

lemma is_wake_for_decrypt [simp]: "is_wake_for t (decrypt_message lib me m) = is_wake_for t m"
  by (simp add: is_wake_for_def metadata_string_def)

lemma find_map: "find P (map f xs) = map_option f (find (P \<circ> f) xs)"
  by (induction xs) auto

text \<open>The two paging loops on a well-formed store return, and they return what a search or a filter of the
  whole log gives.\<close>

abbreviation pages :: "aead_lib \<Rightarrow> client_id \<Rightarrow> store \<Rightarrow> string \<Rightarrow> nat \<Rightarrow> int \<Rightarrow> client_error + chat_message list" where
  "pages lib me s room \<equiv> (\<lambda>k q. Inr (map (decrypt_message lib me) (history_page s room q 1000)))"

lemma short_page:
  assumes "store_wf s" "length (history_page s room q 1000) < 1000"
  shows "history_page s room q 1000 = behind s room q"
  using assms room_seq.page_eq [OF assms(1), of room q 1000] by simp

lemma last_decrypt: "ms \<noteq> [] \<Longrightarrow> cm_seq (last (map (decrypt_message lib me) ms)) = room_seq.next_cursor q ms"
  by (simp add: room_seq.next_cursor_def last_map)

lemma find_loop_store:
  assumes wf: "store_wf s" and P: "\<And>m. P (decrypt_message lib me m) = P m"
  shows "find_loop (pages lib me s room) P k q
       = Some (Inr (map_option (decrypt_message lib me) (find P (behind s room q))))"
proof (induction "length (behind s room q)" arbitrary: q k rule: less_induct)
  case less
  let ?p = "history_page s room q 1000" and ?L = "behind s room q"
  have page: "?p = take 1000 ?L" by (rule room_seq.page_eq [OF wf])
  have comp: "P \<circ> decrypt_message lib me = P" using P by auto
  show ?case
  proof (cases "?p = []")
    case True
    then have "?L = []" using page by simp
    with True show ?thesis by (simp add: find_loop.simps)
  next
    case False
    have split: "find P ?L = (case find P ?p of Some m \<Rightarrow> Some m | None \<Rightarrow> find P (drop 1000 ?L))"
      using find_append [of P "take 1000 ?L" "drop 1000 ?L"] by (simp add: page)
    show ?thesis
    proof (cases "find P ?p")
      case (Some m)
      with False split show ?thesis by (simp add: find_loop.simps find_map comp)
    next
      case None
      show ?thesis
      proof (cases "length ?p < 1000")
        case True
        with None False short_page [OF wf True] show ?thesis by (simp add: find_loop.simps find_map comp)
      next
        case long: False
        note behind = room_seq.filter_next_cursor [OF wf False]
        have "?L \<noteq> []" using False page by auto
        then have "length (drop 1000 ?L) < length ?L" by simp
        then have "find_loop (pages lib me s room) P (k + 1) (room_seq.next_cursor q ?p)
            = Some (Inr (map_option (decrypt_message lib me) (find P (drop 1000 ?L))))"
          using less [of "room_seq.next_cursor q ?p" "k + 1"] unfolding behind by blast
        with None False long split last_decrypt [OF False, of lib me q] show ?thesis
          by (subst find_loop.simps) (simp add: find_map comp)
      qed
    qed
  qed
qed

lemma read_loop_store:
  assumes wf: "store_wf s" and P: "\<And>m. P (decrypt_message lib me m) = P m"
  shows "read_loop (pages lib me s room) P n k q acc
       = Some (Inr (if length acc < n
           then acc @ take (n - length acc) (map (decrypt_message lib me) (filter P (behind s room q))) else acc))"
proof (induction "length (behind s room q)" arbitrary: q k acc rule: less_induct)
  case less
  let ?p = "history_page s room q 1000" and ?L = "behind s room q" and ?d = "map (decrypt_message lib me)"
  have page: "?p = take 1000 ?L" by (rule room_seq.page_eq [OF wf])
  have comp: "P \<circ> decrypt_message lib me = P" using P by auto
  have fm: "filter P (?d ms) = ?d (filter P ms)" for ms by (simp add: filter_map comp)
  show ?case
  proof (cases "length acc < n \<and> ?p \<noteq> []")
    case False
    then have "length acc < n \<Longrightarrow> ?L = []" using page by simp
    with False show ?thesis by (auto simp: read_loop.simps [of _ P n k q])
  next
    case True
    let ?acc = "acc @ take (n - length acc) (?d (filter P ?p))"
    show ?thesis
    proof (cases "length ?p < 1000")
      case short: True
      with True short_page [OF wf short] show ?thesis by (simp add: read_loop.simps [of _ P n k q] fm Let_def)
    next
      case long: False
      note behind = room_seq.filter_next_cursor [OF wf conjunct2 [OF True]]
      have "?L \<noteq> []" using True page by auto
      then have "length (drop 1000 ?L) < length ?L" by simp
      then have "read_loop (pages lib me s room) P n (k + 1) (room_seq.next_cursor q ?p) ?acc
          = Some (Inr (if length ?acc < n
             then ?acc @ take (n - length ?acc) (?d (filter P (drop 1000 ?L))) else ?acc))"
        using less [of "room_seq.next_cursor q ?p" "k + 1" ?acc] unfolding behind by blast
      moreover have "filter P ?L = filter P ?p @ filter P (drop 1000 ?L)"
        using page by (metis append_take_drop_id filter_append)
      moreover have "read_loop (pages lib me s room) P n k q acc
          = read_loop (pages lib me s room) P n (k + 1) (room_seq.next_cursor q ?p) ?acc"
        using True long last_decrypt [OF conjunct2 [OF True], of lib me q]
        by (subst read_loop.simps) (simp add: fm Let_def)
      ultimately show ?thesis using True by (auto simp: min_def)
    qed
  qed
qed

lemma history_store_link [simp]: "lk_get_history (store_link lib le) room s = pages lib (le_me le) s room"
  by (simp add: store_link_def)

lemma find_store_link:
  assumes "store_wf s"
  shows "cb_find_event (cowchat_backend fmt cfg var (store_link lib le)) target room source i s
       = Some (case joined_client cfg var (store_link lib le) room s of
           Some e \<Rightarrow> Inl e
         | None \<Rightarrow> Inr (map_option (decrypt_message lib (le_me le)) (find (is_event target source i) (room_log s room))))"
proof -
  have "behind s room 0 = room_log s room" using room_log_bound [OF assms] by (simp add: filter_id_conv)
  then show ?thesis
    using find_loop_store [OF assms, of "is_event target source i" lib "le_me le" room 0 0]
    by (simp add: cowchat_backend_def cowchat_find_event_def split: option.split)
qed

lemma read_store_link:
  assumes "store_wf s"
  shows "cb_read_events (cowchat_backend fmt cfg var (store_link lib le)) target room q n s
       = Some (case joined_client cfg var (store_link lib le) room s of
           Some e \<Rightarrow> Inl e
         | None \<Rightarrow> Inr (map (decrypt_message lib (le_me le)) (take n (filter (is_wake_for target) (behind s room q)))))"
  using read_loop_store [OF assms, of "is_wake_for target" lib "le_me le" room n 0 q "[]"]
  by (simp add: cowchat_backend_def cowchat_read_events_def take_map split: option.split)

interpretation inbox: chat_log "cowchat_backend fmt cfg var (store_link lib le)" store_wf room_log
  for fmt cfg var lib le
proof
  fix c c' :: store and target room event hint x
  assume wf: "store_wf c"
    and send: "cb_send_event (cowchat_backend fmt cfg var (store_link lib le)) target room event hint c = (x, c')"
  let ?content = "encrypt_content lib (le_nonce le) (le_me le) room (fmt event)"
  let ?ins = "insert_message False (le_now le) (le_mid le c) room (ci_agent_id (le_me le)) (ci_agent_name (le_me le))
      ?content None (wake_metadata target event hint) c"
  show "store_wf c' \<and> ((c' = c \<and> (\<exists>e. x = Inl e))
        \<or> (\<exists>m. room_log c' room = room_log c room @ [m] \<and> carries target event hint m
             \<and> (\<forall>r. r \<noteq> room \<longrightarrow> room_log c' r = room_log c r) \<and> (\<forall>m'. x = Inr m' \<longrightarrow> cm_seq m' = cm_seq m)))"
  proof (cases "\<exists>m. fst ?ins = Inr m \<and> joined_client cfg var (store_link lib le) room c = None \<and> \<not> le_refused le")
    case True
    then obtain m where m: "fst ?ins = Inr m" "joined_client cfg var (store_link lib le) room c = None" "\<not> le_refused le" by blast
    have meta: "cm_metadata m = wake_metadata target event hint"
      by (rule insert_message_metadata [OF m(1)])
    have "c' = snd ?ins" "\<forall>m'. x = Inr m' \<longrightarrow> cm_seq m' = cm_seq m"
      using send m by (auto simp: send_store_link Let_def split: if_splits)
    with meta room_log_insert [OF m(1)] wf_insert_message [OF wf] show ?thesis by (auto simp: carries_def)
  next
    case False
    then have "c' = c \<and> (\<exists>e. x = Inl e)"
    proof (cases "joined_client cfg var (store_link lib le) room c = None \<and> \<not> le_refused le")
      case True
      with False obtain e where "fst ?ins = Inl e" by (cases "fst ?ins") auto
      moreover from this have "snd ?ins = c" using insert_message_failed by (metis prod.collapse)
      ultimately show ?thesis using True send by (auto simp: send_store_link Let_def)
    qed (use send in \<open>auto simp: send_store_link split: option.splits\<close>)
    with wf show ?thesis by simp
  qed
next
  fix c :: store and target room source i r
  assume wf: "store_wf c"
    and found: "cb_find_event (cowchat_backend fmt cfg var (store_link lib le)) target room source i c = Some (Inr r)"
  from found show "(r = None) = (find (is_event target source i) (room_log c room) = None)"
    by (auto simp: find_store_link [OF wf] split: option.splits)
next
  fix c :: store and q n target room ms
  assume wf: "store_wf c"
    and "cb_read_events (cowchat_backend fmt cfg var (store_link lib le)) target room q n c = Some (Inr ms)"
  then have "ms = map (decrypt_message lib (le_me le)) (take n (filter (is_wake_for target) (behind c room q)))"
    by (auto simp: read_store_link split: option.splits)
  then show "map cm_seq ms = map cm_seq (take n (filter (\<lambda>m. q < cm_seq m \<and> is_wake_for target m) (room_log c room)))"
    by (simp add: comp_def conj_commute)
qed (rule room_seq.log_sorted)

subsection \<open>Exactly once\<close>

text \<open>A history of calls of \<open>wake_agent\<close>, one after the other, each with its own link and environment.\<close>

fun bridge_calls ::
    "(wake_event \<Rightarrow> string) \<Rightarrow> bridge_config \<Rightarrow> (string \<Rightarrow> string option) \<Rightarrow> aead_lib
     \<Rightarrow> (link_env \<times> wake_env \<times> wake_agent_input) list \<Rightarrow> store bridge \<Rightarrow> store bridge" where
  "bridge_calls fmt cfg var lib [] b = b"
| "bridge_calls fmt cfg var lib ((le, env, inp) # cs) b =
     bridge_calls fmt cfg var lib cs (snd (wake_agent cfg (cowchat_backend fmt cfg var (store_link lib le)) env inp b))"

abbreviation copies_in :: "store \<Rightarrow> string \<Rightarrow> string \<Rightarrow> string \<Rightarrow> string \<Rightarrow> nat" where
  "copies_in s target source i room \<equiv> length (filter (is_event target source i) (room_log s room))"

definition bridge_ok :: "store bridge \<Rightarrow> bool" where
  "bridge_ok b \<longleftrightarrow> store_wf (br_chat b) \<and> wake_wf (br_store b) \<and> inbox.settled b
     \<and> (\<forall>t s i r. copies_in (br_chat b) t s i r \<le> 1)"

lemma wf_maybe_wake: "wake_wf (br_store b) \<Longrightarrow> wake_wf (br_store (snd (maybe_wake cfg env alias th room q event b)))"
proof -
  assume wf: "wake_wf (br_store b)"
  let ?c = "claim_wake (\<lambda>k. wv_fault env (2 + k)) alias q (wv_now env 1) (bc_wake_lease_seconds cfg) (br_store b)"
  have c: "wake_wf (snd ?c)" by (rule wf_claim_wake [OF wf])
  moreover have "wake_wf (snd (release_wake f alias (snd ?c)))" for f by (rule wf_release_wake [OF c])
  ultimately show ?thesis
    by (auto simp: maybe_wake_def Let_def split: prod.split sum.split bool.split) (metis snd_conv)+
qed

lemma wf_wake_agent: "wake_wf (br_store b) \<Longrightarrow> wake_wf (br_store (snd (wake_agent cfg bk env inp b)))"
proof -
  assume wf: "wake_wf (br_store b)"
  have mark: "wake_wf (br_store (snd (mark_seq env t ev m c)))" if "wake_wf (br_store c)" for t ev m and c :: "'a bridge"
    using that wf_mark_delivered by (simp add: mark_seq_def split: prod.split sum.split) (metis snd_conv)
  have "wake_wf (br_store (snd (deliver_event bk env t r ev h rs c)))" if "wake_wf (br_store c)"
    for t r ev h rs and c :: "'a bridge"
    using that by (auto simp: deliver_event_def mark split: option.split sum.split prod.split)
  then have deliver: "wake_wf (br_store c')" if "wake_wf (br_store c)" "deliver_event bk env t r ev h rs c = (x, c')"
    for t r ev h rs x and c c' :: "'a bridge"
    using that by (metis snd_conv)
  have reserve: "wake_wf s" if "reserve_event f e (br_store b) = (x, s)" for f e x s
    using wf_reserve_event [OF wf] that by (metis snd_conv)
  show ?thesis
  proof (cases rule: wake_agent_cases [of cfg bk env inp b])
    case early
    with wf show ?thesis by simp
  next
    case delivered
    with deliver [OF _ delivered(3)] reserve show ?thesis by simp
  next
    case woken
    with deliver [OF _ woken(3)] reserve wf_maybe_wake show ?thesis by simp
  qed
qed

lemma bridge_ok_call:
  assumes "bridge_ok b"
  shows "bridge_ok (snd (wake_agent cfg (cowchat_backend fmt cfg var (store_link lib le)) env inp b))"
proof -
  from assms have v: "store_wf (br_chat b)" and w: "wake_wf (br_store b)" and s: "inbox.settled b"
    and c: "\<And>t s i r. copies_in (br_chat b) t s i r \<le> 1" by (auto simp: bridge_ok_def)
  have "copies_in (br_chat (snd (wake_agent cfg (cowchat_backend fmt cfg var (store_link lib le)) env inp b))) t s' i r \<le> 1"
    for t s' i r
    using inbox.wake_agent_copies [OF v, of cfg fmt cfg var lib le env inp t s' i r] c [of t s' i r]
    by (simp add: inbox.copies_def)
  then show ?thesis
    using inbox.wake_agent_copies [OF v] inbox.wake_agent_settled [OF v s w] wf_wake_agent [OF w]
    by (simp add: bridge_ok_def)
qed

lemma bridge_ok_calls: "bridge_ok b \<Longrightarrow> bridge_ok (bridge_calls fmt cfg var lib cs b)"
proof (induction cs arbitrary: b)
  case (Cons c cs)
  then show ?case by (cases c) (simp add: bridge_ok_call)
qed simp


definition demo_link :: link_env where
  "demo_link = \<lparr>le_ready = True, le_refused = False, le_drop_reply = False, le_now = 7,
     le_mid = (\<lambda>s. ''m''), le_me = demo_me, le_nonce = []\<rparr>"

definition demo_bridge_config :: bridge_config where
  "demo_bridge_config = \<lparr>bc_tcp = Some ''a'', bc_socket = None, bc_room_key_env = None, bc_request_timeout_seconds = 15,
     bc_wake_lease_seconds = 300, bc_targets = [(''rev'', \<lparr>tg_thread_id = ''t'', tg_room = ''r1'', tg_min_wake_hint = HintNormal\<rparr>)]\<rparr>"

definition demo_wake_env :: wake_env where
  "demo_wake_env = \<lparr>wv_fault = (\<lambda>_. False), wv_now = (\<lambda>_. 100), wv_now_rfc3339 = ''now'', wv_valid_time = (\<lambda>_. True),
     wv_text = wk_id, wv_parse = (\<lambda>_. None), wv_wake = (\<lambda>_ _. Inl Rpc)\<rparr>"

definition demo_input :: wake_agent_input where
  "demo_input = \<lparr>wi_target = ''rev'', wi_source = ''ci'', wi_event_id = ''e1'', wi_event_type = ''done'', wi_subject = None,
     wi_time = None, wi_data = JNull, wi_wake_hint = HintNone\<rparr>"

definition demo_bridge :: "store bridge" where
  "demo_bridge = \<lparr>br_store = wake_store_empty, br_chat = demo_store, br_wakes = []\<rparr>"

lemma demo_bridge_ok: "bridge_ok demo_bridge"
proof -
  have "inbox.settled demo_bridge" by (simp add: inbox.settled_def demo_bridge_def wake_store_empty_def)
  then show ?thesis by (simp add: bridge_ok_def demo_bridge_def wake_wf_empty room_log_def)
qed

lemma demo_valid: "x \<in> {''rev'', ''ci'', ''e1'', ''done''} \<Longrightarrow> validate_identifier f x = None"
  by (auto simp: validate_identifier_def trim_def trim_seqs_def is_whitespace_def is_control_def is_cont_def byte_def)

lemma demo_check: "check_input demo_bridge_config demo_wake_env demo_input
    = Inr \<lparr>tg_thread_id = ''t'', tg_room = ''r1'', tg_min_wake_hint = HintNormal\<rparr>"
  by (simp add: check_input_def demo_input_def demo_valid List.map_filter_def config_target_def demo_bridge_config_def
      wake_event_of_def demo_wake_env_def MAX_EVENT_BYTES_def Let_def)

text \<open>The witness: the reply to the first call is lost, the second call finds the message and marks it.\<close>

definition demo_backend :: "bool \<Rightarrow> store chat_backend" where
  "demo_backend lost = cowchat_backend wk_id demo_bridge_config (\<lambda>_. None) (store_link demo_lib (demo_link\<lparr>le_drop_reply := lost\<rparr>))"

abbreviation demo_sent :: "(store_error + chat_message) \<times> store" where
  "demo_sent \<equiv> insert_message False 7 ''m'' ''r1'' ''a2'' ''Bob'' ''e1'' None
     (wake_metadata ''rev'' (wake_event_of demo_wake_env demo_input) HintNone) demo_store"

lemma demo_sent_ok: "\<exists>m. fst demo_sent = Inr m"
  by (simp add: insert_message_def ensure_sequence_def insert_message_row_def room_exists_def high_water_def Let_def)

lemma demo_joined: "joined_client demo_bridge_config (\<lambda>_. None) (store_link demo_lib (demo_link\<lparr>le_drop_reply := lost\<rparr>)) room s = None"
  by (simp add: joined_client_def backend_connect_def demo_bridge_config_def store_link_def demo_link_def)

lemma demo_find: "store_wf s \<Longrightarrow> cb_find_event (demo_backend lost) ''rev'' ''r1'' ''ci'' ''e1'' s
    = Some (Inr (map_option (decrypt_message demo_lib demo_me) (find (is_event ''rev'' ''ci'' ''e1'') (room_log s ''r1''))))"
  unfolding demo_backend_def by (simp add: find_store_link demo_joined) (simp add: demo_link_def)

lemma demo_send: "cb_send_event (demo_backend lost) ''rev'' ''r1'' (wake_event_of demo_wake_env demo_input) HintNone demo_store
    = (if lost then Inl (SvcCowchat TimedOut) else Inr (decrypt_message demo_lib demo_me (projr (fst demo_sent))), snd demo_sent)"
proof -
  obtain m where "fst demo_sent = Inr m" using demo_sent_ok ..
  then show ?thesis
    unfolding demo_backend_def
    by (simp add: send_store_link demo_joined Let_def)
       (simp add: demo_link_def demo_me_def encrypt_content_def wake_event_of_def demo_input_def)
qed

abbreviation demo_target :: target_config where
  "demo_target \<equiv> \<lparr>tg_thread_id = ''t'', tg_room = ''r1'', tg_min_wake_hint = HintNormal\<rparr>"

abbreviation demo_reserved :: "(wake_store_error + reservation) \<times> wake_store" where
  "demo_reserved \<equiv> reserve_event False (reservation_of demo_wake_env demo_input demo_target) wake_store_empty"

lemma demo_reserve: "fst demo_reserved = Inr \<lparr>rs_duplicate = False, rs_room_seq = None\<rparr>"
  by (simp add: reserve_event_def Let_def wake_store_empty_def)

lemma demo_env_sel [simp]: "wv_fault demo_wake_env k = False" "wi_wake_hint demo_input = HintNone"
  "wi_target demo_input = ''rev''" "wi_source demo_input = ''ci''" "wi_event_id demo_input = ''e1''"
  by (simp_all add: demo_wake_env_def demo_input_def)

lemma demo_first:
  "wake_agent demo_bridge_config (demo_backend True) demo_wake_env demo_input demo_bridge
     = (Some (Inl (SvcCowchat TimedOut)), demo_bridge\<lparr>br_store := snd demo_reserved, br_chat := snd demo_sent\<rparr>)"
proof -
  have r: "demo_reserved = (Inr \<lparr>rs_duplicate = False, rs_room_seq = None\<rparr>, snd demo_reserved)"
    using demo_reserve by (metis prod.collapse)
  have b: "br_store demo_bridge = wake_store_empty" "br_chat demo_bridge = demo_store" by (simp_all add: demo_bridge_def)
  have "deliver_event (demo_backend True) demo_wake_env ''rev'' ''r1'' (wake_event_of demo_wake_env demo_input) HintNone
      \<lparr>rs_duplicate = False, rs_room_seq = None\<rparr> (demo_bridge\<lparr>br_store := snd demo_reserved\<rparr>)
      = (Some (Inl (SvcCowchat TimedOut)), demo_bridge\<lparr>br_store := snd demo_reserved, br_chat := snd demo_sent\<rparr>)"
    by (simp add: deliver_event_def b demo_find demo_send room_log_def)
  then show ?thesis
    unfolding wake_agent_def demo_check sum.case Let_def b demo_env_sel
    by (subst r) simp
qed

lemma demo_reserve_again:
  "reserve_event False (reservation_of demo_wake_env demo_input demo_target) (snd demo_reserved)
     = (Inr \<lparr>rs_duplicate = True, rs_room_seq = None\<rparr>, snd demo_reserved)"
  by (simp add: reserve_event_def Let_def wake_store_empty_def ensure_target_def)

lemma demo_mark: "fst (mark_delivered False ''rev'' ''ci'' ''e1'' q mid (snd demo_reserved)) = Inr ()"
  by (simp add: reserve_event_def mark_delivered_def Let_def wake_store_empty_def)

lemma demo_second:
  "\<exists>out. fst (wake_agent demo_bridge_config (demo_backend False) demo_wake_env demo_input
       (demo_bridge\<lparr>br_store := snd demo_reserved, br_chat := snd demo_sent\<rparr>)) = Some (Inr out) \<and> wo_room out = ''r1''"
proof -
  let ?b = "demo_bridge\<lparr>br_store := snd demo_reserved, br_chat := snd demo_sent\<rparr>"
  obtain m where m: "fst demo_sent = Inr m" using demo_sent_ok ..
  have "is_event ''rev'' ''ci'' ''e1'' m"
    using insert_message_metadata [OF m] is_event_carries [of "''rev''" "wake_event_of demo_wake_env demo_input" HintNone m]
    by (simp add: carries_def)
  moreover have "room_log (snd demo_sent) ''r1'' = [m]" using room_log_insert [OF m, of "''r1''"] by (simp add: room_log_def)
  moreover have "store_wf (snd demo_sent)" by (rule wf_insert_message [OF demo_store_wf])
  ultimately have find: "cb_find_event (demo_backend False) ''rev'' ''r1'' ''ci'' ''e1'' (snd demo_sent)
      = Some (Inr (Some (decrypt_message demo_lib demo_me m)))" by (simp add: demo_find)
  obtain s where mark: "mark_delivered False ''rev'' ''ci'' ''e1'' (cm_seq m) (cm_message_id (decrypt_message demo_lib demo_me m))
      (snd demo_reserved) = (Inr (), s)" using demo_mark by (metis prod.collapse)
  have "deliver_event (demo_backend False) demo_wake_env ''rev'' ''r1'' (wake_event_of demo_wake_env demo_input) HintNone
      \<lparr>rs_duplicate = True, rs_room_seq = None\<rparr> (demo_bridge\<lparr>br_chat := snd demo_sent, br_store := snd demo_reserved\<rparr>)
      = (Some (Inr (cm_seq m)), ?b\<lparr>br_store := s\<rparr>)"
    by (simp add: deliver_event_def find mark_seq_def mark)
  moreover have "HintNone < HintNormal" by (simp add: less_wake_hint_def)
  ultimately show ?thesis
    by (simp add: wake_agent_def demo_check demo_reserve_again Let_def)
qed


end
