(* ===== verification/Wake_Inbox.thy ===== *)
theory Wake_Inbox
  imports Wake_Safety
begin

text \<open>
  The recipient's side of the wake bridge: when the app-server is called, what an inbox read returns and
  what an acknowledgement leaves to be read, and what it may confirm without having been read.
\<close>

subsection \<open>Wakes\<close>

lemma leased_reserve [simp]:
  "leased t now lease (snd (reserve_event f e s)) = leased t now lease s"
  by (auto simp: leased_def reserve_event_def Let_def lookup_ensure_target new_target_def split: option.splits)

lemma targets_mark [simp]: "ws_targets (snd (mark_delivered f t src i q mid s)) = ws_targets s"
  by (simp add: mark_delivered_def Let_def)

lemma targets_mark_seq [simp]: "ws_targets (br_store (snd (mark_seq env target event m b))) = ws_targets (br_store b)"
  by (simp add: mark_seq_def split: prod.split sum.split) (metis targets_mark snd_conv)

lemma targets_deliver [simp]:
  "ws_targets (br_store (snd (deliver_event bk env target room event hint reserved b))) = ws_targets (br_store b)"
  by (auto simp: deliver_event_def split: option.split sum.split prod.split)

lemma leased_targets: "ws_targets s = ws_targets s' \<Longrightarrow> leased t now lease s = leased t now lease s'"
  by (simp add: leased_def)

lemma acked_targets: "ws_targets s = ws_targets s' \<Longrightarrow> acked t s = acked t s'"
  by (simp add: acked_def)

text \<open>A call of the app-server: what must hold before it.\<close>

definition due :: "bridge_config \<Rightarrow> wake_env \<Rightarrow> string \<Rightarrow> target_config \<Rightarrow> wake_store \<Rightarrow> (string \<times> wake_reference) \<Rightarrow> bool" where
  "due cfg env alias target s call \<longleftrightarrow>
     fst call = tg_thread_id target \<and> wf_target (snd call) = alias \<and> wf_room (snd call) = tg_room target
     \<and> \<not> leased alias (wv_now env 1) (bc_wake_lease_seconds cfg) s
     \<and> wf_after_seq (snd call) = acked alias s \<and> acked alias s < wf_observed_seq (snd call)"

lemma maybe_wake_due:
  fixes cfg env who b event q target
  defines "r \<equiv> maybe_wake cfg env who (tg_thread_id target) (tg_room target) q event b"
  shows "br_wakes (snd r) = br_wakes b
      \<or> (\<exists>call. br_wakes (snd r) = br_wakes b @ [call] \<and> due cfg env who target (br_store b) call
           \<and> wf_observed_seq (snd call) = q)"
    and "fst r = Inr (Some outcome) \<Longrightarrow> 0 < bc_wake_lease_seconds cfg \<Longrightarrow> t' < wv_now env 1 + bc_wake_lease_seconds cfg
      \<Longrightarrow> leased who t' (bc_wake_lease_seconds cfg) (br_store (snd r))"
proof -
  let ?lease = "bc_wake_lease_seconds cfg" and ?now = "wv_now env 1"
  obtain x s where c: "claim_wake (\<lambda>k. wv_fault env (2 + k)) who q ?now ?lease (br_store b) = (x, s)" by force
  note claim = claim_wake_exclusive [of "\<lambda>k. wv_fault env (2 + k)" who q ?now ?lease "br_store b", unfolded c fst_conv snd_conv]
  have keep: "acked who s = acked who (br_store b)"
    using cursors_keep(5) [of who "\<lambda>k. wv_fault env (2 + k)" who q ?now ?lease "br_store b"] c by simp
  have claimed: "Option.bind (map_of (ws_targets s) who) wt_wake_claimed_at = Some ?now" if "x = Inr True"
    using c that by (auto simp: claim_wake_def Let_def split: if_splits option.splits)
  show "br_wakes (snd r) = br_wakes b
      \<or> (\<exists>call. br_wakes (snd r) = br_wakes b @ [call] \<and> due cfg env who target (br_store b) call
           \<and> wf_observed_seq (snd call) = q)"
    using claim(1,2) keep unfolding r_def maybe_wake_def c
    by (auto simp: due_def Let_def last_acked_seq_def split: sum.split bool.split prod.split)
  show "leased who t' ?lease (br_store (snd r))"
    if "fst r = Inr (Some outcome)" "0 < ?lease" "t' < ?now + ?lease"
  proof -
    have "x = Inr True \<and> br_store (snd r) = s"
      using that(1) unfolding r_def maybe_wake_def c
      by (auto simp: Let_def split: sum.splits bool.splits prod.splits)
    with claimed that(3) show ?thesis by (simp add: leased_def)
  qed
qed

lemma wake_agent_calls:
  "br_wakes (snd (wake_agent cfg bk env inp b)) = br_wakes b
   \<or> (\<exists>target call. config_target cfg (wi_target inp) = Inr target \<and> tg_min_wake_hint target \<le> wi_wake_hint inp
        \<and> br_wakes (snd (wake_agent cfg bk env inp b)) = br_wakes b @ [call]
        \<and> due cfg env (wi_target inp) target (br_store b) call)"
proof (cases rule: wake_agent_cases [of cfg bk env inp b])
  case (delivered target reserved s x b1)
  then show ?thesis
    using deliver_event_wakes [of bk env "wi_target inp" "tg_room target" "wake_event_of env inp" "wi_wake_hint inp" reserved
        "b\<lparr>br_store := s\<rparr>"] by simp
next
  case (woken target reserved s seq b1)
  have wakes: "br_wakes b1 = br_wakes b"
    using deliver_event_wakes [of bk env "wi_target inp" "tg_room target" "wake_event_of env inp" "wi_wake_hint inp" reserved
        "b\<lparr>br_store := s\<rparr>"] woken(3) by simp
  have targets: "ws_targets (br_store b1) = ws_targets s"
    using targets_deliver [of bk env "wi_target inp" "tg_room target" "wake_event_of env inp" "wi_wake_hint inp" reserved
        "b\<lparr>br_store := s\<rparr>"] woken(3) by simp
  have s: "s = snd (reserve_event (wv_fault env 0) (reservation_of env inp target) (br_store b))"
    using woken(2) by simp
  have same: "leased t now l (br_store b1) = leased t now l (br_store b)" "acked t (br_store b1) = acked t (br_store b)"
    for t now l
    using leased_targets [OF targets] acked_targets [OF targets] by (simp_all add: s cursors_keep)
  have "config_target cfg (wi_target inp) = Inr target"
    using woken(1) by (auto simp: check_input_def Let_def split: list.splits sum.splits if_splits)
  with woken(4,5) wakes maybe_wake_due(1) [of cfg env "wi_target inp" target seq "wake_event_of env inp" b1]
  show ?thesis by (auto simp: due_def same)
qed simp

lemma wake_agent_leases:
  assumes "fst (wake_agent cfg bk env inp b) = Some (Inr out)" "wo_codex out \<noteq> None"
    and "0 < bc_wake_lease_seconds cfg" "t' < wv_now env 1 + bc_wake_lease_seconds cfg"
  shows "leased (wi_target inp) t' (bc_wake_lease_seconds cfg) (br_store (snd (wake_agent cfg bk env inp b)))"
proof (cases "check_input cfg env inp")
  case target: (Inr target)
  obtain r s where r: "reserve_event (wv_fault env 0) (reservation_of env inp target) (br_store b) = (r, s)" by force
  show ?thesis
  proof (cases r)
    case reserved: (Inr reserved)
    obtain x b1 where d: "deliver_event bk env (wi_target inp) (tg_room target) (wake_event_of env inp) (wi_wake_hint inp)
        reserved (b\<lparr>br_store := s\<rparr>) = (x, b1)" by force
    from assms(1,2) target r reserved d obtain seq where seq: "x = Some (Inr seq)" "\<not> wi_wake_hint inp < tg_min_wake_hint target"
      by (auto simp: wake_agent_def Let_def split: option.splits sum.splits if_splits)
    obtain y b2 where w: "maybe_wake cfg env (wi_target inp) (tg_thread_id target) (tg_room target) seq (wake_event_of env inp) b1
        = (y, b2)" by force
    have "wake_agent cfg bk env inp b = (case y of Inl e \<Rightarrow> (Some (Inl e), b2)
        | Inr codex \<Rightarrow> (Some (Inr \<lparr>wo_accepted = True, wo_duplicate = rs_duplicate reserved, wo_target = wi_target inp,
             wo_room = tg_room target, wo_seq = seq, wo_wake = if codex \<noteq> None then ''triggered'' else ''coalesced'',
             wo_codex = codex\<rparr>), b2))"
      using target r reserved d seq w by (simp add: wake_agent_def Let_def split: sum.split)
    with assms(1,2) obtain outcome where "y = Inr (Some outcome)" "snd (wake_agent cfg bk env inp b) = b2"
      by (auto split: sum.splits)
    with maybe_wake_due(2) [of cfg env "wi_target inp" target seq "wake_event_of env inp" b1 outcome t'] w assms(3,4)
    show ?thesis by simp
  qed (use assms(1) target r in \<open>simp add: wake_agent_def\<close>)
qed (use assms(1) in \<open>simp add: wake_agent_def\<close>)


definition demo_awake :: wake_env where
  "demo_awake = demo_wake_env\<lparr>wv_wake := (\<lambda>_ _. Inr \<lparr>co_mode = ''started'', co_prior_status = ''idle'', co_turn_id = ''1''\<rparr>)\<rparr>"

definition demo_known_backend :: "unit chat_backend" where
  "demo_known_backend = \<lparr>cb_send_event = (\<lambda>_ _ _ _ c. (Inl InvalidCowchatTransport, c)),
     cb_find_event = (\<lambda>_ _ _ _ _. Some (Inr (Some \<lparr>cm_message_id = ''m'', cm_room_id = ''r1'', cm_agent_id = ''a'',
        cm_agent_name = ''A'', cm_content = [], cm_reply_to_message = None, cm_metadata = JNull, cm_timestamp = 0, cm_seq = 4\<rparr>))),
     cb_read_events = (\<lambda>_ _ _ _ _. Some (Inr []))\<rparr>"

definition demo_urgent :: wake_agent_input where
  "demo_urgent = demo_input\<lparr>wi_wake_hint := HintUrgent\<rparr>"

definition demo_idle :: "unit bridge" where
  "demo_idle = \<lparr>br_store = wake_store_empty, br_chat = (), br_wakes = []\<rparr>"

lemma demo_urgent_check: "check_input demo_bridge_config demo_awake demo_urgent
    = Inr \<lparr>tg_thread_id = ''t'', tg_room = ''r1'', tg_min_wake_hint = HintNormal\<rparr>"
  by (simp add: check_input_def demo_urgent_def demo_input_def demo_valid List.map_filter_def config_target_def
      demo_bridge_config_def wake_event_of_def demo_awake_def demo_wake_env_def MAX_EVENT_BYTES_def Let_def)

lemma demo_woken: "\<exists>b' out. wake_agent demo_bridge_config demo_known_backend demo_awake demo_urgent demo_idle = (Some (Inr out), b')
    \<and> length (br_wakes b') = 1 \<and> wo_codex out \<noteq> None"
  by (simp add: wake_agent_def demo_urgent_check Let_def)
     (simp add: demo_idle_def demo_awake_def demo_urgent_def demo_input_def demo_wake_env_def reserve_event_def Let_def
      wake_store_empty_def ensure_target_def reservation_of_def wake_event_of_def deliver_event_def demo_known_backend_def
      mark_seq_def mark_delivered_def less_wake_hint_def maybe_wake_def claim_wake_def new_target_def demo_bridge_config_def
      last_acked_seq_def)


subsection \<open>The inbox\<close>

lemma inbox_items_seqs: "inbox_items env ms = Inr items \<Longrightarrow> map wx_seq items = map cm_seq ms"
  by (induction ms arbitrary: items) (auto split: option.splits sum.splits)

text \<open>What a successful read is made of.\<close>

lemma read_inbox_cases:
  assumes "read_inbox cfg bk env inp b = (Some (Inr out), b')"
  obtains target q ms items st where "config_target cfg (wr_target inp) = Inr target"
    "q = (case wr_after_cursor inp of Some c \<Rightarrow> c | None \<Rightarrow> acked (wr_target inp) (br_store b))" "0 \<le> q"
    "cb_read_events bk (wr_target inp) (tg_room target) q
       (max 1 (min MAX_READ_LIMIT (case wr_limit inp of Some n \<Rightarrow> n | None \<Rightarrow> 100))) (br_chat b) = Some (Inr ms)"
    "inbox_items env ms = Inr items" "wz_events out = items"
    "wz_highest_returned_seq out = (if items = [] then q else wx_seq (last items))"
    "br_store b' = snd (record_read (\<lambda>k. wv_fault env (1 + k)) (wr_target inp) (wz_highest_returned_seq out) (br_store b))"
    "fst (record_read (\<lambda>k. wv_fault env (1 + k)) (wr_target inp) (wz_highest_returned_seq out) (br_store b)) = Inr st"
    "br_chat b' = br_chat b"
proof -
  let ?t = "wr_target inp"
  from assms obtain target where target: "config_target cfg ?t = Inr target"
    by (auto simp: read_inbox_def split: sum.splits)
  have fault: "\<not> wv_fault env 0" using assms target by (auto simp: read_inbox_def last_acked_seq_def)
  define q where "q = (case wr_after_cursor inp of Some c \<Rightarrow> c | None \<Rightarrow> acked ?t (br_store b))"
  define n where "n = max 1 (min MAX_READ_LIMIT (case wr_limit inp of Some n \<Rightarrow> n | None \<Rightarrow> 100))"
  note eqs = assms [unfolded read_inbox_def target sum.case last_acked_seq_def if_not_P [OF fault] Let_def,
      folded q_def n_def]
  from eqs have q: "0 \<le> q" by (auto split: if_splits)
  from eqs q obtain ms where ms: "cb_read_events bk ?t (tg_room target) q n (br_chat b) = Some (Inr ms)"
    by (auto split: option.splits sum.splits)
  from eqs q ms obtain items where items: "inbox_items env ms = Inr items" by (auto split: sum.splits)
  define h where "h = (if items = [] then q else wx_seq (last items))"
  obtain x s where r: "record_read (\<lambda>k. wv_fault env (1 + k)) ?t h (br_store b) = (x, s)" by force
  from eqs q ms items obtain st where st: "x = Inr st"
    using r by (auto simp flip: h_def split: sum.splits)
  have "wz_events out = items" "wz_highest_returned_seq out = h" "b' = b\<lparr>br_store := s\<rparr>"
    using eqs q ms items r st by (auto simp flip: h_def)
  then show ?thesis
    using that [OF target q_def q ms [unfolded n_def] items] r st by (simp add: h_def)
qed

lemma record_read_upto:
  "fst (record_read ff t q s) = Inr st \<Longrightarrow> q \<le> read_upto t (snd (record_read ff t q s))"
  by (auto simp: record_read_def Let_def read_upto_def new_target_def map_add_def split: if_splits option.splits)

lemma acknowledge_accepts:
  assumes "q \<le> read_upto t s" "map_of (ws_targets s) t \<noteq> None"
  shows "fst (acknowledge False t q s) \<noteq> Inl e" "acked t (snd (acknowledge False t q s)) = max (acked t s) q"
  using assms by (auto simp: acknowledge_def Let_def load_ack_state_def read_upto_def acked_def)

lemma record_read_target:
  "fst (record_read ff t q s) = Inr st \<Longrightarrow> map_of (ws_targets (snd (record_read ff t q s))) t \<noteq> None"
  by (auto simp: record_read_def Let_def map_add_def split: if_splits option.splits)

text \<open>C25. The inbox is read in order and without gaps: a read without a cursor returns the first wake events of
  the target behind the acknowledged one, in room order; acknowledging what it returned is accepted, and
  exactly the events that it did not return are then still to be read.\<close>

theorem inbox_in_order:
  fixes b :: "store bridge"
  assumes "store_wf (br_chat b)" "config_target cfg (wr_target inp) = Inr target" "wr_after_cursor inp = None"
    and "read_inbox cfg (cowchat_backend fmt cfg var (store_link lib le)) env inp b = (Some (Inr out), b')"
    and "wz_events out \<noteq> []" "n = max 1 (min 500 (case wr_limit inp of Some n \<Rightarrow> n | None \<Rightarrow> 100))"
    and "todo = (\<lambda>w. filter (is_wake_for (wr_target inp)) (behind (br_chat b) (tg_room target) (acked (wr_target inp) (br_store w))))"
    and "acked_b = b'\<lparr>br_store := snd (acknowledge False (wr_target inp) (wz_highest_returned_seq out) (br_store b'))\<rparr>"
  shows "map wx_seq (wz_events out) = map cm_seq (take n (todo b))
    \<and> (\<exists>st. fst (acknowledge False (wr_target inp) (wz_highest_returned_seq out) (br_store b')) = Inr st)
    \<and> todo acked_b = drop n (todo b)"
proof (cases rule: read_inbox_cases [OF assms(4)])
  case (1 target' q ms items st)
  let ?t = "wr_target inp" and ?h = "wz_highest_returned_seq out" and ?L = "todo b"
  have t: "target' = target" using 1(1) assms(2) by simp
  have q: "q = acked ?t (br_store b)" using 1(2) assms(3) by simp
  have L: "?L = filter (is_wake_for ?t) (behind (br_chat b) (tg_room target) q)" by (simp add: assms(7) q)
  have "map cm_seq ms = map cm_seq (take n ?L)"
    using 1(4) assms(6) by (auto simp: read_store_link [OF assms(1)] t L MAX_READ_LIMIT_def take_map split: option.splits)
  then have seqs: "map wx_seq (wz_events out) = map cm_seq (take n ?L)"
    using inbox_items_seqs [OF 1(5)] 1(6) by simp
  have "take n ?L \<noteq> []" using seqs assms(5) by force
  then have ne: "take n ?L \<noteq> []" .
  have h: "?h = room_seq.next_cursor q (take n ?L)"
  proof -
    have "?h = last (map wx_seq items)" using 1(6,7) assms(5) by (simp add: last_map)
    also have "\<dots> = last (map cm_seq (take n ?L))" using seqs 1(6) by simp
    finally show ?thesis using ne by (simp add: room_seq.next_cursor_def last_map)
  qed
  have sorted: "sorted_wrt (\<lambda>m m'. cm_seq m < cm_seq m') (take n ?L @ drop n ?L)"
    unfolding append_take_drop_id L
    by (intro sorted_wrt_filter room_seq.log_sorted assms(1))
  have "\<forall>m \<in> set (take n ?L @ drop n ?L). q < cm_seq m" unfolding append_take_drop_id L by simp
  from room_seq.next_page [OF sorted ne this] have rest: "filter (\<lambda>m. ?h < cm_seq m) ?L = drop n ?L"
    unfolding append_take_drop_id h .
  have "q < ?h"
  proof -
    have "last (take n ?L) \<in> set ?L" using ne by (metis in_set_takeD last_in_set)
    then show ?thesis using ne by (simp add: h room_seq.next_cursor_def L)
  qed
  note st = 1(9)
  have up: "?h \<le> read_upto ?t (br_store b')" "map_of (ws_targets (br_store b')) ?t \<noteq> None"
    using record_read_upto [OF st] record_read_target [OF st] 1(8) by simp_all
  have "acked ?t (br_store b') = q" using q 1(8) by simp
  with acknowledge_accepts(2) [OF up] \<open>q < ?h\<close> have "acked ?t (br_store acked_b) = ?h" by (simp add: assms(8))
  then have "todo acked_b = filter (\<lambda>m. ?h < cm_seq m) ?L"
    using \<open>q < ?h\<close> by (auto simp: assms(7) L q [symmetric] intro: filter_cong)
  with rest seqs acknowledge_accepts(1) [OF up] show ?thesis
    by (metis sum.exhaust)
qed

definition demo_reader :: wake_env where
  "demo_reader = demo_wake_env\<lparr>wv_parse := (\<lambda>_. Some (wake_event_of demo_wake_env demo_input))\<rparr>"

definition demo_inbox :: "store bridge" where
  "demo_inbox = \<lparr>br_store = wake_store_empty, br_chat = snd demo_sent, br_wakes = []\<rparr>"

definition demo_read :: wake_inbox_read_input where
  "demo_read = \<lparr>wr_target = ''rev'', wr_after_cursor = None, wr_limit = None\<rparr>"

lemma demo_config_target: "config_target demo_bridge_config ''rev'' = Inr demo_target"
  by (simp add: config_target_def demo_bridge_config_def)

lemma demo_sent_wf: "store_wf (snd demo_sent)"
  by (rule wf_insert_message [OF demo_store_wf])

lemma demo_sent_log: "\<exists>m. room_log (snd demo_sent) ''r1'' = [m] \<and> is_wake_for ''rev'' m \<and> cm_seq m = 1"
proof -
  obtain m where m: "fst demo_sent = Inr m" using demo_sent_ok ..
  have "is_wake_for ''rev'' m"
    using insert_message_metadata [OF m] by (simp add: is_wake_for_def metadata_string_def wake_metadata_def)
  moreover have "cm_seq m = 1" using insert_message_stored(1) [OF m] by (simp add: high_water_def)
  ultimately show ?thesis using room_log_insert [OF m, of "''r1''"] by (simp add: room_log_def)
qed

lemma demo_reads:
  "\<exists>out b'. read_inbox demo_bridge_config (demo_backend False) demo_reader demo_read demo_inbox = (Some (Inr out), b')
     \<and> map wx_seq (wz_events out) = [1]"
proof -
  obtain m where m: "room_log (snd demo_sent) ''r1'' = [m]" "is_wake_for ''rev'' m" "cm_seq m = 1" using demo_sent_log by blast
  have "cb_read_events (demo_backend False) ''rev'' ''r1'' 0 100 (snd demo_sent)
      = Some (Inr (map (decrypt_message demo_lib (le_me (demo_link\<lparr>le_drop_reply := False\<rparr>))) [m]))"
    unfolding demo_backend_def by (simp add: read_store_link demo_sent_wf demo_joined m)
  then show ?thesis
    by (simp add: read_inbox_def demo_config_target demo_read_def demo_inbox_def demo_reader_def demo_wake_env_def
        last_acked_seq_def acked_def wake_store_empty_def MAX_READ_LIMIT_def Let_def record_read_def m(3))
qed

theorem inbox_in_order_witness:
  "\<exists>out b'. read_inbox demo_bridge_config (demo_backend False) demo_reader demo_read demo_inbox = (Some (Inr out), b')
     \<and> map wx_seq (wz_events out) = [1]
     \<and> (\<exists>st. fst (acknowledge False ''rev'' (wz_highest_returned_seq out) (br_store b')) = Inr st)"
proof -
  obtain out b' where r: "read_inbox demo_bridge_config (demo_backend False) demo_reader demo_read demo_inbox = (Some (Inr out), b')"
      "map wx_seq (wz_events out) = [1]" using demo_reads by (elim exE conjE)
  have "store_wf (br_chat demo_inbox)" "config_target demo_bridge_config (wr_target demo_read) = Inr demo_target"
      "wr_after_cursor demo_read = None" "wz_events out \<noteq> []"
    using r(2) by (auto simp: demo_inbox_def demo_sent_wf demo_read_def demo_config_target)
  from inbox_in_order [OF this(1-3) r(1) [unfolded demo_backend_def] this(4) refl refl refl] r show ?thesis
    by (auto simp: demo_read_def)
qed

text \<open>An acknowledgement can confirm what was never read: reading from any cursor at or behind the end of the
  room returns no event but records that cursor as read, so the same cursor can be acknowledged, and from
  then on no event up to it wakes the recipient any more.\<close>

lemma unread_acknowledged:
  fixes b :: "store bridge"
  assumes "store_wf (br_chat b)" "config_target cfg t = Inr target" "0 \<le> q" "high_water (br_chat b) (tg_room target) \<le> q"
    and "read_inbox cfg (cowchat_backend fmt cfg var (store_link lib le)) env
           \<lparr>wr_target = t, wr_after_cursor = Some q, wr_limit = lim\<rparr> b = (Some (Inr out), b')"
    and "acknowledge False t q (br_store b') = (r, s)"
  shows "wz_events out = [] \<and> (\<exists>st. r = Inr st) \<and> q \<le> acked t s
    \<and> (p \<le> q \<longrightarrow> fst (claim_wake (\<lambda>_. False) t p now lease s) = Inr False)"
proof (cases rule: read_inbox_cases [OF assms(5)])
  case (1 target' q' ms items st)
  have "behind (br_chat b) (tg_room target) q = []"
    using room_log_bound [OF assms(1)] assms(4) by (fastforce simp: filter_empty_conv)
  then have "ms = []"
    using 1(1,2,4) assms(2) by (auto simp: read_store_link [OF assms(1)] split: option.splits)
  then have items: "items = []" using 1(5) by simp
  then have h: "wz_highest_returned_seq out = q" using 1(2,7) by simp
  note st = 1(9) [unfolded h]
  have up: "q \<le> read_upto t (br_store b')" "map_of (ws_targets (br_store b')) t \<noteq> None"
    using record_read_upto [OF 1(9)] record_read_target [OF 1(9)] 1(8) h by simp_all
  note ack = acknowledge_accepts [OF up, unfolded assms(6) fst_conv snd_conv]
  have target: "map_of (ws_targets s) t \<noteq> None"
    using assms(6) up by (auto simp: acknowledge_def Let_def load_ack_state_def read_upto_def split: if_splits)
  have "q \<le> acked t s" using ack(2) by simp
  moreover from this target have "p \<le> q \<Longrightarrow> fst (claim_wake (\<lambda>_. False) t p now lease s) = Inr False"
    by (auto simp: claim_wake_def Let_def acked_def ensure_target_def)
  moreover have "\<exists>st. r = Inr st" using ack(1) by (cases r) auto
  ultimately show ?thesis using items 1(6) by blast
qed

subsection \<open>Retries\<close>

text \<open>What identifies the rows of the table, which nothing but a new reservation changes.\<close>

abbreviation contents_of :: "'c bridge \<Rightarrow> ((string \<times> string \<times> string) \<times> string) list" where
  "contents_of b \<equiv> map (\<lambda>r. (we_key r, we_event_json r)) (ws_events (br_store b))"

lemma contents_mark [simp]: "contents_of (snd (mark_seq env target event m b)) = contents_of b"
proof -
  have keep: "map (\<lambda>r. (we_key r, we_event_json r)) (ws_events (snd (mark_delivered f t src i q mid s)))
      = map (\<lambda>r. (we_key r, we_event_json r)) (ws_events s)" for f t src i q mid s
    by (auto simp: mark_delivered_def Let_def)
  obtain x s where "mark_delivered (wv_fault env 1) target (wk_source event) (wk_id event) (cm_seq m) (cm_message_id m)
      (br_store b) = (x, s)" by force
  with keep [of "wv_fault env 1" target "wk_source event" "wk_id event" "cm_seq m" "cm_message_id m" "br_store b"]
  show ?thesis by (cases x) (simp_all add: mark_seq_def)
qed

lemma contents_deliver [simp]:
  "contents_of (snd (deliver_event bk env target room event hint reserved b)) = contents_of b"
  by (auto simp: deliver_event_def split: option.split sum.split prod.split)

lemma contents_maybe_wake [simp]:
  "contents_of (snd (maybe_wake cfg env w th room q event b)) = contents_of b"
  by (auto simp: maybe_wake_def claim_wake_def release_wake_def Let_def split: prod.split sum.split bool.split option.split)

lemma wake_agent_contents:
  assumes "check_input cfg env inp = Inr target"
    and "reserve_event (wv_fault env 0) (reservation_of env inp target) (br_store b) = (Inr reserved, s)"
  shows "contents_of (snd (wake_agent cfg bk env inp b)) = map (\<lambda>r. (we_key r, we_event_json r)) (ws_events s)"
proof -
  obtain x b1 where d: "deliver_event bk env (wi_target inp) (tg_room target) (wake_event_of env inp) (wi_wake_hint inp)
        reserved (b\<lparr>br_store := s\<rparr>) = (x, b1)" by force
  have "contents_of b1 = map (\<lambda>r. (we_key r, we_event_json r)) (ws_events s)"
    using d contents_deliver [of bk env "wi_target inp" "tg_room target" "wake_event_of env inp" "wi_wake_hint inp" reserved
        "b\<lparr>br_store := s\<rparr>"] by simp
  moreover have "snd (wake_agent cfg bk env inp b) = b1
      \<or> (\<exists>seq. snd (wake_agent cfg bk env inp b)
            = snd (maybe_wake cfg env (wi_target inp) (tg_thread_id target) (tg_room target) seq (wake_event_of env inp) b1))"
  proof (cases x)
    case (Some y)
    show ?thesis
    proof (cases y)
      case (Inr seq)
      obtain z b2 where "maybe_wake cfg env (wi_target inp) (tg_thread_id target) (tg_room target) seq (wake_event_of env inp) b1
          = (z, b2)" by force
      with Some Inr have "snd (wake_agent cfg bk env inp b) \<in> {b1, b2}"
        by (cases z) (simp_all add: wake_agent_def assms d Let_def)
      with \<open>_ = (z, b2)\<close> show ?thesis by (metis insertE singletonD snd_conv)
    qed (simp add: Some wake_agent_def assms d)
  qed (simp add: wake_agent_def assms d)
  ultimately show ?thesis by (elim disjE exE) simp_all
qed

lemma row_find_contents:
  "map (\<lambda>r. (key r, f r)) rows = map (\<lambda>r. (key r, f r)) rows' \<Longrightarrow>
   map_option f (row_find key k rows) = map_option f (row_find key k rows')"
proof (induction rows arbitrary: rows')
  case (Cons r rows)
  then show ?case by (cases rows') auto
qed simp

text \<open>A retry without a time conflicts with itself: when the caller leaves the time to the bridge, repeating the
  same call later, when its text differs by the new time, is refused as a reuse of the event's identifier,
  so a call whose wake failed cannot be retried as the documentation says.\<close>

lemma retry_without_time_conflicts:
  assumes "wi_time inp = None" "check_input cfg env inp = Inr target" "check_input cfg env' inp = Inr target"
    and "row_find we_key (wi_target inp, wi_source inp, wi_event_id inp) (ws_events (br_store b)) = None"
    and "\<not> wv_fault env 0" "\<not> wv_fault env' 0"
    and "wv_text env' (wake_event_of env' inp) \<noteq> wv_text env (wake_event_of env inp)"
  shows "fst (wake_agent cfg bk' env' inp (snd (wake_agent cfg bk env inp b))) = Some (Inl (SvcStore IdempotencyConflict))"
proof -
  let ?k = "(wi_target inp, wi_source inp, wi_event_id inp)" and ?b' = "snd (wake_agent cfg bk env inp b)"
  obtain x s where r: "reserve_event (wv_fault env 0) (reservation_of env inp target) (br_store b) = (x, s)" by force
  have "\<exists>reserved. x = Inr reserved"
    and row: "map_option we_event_json (row_find we_key ?k (ws_events s)) = Some (wv_text env (wake_event_of env inp))"
    using r assms(4,5) by (auto simp: reserve_event_def Let_def row_find_append reservation_of_def wake_event_of_def)
  then obtain reserved where x: "x = Inr reserved" by blast
  have "map_option we_event_json (row_find we_key ?k (ws_events (br_store ?b')))
      = Some (wv_text env (wake_event_of env inp))"
    using row_find_contents [OF wake_agent_contents [OF assms(2) r [unfolded x], of bk], of ?k] row by simp
  then obtain row where "row_find we_key ?k (ws_events (br_store ?b')) = Some row"
      "we_event_json row = wv_text env (wake_event_of env inp)" by auto
  then have "fst (reserve_event (wv_fault env' 0) (reservation_of env' inp target) (br_store ?b')) = Inl IdempotencyConflict"
    using assms(6,7) by (simp add: reserve_event_def Let_def) (simp add: reservation_of_def)
  then obtain s' where "reserve_event (wv_fault env' 0) (reservation_of env' inp target) (br_store ?b')
      = (Inl IdempotencyConflict, s')" by (metis prod.collapse)
  with assms(3) show ?thesis by (simp add: wake_agent_def)
qed

end
