(* ===== verification/App_Server.thy ===== *)
theory App_Server
  imports Wake_Service
begin

text \<open>
  The wake actuator (\<open>app_server.rs\<close> of \<open>cowchat-codex\<close>): JSON-RPC over one WebSocket to the Codex app-server,
  from the handshake to the started turn. What the socket yields is a list of messages; the end of the
  list is the end of the stream, and \<open>WsTimeout\<close> stands where the timeout of the pending request fires.
  \<open>write_ok k\<close> says whether the \<open>k\<close>-th write succeeds. JSON text is a parameter. Opening the socket and the
  authorization header are not modelled beyond the choice of the endpoint.
\<close>

datatype ws_message = WsText string | WsBinary string | WsClose | WsOther | WsFailed | WsTimeout

record rpc =
  rq_method :: string
  rq_id :: "int option"
  rq_params :: json

text \<open>\<open>Value::pointer\<close> on object paths, and \<open>as_i64\<close>, \<open>as_bool\<close>.\<close>

fun json_pointer :: "string list \<Rightarrow> json \<Rightarrow> json option" where
  "json_pointer [] v = Some v"
| "json_pointer (k # ks) v = Option.bind (json_get k v) (json_pointer ks)"

fun json_i64 :: "json \<Rightarrow> int option" where
  "json_i64 (JInt n) = Some n"
| "json_i64 _ = None"

fun json_bool :: "json \<Rightarrow> bool option" where
  "json_bool (JBool b) = Some b"
| "json_bool _ = None"

text \<open>The loop of \<open>send_request\<close>: messages that are not the response to \<open>rid\<close> are skipped.\<close>

fun await_response :: "(string \<Rightarrow> json option) \<Rightarrow> int \<Rightarrow> ws_message list \<Rightarrow> (app_server_error + json) \<times> ws_message list" where
  "await_response parse rid [] = (Inl AppConnectionClosed, [])"
| "await_response parse rid (m # ms) =
     (let respond = (\<lambda>t.
        case parse t of
          None \<Rightarrow> Some (Inl InvalidJson)
        | Some response \<Rightarrow>
            if Option.bind (json_get ''id'' response) json_i64 \<noteq> Some rid then None
            else if json_get ''error'' response \<noteq> None then Some (Inl Rpc)
            else (case json_get ''result'' response of Some r \<Rightarrow> Some (Inr r) | None \<Rightarrow> Some (Inl InvalidJson)))
      in case (case m of
                 WsText t \<Rightarrow> respond t
               | WsBinary bytes \<Rightarrow> if utf8_valid bytes then respond bytes else Some (Inl InvalidJson)
               | WsClose \<Rightarrow> Some (Inl AppConnectionClosed)
               | WsOther \<Rightarrow> None
               | WsFailed \<Rightarrow> Some (Inl AppWebSocket)
               | WsTimeout \<Rightarrow> Some (Inl AppTimeout)) of
           Some r \<Rightarrow> (r, ms)
         | None \<Rightarrow> await_response parse rid ms)"

text \<open>A conversation: the messages still to come and the requests written.\<close>

record conversation =
  cv_incoming :: "ws_message list"
  cv_written :: "rpc list"

definition rpc_write :: "(nat \<Rightarrow> bool) \<Rightarrow> rpc \<Rightarrow> conversation \<Rightarrow> app_server_error option \<times> conversation" where
  "rpc_write write_ok r c =
     (if write_ok (length (cv_written c)) then (None, c\<lparr>cv_written := cv_written c @ [r]\<rparr>)
      else (Some AppWebSocket, c))"

definition send_request ::
    "(string \<Rightarrow> json option) \<Rightarrow> (nat \<Rightarrow> bool) \<Rightarrow> int \<Rightarrow> string \<Rightarrow> json \<Rightarrow> conversation \<Rightarrow> (app_server_error + json) \<times> conversation" where
  "send_request parse write_ok rid method params c =
     (case rpc_write write_ok \<lparr>rq_method = method, rq_id = Some rid, rq_params = params\<rparr> c of
        (Some e, c) \<Rightarrow> (Inl e, c)
      | (None, c) \<Rightarrow> (let (r, ms) = await_response parse rid (cv_incoming c) in (r, c\<lparr>cv_incoming := ms\<rparr>)))"

definition initialize_params :: "string \<Rightarrow> json" where
  "initialize_params version = JObj
     [(''clientInfo'', JObj [(''name'', JStr ''cowchat_codex_wake''), (''title'', JStr ''Cowchat Codex Wake Bridge''),
         (''version'', JStr version)]),
      (''capabilities'', JObj [(''experimentalApi'', JBool True),
         (''optOutNotificationMethods'', json_strs [''item/agentMessage/delta''])])]"

definition turn_params :: "string \<Rightarrow> wake_reference \<Rightarrow> string \<Rightarrow> json" where
  "turn_params thread_id reference reference_json = JObj
     [(''threadId'', JStr thread_id), (''input'', JArr []),
      (''additionalContext'', JObj [(''cowchat_wake'', JObj [(''kind'', JStr ''untrusted''), (''value'', JStr reference_json)])]),
      (''responsesapiClientMetadata'', JObj [(''cowchat_wake_source'', JStr (wf_source reference)),
         (''cowchat_wake_event_id'', JStr (wf_event_id reference))])]"

text \<open>What the thread's status allows: the error, or the status.\<close>

definition thread_status :: "json \<Rightarrow> app_server_error + string" where
  "thread_status read =
     (case Option.bind (json_pointer [''thread'', ''status'', ''type''] read) json_str of
        None \<Rightarrow> Inl MissingThreadStatus
      | Some status \<Rightarrow>
          if status = ''systemError'' then Inl ThreadSystemError
          else if status = ''active''
             \<and> Option.bind (json_pointer [''thread'', ''canAcceptDirectInput''] read) json_bool = Some False
          then Inl ActiveTurnNotSteerable
          else Inr status)"

definition start_turn ::
    "(string \<Rightarrow> json option) \<Rightarrow> (nat \<Rightarrow> bool) \<Rightarrow> (wake_reference \<Rightarrow> string) \<Rightarrow> string \<Rightarrow> wake_reference \<Rightarrow> string \<Rightarrow> conversation
     \<Rightarrow> (app_server_error + codex_outcome) \<times> conversation" where
  "start_turn parse write_ok to_json thread_id reference status c =
     (case send_request parse write_ok 4 ''turn/start'' (turn_params thread_id reference (to_json reference)) c of
        (Inl e, c) \<Rightarrow> (Inl e, c)
      | (Inr turn, c) \<Rightarrow>
          (case Option.bind (json_pointer [''turn'', ''id''] turn) json_str of
             None \<Rightarrow> (Inl MissingTurnId, c)
           | Some turn_id \<Rightarrow>
               (Inr \<lparr>co_mode = if status = ''active'' then ''steered'' else ''started'', co_prior_status = status,
                    co_turn_id = turn_id\<rparr>, c)))"

definition wake_over_websocket ::
    "(string \<Rightarrow> json option) \<Rightarrow> (nat \<Rightarrow> bool) \<Rightarrow> (wake_reference \<Rightarrow> string) \<Rightarrow> string \<Rightarrow> string \<Rightarrow> wake_reference \<Rightarrow> ws_message list
     \<Rightarrow> (app_server_error + codex_outcome) \<times> conversation" where
  "wake_over_websocket parse write_ok to_json version thread_id reference incoming =
     (case send_request parse write_ok 1 ''initialize'' (initialize_params version) \<lparr>cv_incoming = incoming, cv_written = []\<rparr> of
        (Inl e, c) \<Rightarrow> (Inl e, c)
      | (Inr _, c) \<Rightarrow>
     (case rpc_write write_ok \<lparr>rq_method = ''initialized'', rq_id = None, rq_params = JObj []\<rparr> c of
        (Some e, c) \<Rightarrow> (Inl e, c)
      | (None, c) \<Rightarrow>
     (case send_request parse write_ok 2 ''thread/read''
             (JObj [(''threadId'', JStr thread_id), (''includeTurns'', JBool False)]) c of
        (Inl e, c) \<Rightarrow> (Inl e, c)
      | (Inr read, c) \<Rightarrow>
     (case thread_status read of
        Inl e \<Rightarrow> (Inl e, c)
      | Inr status \<Rightarrow>
          if status = ''notLoaded'' then
            (case send_request parse write_ok 3 ''thread/resume'' (JObj [(''threadId'', JStr thread_id)]) c of
               (Inl e, c) \<Rightarrow> (Inl e, c)
             | (Inr _, c) \<Rightarrow> start_turn parse write_ok to_json thread_id reference status c)
          else start_turn parse write_ok to_json thread_id reference status c))))"

text \<open>The transport the endpoint names, on a host with Unix sockets.\<close>

datatype transport = UnixTransport string | WsTransport string

definition endpoint_transport :: "string \<Rightarrow> app_server_error + transport" where
  "endpoint_transport endpoint =
     (if take 7 endpoint = ''unix://'' then
        (if drop 7 endpoint = [] then Inl InvalidEndpoint else Inr (UnixTransport (drop 7 endpoint)))
      else if take 5 endpoint = ''ws://'' \<or> take 6 endpoint = ''wss://'' then Inr (WsTransport endpoint)
      else Inl InvalidEndpoint)"

subsection \<open>Facts\<close>

lemma written_request:
  "send_request parse write_ok rid method params c = (r, c') \<Longrightarrow>
   map rq_method (cv_written c') = map rq_method (cv_written c) @ (if write_ok (length (cv_written c)) then [method] else [])
   \<and> (\<forall>v. r = Inr v \<longrightarrow> write_ok (length (cv_written c)))"
  by (auto simp: send_request_def rpc_write_def split: if_splits prod.splits)

lemma written_turn:
  "start_turn parse write_ok to_json th ref status c = (r, c') \<Longrightarrow>
   map rq_method (cv_written c') \<in> {map rq_method (cv_written c), map rq_method (cv_written c) @ [''turn/start'']}"
  by (auto simp: start_turn_def dest!: written_request split: prod.splits sum.splits option.splits if_splits)

text \<open>The requests that are written, in order: the script may break off anywhere, a thread is resumed only
  when it is not loaded, and a turn is started last, after the status was read.\<close>

definition scripts :: "string list set" where
  "scripts = {[], [''initialize''], [''initialize'', ''initialized''], [''initialize'', ''initialized'', ''thread/read''],
     [''initialize'', ''initialized'', ''thread/read'', ''turn/start''],
     [''initialize'', ''initialized'', ''thread/read'', ''thread/resume''],
     [''initialize'', ''initialized'', ''thread/read'', ''thread/resume'', ''turn/start'']}"

lemma wake_script:
  assumes "wake_over_websocket parse write_ok to_json version th ref ms = (r, c)"
  shows "map rq_method (cv_written c) \<in> scripts"
proof -
  obtain r1 c1 where 1: "send_request parse write_ok 1 ''initialize'' (initialize_params version)
      \<lparr>cv_incoming = ms, cv_written = []\<rparr> = (r1, c1)" by force
  obtain r2 c2 where 2: "rpc_write write_ok \<lparr>rq_method = ''initialized'', rq_id = None, rq_params = JObj []\<rparr> c1 = (r2, c2)" by force
  obtain r3 c3 where 3: "send_request parse write_ok 2 ''thread/read''
      (JObj [(''threadId'', JStr th), (''includeTurns'', JBool False)]) c2 = (r3, c3)" by force
  obtain r4 c4 where 4: "send_request parse write_ok 3 ''thread/resume'' (JObj [(''threadId'', JStr th)]) c3 = (r4, c4)" by force
  note w = written_request [OF 1] written_request [OF 3] written_request [OF 4]
  note run = assms [unfolded wake_over_websocket_def 1 prod.case]
  show ?thesis
  proof (cases r1)
    case Inl
    with run w(1) show ?thesis by (auto simp: scripts_def)
  next
    case (Inr v1)
    then have c1: "map rq_method (cv_written c1) = [''initialize'']" using w(1) by simp
    note run = run [unfolded Inr sum.case 2 prod.case]
    show ?thesis
    proof (cases r2)
      case (Some e)
      with run 2 c1 show ?thesis by (auto simp: scripts_def rpc_write_def split: if_splits)
    next
      case None
      then have c2: "map rq_method (cv_written c2) = [''initialize'', ''initialized'']"
        using 2 c1 by (auto simp: rpc_write_def split: if_splits)
      note run = run [unfolded None option.case 3 prod.case]
      show ?thesis
      proof (cases r3)
        case Inl
        with run w(2) c2 show ?thesis by (auto simp: scripts_def)
      next
        case (Inr v3)
        then have c3: "map rq_method (cv_written c3) = [''initialize'', ''initialized'', ''thread/read'']" using w(2) c2 by simp
        have c4: "r4 = Inr v \<Longrightarrow> map rq_method (cv_written c4)
            = [''initialize'', ''initialized'', ''thread/read'', ''thread/resume'']" for v using w(3) c3 by simp
        show ?thesis
          using run [unfolded Inr sum.case 4 prod.case] w(3) c3 c4
          by (auto simp: scripts_def dest!: written_turn split: sum.splits if_splits)
      qed
    qed
  qed
qed

end
