(* ===== verification/Store_Open.thy ===== *)
theory Store_Open
  imports Store_Messages Store_Votes
begin

text \<open>
  Opening the database (\<open>Store::open\<close> and \<open>Store::initialize\<close> of \<open>store.rs\<close>). The statements run one
  after another, each in a transaction of its own, so an opening that fails leaves what the statements before
  it have written; the process then ends, and the next one starts over on that database.

  The model starts where the tables and columns exist: a column added to an older table holds its
  default, so the messages of such a table have the sequence number 0.
\<close>

subsection \<open>The statements\<close>

text \<open>Rows without a number are numbered by \<open>rowid\<close> within their room.\<close>

definition numbered :: "message_row list \<Rightarrow> message_row \<Rightarrow> message_row" where
  "numbered zero m =
     (if mr_seq m = 0
      then m\<lparr>mr_seq := 1 + int (length (filter (\<lambda>z. mr_room_id z = mr_room_id m \<and> mr_rowid z < mr_rowid m) zero))\<rparr>
      else m)"

definition backfill_message_seq :: "store \<Rightarrow> store" where
  "backfill_message_seq s =
     (let zero = filter (\<lambda>m. mr_seq m = 0) (db_messages s) in
      if zero = [] then s else s\<lparr>db_messages := map (numbered zero) (db_messages s)\<rparr>)"

text \<open>\<open>INSERT OR IGNORE\<close> skips the lobby when its identifier or its name is taken.\<close>

definition seed_lobby :: "int \<Rightarrow> store \<Rightarrow> store" where
  "seed_lobby now s =
     (if ''lobby'' \<in> rr_room_id ` set (db_rooms s) \<or> ''lobby'' \<in> rr_name ` set (db_rooms s) then s
      else s\<lparr>db_rooms := db_rooms s @
             [\<lparr>rr_room_id = ''lobby'', rr_name = ''lobby'', rr_description = Some ''Default room for all agents'',
               rr_parent_id = None, rr_created_by = None, rr_created_at = now, rr_visibility = ''public'',
               rr_owner_key = None, rr_encrypted = False\<rparr>]\<rparr>)"

definition publish_lobby :: "store \<Rightarrow> store" where
  "publish_lobby s =
     s\<lparr>db_rooms := row_update rr_room_id ''lobby''
        (\<lambda>r. if rr_visibility r = ''private'' then r\<lparr>rr_visibility := ''public''\<rparr> else r) (db_rooms s)\<rparr>"

definition max_seq :: "string \<Rightarrow> store \<Rightarrow> int" where
  "max_seq room_id s =
     (case map mr_seq (filter (\<lambda>m. mr_room_id m = room_id) (db_messages s)) of
        [] \<Rightarrow> 0 | q # qs \<Rightarrow> fold max qs q)"

text \<open>The high-water mark of every room, raised to its largest stored number; the check on the column refuses a
  negative one.\<close>

definition raise_mark :: "(string \<Rightarrow> int) \<Rightarrow> string \<Rightarrow> (string \<times> int) list \<Rightarrow> (string \<times> int) list" where
  "raise_mark peak r qs =
     AList.update r (case map_of qs r of None \<Rightarrow> peak r | Some n \<Rightarrow> max n (peak r)) qs"

definition seed_sequences :: "store \<Rightarrow> db_failure + store" where
  "seed_sequences s =
     (if list_ex (\<lambda>r. max_seq (rr_room_id r) s < 0) (db_rooms s) then Inl CheckFailed
      else Inr (s\<lparr>db_sequences :=
                   fold (raise_mark (\<lambda>r. max_seq r s)) (map rr_room_id (db_rooms s)) (db_sequences s)\<rparr>))"

definition insert_or_ignore :: "'a \<Rightarrow> 'a list \<Rightarrow> 'a list" where
  "insert_or_ignore x xs = (if x \<in> set xs then xs else xs @ [x])"

abbreviation open_votes :: "store \<Rightarrow> vote_row list" where
  "open_votes s \<equiv> filter (\<lambda>v. vm_status v = ''open'') (db_votes s)"

definition admit_creators :: "store \<Rightarrow> store" where
  "admit_creators s =
     s\<lparr>db_eligible := fold insert_or_ignore (map (\<lambda>v. (vm_vote_id v, vm_created_by v)) (open_votes s))
                       (db_eligible s)\<rparr>"

definition admit_voters :: "store \<Rightarrow> store" where
  "admit_voters s =
     s\<lparr>db_eligible := fold insert_or_ignore
        (map (\<lambda>b. (br_vote_id b, br_agent_id b))
          (filter (\<lambda>b. br_vote_id b \<in> vm_vote_id ` set (open_votes s)) (db_ballots s))) (db_eligible s)\<rparr>"

abbreviation electorate :: "string \<Rightarrow> store \<Rightarrow> (string \<times> string) list" where
  "electorate vote_id s \<equiv> filter (\<lambda>(v, _). v = vote_id) (db_eligible s)"

definition count_electorates :: "store \<Rightarrow> store" where
  "count_electorates s =
     s\<lparr>db_votes := map (\<lambda>v. if vm_status v = ''open''
                          then v\<lparr>vm_eligible_voters := length (electorate (vm_vote_id v) s)\<rparr> else v) (db_votes s)\<rparr>"

definition close_if_cast :: "store \<Rightarrow> vote_row \<Rightarrow> vote_row" where
  "close_if_cast s v =
     (if vm_status v = ''open'' \<and> 0 < vm_eligible_voters v
         \<and> vm_eligible_voters v \<le> length (ballots_of (vm_vote_id v) s)
      then v\<lparr>vm_status := ''closed''\<rparr> else v)"

definition close_cast_votes :: "store \<Rightarrow> store" where
  "close_cast_votes s = s\<lparr>db_votes := map (close_if_cast s) (db_votes s)\<rparr>"

definition hydrate_grants :: "store \<Rightarrow> store" where
  "hydrate_grants s =
     s\<lparr>grants_cache := fold (\<lambda>(key, room_id) cache.
          dm_insert key (insert room_id (case map_of cache key of None \<Rightarrow> {} | Some rooms \<Rightarrow> rooms)) cache)
        (db_grants s) []\<rparr>"

subsection \<open>The sequence of statements\<close>

primrec run_statements ::
    "(store \<Rightarrow> db_failure + store) list \<Rightarrow> (nat \<Rightarrow> bool) \<Rightarrow> store \<Rightarrow> (db_failure + unit) \<times> store" where
  "run_statements [] fault s = (Inr (), s)"
| "run_statements (q # qs) fault s =
     (if fault 0 then (Inl IoFault, s)
      else case q s of
        Inl e \<Rightarrow> (Inl e, s)
      | Inr s' \<Rightarrow> run_statements qs (\<lambda>i. fault (Suc i)) s')"

definition initialize_statements :: "int \<Rightarrow> (store \<Rightarrow> db_failure + store) list" where
  "initialize_statements now =
     [\<lambda>s. Inr (backfill_message_seq s), \<lambda>s. Inr (seed_lobby now s), \<lambda>s. Inr (publish_lobby s), seed_sequences,
      \<lambda>s. Inr (admit_creators s), \<lambda>s. Inr (admit_voters s), \<lambda>s. Inr (count_electorates s),
      \<lambda>s. Inr (close_cast_votes s), \<lambda>s. Inr (hydrate_grants s)]"

definition store_open :: "(nat \<Rightarrow> bool) \<Rightarrow> int \<Rightarrow> store \<Rightarrow> (db_failure + unit) \<times> store" where
  "store_open fault now s = run_statements (initialize_statements now) fault (s\<lparr>grants_cache := []\<rparr>)"

subsection \<open>Databases that can be opened\<close>

text \<open>What every statement keeps, and what holds of a database written before messages were numbered as well as
  of one that this program has written: the tables are consistent, and either no message has a
  number or the numbers grow with the \<open>rowid\<close> in every room.\<close>

definition in_order :: "message_row list \<Rightarrow> bool" where
  "in_order ms \<longleftrightarrow> (\<forall>m \<in> set ms. 0 < mr_seq m)
     \<and> sorted_wrt (\<lambda>m m'. mr_room_id m = mr_room_id m' \<longrightarrow> mr_seq m < mr_seq m') ms"

definition openable :: "store \<Rightarrow> bool" where
  "openable s \<longleftrightarrow> keys_wf s \<and> refs_wf s
     \<and> sorted_wrt (\<lambda>m m'. mr_rowid m < mr_rowid m') (db_messages s)
     \<and> ((\<forall>m \<in> set (db_messages s). mr_seq m = 0) \<or> in_order (db_messages s))
     \<and> (\<forall>(r, n) \<in> set (db_sequences s). 0 \<le> n)"

text \<open>What the migration of the votes relies on: the creator of an open vote and everybody who has cast a ballot
  in it belong to its electorate, and the stored count is the size of the electorate.\<close>

definition electorates_wf :: "store \<Rightarrow> bool" where
  "electorates_wf s \<longleftrightarrow>
     (\<forall>v \<in> set (open_votes s). (vm_vote_id v, vm_created_by v) \<in> set (db_eligible s)
        \<and> vm_eligible_voters v = length (electorate (vm_vote_id v) s)
        \<and> (\<forall>b \<in> set (ballots_of (vm_vote_id v) s). (vm_vote_id v, br_agent_id b) \<in> set (db_eligible s)))"

definition lobby_ready :: "store \<Rightarrow> bool" where
  "lobby_ready s \<longleftrightarrow> (\<exists>r \<in> set (db_rooms s). rr_room_id r = ''lobby'')
     \<and> (\<forall>r \<in> set (db_rooms s). rr_room_id r = ''lobby'' \<longrightarrow> rr_visibility r \<noteq> ''private'')"

subsection \<open>Numbering\<close>

lemma length_filter_less:
  "(\<And>x. x \<in> set xs \<Longrightarrow> P x \<Longrightarrow> Q x) \<Longrightarrow> y \<in> set xs \<Longrightarrow> Q y \<Longrightarrow> \<not> P y \<Longrightarrow>
   length (filter P xs) < length (filter Q xs)"
proof (induction xs)
  case (Cons x xs)
  have "length (filter P zs) \<le> length (filter Q zs)" if "\<And>z. z \<in> set zs \<Longrightarrow> P z \<Longrightarrow> Q z" for zs
    using that by (induction zs) (auto simp: le_SucI)
  with Cons show ?case by (fastforce simp: le_imp_less_Suc)
qed simp

lemma numbered_sel [simp]:
  "mr_rowid (numbered zero m) = mr_rowid m" "mr_message_id (numbered zero m) = mr_message_id m"
  "mr_room_id (numbered zero m) = mr_room_id m" "mr_reply_to_message (numbered zero m) = mr_reply_to_message m"
  "mr_content (numbered zero m) = mr_content m"
  by (simp_all add: numbered_def)

lemma numbered_in_order:
  assumes "sorted_wrt (\<lambda>m m'. mr_rowid m < mr_rowid m') ms" "\<And>m. m \<in> set ms \<Longrightarrow> mr_seq m = 0"
  shows "in_order (map (numbered ms) ms)"
proof -
  have "mr_seq (numbered ms m) < mr_seq (numbered ms m')"
    if "mr_room_id m = mr_room_id m'" "mr_rowid m < mr_rowid m'" "m \<in> set ms" "m' \<in> set ms" for m m'
    using that assms(2) by (auto simp: numbered_def intro!: length_filter_less)
  then have "sorted_wrt (\<lambda>m m'. mr_room_id m = mr_room_id m' \<longrightarrow> mr_seq (numbered ms m) < mr_seq (numbered ms m')) ms"
    by (auto intro: sorted_wrt_mono_rel [OF _ assms(1)])
  moreover have "0 < mr_seq (numbered ms m)" if "m \<in> set ms" for m
    using assms(2) [OF that] by (simp add: numbered_def)
  ultimately show ?thesis by (simp add: in_order_def sorted_wrt_map)
qed

lemma rowids_below:
  "sorted_wrt (\<lambda>m m'. mr_rowid m < mr_rowid m') ms \<Longrightarrow> i < length ms \<Longrightarrow>
   length (filter (\<lambda>z. mr_rowid z < mr_rowid (ms ! i)) ms) = i"
proof (induction ms arbitrary: i)
  case (Cons m ms)
  show ?case
  proof (cases i)
    case 0
    have "filter (\<lambda>z. mr_rowid z < mr_rowid m) ms = []" using Cons.prems(1) by (auto simp: filter_empty_conv)
    then show ?thesis using 0 by simp
  next
    case (Suc j)
    then have "mr_rowid m < mr_rowid (ms ! j)" using Cons.prems by simp
    then show ?thesis using Suc Cons by simp
  qed
qed simp

text \<open>The messages of a room that had no numbers are numbered 1, 2, 3, and so on.\<close>

lemma backfill_numbers:
  assumes "sorted_wrt (\<lambda>m m'. mr_rowid m < mr_rowid m') (db_messages s)"
    and zero: "\<And>m. m \<in> set (db_messages s) \<Longrightarrow> mr_seq m = 0"
  shows "map mr_seq (room_rows r (backfill_message_seq s))
       = map (\<lambda>i. int i + 1) [0..<length (room_rows r s)]"
proof -
  let ?ms = "db_messages s" and ?rows = "room_rows r s"
  have all: "filter (\<lambda>m. mr_seq m = 0) ?ms = ?ms" using zero by simp
  have "room_rows r (backfill_message_seq s) = map (numbered ?ms) ?rows"
    using all by (auto simp: backfill_message_seq_def Let_def filter_map comp_def)
  moreover have "mr_seq (numbered ?ms (?rows ! i)) = int i + 1" if "i < length ?rows" for i
  proof -
    have m: "?rows ! i \<in> set ?rows" using that by (rule nth_mem)
    then have "filter (\<lambda>z. mr_room_id z = mr_room_id (?rows ! i) \<and> mr_rowid z < mr_rowid (?rows ! i)) ?ms
        = filter (\<lambda>z. mr_rowid z < mr_rowid (?rows ! i)) ?rows"
      by (auto intro: filter_cong)
    with m rowids_below [OF sorted_wrt_filter [OF assms(1)] that] zero show ?thesis
      by (simp add: numbered_def)
  qed
  ultimately show ?thesis by (intro nth_equalityI) simp_all
qed

subsection \<open>Every statement keeps the database consistent\<close>

lemmas openable_defs = openable_def keys_wf_def refs_wf_def room_exists_def

lemma openable_backfill: "openable s \<Longrightarrow> openable (backfill_message_seq s)"
proof -
  assume o: "openable s"
  let ?ms = "db_messages s"
  have rows: "sorted_wrt (\<lambda>m m'. mr_rowid m < mr_rowid m') ?ms" using o by (simp add: openable_def)
  show ?thesis
  proof (cases "\<forall>m \<in> set ?ms. mr_seq m = 0")
    case True
    then have "in_order (map (numbered ?ms) ?ms)" using numbered_in_order [OF rows] by simp
    moreover have "filter (\<lambda>m. mr_seq m = 0) ?ms = ?ms" using True by simp
    ultimately show ?thesis using o rows
      by (simp add: openable_defs backfill_message_seq_def Let_def sorted_wrt_map comp_def image_image)
  next
    case False
    then have "in_order ?ms" using o by (auto simp: openable_def)
    then have "filter (\<lambda>m. mr_seq m = 0) ?ms = []" by (auto simp: in_order_def filter_empty_conv)
    then show ?thesis using o by (simp add: backfill_message_seq_def)
  qed
qed

lemma openable_seed_lobby: "openable s \<Longrightarrow> openable (seed_lobby now s)"
  unfolding seed_lobby_def openable_defs by (auto split: if_splits)

lemma publish_keys:
  "map rr_room_id (db_rooms (publish_lobby s)) = map rr_room_id (db_rooms s)"
  "map rr_name (db_rooms (publish_lobby s)) = map rr_name (db_rooms s)"
  by (simp_all add: publish_lobby_def row_update_def)

lemma publish_ids: "rr_room_id ` set (db_rooms (publish_lobby s)) = rr_room_id ` set (db_rooms s)"
  using publish_keys(1) [of s] by (metis set_map)

lemma openable_publish: "openable s \<Longrightarrow> openable (publish_lobby s)"
proof -
  assume o: "openable s"
  have "(\<forall>r \<in> set (db_rooms (publish_lobby s)). \<forall>p. rr_parent_id r = Some p \<longrightarrow>
      p \<noteq> rr_room_id r \<and> p \<in> rr_room_id ` set (db_rooms s))"
    using o by (auto simp: openable_defs publish_lobby_def row_update_def split: if_splits)
  moreover have "db_messages (publish_lobby s) = db_messages s" "db_sequences (publish_lobby s) = db_sequences s"
    by (simp_all add: publish_lobby_def)
  ultimately show ?thesis using o publish_keys [of s] publish_ids [of s]
    unfolding openable_defs by (simp add: publish_lobby_def)
qed

lemma raise_mark_lookup:
  "distinct rs \<Longrightarrow> map_of (fold (raise_mark peak) rs qs) r
     = (if r \<in> set rs then Some (case map_of qs r of None \<Rightarrow> peak r | Some n \<Rightarrow> max n (peak r)) else map_of qs r)"
  by (induction rs arbitrary: qs) (auto simp: raise_mark_def)

lemma raise_mark_keys:
  "distinct (map fst qs) \<Longrightarrow> distinct (map fst (fold (raise_mark peak) rs qs))
   \<and> set (map fst (fold (raise_mark peak) rs qs)) = set (map fst qs) \<union> set rs"
proof (induction rs arbitrary: qs)
  case (Cons r rs)
  have "distinct (map fst (raise_mark peak r qs))" using Cons.prems by (simp add: raise_mark_def distinct_update)
  moreover have "set (map fst (raise_mark peak r qs)) = insert r (set (map fst qs))"
    by (auto simp: raise_mark_def update_keys split: if_splits)
  ultimately show ?case using Cons.IH [of "raise_mark peak r qs"] by simp
qed simp

lemma max_seq_bound: "m \<in> set (db_messages s) \<Longrightarrow> mr_seq m \<le> max_seq (mr_room_id m) s"
proof -
  have le: "x \<in> set (q # qs) \<Longrightarrow> x \<le> fold max qs q" for x q :: int and qs
    using Max_ge [of "set (q # qs)" x] by (simp add: Max.set_eq_fold [symmetric] del: Max_insert)
  assume "m \<in> set (db_messages s)"
  then have "mr_seq m \<in> set (map mr_seq (room_rows (mr_room_id m) s))" by simp
  then show ?thesis
    using le by (cases "map mr_seq (room_rows (mr_room_id m) s)") (auto simp: max_seq_def)
qed

lemma max_seq_attained: "max_seq r s = 0 \<or> (\<exists>m \<in> set (room_rows r s). max_seq r s = mr_seq m)"
proof (cases "map mr_seq (room_rows r s)")
  case (Cons q qs)
  then have "max_seq r s \<in> set (map mr_seq (room_rows r s))"
    using Max_in [of "set (q # qs)"] by (simp add: max_seq_def Max.set_eq_fold [symmetric] del: Max_insert)
  then show ?thesis by auto
qed (simp add: max_seq_def)

lemma openable_seed_sequences: "openable s \<Longrightarrow> seed_sequences s = Inr s' \<Longrightarrow> openable s'"
proof -
  assume o: "openable s" and s': "seed_sequences s = Inr s'"
  let ?qs = "fold (raise_mark (\<lambda>r. max_seq r s)) (map rr_room_id (db_rooms s)) (db_sequences s)"
  have pos: "0 \<le> max_seq (rr_room_id row) s" if "row \<in> set (db_rooms s)" for row
    using s' that by (fastforce simp: seed_sequences_def list_ex_iff split: if_splits)
  from s' have eq: "s' = s\<lparr>db_sequences := ?qs\<rparr>" by (simp add: seed_sequences_def split: if_splits)
  have rooms: "distinct (map rr_room_id (db_rooms s))" and old: "distinct (map fst (db_sequences s))"
    and known: "\<And>r n. (r, n) \<in> set (db_sequences s) \<Longrightarrow> r \<in> rr_room_id ` set (db_rooms s) \<and> 0 \<le> n"
    using o by (auto simp: openable_defs)
  note keys = raise_mark_keys [OF old, of "\<lambda>r. max_seq r s" "map rr_room_id (db_rooms s)"]
  have "r \<in> rr_room_id ` set (db_rooms s) \<and> 0 \<le> n" if "(r, n) \<in> set ?qs" for r n
  proof -
    have "r \<in> set (map fst ?qs)" using that by (force simp: image_iff)
    then have r: "r \<in> rr_room_id ` set (db_rooms s)" using keys known by fastforce
    moreover have "map_of ?qs r = Some n" using that keys by simp
    ultimately have "n = (case map_of (db_sequences s) r of None \<Rightarrow> max_seq r s | Some k \<Rightarrow> max k (max_seq r s))"
      using raise_mark_lookup [OF rooms, of "\<lambda>r. max_seq r s" "db_sequences s" r] by simp
    with r pos show ?thesis by (auto split: option.splits intro: max.coboundedI2)
  qed
  then show ?thesis using o keys unfolding openable_defs eq by auto
qed

lemma fold_insert_or_ignore:
  "distinct xs \<Longrightarrow> distinct (fold insert_or_ignore ys xs) \<and> set (fold insert_or_ignore ys xs) = set xs \<union> set ys"
  by (induction ys arbitrary: xs) (auto simp: insert_or_ignore_def)

lemma fold_insert_known: "set ys \<subseteq> set xs \<Longrightarrow> fold insert_or_ignore ys xs = xs"
  by (induction ys) (auto simp: insert_or_ignore_def)

lemma openable_set_eligible:
  "openable s \<Longrightarrow> (\<And>v a. (v, a) \<in> set ys \<Longrightarrow> v \<in> vm_vote_id ` set (db_votes s)) \<Longrightarrow>
   openable (s\<lparr>db_eligible := fold insert_or_ignore ys (db_eligible s)\<rparr>)"
  using fold_insert_or_ignore [of "db_eligible s" ys] unfolding openable_defs by auto

lemma openable_admit: "openable s \<Longrightarrow> openable (admit_creators s)" "openable s \<Longrightarrow> openable (admit_voters s)"
  unfolding admit_creators_def admit_voters_def by (auto intro!: openable_set_eligible)

lemma openable_map_votes:
  "openable s \<Longrightarrow> (\<And>v. vm_vote_id (f v) = vm_vote_id v) \<Longrightarrow> openable (s\<lparr>db_votes := map f (db_votes s)\<rparr>)"
  unfolding openable_defs by (simp add: comp_def image_image)

lemma openable_count: "openable s \<Longrightarrow> openable (count_electorates s)"
  unfolding count_electorates_def by (rule openable_map_votes) simp_all

lemma openable_close: "openable s \<Longrightarrow> openable (close_cast_votes s)"
  unfolding close_cast_votes_def by (rule openable_map_votes) (simp_all add: close_if_cast_def)

lemma openable_hydrate: "openable s \<Longrightarrow> openable (hydrate_grants s)"
  unfolding hydrate_grants_def openable_defs by simp

lemma run_statements_keep:
  assumes "\<And>q s s'. q \<in> set qs \<Longrightarrow> P s \<Longrightarrow> q s = Inr s' \<Longrightarrow> P s'" "P s"
  shows "P (snd (run_statements qs fault s))"
  using assms
proof (induction qs arbitrary: fault s)
  case (Cons q qs)
  have "P (snd (run_statements qs f s'))" if "q s = Inr s'" for f s'
  proof (rule Cons.IH)
    show "P s'" by (rule Cons.prems(1) [of q s]) (simp_all add: Cons.prems(2) that)
  qed (use Cons.prems(1) in auto)
  then show ?case using Cons.prems(2) by (auto split: sum.split)
qed simp

lemma openable_open: "openable s \<Longrightarrow> openable (snd (store_open fault now s))"
  unfolding store_open_def
proof (rule run_statements_keep)
  assume "openable s" then show "openable (s\<lparr>grants_cache := []\<rparr>)" unfolding openable_defs by simp
next
  fix q s s' assume "q \<in> set (initialize_statements now)" "openable s" "q s = Inr s'"
  then show "openable s'"
    by (auto simp: initialize_statements_def openable_backfill openable_seed_lobby openable_publish
        openable_seed_sequences openable_admit openable_count openable_close openable_hydrate)
qed

subsection \<open>A completed opening\<close>

lemma store_open_completed:
  assumes "store_open fault now s = (Inr (), s')"
  obtains t where
    "seed_sequences (publish_lobby (seed_lobby now (backfill_message_seq (s\<lparr>grants_cache := []\<rparr>)))) = Inr t"
    "s' = hydrate_grants (close_cast_votes (count_electorates (admit_voters (admit_creators t))))"
  using assms that by (auto simp: store_open_def initialize_statements_def split: if_splits sum.splits)

lemma store_open_no_fault:
  assumes "openable s" "\<forall>i. \<not> fault i"
  shows "fst (store_open fault now s) = Inr ()"
proof -
  let ?t = "publish_lobby (seed_lobby now (backfill_message_seq (s\<lparr>grants_cache := []\<rparr>)))"
  have o: "openable (backfill_message_seq (s\<lparr>grants_cache := []\<rparr>))"
    using assms(1) by (intro openable_backfill) (simp add: openable_defs)
  have "0 \<le> mr_seq m" if "m \<in> set (db_messages ?t)" for m
    using that o by (auto simp: publish_lobby_def seed_lobby_def openable_def in_order_def less_le split: if_splits)
  then have "0 \<le> max_seq r ?t" for r using max_seq_attained [of r ?t] by auto
  then have "\<exists>t. seed_sequences ?t = Inr t" by (auto simp: seed_sequences_def list_ex_iff not_less)
  then show ?thesis using assms(2) by (auto simp: store_open_def initialize_statements_def)
qed

lemma hydrate_fold:
  "distinct (dm_keys c) \<Longrightarrow>
   distinct (dm_keys (fold (\<lambda>(key, room_id) cache.
        dm_insert key (insert room_id (case map_of cache key of None \<Rightarrow> {} | Some rooms \<Rightarrow> rooms)) cache) gs c))
   \<and> (r \<in> (case map_of (fold (\<lambda>(key, room_id) cache.
        dm_insert key (insert room_id (case map_of cache key of None \<Rightarrow> {} | Some rooms \<Rightarrow> rooms)) cache) gs c) k of
           None \<Rightarrow> {} | Some rooms \<Rightarrow> rooms)
      \<longleftrightarrow> (k, r) \<in> set gs \<or> r \<in> (case map_of c k of None \<Rightarrow> {} | Some rooms \<Rightarrow> rooms))"
proof (induction gs arbitrary: c)
  case (Cons g gs)
  obtain key room where g: "g = (key, room)" by (cases g)
  let ?c = "dm_insert key (insert room (case map_of c key of None \<Rightarrow> {} | Some rooms \<Rightarrow> rooms)) c"
  have "r \<in> (case map_of ?c k of None \<Rightarrow> {} | Some rooms \<Rightarrow> rooms)
      \<longleftrightarrow> (k, r) = (key, room) \<or> r \<in> (case map_of c k of None \<Rightarrow> {} | Some rooms \<Rightarrow> rooms)"
    by (auto split: option.splits)
  then show ?case using Cons.IH [of ?c] Cons.prems g by auto
qed simp

lemma grants_wf_hydrate: "grants_wf (hydrate_grants s)"
  using hydrate_fold [of "[]" "db_grants s"]
  by (simp add: grants_wf_def hydrate_grants_def cached_grants_def)

lemma store_wf_openable: "store_wf s \<Longrightarrow> openable s"
proof -
  assume wf: "store_wf s"
  note D = store_wfD(6,7) [OF wf]
  have "sorted_wrt (\<lambda>m m'. mr_rowid m < mr_rowid m') (db_messages s)"
    by (rule sorted_wrt_mono_rel [OF _ D(1)]) simp
  moreover have "in_order (db_messages s)"
    using D by (auto simp: in_order_def elim: sorted_wrt_mono_rel [rotated])
  ultimately show ?thesis using wf by (auto simp: openable_def store_wf_def seq_wf_def)
qed

subsection \<open>What opening does\<close>

abbreviation unnumbered :: "message_row \<Rightarrow> message_row" where
  "unnumbered m \<equiv> m\<lparr>mr_seq := 0\<rparr>"

lemma unnumbered_backfill: "map unnumbered (db_messages (backfill_message_seq s)) = map unnumbered (db_messages s)"
  by (simp add: backfill_message_seq_def numbered_def Let_def)

lemma messages_later [simp]:
  "db_messages (seed_lobby now s) = db_messages s" "db_messages (publish_lobby s) = db_messages s"
  "db_messages (admit_creators s) = db_messages s" "db_messages (admit_voters s) = db_messages s"
  "db_messages (count_electorates s) = db_messages s" "db_messages (close_cast_votes s) = db_messages s"
  "db_messages (hydrate_grants s) = db_messages s"
  by (simp_all add: seed_lobby_def publish_lobby_def admit_creators_def admit_voters_def count_electorates_def
      close_cast_votes_def hydrate_grants_def)

lemma messages_seed_sequences: "seed_sequences s = Inr t \<Longrightarrow> db_messages t = db_messages s \<and> db_rooms t = db_rooms s"
  by (auto simp: seed_sequences_def split: if_splits)

lemma marks_later [simp]:
  "high_water (admit_creators s) = high_water s" "high_water (admit_voters s) = high_water s"
  "high_water (count_electorates s) = high_water s" "high_water (close_cast_votes s) = high_water s"
  "high_water (hydrate_grants s) = high_water s"
  by (simp_all add: high_water_def fun_eq_iff admit_creators_def admit_voters_def count_electorates_def
      close_cast_votes_def hydrate_grants_def)

lemma rooms_later [simp]:
  "db_rooms (admit_creators s) = db_rooms s" "db_rooms (admit_voters s) = db_rooms s"
  "db_rooms (count_electorates s) = db_rooms s" "db_rooms (close_cast_votes s) = db_rooms s"
  "db_rooms (hydrate_grants s) = db_rooms s"
  by (simp_all add: admit_creators_def admit_voters_def count_electorates_def close_cast_votes_def hydrate_grants_def)

lemma seed_sequences_marks:
  assumes "distinct (map rr_room_id (db_rooms s))" "seed_sequences s = Inr t"
  shows "high_water t r = (if room_exists r s
           then (case map_of (db_sequences s) r of None \<Rightarrow> max_seq r s | Some n \<Rightarrow> max n (max_seq r s))
           else high_water s r)"
  using assms raise_mark_lookup [OF assms(1), of "\<lambda>r. max_seq r s" "db_sequences s" r]
  by (auto simp: seed_sequences_def high_water_def room_exists_def split: if_splits option.splits)

lemma backfilled_in_order: "openable s \<Longrightarrow> in_order (db_messages (backfill_message_seq s))"
proof (cases "\<forall>m \<in> set (db_messages s). mr_seq m = 0")
  case True
  assume o: "openable s"
  have "filter (\<lambda>m. mr_seq m = 0) (db_messages s) = db_messages s" using True by simp
  then show ?thesis using numbered_in_order [of "db_messages s"] True o
    by (auto simp: backfill_message_seq_def openable_def Let_def in_order_def)
next
  case False
  assume "openable s"
  then have "in_order (db_messages s)" using False by (auto simp: openable_def)
  moreover from this have "filter (\<lambda>m. mr_seq m = 0) (db_messages s) = []"
    by (auto simp: in_order_def filter_empty_conv)
  ultimately show ?thesis by (simp add: backfill_message_seq_def)
qed

lemma opened_wf:
  assumes o: "openable s" and run: "store_open fault now s = (Inr (), s')"
  shows "store_wf s'"
proof -
  let ?s0 = "s\<lparr>grants_cache := []\<rparr>"
  let ?t = "publish_lobby (seed_lobby now (backfill_message_seq ?s0))"
  obtain t where t: "seed_sequences ?t = Inr t"
    "s' = hydrate_grants (close_cast_votes (count_electorates (admit_voters (admit_creators t))))"
    using store_open_completed [OF run] .
  have o0: "openable ?s0" using o by (simp add: openable_defs)
  then have ot: "openable ?t" by (intro openable_publish openable_seed_lobby openable_backfill)
  have o': "openable s'" using openable_open [OF o, of fault now] run by simp
  have ms: "db_messages s' = db_messages ?t" using t messages_seed_sequences [OF t(1)] by simp
  then have ord: "in_order (db_messages s')" using backfilled_in_order [OF o0] by simp
  have "mr_seq m \<le> high_water s' (mr_room_id m)" if "m \<in> set (db_messages s')" for m
  proof -
    have "room_exists (mr_room_id m) ?t" using that ms ot by (auto simp: openable_def refs_wf_def)
    moreover have "distinct (map rr_room_id (db_rooms ?t))" using ot by (simp add: openable_def keys_wf_def)
    ultimately have "max_seq (mr_room_id m) ?t \<le> high_water t (mr_room_id m)"
      using seed_sequences_marks [OF _ t(1), of "mr_room_id m"] by (simp split: option.splits)
    then show ?thesis using max_seq_bound [of m ?t] that ms t(2) by simp
  qed
  moreover have "sorted_wrt (\<lambda>m m'. mr_rowid m < mr_rowid m'
      \<and> (mr_room_id m = mr_room_id m' \<longrightarrow> mr_seq m < mr_seq m')) (db_messages s')"
    using o' ord by (simp add: openable_def in_order_def sorted_wrt_iff_nth_less)
  ultimately show ?thesis
    using o' ord grants_wf_hydrate t(2) by (simp add: store_wf_def seq_wf_def openable_def in_order_def)
qed

lemma lobby_opened:
  assumes run: "store_open fault now s = (Inr (), s')"
    and name: "\<And>r. r \<in> set (db_rooms s) \<Longrightarrow> rr_name r = ''lobby'' \<Longrightarrow> rr_room_id r = ''lobby''"
  shows "lobby_ready s'"
proof -
  let ?u = "seed_lobby now (backfill_message_seq (s\<lparr>grants_cache := []\<rparr>))"
  obtain t where t: "seed_sequences (publish_lobby ?u) = Inr t"
    "s' = hydrate_grants (close_cast_votes (count_electorates (admit_voters (admit_creators t))))"
    using store_open_completed [OF run] .
  have rooms: "db_rooms s' = db_rooms (publish_lobby ?u)" using t messages_seed_sequences [OF t(1)] by simp
  have "db_rooms (backfill_message_seq (s\<lparr>grants_cache := []\<rparr>)) = db_rooms s"
    by (simp add: backfill_message_seq_def Let_def)
  then have "''lobby'' \<in> rr_room_id ` set (db_rooms ?u)"
    using name by (force simp: seed_lobby_def image_iff)
  then have "''lobby'' \<in> rr_room_id ` set (db_rooms s')" using publish_ids [of ?u] rooms by simp
  moreover have "rr_visibility r \<noteq> ''private''" if "r \<in> set (db_rooms s')" "rr_room_id r = ''lobby''" for r
    using that rooms by (auto simp: publish_lobby_def row_update_def split: if_splits)
  ultimately show ?thesis by (auto simp: lobby_ready_def)
qed

lemma opened_numbers:
  assumes "openable s" "store_open fault now s = (Inr (), s')" "\<forall>m \<in> set (db_messages s). mr_seq m = 0"
  shows "map mr_seq (room_rows rid s') = map (\<lambda>i. int i + 1) [0..<length (room_rows rid s)]"
proof -
  let ?s0 = "s\<lparr>grants_cache := []\<rparr>"
  have rows: "room_rows rid s' = room_rows rid (backfill_message_seq ?s0)"
    using store_open_completed [OF assms(2)] messages_seed_sequences by (metis messages_later)
  show ?thesis using backfill_numbers [of ?s0 rid] assms(1,3) by (simp add: rows openable_def)
qed

text \<open>C23. Opening recovers: from a consistent database, whether its messages are numbered or date from before
  numbering, an opening that fails at any statement leaves a database that can be opened again, loses and
  reorders no message, and without a fault the opening completes. Once it completes, the store is consistent with
  its lobby public, whatever earlier openings have left half done, and messages without numbers have the
  numbers 1, 2, 3 and so on in every room.\<close>

theorem opening_recovers:
  assumes "openable s" and "store_open fault now s = (r, s')"
  shows "openable s' \<and> map unnumbered (db_messages s') = map unnumbered (db_messages s)
    \<and> ((\<forall>i. \<not> fault i) \<longrightarrow> r = Inr ())
    \<and> (r = Inr () \<longrightarrow> store_wf s'
         \<and> ((\<forall>row \<in> set (db_rooms s). rr_name row = ''lobby'' \<longrightarrow> rr_room_id row = ''lobby'') \<longrightarrow> lobby_ready s')
         \<and> ((\<forall>m \<in> set (db_messages s). mr_seq m = 0) \<longrightarrow>
              map mr_seq (room_rows rid s') = map (\<lambda>i. int i + 1) [0..<length (room_rows rid s)]))"
proof -
  have "map unnumbered (db_messages (snd (store_open fault now s))) = map unnumbered (db_messages s)"
    unfolding store_open_def
    by (rule run_statements_keep)
      (auto simp: initialize_statements_def unnumbered_backfill dest: messages_seed_sequences)
  then show ?thesis
    using openable_open [OF assms(1), of fault now] store_open_no_fault [OF assms(1), of fault now]
      opened_wf [OF assms(1)] lobby_opened [of fault now s s']
      opened_numbers [OF assms(1), of fault now s' rid] assms(2) by auto
qed

text \<open>A database from before messages were numbered.\<close>

definition demo_legacy_message :: "int \<Rightarrow> string \<Rightarrow> message_row" where
  "demo_legacy_message i mid =
     \<lparr>mr_rowid = i, mr_message_id = mid, mr_room_id = ''r1'', mr_agent_id = ''a1'', mr_agent_name = ''Ann'',
      mr_content = ''hi'', mr_reply_to_message = None, mr_metadata = JNull, mr_created_at = 7, mr_seq = 0\<rparr>"

definition demo_legacy :: store where
  "demo_legacy = demo_store\<lparr>db_messages := [demo_legacy_message 1 ''m1'', demo_legacy_message 4 ''m2'']\<rparr>"

theorem opening_recovers_witness:
  "fst (store_open (\<lambda>i. i = 4) 9 demo_legacy) = Inl IoFault
   \<and> store_wf (snd (store_open (\<lambda>_. False) 9 (snd (store_open (\<lambda>i. i = 4) 9 demo_legacy))))
   \<and> map mr_seq (room_rows ''r1'' (snd (store_open (\<lambda>_. False) 9 demo_legacy))) = [1, 2]"
proof -
  have legacy: "openable demo_legacy"
    using store_wf_openable [OF demo_store_wf]
    by (simp add: demo_legacy_def demo_legacy_message_def openable_defs)
  let ?half = "snd (store_open (\<lambda>i. i = 4) 9 demo_legacy)"
  have "openable ?half" using opening_recovers [OF legacy prod.collapse [symmetric]] by simp
  then have "store_wf (snd (store_open (\<lambda>_. False) 9 ?half))"
    using opening_recovers [OF _ prod.collapse [symmetric], of ?half "\<lambda>_. False" 9] by simp
  moreover have "map mr_seq (room_rows ''r1'' (snd (store_open (\<lambda>_. False) 9 demo_legacy))) = [1, 2]"
    using opening_recovers [OF legacy prod.collapse [symmetric], of "\<lambda>_. False" 9 "''r1''"]
    by (simp add: demo_legacy_def demo_legacy_message_def upt_rec)
  moreover have "fst (store_open (\<lambda>i. i = 4) 9 demo_legacy) = Inl IoFault"
    by (simp add: store_open_def initialize_statements_def seed_sequences_def)
      (simp add: demo_legacy_def demo_legacy_message_def max_seq_def publish_lobby_def seed_lobby_def
        backfill_message_seq_def numbered_def row_update_def Let_def)
  ultimately show ?thesis by simp
qed

subsection \<open>Restarting\<close>

text \<open>What a database is after the server has been stopped and started: its tables but for votes that everybody
  has cast a ballot in, which may be closed.\<close>

definition restarted :: "store \<Rightarrow> store \<Rightarrow> bool" where
  "restarted s t \<longleftrightarrow>
     (\<exists>qs vs c. t = s\<lparr>db_sequences := qs, db_votes := vs, grants_cache := c\<rparr>
        \<and> (vs = db_votes s \<or> vs = map (close_if_cast s) (db_votes s)))
     \<and> high_water t = high_water s \<and> distinct (map fst (db_sequences t))"

definition restartable :: "store \<Rightarrow> bool" where
  "restartable s \<longleftrightarrow> store_wf s \<and> electorates_wf s \<and> lobby_ready s"

lemma close_if_cast_twice [simp]: "close_if_cast s (close_if_cast s v) = close_if_cast s v"
  by (cases "close_if_cast s v = v") (auto simp: close_if_cast_def split: if_splits)

lemma restartedI:
  "t = s\<lparr>db_sequences := qs, db_votes := vs, grants_cache := c\<rparr> \<Longrightarrow>
   vs = db_votes s \<or> vs = map (close_if_cast s) (db_votes s) \<Longrightarrow> high_water t = high_water s \<Longrightarrow>
   distinct (map fst qs) \<Longrightarrow> restarted s t"
  by (auto simp: restarted_def)

lemma restartedE:
  assumes "restarted s t"
  obtains qs vs c where "t = s\<lparr>db_sequences := qs, db_votes := vs, grants_cache := c\<rparr>"
    "vs = db_votes s \<or> vs = map (close_if_cast s) (db_votes s)" "high_water t = high_water s" "distinct (map fst qs)"
proof -
  obtain qs vs c where t: "t = s\<lparr>db_sequences := qs, db_votes := vs, grants_cache := c\<rparr>"
    "vs = db_votes s \<or> vs = map (close_if_cast s) (db_votes s)" using assms unfolding restarted_def by blast
  then have "distinct (map fst qs)" "high_water t = high_water s" using assms by (auto simp: restarted_def)
  with t that show thesis by blast
qed

lemma close_if_cast_open: "vm_status (close_if_cast s v) = ''open'' \<Longrightarrow> close_if_cast s v = v"
  by (auto simp: close_if_cast_def)

text \<open>The votes that are open, in either form of the table, are open votes of the original one.\<close>

lemma restarted_open_votes:
  "restarted s t \<Longrightarrow> set (open_votes t) \<subseteq> set (open_votes s)"
  by (auto simp: restarted_def) (metis close_if_cast_open)+

lemma max_seq_below_mark: "store_wf s \<Longrightarrow> max_seq r s \<le> high_water s r"
proof -
  assume wf: "store_wf s"
  have "0 \<le> high_water s r" using wf
    by (auto simp: store_wf_def seq_wf_def high_water_def split: option.splits dest: map_of_SomeD)
  then show ?thesis using max_seq_attained [of r s] store_wfD(7) [OF wf] by auto
qed

lemma restarted_seed_sequences:
  assumes "restartable s" "restarted s t" "seed_sequences t = Inr u"
  shows "restarted s u"
proof -
  obtain qs vs c where t: "t = s\<lparr>db_sequences := qs, db_votes := vs, grants_cache := c\<rparr>"
    and vs: "vs = db_votes s \<or> vs = map (close_if_cast s) (db_votes s)"
    and marks: "high_water t = high_water s" "distinct (map fst qs)"
    using assms(2) by (rule restartedE)
  have wf: "store_wf s" using assms(1) by (simp add: restartable_def)
  have rooms: "distinct (map rr_room_id (db_rooms t))" using t store_wfD(2) [OF wf] by simp
  have mx: "max_seq r t \<le> high_water t r" "0 \<le> max_seq r t" for r
    using max_seq_below_mark [OF wf, of r] max_seq_attained [of r s] store_wfD(7) [OF wf] marks t
    by (auto simp: max_seq_def less_le)
  have "high_water u r = high_water t r" for r
    using seed_sequences_marks [OF rooms assms(3), of r] mx [of r]
    by (auto simp: high_water_def split: option.splits)
  then have "high_water u = high_water s" using marks by (simp add: fun_eq_iff)
  moreover obtain qs' where "u = t\<lparr>db_sequences := qs'\<rparr>" "distinct (map fst qs')"
    using assms(3) t marks(2) raise_mark_keys [of "db_sequences t"]
    by (auto simp: seed_sequences_def split: if_splits)
  ultimately show ?thesis using t vs by (intro restartedI [where qs = qs' and vs = vs and c = c]) simp_all
qed

lemma restarted_votes:
  assumes "restartable s" "restarted s t"
  shows "restarted s (admit_creators t)" "restarted s (admit_voters t)" "restarted s (count_electorates t)"
    "restarted s (close_cast_votes t)"
proof -
  obtain qs vs c where t: "t = s\<lparr>db_sequences := qs, db_votes := vs, grants_cache := c\<rparr>"
    and vs: "vs = db_votes s \<or> vs = map (close_if_cast s) (db_votes s)"
    and marks: "high_water t = high_water s" "distinct (map fst qs)"
    using assms(2) by (rule restartedE)
  have el: "electorates_wf s" using assms(1) by (simp add: restartable_def)
  note still = restarted_open_votes [OF assms(2)]
  have "set (map (\<lambda>v. (vm_vote_id v, vm_created_by v)) (open_votes t)) \<subseteq> set (db_eligible t)"
    using still el t by (auto simp: electorates_wf_def)
  then show "restarted s (admit_creators t)"
    using assms(2) by (simp add: admit_creators_def fold_insert_known)
  have "set (map (\<lambda>b. (br_vote_id b, br_agent_id b))
      (filter (\<lambda>b. br_vote_id b \<in> vm_vote_id ` set (open_votes t)) (db_ballots t))) \<subseteq> set (db_eligible t)"
    using still el t by (fastforce simp: electorates_wf_def)
  then show "restarted s (admit_voters t)"
    using assms(2) by (simp add: admit_voters_def fold_insert_known)
  have "v\<lparr>vm_eligible_voters := length (electorate (vm_vote_id v) t)\<rparr> = v" if "v \<in> set (open_votes t)" for v
  proof -
    have "vm_eligible_voters v = length (electorate (vm_vote_id v) t)"
      using that still el t by (auto simp: electorates_wf_def)
    then show ?thesis by simp
  qed
  then have "map (\<lambda>v. if vm_status v = ''open''
      then v\<lparr>vm_eligible_voters := length (electorate (vm_vote_id v) t)\<rparr> else v) (db_votes t) = db_votes t"
    by (auto intro!: map_idI)
  then have "count_electorates t = t" by (simp add: count_electorates_def)
  then show "restarted s (count_electorates t)" using assms(2) by simp
  have "close_if_cast t = close_if_cast s" using t by (simp add: close_if_cast_def fun_eq_iff)
  then have votes: "map (close_if_cast t) (db_votes t) = map (close_if_cast s) (db_votes s)"
    using t vs by auto
  have "high_water (close_cast_votes t) = high_water s" using marks(1) by simp
  then show "restarted s (close_cast_votes t)"
    using t marks(2) votes
    by (intro restartedI [where qs = qs and vs = "map (close_if_cast s) (db_votes s)" and c = c])
      (simp_all add: close_cast_votes_def)
qed

lemma restarted_first_statements:
  assumes "restartable s" "restarted s t"
  shows "backfill_message_seq t = t" "seed_lobby now t = t" "publish_lobby t = t"
proof -
  obtain qs vs c where t: "t = s\<lparr>db_sequences := qs, db_votes := vs, grants_cache := c\<rparr>"
    using assms(2) by (rule restartedE)
  have "filter (\<lambda>m. mr_seq m = 0) (db_messages t) = []"
    using assms(1) store_wfD(7) [of s] t by (fastforce simp: restartable_def filter_empty_conv)
  then show "backfill_message_seq t = t" by (simp add: backfill_message_seq_def)
  show "seed_lobby now t = t"
    using assms(1) t by (force simp: restartable_def lobby_ready_def seed_lobby_def)
  have "db_rooms (publish_lobby t) = db_rooms t"
    using assms(1) t by (auto simp: restartable_def lobby_ready_def publish_lobby_def row_update_def intro!: map_idI)
  then show "publish_lobby t = t" by (simp add: publish_lobby_def)
qed

lemma restarted_cache:
  assumes "restarted s t"
  shows "restarted s (t\<lparr>grants_cache := c\<rparr>)"
  using assms
proof (rule restartedE)
  fix qs vs c' assume "t = s\<lparr>db_sequences := qs, db_votes := vs, grants_cache := c'\<rparr>"
    and "vs = db_votes s \<or> vs = map (close_if_cast s) (db_votes s)" "high_water t = high_water s" "distinct (map fst qs)"
  then show ?thesis
    by (intro restartedI [where qs = qs and vs = vs and c = c]) (simp_all add: high_water_def fun_eq_iff)
qed

lemma restarted_open: "restartable s \<Longrightarrow> restarted s t \<Longrightarrow> restarted s (snd (store_open fault now t))"
  unfolding store_open_def
proof (rule run_statements_keep)
  fix q t t' assume "q \<in> set (initialize_statements now)" "restarted s t" "q t = Inr t'" "restartable s"
  then show "restarted s t'"
    by (auto simp: initialize_statements_def restarted_first_statements restarted_votes hydrate_grants_def restarted_cache
        intro: restarted_seed_sequences)
qed (rule restarted_cache)

lemma restarted_refl: "restartable s \<Longrightarrow> restarted s s"
  using store_wfD(17) [of s]
  by (intro restartedI [where qs = "db_sequences s" and vs = "db_votes s" and c = "grants_cache s"])
    (simp_all add: restartable_def)

text \<open>The attempts to open a database, one after another.\<close>

definition open_attempts :: "((nat \<Rightarrow> bool) \<times> int) list \<Rightarrow> store \<Rightarrow> store" where
  "open_attempts attempts s = fold (\<lambda>(fault, now) t. snd (store_open fault now t)) attempts s"

lemma open_attempts_keep:
  "openable s \<Longrightarrow> openable (open_attempts attempts s)"
  "restartable s0 \<Longrightarrow> restarted s0 s \<Longrightarrow> restarted s0 (open_attempts attempts s)"
  unfolding open_attempts_def
  by (induction attempts arbitrary: s) (auto intro: openable_open restarted_open)

lemma restarted_completed:
  assumes "restartable s" "restarted s t" "store_open fault now t = (Inr (), s')"
  shows "db_votes s' = map (close_if_cast s) (db_votes s)"
proof -
  obtain u where u: "seed_sequences (publish_lobby (seed_lobby now (backfill_message_seq (t\<lparr>grants_cache := []\<rparr>)))) = Inr u"
    "s' = hydrate_grants (close_cast_votes (count_electorates (admit_voters (admit_creators u))))"
    using store_open_completed [OF assms(3)] .
  have "restarted s (t\<lparr>grants_cache := []\<rparr>)" by (rule restarted_cache [OF assms(2)])
  with u(1) assms(1) have "restarted s u"
    by (auto simp: restarted_first_statements intro: restarted_seed_sequences)
  then have "restarted s (count_electorates (admit_voters (admit_creators u)))"
    using assms(1) by (intro restarted_votes)
  then show ?thesis
  proof (rule restartedE)
    let ?v = "count_electorates (admit_voters (admit_creators u))"
    fix qs vs c assume v: "?v = s\<lparr>db_sequences := qs, db_votes := vs, grants_cache := c\<rparr>"
      "vs = db_votes s \<or> vs = map (close_if_cast s) (db_votes s)"
    have "close_if_cast ?v = close_if_cast s" unfolding v(1) by (simp add: close_if_cast_def fun_eq_iff)
    then show ?thesis using u(2) v by (auto simp: close_cast_votes_def hydrate_grants_def)
  qed
qed


subsection \<open>Restartable databases\<close>

text \<open>A new database is restartable once opened, and the two writes to votes keep it so: the handler opens a vote
  only for members of the room, of which the creator is one, and takes ballots only from the electorate.\<close>

lemma fresh_restartable:
  assumes "store_open fault now store_empty = (Inr (), s')"
  shows "restartable s' \<and> map rr_room_id (db_rooms s') = [''lobby'']
    \<and> db_votes s' = [] \<and> db_eligible s' = [] \<and> db_ballots s' = []"
proof -
  have "store_wf s'" by (rule opened_wf [OF store_wf_openable [OF store_empty_wf] assms])
  moreover have "lobby_ready s'" by (rule lobby_opened [OF assms]) simp
  moreover have "db_rooms s' = db_rooms (publish_lobby (seed_lobby now store_empty))
      \<and> db_votes s' = [] \<and> db_eligible s' = [] \<and> db_ballots s' = []"
    using assms by (rule store_open_completed)
      (auto simp: seed_sequences_def backfill_message_seq_def admit_creators_def admit_voters_def count_electorates_def
        close_cast_votes_def hydrate_grants_def seed_lobby_def publish_lobby_def split: if_splits)
  ultimately show ?thesis
    by (simp add: restartable_def electorates_wf_def publish_lobby_def seed_lobby_def row_update_def)
qed

lemma electorates_create_vote:
  assumes wf: "store_wf s" "electorates_wf s" and creator: "cb \<in> set el"
  shows "electorates_wf (snd (create_vote fault now vid rid title d opts cb ca el s))"
proof (cases "fault \<or> vid \<in> vm_vote_id ` set (db_votes s) \<or> \<not> distinct el")
  case False
  have new: "filter (\<lambda>(v, _). v = vid) (db_eligible s) = []" "ballots_of vid s = []"
    using False store_wfD(20,21) [OF wf(1)] by (force simp: filter_empty_conv)+
  have "filter (\<lambda>(v, _). v = w) (map (\<lambda>a. (vid, a)) el) = (if w = vid then map (\<lambda>a. (vid, a)) el else [])" for w
    by (induction el) auto
  then show ?thesis using False wf(2) creator new
    by (auto simp: create_vote_def electorates_wf_def filter_empty_conv)
qed (use wf in \<open>auto simp: create_vote_def\<close>)

lemma electorates_cast_ballot:
  assumes "electorates_wf s" "(vid, aid) \<in> set (db_eligible s)"
  shows "electorates_wf (snd (cast_ballot fr fw now vid aid an opt s))"
  using assms by (auto simp: cast_ballot_def electorates_wf_def split: option.split)

lemma restartable_create_vote:
  assumes "restartable s" "cb \<in> set el"
  shows "restartable (snd (create_vote fault now vid rid title d opts cb ca el s))"
proof -
  have "db_rooms (snd (create_vote fault now vid rid title d opts cb ca el s)) = db_rooms s"
    by (simp add: create_vote_def)
  then show ?thesis using assms
    by (simp add: restartable_def lobby_ready_def wf_create_vote electorates_create_vote)
qed

lemma restartable_cast_ballot:
  assumes "restartable s" "(vid, aid) \<in> set (db_eligible s)"
  shows "restartable (snd (cast_ballot fr fw now vid aid an opt s))"
proof -
  have "db_rooms (snd (cast_ballot fr fw now vid aid an opt s)) = db_rooms s"
    by (simp add: cast_ballot_def split: option.split)
  then show ?thesis using assms
    by (simp add: restartable_def lobby_ready_def wf_cast_ballot electorates_cast_ballot)
qed

text \<open>A server that has been running: a new database with one vote, in which its only voter has voted, when
  closing the vote failed.\<close>

definition demo_voted :: store where
  "demo_voted =
     snd (cast_ballot False False 6 ''v1'' ''a1'' ''Ann'' 0
       (snd (create_vote False 5 ''v1'' ''lobby'' ''lunch'' None [''yes'', ''no''] ''a1'' None [''a1'']
         (snd (store_open (\<lambda>_. False) 1 store_empty)))))"

lemma demo_voted:
  "restartable demo_voted"
  "map (\<lambda>v. (vm_vote_id v, vm_status v)) (db_votes demo_voted) = [(''v1'', ''open'')]"
  "map (\<lambda>v. vm_status (close_if_cast demo_voted v)) (db_votes demo_voted) = [''closed'']"
proof -
  let ?s = "snd (store_open (\<lambda>_. False) 1 store_empty)"
  let ?v = "snd (create_vote False 5 ''v1'' ''lobby'' ''lunch'' None [''yes'', ''no''] ''a1'' None [''a1''] ?s)"
  have "store_open (\<lambda>_. False) 1 store_empty = (Inr (), ?s)"
    using store_open_no_fault [OF store_wf_openable [OF store_empty_wf], of "\<lambda>_. False" 1] by (simp add: prod_eq_iff)
  note fresh = fresh_restartable [OF this]
  then have v: "restartable ?v" by (intro restartable_create_vote) simp_all
  have "(''v1'', ''a1'') \<in> set (db_eligible ?v)" using fresh by (simp add: create_vote_def)
  with v show "restartable demo_voted" unfolding demo_voted_def by (rule restartable_cast_ballot)
  show "map (\<lambda>v. (vm_vote_id v, vm_status v)) (db_votes demo_voted) = [(''v1'', ''open'')]"
    "map (\<lambda>v. vm_status (close_if_cast demo_voted v)) (db_votes demo_voted) = [''closed'']"
    using fresh by (simp_all add: demo_voted_def create_vote_def cast_ballot_def close_if_cast_def)
qed


subsection \<open>Sequence numbers over restarts\<close>

text \<open>Opening never lowers a high-water mark, whatever the database holds.\<close>

lemma raise_marks_high_water:
  "\<forall>r \<in> set rs. 0 \<le> peak r \<Longrightarrow>
   (case map_of qs k of None \<Rightarrow> 0 | Some n \<Rightarrow> n)
     \<le> (case map_of (fold (raise_mark peak) rs qs) k of None \<Rightarrow> 0 | Some n \<Rightarrow> n)"
proof (induction rs arbitrary: qs)
  case (Cons r rs)
  have "(case map_of qs k of None \<Rightarrow> 0 | Some n \<Rightarrow> n)
      \<le> (case map_of (raise_mark peak r qs) k of None \<Rightarrow> 0 | Some n \<Rightarrow> n)"
    using Cons.prems by (auto simp: raise_mark_def split: option.splits)
  also have "\<dots> \<le> (case map_of (fold (raise_mark peak) rs (raise_mark peak r qs)) k of None \<Rightarrow> 0 | Some n \<Rightarrow> n)"
    by (rule Cons.IH) (use Cons.prems in simp)
  finally show ?case by simp
qed simp

lemma store_open_high_water: "high_water s r \<le> high_water (snd (store_open fault now s)) r"
  unfolding store_open_def
proof (rule run_statements_keep)
  fix q t t' assume q: "q \<in> set (initialize_statements now)" "high_water s r \<le> high_water t r" "q t = Inr t'"
  have "high_water t r \<le> high_water t' r" if "seed_sequences t = Inr t'"
    using raise_marks_high_water [of "map rr_room_id (db_rooms t)" "\<lambda>r. max_seq r t" "db_sequences t" r] that
    by (auto simp: seed_sequences_def high_water_def list_ex_iff not_less split: if_splits)
  moreover have "high_water (backfill_message_seq t) r = high_water t r" "high_water (seed_lobby now t) r = high_water t r"
    "high_water (publish_lobby t) r = high_water t r"
    by (simp_all add: high_water_def backfill_message_seq_def seed_lobby_def publish_lobby_def Let_def)
  ultimately show "high_water s r \<le> high_water t' r"
    using q by (auto simp: initialize_statements_def)
qed (simp add: high_water_def)

text \<open>Operations on the messages, for statements over histories of the store.\<close>

datatype message_op =
    Op_Insert int string string string string string "string option" json
  | Op_Purge int string int
  | Op_Open "nat \<Rightarrow> bool" int

fun message_step :: "message_op \<Rightarrow> store \<Rightarrow> store" where
  "message_step (Op_Insert now mid rid aid an c rp md) s = snd (insert_message False now mid rid aid an c rp md s)"
| "message_step (Op_Purge now tier age) s = snd (purge_messages_by_tier False now tier age s)"
| "message_step (Op_Open fault now) s = snd (store_open fault now s)"

lemma message_steps_high_water: "high_water s r \<le> high_water (fold message_step ops s) r"
proof (induction ops arbitrary: s)
  case (Cons op ops)
  have "high_water s r \<le> high_water (message_step op s) r"
    by (cases op) (simp_all add: insert_message_high_water store_open_high_water)
  then show ?case using Cons.IH [of "message_step op s"] by simp
qed simp

text \<open>C22. A sequence number is never given out twice in a room, whatever is inserted, refused or purged
  between two insertions and however often the server is restarted, with openings that fail half way: the
  later message has the larger number, even when retention has removed every message in between. The number is the successor of the durable high-water mark, which a
  refused insertion does not move.\<close>

theorem sequence_never_reused:
  assumes "fst (insert_message False t1 m1 rid a1 n1 c1 p1 d1 s) = Inr x"
    and "s' = fold message_step ops (snd (insert_message False t1 m1 rid a1 n1 c1 p1 d1 s))"
    and "fst (insert_message False t2 m2 rid a2 n2 c2 p2 d2 s') = Inr y"
  shows "cm_seq x < cm_seq y \<and> cm_seq x = high_water s rid + 1"
  using insert_message_stored(1) [OF assms(1)] insert_message_stored(1) [OF assms(3)]
    message_steps_high_water [of "snd (insert_message False t1 m1 rid a1 n1 c1 p1 d1 s)" rid ops] assms(1,2)
  by (simp add: insert_message_high_water)

theorem sequence_never_reused_witness:
  "\<exists>s' y. s' = fold message_step [Op_Purge 100 ''free'' 10, Op_Open (\<lambda>i. i = 2) 100]
        (snd (insert_message False 7 ''m1'' ''r1'' ''a1'' ''Ann'' ''hi'' None (JObj []) demo_store))
     \<and> fst (insert_message False 101 ''m2'' ''r1'' ''a1'' ''Ann'' ''again'' None (JObj []) s') = Inr y
     \<and> 1 < cm_seq y"
proof -
  let ?s' = "fold message_step [Op_Purge 100 ''free'' 10, Op_Open (\<lambda>i. i = 2) 100]
        (snd (insert_message False 7 ''m1'' ''r1'' ''a1'' ''Ann'' ''hi'' None (JObj []) demo_store))"
  have "\<exists>y. fst (insert_message False 101 ''m2'' ''r1'' ''a1'' ''Ann'' ''again'' None (JObj []) ?s') = Inr y"
    by (simp add: store_open_def initialize_statements_def seed_lobby_def backfill_message_seq_def demo_insert purge_messages_by_tier_def delete_messages_where_def room_exists_def room_tier_def
        room_find_def demo_store_def insert_message_def ensure_sequence_def insert_message_row_def
        high_water_def Let_def)
  then obtain y where y: "fst (insert_message False 101 ''m2'' ''r1'' ''a1'' ''Ann'' ''again'' None (JObj []) ?s') = Inr y" ..
  have "\<exists>x. fst (insert_message False 7 ''m1'' ''r1'' ''a1'' ''Ann'' ''hi'' None (JObj []) demo_store) = Inr x
      \<and> cm_seq x = 1" by (simp add: demo_insert)
  then show ?thesis using sequence_never_reused [OF _ refl y] y by auto
qed

end
