(* ===== verification/Restart.thy ===== *)
theory Restart
  imports Store_Open System
begin

text \<open>
  Restarts of the server: opening the database gives a state in which the server may start, and the handler that
  opens a vote writes the electorate that the next opening relies on.
\<close>

lemma member_listed: "is_agent_in_room a r b \<Longrightarrow> a \<in> set (get_room_members r b)"
  by (auto simp: is_agent_in_room_def get_room_members_def list_ex_iff split: option.splits)

lemma open_vote_restartable:
  assumes "restartable (sv_store sv)"
  shows "restartable (sv_store (snd (open_vote ev c req payload sv)))"
proof -
  have "restartable s"
    if "is_agent_in_room (ca_agent_id c) r (sv_broker sv)"
      and "create_vote f now vid r t d os (ca_agent_id c) ca (get_room_members r (sv_broker sv)) (sv_store sv) = (x, s)"
    for f now vid r t d os ca x s
    using restartable_create_vote [OF assms member_listed [OF that(1)]] that(2) by (metis snd_conv)
  then show ?thesis
    using assms by (auto simp: open_vote_def reject_def Let_def split: option.split sum.split prod.split)
qed

text \<open>Whatever the earlier openings left, the server that starts once one completes is a reachable system.\<close>

lemma opened_server_reachable:
  assumes "openable s" "store_open fault now (open_attempts attempts s) = (Inr (), s')"
  shows "reachable cfg keyless \<lparr>sy_server = server_new f fb fe s', sy_sessions = []\<rparr>"
  by (rule reachable_start) (rule opened_wf [OF open_attempts_keep(1) [OF assms(1)] assms(2)])

text \<open>The votes that the server loads are the open votes of the database it was stopped with, without those that
  everybody had voted in.\<close>

lemma restart_loads_open_votes:
  assumes "restartable s" "store_open fault now (open_attempts attempts s) = (Inr (), s')"
  shows "set (dm_keys (active_votes (vote_manager_new False fb fe s')))
       = vm_vote_id ` {v \<in> set (open_votes s). close_if_cast s v = v}"
proof -
  have key: "set (dm_keys (dm_insert k x m)) = insert k (set (dm_keys m))" for k :: string and x :: active_vote and m
    by (simp add: set_eq_iff dm_keys_lookup del: set_map)
  have keys: "set (dm_keys (fold (\<lambda>v m. dm_insert (vm_vote_id v) (g v) m) vs m)) = set (dm_keys m) \<union> vm_vote_id ` set vs"
    for g :: "vote_row \<Rightarrow> active_vote" and vs m
    by (induction vs arbitrary: m) (simp_all only: fold.simps comp_apply key, auto)
  have re: "restarted s (open_attempts attempts s)"
    by (rule open_attempts_keep(2) [OF assms(1) restarted_refl [OF assms(1)]])
  have "db_votes s' = map (close_if_cast s) (db_votes s)"
    by (rule restarted_completed [OF assms(1) re assms(2)])
  moreover have "vm_status (close_if_cast s v) = ''open'' \<longleftrightarrow> vm_status v = ''open'' \<and> close_if_cast s v = v" for v
    using close_if_cast_open [of s v] by auto
  ultimately have "vm_vote_id ` set (open_votes s') = vm_vote_id ` {v \<in> set (open_votes s). close_if_cast s v = v}"
    by (force simp: image_iff)
  moreover have "set (dm_keys (active_votes (vote_manager_new False fb fe s'))) = vm_vote_id ` set (open_votes s')"
    by (simp add: vote_manager_new_def list_open_votes_def keys del: set_map)
  ultimately show ?thesis by simp
qed

end
