(* ===== verification/Spec2Isabelle.thy ===== *)
theory Spec2Isabelle
  imports Sealed Web_Safety Isolation Client_Api Follow_Safety Shell Lantern Wake_Inbox App_Server Restart
begin

text \<open>
  Cowchat: a verification development for the crates under \<open>src/crates\<close>.

  Cowchat is a chat server for agents. Agents register over a socket, join rooms, exchange messages,
  votes, tasks and turns; the server keeps everything in a SQLite database, stashes what a
  disconnected agent misses, and posts messages to webhooks. A client library, a command line and a bridge that
  wakes Codex agents talk to it. This library models those programs as functions on explicit states and
  proves the properties their users rely on.

  \<^bold>\<open>Conventions.\<close> A Rust function that changes shared state is a function from state to result and state;
  a \<open>Result\<close> is a sum with the error on the left, an \<open>Option\<close> an option, an enum a datatype, a struct a
  record with prefixed fields. Strings are the lists of their UTF-8 bytes. A \<open>DashMap\<close>, \<open>HashMap\<close> or
  table is an association list with distinct keys, in an order that nothing may depend on. Whatever the
  code asks of its environment is an argument: the clock, fresh UUIDs (\<open>ev_uid\<close>), and whether the \<open>k\<close>-th
  database or network access of an operation fails (\<open>fault\<close>, \<open>ev_fault\<close>). No theorem assumes that
  UUIDs differ or that accesses succeed unless its statement says so.

  \<^bold>\<open>The wire and the data\<close> (\<open>cowchat-core\<close>). \<open>Core_Frames\<close>: JSON values, error codes (\<open>error.rs\<close>), frame types and
  frames (\<open>protocol.rs\<close>). \<open>Core_Models\<close>: the structs of \<open>models.rs\<close> and the JSON the server sends. \<open>Serde\<close> and
  \<open>Payloads\<close>: what serde's derived code writes and reads of each command payload, with a round trip for
  each. \<open>Crypto\<close>: the ciphertext blobs of \<open>crypto.rs\<close>. \<open>Framing\<close>: \<open>read_frame_line\<close> of server and client.

  \<^bold>\<open>The store\<close> (\<open>store.rs\<close>). \<open>Store_Base\<close>: the tables with their constraints as one record, and \<open>store_wf\<close>, what
  the schema guarantees. \<open>Store_Rooms\<close>, \<open>Store_Messages\<close>, \<open>Store_Keys\<close>, \<open>Store_Votes\<close>, \<open>Store_Webhooks\<close>: the operations,
  statement by statement, cascades and triggers included. \<open>Store_Open\<close>: opening a database, with the numbering of old
  messages and what a failure half way leaves; \<open>Restart\<close>: the server that starts on it. \<open>Access\<close>: the access rule of \<open>connection.rs\<close>. \<open>Seq_Log\<close>: the
  locale of a reader that pages through a numbered log; \<open>Store_Messages\<close> interprets it (\<open>room_seq\<close>).

  \<^bold>\<open>The server's managers.\<close> \<open>Broker\<close> (\<open>broker.rs\<close>): membership, delivery, turns, tombstones; locale \<open>turn_ring\<close>.
  \<open>Expiry_Cache\<close>: the bounded memory of destroyed rooms, a locale that \<open>Broker\<close> and \<open>Reconnect\<close> interpret.
  \<open>Reconnect\<close> (\<open>reconnect.rs\<close>): stashes and reclaim leases. \<open>Rate_Limit\<close> (\<open>rate_limit.rs\<close>): windows as a locale
  \<open>window_limiter\<close> with two interpretations. \<open>Voting\<close> (\<open>voting.rs\<close>), \<open>Tasks\<close> (\<open>tasks.rs\<close>, locale
  \<open>write_through\<close>), \<open>Webhooks\<close> (\<open>webhooks.rs\<close>).

  \<^bold>\<open>The handlers\<close> (\<open>handler.rs\<close>). \<open>Server\<close>: the state they share. \<open>Handle_Rooms\<close>, \<open>Handle_Messages\<close>,
  \<open>Handle_Votes\<close>, \<open>Handle_Hooks\<close>: one function per command with all its error branches. \<open>Dispatch\<close>: \<open>handle_frame\<close>.
  \<open>Handler_Safety\<close>, \<open>Handler_Laws\<close>, \<open>Confinement\<close>, \<open>Sealed\<close>: each handler keeps the state sound, sends events about a room
  only to connections that may access it, replies with the right type, and stores only ciphertext in
  encrypted rooms.

  \<^bold>\<open>The server\<close> (\<open>server.rs\<close>, \<open>web.rs\<close>). \<open>Sessions\<close>: a connection from registration to cleanup. \<open>System\<close>: all connections,
  timers and workers as the step relation \<open>system_step\<close>. \<open>System_Safety\<close>, \<open>Session_Safety\<close>, \<open>Isolation\<close>:
  invariants of the reachable states by rule induction. \<open>Scenario\<close>: a run that instantiates them. \<open>Web\<close>,
  \<open>Web_Safety\<close>: the HTTP endpoints.

  \<^bold>\<open>The client\<close> (\<open>cowchat-client\<close>). \<open>Client\<close>: reader task, requests, encryption, waiting. \<open>Client_Api\<close>: every request method,
  and that the server serves it as it was made. \<open>Client_Safety\<close>: no request is left hanging, waiting
  returns the oldest unread message, encrypted messages come back.

  \<^bold>\<open>The command line\<close> (\<open>cowchat-cli\<close>). \<open>Cli\<close>: settings, numbers, cursor files, room references. \<open>Follow\<close> and
  \<open>Follow_Safety\<close>: waiting, as a state machine over the answers of the server, and what it prints. \<open>Shell\<close>: rendering and
  the interactive shell. \<open>Lantern\<close> (\<open>lantern.rs\<close>): structured-reasoning envelopes and their threads.

  \<^bold>\<open>The Codex bridge\<close> (\<open>cowchat-codex\<close>). \<open>Wake_Store\<close> (\<open>store.rs\<close>), \<open>Wake_Service\<close> (\<open>service.rs\<close>, \<open>config.rs\<close>),
  \<open>App_Server\<close> (\<open>app_server.rs\<close>). \<open>Wake_Safety\<close>: locale \<open>chat_log\<close> of a chat in which events can be found again,
  interpreted on the Cowchat backend; an event is posted once. \<open>Wake_Inbox\<close>: wakes obey the policy, and
  the inbox is read in order.

  \<^bold>\<open>How the parts are composed.\<close> \<open>Client_Api.client_request_served\<close> leads from a client method to a handler;
  \<open>System\<close> runs the handlers of all connections on the store and the managers; the store's log of a
  room, as the interface \<open>seq_log\<close>, is what webhooks, the waiting client, the following command line and the wake inbox
  read; their properties rest on the same paging lemmas.

  \<^bold>\<open>Bounds and fuel.\<close> Loops are structural or have a measure, except where the code loops over answers of
  its environment: these are lists of answers (\<open>follow_run\<close>, \<open>wait_loop\<close>, \<open>wait_live\<close>), and no result
  means that the list ended before the loop did. \<open>Seq_Log.drain\<close> has fuel, which \<open>drain_all\<close> shows to suffice
  as soon as it exceeds the number of messages. The client's backlog loop is total by a measure on the
  distance to the tip. Sequence numbers, timestamps and counters are unbounded integers; the ranges of Rust's
  types appear where the code parses or decodes numbers.

  \<^bold>\<open>Atomicity.\<close> A handler runs without interleaving except where the code itself re-checks after a concurrent
  destruction: there it is split in two steps of \<open>system_step\<close>. The turn update of the broker, which the
  code runs without the lifecycle lock, is modelled in both forms (\<open>Broker.turn_update_race\<close>).

  \<^bold>\<open>Parameters.\<close> Code outside the repository is an argument with named, documented laws: HKDF,
  ChaCha20-Poly1305, Base64, HMAC, URL parsing, DNS, HTTP, chrono's RFC 3339, serde\_json's text form. Handlers are
  stated for every decoder of payloads; \<open>Client_Api.serde_decoder\<close> is the one serde derives.

  \<^bold>\<open>Not modelled.\<close> Sockets, TLS, listeners, signals, the instance lock, file permissions and random generators
  (\<open>main.rs\<close> and \<open>auth.rs\<close> of the server: pure I/O); the columns that migrations add to old tables and the opening of files in
  \<open>store.rs\<close>; the bridge between a WebSocket and \<open>connection_loop\<close>, CORS and the embedded web pages
  of \<open>web.rs\<close>; argument parsing, tables and prompts of the command line, and its subcommands that print the
  answer of one request; the logarithmic loss of \<open>lantern.rs\<close> (floating point); the
  MCP tool registration of \<open>cowchat-codex\<close> (generated by macros); the human-readable text of errors; and the
  decoding of most responses by the client, which unwraps them.
\<close>

end
